(* ===== verification/Prelude.thy ===== *)
theory Prelude
  imports Main "HOL-Library.AList" "HOL-Library.Char_ord" "HOL-Library.List_Lexorder" "HOL-Library.Multiset"
begin

text \<open>
  Shared vocabulary of the development: collections of facts, Go strings (byte lists, ASCII
  content), decimal rendering of integers, Go maps as association lists in iteration order,
  and sorting as a canonical form of multisets.
\<close>

named_theorems f64_intro \<open>introduction rules for non-negative float64 results\<close>
named_theorems store_simps \<open>getters after setters\<close>

type_synonym gostring = string

subsection \<open>Lists\<close>

lemma sort_eq_iff_mset: "sort xs = sort ys \<longleftrightarrow> mset xs = mset ys" for xs ys :: "'a::linorder list"
  by (metis mset_sort properties_for_sort sorted_sort)

lemma map_eq_mset_inj:
  assumes "inj_on f (set xs \<union> set ys)"
  shows "mset (map f xs) = mset (map f ys) \<longleftrightarrow> mset xs = mset ys"
proof
  assume "mset (map f xs) = mset (map f ys)"
  then have "image_mset f (mset xs) = image_mset f (mset ys)" by simp
  then have "image_mset (the_inv_into (set xs \<union> set ys) f) (image_mset f (mset xs))
      = image_mset (the_inv_into (set xs \<union> set ys) f) (image_mset f (mset ys))" by simp
  moreover have "image_mset (the_inv_into (set xs \<union> set ys) f) (image_mset f (mset zs)) = mset zs"
    if "set zs \<subseteq> set xs \<union> set ys" for zs
    using that assms by (induction zs) (auto simp: the_inv_into_f_f)
  ultimately show "mset xs = mset ys" by simp
qed simp

subsection \<open>Go maps\<close>

text \<open>
  A Go map is an association list with distinct keys.  \<open>m[k]\<close> of an absent key is the zero
  value; assignment is \<open>AList.update\<close>.  A \<open>range\<close> over a map visits the entries in an
  arbitrary order, which the model takes as an argument (a permutation of the entries).
\<close>

type_synonym ('k, 'v) gomap = "('k \<times> 'v) list"

definition gm_get :: "'v \<Rightarrow> ('k, 'v) gomap \<Rightarrow> 'k \<Rightarrow> 'v" where
  "gm_get z m k = (case map_of m k of Some v \<Rightarrow> v | None \<Rightarrow> z)"

definition gm_has :: "('k, 'v) gomap \<Rightarrow> 'k \<Rightarrow> bool" where
  "gm_has m k = (map_of m k \<noteq> None)"

definition gm_put :: "'k \<Rightarrow> 'v \<Rightarrow> ('k, 'v) gomap \<Rightarrow> ('k, 'v) gomap" where
  "gm_put k v m = AList.update k v m"

definition gm_wf :: "('k, 'v) gomap \<Rightarrow> bool" where
  "gm_wf m = distinct (map fst m)"

lemma map_of_gm_put [simp]: "map_of (gm_put k v m) = (map_of m)(k \<mapsto> v)"
  by (simp add: gm_put_def update_conv')

lemma gm_get_put [simp]: "gm_get z (gm_put k v m) k' = (if k' = k then v else gm_get z m k')"
  by (simp add: gm_get_def)

lemma gm_wf_put [simp]: "gm_wf m \<Longrightarrow> gm_wf (gm_put k v m)"
  by (simp add: gm_wf_def gm_put_def distinct_update)

lemma gm_wf_Nil [simp]: "gm_wf []"
  by (simp add: gm_wf_def)

subsection \<open>Strings\<close>

definition lower_char :: "char \<Rightarrow> char" where
  "lower_char c = (if c \<in> set ''ABCDEFGHIJKLMNOPQRSTUVWXYZ'' then char_of (of_char c + 32 :: nat) else c)"

text \<open>\<open>strings.ToLower\<close> on ASCII strings.\<close>

definition to_lower :: "gostring \<Rightarrow> gostring" where
  "to_lower = map lower_char"

definition is_space :: "char \<Rightarrow> bool" where
  "is_space c = (c \<in> {CHR 0x09, CHR 0x0A, CHR 0x0B, CHR 0x0C, CHR 0x0D, CHR '' ''})"

definition trim_space :: "gostring \<Rightarrow> gostring" where
  "trim_space s = rev (dropWhile is_space (rev (dropWhile is_space s)))"

definition has_prefix :: "gostring \<Rightarrow> gostring \<Rightarrow> bool" where
  "has_prefix s p = (take (length p) s = p)"

definition trim_suffix :: "gostring \<Rightarrow> gostring \<Rightarrow> gostring" where
  "trim_suffix s p = (if length p \<le> length s \<and> drop (length s - length p) s = p
     then take (length s - length p) s else s)"

subsection \<open>Decimal rendering of integers\<close>

definition digit :: "int \<Rightarrow> char" where
  "digit d = ''0123456789'' ! nat d"

function udec :: "int \<Rightarrow> gostring" where
  "udec n = (if n < 10 then [digit n] else udec (n div 10) @ [digit (n mod 10)])"
  by pat_completeness auto
termination
  by (relation "measure nat") auto

declare udec.simps [simp del]

definition show_int :: "int \<Rightarrow> gostring" where
  "show_int n = (if n < 0 then CHR ''-'' # udec (- n) else udec n)"

fun digit_val :: "char \<Rightarrow> int" where
  "digit_val c = of_char c - 48"

fun undec :: "int \<Rightarrow> gostring \<Rightarrow> int" where
  "undec a [] = a"
| "undec a (c # cs) = undec (10 * a + digit_val c) cs"

lemma undec_append: "undec a (xs @ ys) = undec (undec a xs) ys"
  by (induction xs arbitrary: a) auto

lemma undec_zeros: "undec 0 (replicate k (CHR ''0'') @ s) = undec 0 s"
  by (induction k) simp_all

lemma digit_cases: "0 \<le> d \<Longrightarrow> d < 10 \<Longrightarrow> d \<in> {0, 1, 2, 3, 4, 5, 6, 7, 8, 9 :: int}"
  by simp presburger

lemma digit_val_digit: "0 \<le> d \<Longrightarrow> d < 10 \<Longrightarrow> digit_val (digit d) = d"
  by (drule (1) digit_cases) (auto simp: digit_def)

lemma digit_in: "0 \<le> d \<Longrightarrow> d < 10 \<Longrightarrow> digit d \<in> set ''0123456789''"
  by (drule (1) digit_cases) (auto simp: digit_def)

lemma undec_udec: "0 \<le> n \<Longrightarrow> undec 0 (udec n) = n"
proof (induction n rule: udec.induct)
  case (1 n)
  show ?case
  proof (cases "n < 10")
    case True
    then show ?thesis using 1 digit_val_digit [of n] by (simp add: udec.simps [of n])
  next
    case False
    then have "undec 0 (udec (n div 10)) = n div 10" using 1 by simp
    then show ?thesis using False digit_val_digit [of "n mod 10"]
      by (simp add: udec.simps [of n] undec_append)
  qed
qed

lemma udec_digits: "0 \<le> n \<Longrightarrow> set (udec n) \<subseteq> set ''0123456789''"
proof (induction n rule: udec.induct)
  case (1 n)
  show ?case
  proof (cases "n < 10")
    case True
    then show ?thesis using 1 digit_in [of n] by (simp add: udec.simps [of n])
  next
    case False
    then have "set (udec (n div 10)) \<subseteq> set ''0123456789''" using 1 by simp
    then show ?thesis using False digit_in [of "n mod 10"] by (simp add: udec.simps [of n])
  qed
qed

lemma udec_nonempty [simp]: "udec n \<noteq> []"
  by (subst udec.simps) simp

lemma udec_inj: "0 \<le> m \<Longrightarrow> 0 \<le> n \<Longrightarrow> udec m = udec n \<Longrightarrow> m = n"
  by (metis undec_udec)

lemma show_int_chars: "set (show_int n) \<subseteq> insert (CHR ''-'') (set ''0123456789'')"
  using udec_digits [of n] udec_digits [of "- n"] by (auto simp: show_int_def)

lemma show_int_inj: "show_int m = show_int n \<Longrightarrow> m = n"
proof -
  assume h: "show_int m = show_int n"
  have no: "CHR ''-'' \<notin> set (udec k)" if "0 \<le> k" for k
    using udec_digits [OF that] by auto
  have hd_no: "udec k \<noteq> CHR ''-'' # xs" if "0 \<le> k" for k xs
    using no [OF that] by (metis list.set_intros(1))
  show ?thesis
    using h hd_no [of m "udec (- n)"] hd_no [of n "udec (- m)"] udec_inj [of m n] udec_inj [of "- m" "- n"]
    by (auto simp: show_int_def split: if_splits)
qed

text \<open>\<open>%0wd\<close> of a non-negative number.\<close>

definition zpad :: "nat \<Rightarrow> gostring \<Rightarrow> gostring" where
  "zpad w s = replicate (w - length s) (CHR ''0'') @ s"

text \<open>\<open>%0wd\<close> with the sign in front of the padding, as \<open>fmt\<close> does.\<close>

definition zpad_int :: "nat \<Rightarrow> int \<Rightarrow> gostring" where
  "zpad_int w n = (if n < 0 then CHR ''-'' # zpad (w - 1) (udec (- n)) else zpad w (udec n))"

end
