(* ===== verification/Rounding.thy ===== *)
theory Rounding
  imports Main "HOL-Library.Log_Nat"
begin

text \<open>
  Correct rounding of rationals to IEEE binary64 (53-bit significand, least exponent -1074,
  round to nearest, ties to even), as the Go specification requires of every float64
  operation.  \<open>rnd\<close> is executable; overflow to infinity is decided by the type built on it in
  \<open>GoFloat\<close>.  The locale \<open>rounding\<close> is the interface the arithmetic lemmas rest on.
\<close>

subsection \<open>Rounding to the nearest integer, ties to even\<close>

definition rne :: "rat \<Rightarrow> int" where
  "rne x = (let f = \<lfloor>x\<rfloor>; d = x - of_int f in
     if d < 1/2 then f else if 1/2 < d then f + 1 else if even f then f else f + 1)"

lemma rne_of_int [simp]: "rne (of_int n) = n"
  by (simp add: rne_def)

lemma rne_0 [simp]: "rne 0 = 0"
  using rne_of_int [of 0] by simp

lemma rne_cases:
  obtains (down) "rne x = \<lfloor>x\<rfloor>" and "x < of_int \<lfloor>x\<rfloor> + 1/2"
  | (up) "rne x = \<lfloor>x\<rfloor> + 1" and "of_int \<lfloor>x\<rfloor> + 1/2 < x"
  | (tie) "x = of_int \<lfloor>x\<rfloor> + 1/2" and "even (rne x)" and "rne x = \<lfloor>x\<rfloor> \<or> rne x = \<lfloor>x\<rfloor> + 1"
proof (cases "x - of_int \<lfloor>x\<rfloor>" "1/2 :: rat" rule: linorder_cases)
  case less
  then have "rne x = \<lfloor>x\<rfloor>" by (simp add: rne_def)
  with less show ?thesis using down by linarith
next
  case equal
  then have "rne x = (if even \<lfloor>x\<rfloor> then \<lfloor>x\<rfloor> else \<lfloor>x\<rfloor> + 1)" by (simp add: rne_def)
  then have "even (rne x)" and "rne x = \<lfloor>x\<rfloor> \<or> rne x = \<lfloor>x\<rfloor> + 1" by auto
  moreover have "x = of_int \<lfloor>x\<rfloor> + 1/2" using equal by linarith
  ultimately show ?thesis using tie by blast
next
  case greater
  then have "rne x = \<lfloor>x\<rfloor> + 1" by (simp add: rne_def)
  with greater show ?thesis using up by linarith
qed

lemma rne_bounds: "of_int (rne x) \<le> x + 1/2 \<and> x - 1/2 \<le> of_int (rne x)"
proof -
  have f: "of_int \<lfloor>x\<rfloor> \<le> x" "x < of_int \<lfloor>x\<rfloor> + 1" by linarith+
  show ?thesis by (cases x rule: rne_cases) (use f in \<open>auto simp del: of_int_floor_le\<close>)
qed

lemma rne_error: "\<bar>of_int (rne x) - x\<bar> \<le> 1/2"
  using rne_bounds [of x] by linarith

lemma rne_ties: "of_int (rne x) = x + 1/2 \<or> of_int (rne x) = x - 1/2 \<Longrightarrow> even (rne x)"
proof -
  have f: "of_int \<lfloor>x\<rfloor> \<le> x" "x < of_int \<lfloor>x\<rfloor> + 1" by linarith+
  assume h: "of_int (rne x) = x + 1/2 \<or> of_int (rne x) = x - 1/2"
  show ?thesis
  proof (cases x rule: rne_cases)
    case down
    then have "(of_int (rne x) :: rat) = of_int \<lfloor>x\<rfloor>" by simp
    with h f down have False by linarith
    then show ?thesis ..
  next
    case up
    then have "(of_int (rne x) :: rat) = of_int \<lfloor>x\<rfloor> + 1" by simp
    with h f up have False by linarith
    then show ?thesis ..
  qed
qed

lemma rne_unique:
  assumes "\<bar>of_int n - x\<bar> \<le> 1/2" and "\<bar>of_int n - x\<bar> = 1/2 \<Longrightarrow> even n"
  shows "rne x = n"
proof -
  have e: "\<bar>of_int (rne x) - x\<bar> \<le> 1/2" by (rule rne_error)
  show ?thesis
  proof (cases "\<bar>of_int n - x\<bar> = 1/2 \<and> \<bar>of_int (rne x) - x\<bar> = 1/2")
    case True
    then have "even n" and "even (rne x)"
      using assms(2) rne_ties [of x] by (auto simp: abs_if split: if_splits)
    moreover have "\<bar>of_int n - of_int (rne x)\<bar> \<le> (1::rat)"
      using e assms(1) by linarith
    then have "of_int \<bar>n - rne x\<bar> \<le> (of_int 1 :: rat)" by simp
    then have "\<bar>n - rne x\<bar> \<le> 1" by (simp only: of_int_le_iff)
    ultimately show ?thesis by presburger
  next
    case False
    then have "\<bar>of_int n - of_int (rne x)\<bar> < (1::rat)"
      using e assms(1) by linarith
    then have "of_int \<bar>n - rne x\<bar> < (of_int 1 :: rat)" by simp
    then have "\<bar>n - rne x\<bar> < 1" by (simp only: of_int_less_iff)
    then show ?thesis by simp
  qed
qed

lemma rne_minus: "rne (- x) = - rne x"
  by (rule rne_unique) (use rne_error [of x] rne_ties [of x] in \<open>auto simp: abs_if split: if_splits\<close>)

lemma rne_mono: "x \<le> y \<Longrightarrow> rne x \<le> rne y"
proof (rule ccontr)
  assume le: "x \<le> y" and "\<not> rne x \<le> rne y"
  then have "rne y + 1 \<le> rne x" by simp
  then have "of_int (rne y + 1) \<le> (of_int (rne x) :: rat)" by (simp only: of_int_le_iff)
  then have "of_int (rne y) + 1 \<le> (of_int (rne x) :: rat)" by simp
  moreover have "of_int (rne x) \<le> x + 1/2" and "y - 1/2 \<le> of_int (rne y)"
    using rne_bounds [of x] rne_bounds [of y] by auto
  ultimately have "x = y" using le by linarith
  with \<open>\<not> rne x \<le> rne y\<close> show False by simp
qed

subsection \<open>The binary exponent\<close>

definition expo :: "rat \<Rightarrow> int" where
  "expo r = (let a = \<bar>r\<bar> in
     if 1 \<le> a then bitlen \<lfloor>a\<rfloor> - 1 else - bitlen (\<lceil>1 / a\<rceil> - 1))"

lemma bitlen_pred: "bitlen (c - 1) = int (floorlog 2 (nat c - 1))"
proof -
  have "nat (c - 1) = nat c - 1" by linarith
  then show ?thesis by (simp only: bitlen_def)
qed

lemma floorlog_pos2: "0 < floorlog 2 n \<longleftrightarrow> 0 < n"
  by (simp add: floorlog_def)

lemma expo_ge1:
  assumes "1 \<le> a"
  shows "2 powi (int (floorlog 2 (nat \<lfloor>a\<rfloor>)) - 1) \<le> (a::rat)"
    and "a < 2 powi (int (floorlog 2 (nat \<lfloor>a\<rfloor>)))"
proof -
  let ?n = "nat \<lfloor>a\<rfloor>"
  have n: "0 < ?n" using assms by simp
  from floorlog_bounds [OF n, of 2]
  have lo: "2 ^ (floorlog 2 ?n - 1) \<le> ?n" and hi: "?n < 2 ^ floorlog 2 ?n" by auto
  have pos: "0 < floorlog 2 ?n"
    using n by (simp only: floorlog_pos2)
  have fl: "of_nat ?n \<le> a" and fh: "a < of_nat ?n + 1"
    using assms by (auto simp: le_floor_iff) linarith+
  have "(2::rat) ^ (floorlog 2 ?n - 1) \<le> of_nat ?n"
    using lo by (metis of_nat_le_iff of_nat_numeral of_nat_power)
  with fl have "(2::rat) ^ (floorlog 2 ?n - 1) \<le> a" by linarith
  moreover have "int (floorlog 2 ?n) - 1 = int (floorlog 2 ?n - 1)" using pos by simp
  ultimately show "2 powi (int (floorlog 2 ?n) - 1) \<le> a" by (simp only: power_int_of_nat)
  have "?n + 1 \<le> 2 ^ floorlog 2 ?n" using hi by (metis Suc_eq_plus1 Suc_leI)
  then have "of_nat ?n + 1 \<le> (2::rat) ^ floorlog 2 ?n"
    by (simp only: of_nat_le_iff [symmetric, where 'a = rat] of_nat_add of_nat_1 of_nat_power of_nat_numeral)
  with fh have "a < 2 ^ floorlog 2 ?n" by linarith
  then show "a < 2 powi (int (floorlog 2 ?n))" by (simp only: power_int_of_nat)
qed

lemma expo_lt1:
  assumes "0 < a" and "a < (1::rat)"
  shows "2 powi (- int (floorlog 2 (nat \<lceil>1 / a\<rceil> - 1))) \<le> a"
    and "a < 2 powi (- int (floorlog 2 (nat \<lceil>1 / a\<rceil> - 1)) + 1)"
proof -
  let ?c = "nat \<lceil>1 / a\<rceil>" and ?b = "1 / a"
  let ?l = "floorlog 2 (?c - 1)"
  have b: "1 < ?b" using assms by (simp add: less_divide_eq)
  then have "1 < \<lceil>?b\<rceil>" by simp
  then have c2: "2 \<le> ?c" by linarith
  then have n: "0 < ?c - 1" by linarith
  from floorlog_bounds [OF n, of 2]
  have lo: "2 ^ (?l - 1) \<le> ?c - 1" and hi: "?c - 1 < 2 ^ ?l" by auto
  have pos: "0 < ?l" using n by (simp only: floorlog_pos2)
  have ce: "of_nat ?c = (of_int \<lceil>?b\<rceil> :: rat)" using b by (simp add: of_nat_nat)
  have ub: "?b \<le> of_nat ?c" unfolding ce by (rule le_of_int_ceiling)
  have "of_nat (?c - 1) = (of_int \<lceil>?b\<rceil> - 1 :: rat)"
    using ce c2 by (simp only: of_nat_diff of_nat_1)
  then have lb: "of_nat (?c - 1) < ?b" by linarith
  have "?c \<le> 2 ^ ?l" using hi n by linarith
  then have "of_nat ?c \<le> (2::rat) ^ ?l" by (metis of_nat_le_iff of_nat_numeral of_nat_power)
  with ub have "1 / a \<le> 2 ^ ?l" by linarith
  then have "1 / 2 ^ ?l \<le> a" using assms(1) by (simp add: field_simps)
  then show "2 powi (- int ?l) \<le> a" by (simp add: power_int_minus divide_inverse)
  have "(2::rat) ^ (?l - 1) \<le> of_nat (?c - 1)"
    using lo by (metis of_nat_le_iff of_nat_numeral of_nat_power)
  with lb have "2 ^ (?l - 1) < 1 / a" by linarith
  then have "a < 1 / 2 ^ (?l - 1)" using assms(1) by (simp add: field_simps)
  moreover have "- int ?l + 1 = - int (?l - 1)" using pos by simp
  ultimately show "a < 2 powi (- int ?l + 1)"
    by (simp only: power_int_minus power_int_of_nat divide_inverse mult_1_left)
qed

lemma expo_bounds:
  assumes "r \<noteq> 0"
  shows "2 powi expo r \<le> \<bar>r\<bar>" and "\<bar>r\<bar> < 2 powi (expo r + 1)"
  using assms expo_ge1 [of "\<bar>r\<bar>"] expo_lt1 [of "\<bar>r\<bar>"]
  by (auto simp: expo_def Let_def not_le bitlen_pred bitlen_def [of "\<lfloor>_\<rfloor>"])

lemma powi2_less_iff [simp]: "(2::rat) powi a < 2 powi b \<longleftrightarrow> a < b"
proof
  assume "a < b"
  then show "(2::rat) powi a < 2 powi b" by (intro power_int_strict_increasing) auto
next
  assume "(2::rat) powi a < 2 powi b"
  moreover have "(2::rat) powi b \<le> 2 powi a" if "b \<le> a" using that by (intro power_int_increasing) auto
  ultimately show "a < b" by force
qed

lemma powi2_le_iff [simp]: "(2::rat) powi a \<le> 2 powi b \<longleftrightarrow> a \<le> b"
  by (simp only: not_less [symmetric] powi2_less_iff)

lemma powi2_pos [simp]: "0 < (2::rat) powi a"
  by (simp add: zero_less_power_int)

lemma expo_leI: "r \<noteq> 0 \<Longrightarrow> \<bar>r\<bar> < 2 powi (k + 1) \<Longrightarrow> expo r \<le> k"
  using expo_bounds(1) [of r] powi2_less_iff [of "expo r" "k + 1"] by linarith

lemma expo_geI: "r \<noteq> 0 \<Longrightarrow> 2 powi k \<le> \<bar>r\<bar> \<Longrightarrow> k \<le> expo r"
  using expo_bounds(2) [of r] powi2_less_iff [of k "expo r + 1"] by linarith

lemma expo_mono: "r \<noteq> 0 \<Longrightarrow> \<bar>r\<bar> \<le> \<bar>s\<bar> \<Longrightarrow> expo r \<le> expo s"
  using expo_bounds(1) [of r] by (intro expo_geI) auto

lemma expo_minus [simp]: "expo (- r) = expo r"
  by (simp add: expo_def)

subsection \<open>Rounding to 53 significant bits\<close>

text \<open>The exponent of the last place that binary64 keeps of a number of this size.\<close>

definition qexp :: "rat \<Rightarrow> int" where
  "qexp r = max (expo r - 52) (- 1074)"

definition rnd :: "rat \<Rightarrow> rat" where
  "rnd r = (if r = 0 then 0 else of_int (rne (r / 2 powi qexp r)) * 2 powi qexp r)"

lemma rnd_0 [simp]: "rnd 0 = 0"
  by (simp add: rnd_def)

lemma qexp_minus [simp]: "qexp (- r) = qexp r"
  by (simp add: qexp_def)

lemma rnd_minus: "rnd (- r) = - rnd r"
  by (simp add: rnd_def rne_minus)

lemma qexp_mono: "r \<noteq> 0 \<Longrightarrow> \<bar>r\<bar> \<le> \<bar>s\<bar> \<Longrightarrow> qexp r \<le> qexp s"
  using expo_mono [of r s] by (simp add: qexp_def)

lemma powi2_add: "(2::rat) powi (a + b) = 2 powi a * 2 powi b"
  by (simp add: power_int_add)

lemma scaled_bound: "r \<noteq> 0 \<Longrightarrow> \<bar>r / 2 powi qexp r\<bar> \<le> 2 ^ 53"
proof -
  assume "r \<noteq> 0"
  then have "\<bar>r\<bar> < 2 powi (expo r + 1)" by (rule expo_bounds)
  also have "\<dots> \<le> 2 powi (53 + qexp r)" by (simp add: qexp_def)
  also have "\<dots> = 2 ^ 53 * 2 powi qexp r" by (simp add: powi2_add)
  finally show ?thesis by (simp add: abs_divide divide_le_eq)
qed

lemma rnd_form: "\<exists>n. \<bar>n\<bar> \<le> 2 ^ 53 \<and> rnd r = of_int n * 2 powi qexp r"
proof (cases "r = 0")
  case True
  then show ?thesis by (intro exI [of _ 0]) simp
next
  case False
  let ?x = "r / 2 powi qexp r"
  from scaled_bound [OF False] have "?x \<le> of_int (2 ^ 53)" and "of_int (- (2 ^ 53)) \<le> ?x"
    by (simp_all only: abs_le_iff of_int_minus of_int_power of_int_numeral) linarith+
  then have "rne ?x \<le> 2 ^ 53" and "- (2 ^ 53) \<le> rne ?x"
    using rne_mono [of ?x "of_int (2 ^ 53)"] rne_mono [of "of_int (- (2 ^ 53))" ?x]
    by (simp_all only: rne_of_int)
  then have "\<bar>rne ?x\<bar> \<le> 2 ^ 53" by linarith
  with False show ?thesis by (intro exI [of _ "rne ?x"]) (simp add: rnd_def)
qed

lemma rnd_exact_lt:
  assumes n: "\<bar>n\<bar> < 2 ^ 53" and e: "- 1074 \<le> e"
  shows "rnd (of_int n * 2 powi e) = of_int n * 2 powi e"
proof (cases "n = 0")
  case True
  then show ?thesis by simp
next
  case False
  let ?r = "of_int n * 2 powi e :: rat"
  have nz: "?r \<noteq> 0" using False by simp
  have "\<bar>of_int n\<bar> < (2 ^ 53 :: rat)"
    using n by (simp only: of_int_less_iff [symmetric, where 'a = rat] of_int_abs of_int_power of_int_numeral)
  then have "\<bar>?r\<bar> < 2 ^ 53 * 2 powi e" by (simp add: abs_mult)
  also have "\<dots> = 2 powi (52 + e + 1)"
    using powi2_add [of 53 e] by (simp add: add.commute)
  finally have "expo ?r \<le> 52 + e" by (rule expo_leI [OF nz])
  then have q: "qexp ?r \<le> e" using e by (simp add: qexp_def)
  let ?k = "nat (e - qexp ?r)"
  have "(2::rat) powi e = 2 powi (int ?k + qexp ?r)" using q by simp
  then have s: "(2::rat) powi e = 2 ^ ?k * 2 powi qexp ?r" by (simp only: powi2_add power_int_of_nat)
  have "?r / 2 powi qexp ?r = of_int (n * 2 ^ ?k)"
    by (subst s) simp
  then have "rnd ?r = of_int (n * 2 ^ ?k) * 2 powi qexp ?r"
    using nz by (simp only: rnd_def rne_of_int if_False)
  also have "\<dots> = ?r" using s by simp
  finally show ?thesis .
qed

lemma rnd_exact:
  assumes n: "\<bar>n\<bar> \<le> 2 ^ 53" and e: "- 1074 \<le> e"
  shows "rnd (of_int n * 2 powi e) = of_int n * 2 powi e"
proof (cases "\<bar>n\<bar> = 2 ^ 53")
  case False
  with assms show ?thesis by (intro rnd_exact_lt) auto
next
  case True
  then have "n = 2 ^ 53 \<or> n = - (2 ^ 53)" unfolding abs_eq_iff' by blast
  then have "\<exists>m. \<bar>m\<bar> < 2 ^ 53 \<and> n = 2 * m" by force
  then obtain m where m: "\<bar>m\<bar> < 2 ^ 53" "n = 2 * m" by blast
  have "of_int n * 2 powi e = (of_int m * 2 powi (e + 1) :: rat)"
    using m(2) powi2_add [of e 1] by simp
  then show ?thesis using rnd_exact_lt [OF m(1), of "e + 1"] e by simp
qed

lemma qexp_ge: "- 1074 \<le> qexp r"
  by (simp add: qexp_def)

lemma rnd_rnd [simp]: "rnd (rnd r) = rnd r"
proof -
  obtain n where "\<bar>n\<bar> \<le> 2 ^ 53" and r: "rnd r = of_int n * 2 powi qexp r"
    using rnd_form by blast
  then show ?thesis unfolding r by (intro rnd_exact qexp_ge)
qed

lemma rnd_of_int [simp]: "\<bar>n\<bar> \<le> 2 ^ 53 \<Longrightarrow> rnd (of_int n) = of_int n"
  using rnd_exact [of n 0] by simp

lemma rnd_nonneg: "0 \<le> r \<Longrightarrow> 0 \<le> rnd r"
  using rne_mono [of 0 "r / 2 powi qexp r"] by (simp add: rnd_def)

lemma rnd_mono_pos:
  assumes "0 < r" and "r \<le> s"
  shows "rnd r \<le> rnd s"
proof (cases "qexp r = qexp s")
  case True
  have "r / 2 powi qexp s \<le> s / 2 powi qexp s" using assms by (simp add: divide_right_mono)
  then have "(of_int (rne (r / 2 powi qexp s)) :: rat) \<le> of_int (rne (s / 2 powi qexp s))"
    by (simp only: of_int_le_iff rne_mono)
  then show ?thesis using assms True by (simp add: rnd_def)
next
  case False
  have "qexp r \<le> qexp s" using assms by (intro qexp_mono) auto
  with False have lt: "qexp r < qexp s" by simp
  then have qs: "qexp s = expo s - 52" using qexp_ge [of r] by (simp add: qexp_def max_def split: if_splits)
  obtain n where n: "\<bar>n\<bar> \<le> 2 ^ 53" and r: "rnd r = of_int n * 2 powi qexp r"
    using rnd_form by blast
  have "(of_int n :: rat) \<le> of_int (2 ^ 53)" using n by (simp only: of_int_le_iff abs_le_iff)
  then have "rnd r \<le> 2 powi 53 * 2 powi qexp r" unfolding r by (intro mult_right_mono) simp_all
  also have "\<dots> = 2 powi (53 + qexp r)" by (simp only: powi2_add)
  also have "\<dots> \<le> 2 powi expo s" using lt qs by simp
  also have "\<dots> = 2 powi (52 + qexp s)" using qs by simp
  also have "\<dots> = of_int (2 ^ 52) * 2 powi qexp s" by (simp add: powi2_add)
  also have "\<dots> \<le> of_int (rne (s / 2 powi qexp s)) * 2 powi qexp s"
  proof (intro mult_right_mono)
    have nz: "s \<noteq> 0" using assms by simp
    have "2 powi (52 + qexp s) \<le> s" using expo_bounds(1) [OF nz] qs assms by simp
    then have "of_int (2 ^ 52) \<le> s / 2 powi qexp s"
      by (simp add: powi2_add le_divide_eq)
    then have "2 ^ 52 \<le> rne (s / 2 powi qexp s)"
      using rne_mono [of "of_int (2 ^ 52)" "s / 2 powi qexp s"] by (simp only: rne_of_int)
    then show "(of_int (2 ^ 52) :: rat) \<le> of_int (rne (s / 2 powi qexp s))"
      by (simp only: of_int_le_iff)
  qed simp
  also have "\<dots> = rnd s" using assms by (simp add: rnd_def)
  finally show ?thesis .
qed

lemma rnd_mono: "r \<le> s \<Longrightarrow> rnd r \<le> rnd s"
proof -
  assume le: "r \<le> s"
  consider "0 < r" | "s < 0" | "r \<le> 0" "0 \<le> s" by linarith
  then show ?thesis
  proof cases
    case 1
    then show ?thesis using le by (rule rnd_mono_pos)
  next
    case 2
    then have "rnd (- s) \<le> rnd (- r)" using le by (intro rnd_mono_pos) auto
    then show ?thesis by (simp add: rnd_minus)
  next
    case 3
    then have "0 \<le> rnd (- r)" and "0 \<le> rnd s" by (auto intro: rnd_nonneg)
    then show ?thesis by (simp add: rnd_minus)
  qed
qed

text \<open>The rounding error is at most half a unit in the last place.\<close>

lemma rnd_error: "\<bar>rnd r - r\<bar> \<le> 2 powi (qexp r - 1)"
proof (cases "r = 0")
  case True
  then show ?thesis by simp
next
  case False
  let ?x = "r / 2 powi qexp r"
  have "rnd r - r = (of_int (rne ?x) - ?x) * 2 powi qexp r"
    using False by (simp add: rnd_def left_diff_distrib)
  then have "\<bar>rnd r - r\<bar> = \<bar>of_int (rne ?x) - ?x\<bar> * 2 powi qexp r"
    by (simp add: abs_mult)
  also have "\<dots> \<le> 1/2 * 2 powi qexp r" by (intro mult_right_mono rne_error) simp
  also have "\<dots> = 2 powi (qexp r - 1)" using powi2_add [of "-1" "qexp r"] by (simp add: add.commute)
  finally show ?thesis .
qed

subsection \<open>The interface of a correct rounding\<close>

locale rounding =
  fixes rd :: "rat \<Rightarrow> rat"
  assumes mono: "r \<le> s \<Longrightarrow> rd r \<le> rd s"
    and idem: "rd (rd r) = rd r"
    and minus: "rd (- r) = - rd r"
begin

lemma zero: "rd 0 = 0"
  using minus [of 0] by simp

lemma ge_repr: "rd s = s \<Longrightarrow> s \<le> r \<Longrightarrow> s \<le> rd r"
  using mono [of s r] by simp

lemma le_repr: "rd s = s \<Longrightarrow> r \<le> s \<Longrightarrow> rd r \<le> s"
  using mono [of r s] by simp

lemma pos_part: "0 \<le> r \<Longrightarrow> 0 \<le> rd r"
  using mono [of 0 r] zero by simp

lemma add_ge: "rd a = a \<Longrightarrow> 0 \<le> b \<Longrightarrow> a \<le> rd (a + b)"
  by (rule ge_repr) auto

lemma abs_le_repr: "rd s = s \<Longrightarrow> \<bar>r\<bar> \<le> s \<Longrightarrow> \<bar>rd r\<bar> \<le> s"
  using le_repr [of s r] ge_repr [of "- s" r] minus [of s] by (auto simp: abs_le_iff)

end

interpretation rnd: rounding rnd
  by unfold_locales (auto intro: rnd_mono simp: rnd_minus)

end
