(* ===== verification/GoFloat.thy ===== *)
theory GoFloat
  imports Rounding "HOL-Library.Word"
begin

text \<open>
  Go's \<open>float64\<close> on amd64: a value is its IEEE 754 bit pattern, every operation is exact
  arithmetic on the values followed by one correct rounding (no fused multiply-add).
  \<open>fval\<close> is the value; an infinity has the value \<open>\<plusminus>2 ^ 1024\<close>, its place in the order of the
  finite numbers, so comparisons are comparisons of values.  The bit pattern of a NaN result
  is not modelled beyond being a NaN.  \<open>int64\<close> is a 64-bit word read as two's complement.
\<close>

type_synonym int64 = "64 word"
type_synonym int32 = "32 word"

subsection \<open>Representation\<close>

datatype f64 = F64 (bits: "64 word")

definition mag :: "f64 \<Rightarrow> int" where
  "mag x = uint (bits x) mod 2 ^ 63"

definition sgnb :: "f64 \<Rightarrow> bool" where
  "sgnb x = (2 ^ 63 \<le> uint (bits x))"

definition mkbits :: "bool \<Rightarrow> int \<Rightarrow> f64" where
  "mkbits s b = F64 (word_of_int ((if s then 2 ^ 63 else 0) + b))"

lemma mag_range: "0 \<le> mag x \<and> mag x < 2 ^ 63"
  by (simp add: mag_def)

lemma uint_mkbits:
  assumes "0 \<le> b" and "b < 2 ^ 63"
  shows "uint (bits (mkbits s b)) = (if s then 2 ^ 63 else 0) + b"
proof -
  have "uint (word_of_int ((if s then 2 ^ 63 else 0) + b) :: 64 word) = ((if s then 2 ^ 63 else 0) + b) mod 2 ^ 64"
    by (simp only: uint_word_of_int) simp
  also have "\<dots> = (if s then 2 ^ 63 else 0) + b"
    using assms by (intro mod_pos_pos_trivial) auto
  finally show ?thesis by (simp only: mkbits_def f64.sel)
qed

lemma mag_mkbits [simp]: "0 \<le> b \<Longrightarrow> b < 2 ^ 63 \<Longrightarrow> mag (mkbits s b) = b"
  unfolding mag_def by (simp only: uint_mkbits) auto

lemma sgnb_mkbits [simp]: "0 \<le> b \<Longrightarrow> b < 2 ^ 63 \<Longrightarrow> sgnb (mkbits s b) = s"
  unfolding sgnb_def by (simp only: uint_mkbits) auto

lemma mkbits_mag [simp]: "mkbits (sgnb x) (mag x) = x"
proof -
  obtain u where u: "uint (bits x) = u" by simp
  have lt: "u < 2 ^ 63 + 2 ^ 63" and ge: "0 \<le> u" using uint_bounded [of "bits x"] uint_nonnegative [of "bits x"] u by simp_all
  have "(if 2 ^ 63 \<le> u then 2 ^ 63 else 0) + u mod 2 ^ 63 = u"
  proof (cases "2 ^ 63 \<le> u")
    case True
    then have "(u - 2 ^ 63) mod 2 ^ 63 = u - 2 ^ 63"
      using lt by (intro mod_pos_pos_trivial) linarith+
    then have "u mod 2 ^ 63 = u - 2 ^ 63" by (simp only: minus_mod_self2)
    with True show ?thesis by simp
  next
    case False
    then have "u mod 2 ^ 63 = u" using ge by (intro mod_pos_pos_trivial) linarith+
    with False show ?thesis by simp
  qed
  then have "(if sgnb x then 2 ^ 63 else 0) + mag x = uint (bits x)"
    by (simp only: mag_def sgnb_def u)
  then show ?thesis by (simp only: mkbits_def word_of_int_uint f64.collapse)
qed

lemma f64_eqI:
  assumes "mag x = mag y" and "sgnb x = sgnb y"
  shows "x = y"
proof -
  have "mkbits (sgnb x) (mag x) = mkbits (sgnb y) (mag y)" by (simp only: assms)
  then show ?thesis by (simp only: mkbits_mag)
qed

definition fexp :: "f64 \<Rightarrow> int" where
  "fexp x = mag x div 2 ^ 52"

definition frac :: "f64 \<Rightarrow> int" where
  "frac x = mag x mod 2 ^ 52"

definition is_nan :: "f64 \<Rightarrow> bool" where
  "is_nan x = (2047 * 2 ^ 52 < mag x)"

definition is_inf :: "f64 \<Rightarrow> bool" where
  "is_inf x = (mag x = 2047 * 2 ^ 52)"

definition is_fin :: "f64 \<Rightarrow> bool" where
  "is_fin x = (mag x < 2047 * 2 ^ 52)"

definition absval :: "f64 \<Rightarrow> rat" where
  "absval x = (if fexp x = 0 then of_int (frac x) * 2 powi (- 1074)
     else of_int (2 ^ 52 + frac x) * 2 powi (fexp x - 1075))"

definition fval :: "f64 \<Rightarrow> rat" where
  "fval x = (if sgnb x then - absval x else absval x)"

text \<open>The float64 nearest to a rational; \<open>s\<close> is the sign of an exact zero.\<close>

definition mkf :: "bool \<Rightarrow> rat \<Rightarrow> f64" where
  "mkf s r = (if r = 0 then mkbits s 0
     else let q = qexp r; n = \<bar>rne (r / 2 powi q)\<bar>
          in mkbits (r < 0) (min ((q + 1074) * 2 ^ 52 + n) (2047 * 2 ^ 52)))"

abbreviation lit :: "rat \<Rightarrow> f64" where
  "lit r \<equiv> mkf False r"

definition f_nan :: f64 where
  "f_nan = mkbits False (2047 * 2 ^ 52 + 2 ^ 51 + 1)"

definition f_inf :: "bool \<Rightarrow> f64" where
  "f_inf s = mkbits s (2047 * 2 ^ 52)"

subsection \<open>Operations\<close>

definition fneg :: "f64 \<Rightarrow> f64" where
  "fneg x = mkbits (\<not> sgnb x) (mag x)"

definition fadd :: "f64 \<Rightarrow> f64 \<Rightarrow> f64" where
  "fadd x y = (if is_nan x \<or> is_nan y then f_nan
     else if is_inf x then (if is_inf y \<and> sgnb x \<noteq> sgnb y then f_nan else x)
     else if is_inf y then y
     else mkf (sgnb x \<and> sgnb y) (fval x + fval y))"

definition fmul :: "f64 \<Rightarrow> f64 \<Rightarrow> f64" where
  "fmul x y = (let s = (sgnb x \<noteq> sgnb y) in
     if is_nan x \<or> is_nan y \<or> (is_inf x \<and> fval y = 0) \<or> (fval x = 0 \<and> is_inf y) then f_nan
     else if is_inf x \<or> is_inf y then f_inf s
     else mkf s (fval x * fval y))"

definition fdiv :: "f64 \<Rightarrow> f64 \<Rightarrow> f64" where
  "fdiv x y = (let s = (sgnb x \<noteq> sgnb y) in
     if is_nan x \<or> is_nan y \<or> (is_inf x \<and> is_inf y) \<or> (fval x = 0 \<and> fval y = 0) then f_nan
     else if is_inf x \<or> fval y = 0 then f_inf s
     else if is_inf y then mkbits s 0
     else mkf s (fval x / fval y))"

text \<open>Go's \<open>==\<close> on float64: no NaN equals anything, the two zeros are equal.\<close>

definition feq :: "f64 \<Rightarrow> f64 \<Rightarrow> bool" where
  "feq x y = (\<not> is_nan x \<and> \<not> is_nan y \<and> fval x = fval y)"

instantiation f64 :: "{zero, plus, minus, uminus, times, divide, inverse, ord}"
begin

definition zero_f64 :: f64 where "0 = mkbits False 0"
definition uminus_f64 :: "f64 \<Rightarrow> f64" where "- x = fneg x"
definition plus_f64 :: "f64 \<Rightarrow> f64 \<Rightarrow> f64" where "x + y = fadd x y"
definition minus_f64 :: "f64 \<Rightarrow> f64 \<Rightarrow> f64" where "x - y = fadd x (fneg y)"
definition times_f64 :: "f64 \<Rightarrow> f64 \<Rightarrow> f64" where "x * y = fmul x y"
definition divide_f64 :: "f64 \<Rightarrow> f64 \<Rightarrow> f64" where "divide x y = fdiv x y"
definition inverse_f64 :: "f64 \<Rightarrow> f64" where "inverse x = fdiv (lit 1) x"
definition less_f64 :: "f64 \<Rightarrow> f64 \<Rightarrow> bool" where
  "x < y \<longleftrightarrow> \<not> is_nan x \<and> \<not> is_nan y \<and> fval x < fval y"
definition less_eq_f64 :: "f64 \<Rightarrow> f64 \<Rightarrow> bool" where
  "x \<le> y \<longleftrightarrow> \<not> is_nan x \<and> \<not> is_nan y \<and> fval x \<le> fval y"

instance ..

end

subsection \<open>Values of bit patterns\<close>

definition topval :: rat where
  "topval = 2 ^ 1024"

text \<open>Rounding with the overflow of binary64: what is at least \<open>2 ^ 1024\<close> becomes an infinity.\<close>

definition xrnd :: "rat \<Rightarrow> rat" where
  "xrnd r = max (- topval) (min topval (rnd r))"

lemma topval_pos: "0 < topval"
  by (simp add: topval_def)

lemma topval_powi: "topval = 2 powi 1024"
  by (simp add: topval_def)

lemma rnd_topval: "rnd topval = topval"
proof -
  have "rnd (of_int 1 * 2 powi 1024) = of_int 1 * 2 powi 1024"
    by (rule rnd_exact) simp_all
  then show ?thesis by (simp only: topval_powi of_int_1 mult_1_left)
qed

lemma xrnd_minus: "xrnd (- r) = - xrnd r"
  using topval_pos by (simp add: xrnd_def rnd_minus max_def min_def)

lemma xrnd_mono: "r \<le> s \<Longrightarrow> xrnd r \<le> xrnd s"
  unfolding xrnd_def by (intro max.mono min.mono rnd_mono order_refl)

lemma xrnd_bound: "\<bar>xrnd r\<bar> \<le> topval"
  using topval_pos by (simp add: xrnd_def max_def min_def abs_le_iff)

lemma xrnd_id: "rnd r = r \<Longrightarrow> \<bar>r\<bar> \<le> topval \<Longrightarrow> xrnd r = r"
  by (simp add: xrnd_def abs_le_iff max_def min_def)

lemma rnd_xrnd: "rnd (xrnd r) = xrnd r"
  by (simp add: xrnd_def max_def min_def rnd_topval rnd_minus)

lemma xrnd_idem: "xrnd (xrnd r) = xrnd r"
  by (intro xrnd_id rnd_xrnd xrnd_bound)

interpretation xrnd: rounding xrnd
  by unfold_locales (auto intro: xrnd_mono simp: xrnd_minus xrnd_idem)

lemma xrnd_rnd_small: "\<bar>rnd r\<bar> < topval \<Longrightarrow> xrnd r = rnd r"
  by (auto simp: xrnd_def max_def min_def abs_less_iff)

lemma fexp_nonneg: "0 \<le> fexp x"
  using mag_range [of x] by (simp add: fexp_def div_int_pos_iff)

lemma frac_range: "0 \<le> frac x \<and> frac x < 2 ^ 52"
  by (simp add: frac_def)

lemma mag_split: "mag x = fexp x * 2 ^ 52 + frac x"
  by (simp add: fexp_def frac_def)

lemma absval_form:
  "\<exists>n e. 0 \<le> n \<and> n < 2 ^ 53 \<and> - 1074 \<le> e \<and> absval x = of_int n * 2 powi e"
proof (cases "fexp x = 0")
  case True
  then show ?thesis using frac_range [of x]
    by (intro exI [of _ "frac x"] exI [of _ "- 1074"]) (simp add: absval_def)
next
  case False
  then show ?thesis using frac_range [of x] fexp_nonneg [of x]
    by (intro exI [of _ "2 ^ 52 + frac x"] exI [of _ "fexp x - 1075"]) (simp add: absval_def)
qed

lemma absval_nonneg: "0 \<le> absval x"
  using absval_form [of x] by (auto simp: less_imp_le)

lemma rnd_absval: "rnd (absval x) = absval x"
proof -
  obtain n e where "0 \<le> n" "n < 2 ^ 53" "- 1074 \<le> e" and v: "absval x = of_int n * 2 powi e"
    using absval_form by blast
  then show ?thesis unfolding v by (intro rnd_exact) auto
qed

text \<open>The value is monotone in the magnitude bits, so infinities sit above every finite value.\<close>

lemma absval_fin:
  assumes "is_fin x"
  shows "absval x < topval"
proof (cases "fexp x = 0")
  case True
  have "of_int (frac x) < (of_int (2 ^ 52) :: rat)" using frac_range [of x] by (simp only: of_int_less_iff)
  then have "absval x < of_int (2 ^ 52) * 2 powi (- 1074)"
    using True by (simp add: absval_def)
  also have "\<dots> = 2 powi (52 + (- 1074))" by (simp only: powi2_add) simp
  also have "\<dots> < topval" unfolding topval_powi by (subst powi2_less_iff) simp
  finally show ?thesis .
next
  case False
  have "fexp x < 2047"
    using assms frac_range [of x] mag_split [of x] by (simp add: is_fin_def)
  have "of_int (2 ^ 52 + frac x) < (of_int (2 ^ 53) :: rat)"
    using frac_range [of x] by (simp only: of_int_less_iff) simp
  then have "absval x < of_int (2 ^ 53) * 2 powi (fexp x - 1075)"
    using False by (simp add: absval_def)
  also have "\<dots> = 2 powi (53 + (fexp x - 1075))" by (simp only: powi2_add) simp
  also have "\<dots> \<le> topval" unfolding topval_powi using \<open>fexp x < 2047\<close> by (subst powi2_le_iff) simp
  finally show ?thesis .
qed

lemma absval_inf:
  assumes "is_inf x"
  shows "absval x = topval"
proof -
  have "fexp x = 2047" and "frac x = 0" using assms by (simp_all add: is_inf_def fexp_def frac_def)
  then have "absval x = 2 powi 52 * 2 powi 972" by (simp add: absval_def)
  also have "\<dots> = 2 powi (52 + 972)" by (simp only: powi2_add)
  finally show ?thesis by (simp only: topval_powi) simp
qed

lemma fin_cases: "is_nan x \<or> is_inf x \<or> is_fin x"
  by (auto simp: is_nan_def is_inf_def is_fin_def)

lemma fin_simps [simp]:
  "is_fin x \<Longrightarrow> \<not> is_nan x" "is_fin x \<Longrightarrow> \<not> is_inf x" "is_inf x \<Longrightarrow> \<not> is_nan x"
  by (auto simp: is_nan_def is_inf_def is_fin_def)

lemma abs_fval: "\<bar>fval x\<bar> = absval x"
  using absval_nonneg [of x] by (simp add: fval_def)

lemma is_fin_iff: "\<not> is_nan x \<Longrightarrow> is_fin x \<longleftrightarrow> \<bar>fval x\<bar> < topval"
  using fin_cases [of x] absval_fin [of x] absval_inf [of x] by (auto simp: abs_fval)

lemma is_inf_iff: "\<not> is_nan x \<Longrightarrow> is_inf x \<longleftrightarrow> \<bar>fval x\<bar> = topval"
  using fin_cases [of x] absval_fin [of x] absval_inf [of x] by (auto simp: abs_fval)

lemma fval_bound: "\<not> is_nan x \<Longrightarrow> \<bar>fval x\<bar> \<le> topval"
  using fin_cases [of x] absval_fin [of x] absval_inf [of x] by (auto simp: abs_fval)

lemma rnd_fval [simp]: "rnd (fval x) = fval x"
  using rnd_absval [of x] by (simp add: fval_def rnd_minus)

lemma xrnd_fval [simp]: "\<not> is_nan x \<Longrightarrow> xrnd (fval x) = fval x"
  by (intro xrnd_id rnd_fval fval_bound)

subsection \<open>The constructor rounds correctly\<close>

lemma absval_mkbits:
  assumes "0 \<le> b" and "b < 2 ^ 63"
  shows "absval (mkbits s b) = (if b div 2 ^ 52 = 0 then of_int (b mod 2 ^ 52) * 2 powi (- 1074)
     else of_int (2 ^ 52 + b mod 2 ^ 52) * 2 powi (b div 2 ^ 52 - 1075))"
  using assms by (simp add: absval_def fexp_def frac_def)

lemma absval_encode:
  assumes q: "- 1074 \<le> q" and n: "0 \<le> n" "n \<le> 2 ^ 53" and nq: "q = - 1074 \<or> 2 ^ 52 \<le> n"
    and b: "b = (q + 1074) * 2 ^ 52 + n" "b < 2 ^ 63"
  shows "absval (mkbits s b) = of_int n * 2 powi q"
proof -
  have b0: "0 \<le> b" using q n b by simp
  consider "n < 2 ^ 52" | "2 ^ 52 \<le> n" "n < 2 ^ 53" | "n = 2 ^ 53" using n by linarith
  then show ?thesis
  proof cases
    case 1
    with nq b have "q = - 1074" and bn: "b = n" by auto
    moreover have "b div 2 ^ 52 = 0" and "b mod 2 ^ 52 = n" using 1 n bn by (simp_all add: div_pos_pos_trivial)
    ultimately show ?thesis using absval_mkbits [OF b0 b(2), of s] by simp
  next
    case 2
    define f where "f = n - 2 ^ 52"
    have f: "0 \<le> f" "f < 2 ^ 52" "b = f + (q + 1075) * 2 ^ 52"
      using 2 b by (auto simp: f_def algebra_simps)
    then have d: "b div 2 ^ 52 = q + 1075" and m: "b mod 2 ^ 52 = f"
      by (simp_all only: div_mult_self1 mod_mult_self1) simp_all
    have "q + 1075 \<noteq> 0" using q by simp
    moreover have "2 ^ 52 + f = n" and "q + 1075 - 1075 = q" by (simp_all add: f_def)
    ultimately show ?thesis by (simp only: absval_mkbits [OF b0 b(2)] d m if_False)
  next
    case 3
    then have f: "b = 0 + (q + 1076) * 2 ^ 52" using b by (simp add: algebra_simps)
    have d: "b div 2 ^ 52 = q + 1076" and m: "b mod 2 ^ 52 = 0"
      unfolding f by (simp_all only: div_mult_self1 mod_mult_self1) simp_all
    have "q + 1076 \<noteq> 0" using q by simp
    then have "absval (mkbits s b) = of_int (2 ^ 52 + 0) * 2 powi (q + 1076 - 1075)"
      by (simp only: absval_mkbits [OF b0 b(2)] d m if_False)
    also have "\<dots> = of_int (2 ^ 52) * 2 powi (1 + q)" by (simp add: algebra_simps)
    also have "\<dots> = of_int (2 ^ 53) * 2 powi q" by (simp only: powi2_add) simp
    finally show ?thesis using 3 by simp
  qed
qed

lemma abs_rnd:
  assumes "r \<noteq> 0"
  defines "n \<equiv> \<bar>rne (r / 2 powi qexp r)\<bar>"
  shows "\<bar>rnd r\<bar> = of_int n * 2 powi qexp r" and "n \<le> 2 ^ 53"
    and "qexp r = - 1074 \<or> 2 ^ 52 \<le> n"
proof -
  let ?x = "r / 2 powi qexp r"
  show "\<bar>rnd r\<bar> = of_int n * 2 powi qexp r" using assms by (simp add: rnd_def abs_mult)
  have abs_rne: "\<bar>rne x\<bar> = rne \<bar>x\<bar>" for x
    using rne_mono [of 0 x] rne_mono [of x 0] by (cases "0 \<le> x") (auto simp: abs_if rne_minus)
  have "\<bar>?x\<bar> \<le> of_int (2 ^ 53)" using scaled_bound [OF assms(1)] by simp
  then show "n \<le> 2 ^ 53" unfolding n_def abs_rne
    using rne_mono [of "\<bar>?x\<bar>" "of_int (2 ^ 53)"] by (simp only: rne_of_int)
  show "qexp r = - 1074 \<or> 2 ^ 52 \<le> n"
  proof (cases "qexp r = - 1074")
    case False
    then have "qexp r + 52 = expo r" by (auto simp: qexp_def max_def split: if_splits)
    then have "2 powi (52 + qexp r) \<le> \<bar>r\<bar>" using expo_bounds(1) [OF assms(1)] by (simp add: add.commute)
    then have "of_int (2 ^ 52) \<le> \<bar>?x\<bar>" by (simp add: powi2_add le_divide_eq abs_divide)
    then have "2 ^ 52 \<le> n" unfolding n_def abs_rne
      using rne_mono [of "of_int (2 ^ 52)" "\<bar>?x\<bar>"] by (simp only: rne_of_int)
    then show ?thesis ..
  qed simp
qed

lemma mkf_pattern:
  assumes "r \<noteq> 0"
  shows "\<exists>b. 0 \<le> b \<and> b \<le> 2047 * 2 ^ 52 \<and> mkf s r = mkbits (r < 0) b
    \<and> absval (mkf s r) = min topval \<bar>rnd r\<bar>"
proof -
  define q where "q = qexp r"
  define n where "n = \<bar>rne (r / 2 powi q)\<bar>"
  define b where "b = (q + 1074) * 2 ^ 52 + n"
  have n: "0 \<le> n" "n \<le> 2 ^ 53" and nq: "q = - 1074 \<or> 2 ^ 52 \<le> n"
    and v: "\<bar>rnd r\<bar> = of_int n * 2 powi q"
    using abs_rnd [OF assms] by (auto simp: n_def q_def)
  have q: "- 1074 \<le> q" by (simp add: q_def qexp_ge)
  have e: "mkf s r = mkbits (r < 0) (min b (2047 * 2 ^ 52))"
    using assms by (simp only: mkf_def Let_def b_def n_def q_def if_False)
  have b0: "0 \<le> b" using q n by (simp add: b_def)
  show ?thesis
  proof (cases "b \<le> 2047 * 2 ^ 52")
    case True
    then have m: "mkf s r = mkbits (r < 0) b" using e by simp
    have b63: "b < 2 ^ 63" using True by simp
    have a: "absval (mkf s r) = \<bar>rnd r\<bar>"
      unfolding m v by (rule absval_encode [OF q n nq b_def b63])
    have "\<not> is_nan (mkf s r)" unfolding m using True b0 b63 by (simp add: is_nan_def)
    then have "absval (mkf s r) \<le> topval" using fval_bound [of "mkf s r"] by (simp add: abs_fval)
    then show ?thesis using True b0 m a by (intro exI [of _ b]) simp
  next
    case False
    then have m: "mkf s r = mkbits (r < 0) (2047 * 2 ^ 52)" using e by simp
    have n52: "2 ^ 52 \<le> n" and q972: "972 \<le> q" using False nq n by (auto simp: b_def)
    have "topval = of_int (2 ^ 52) * 2 powi 972"
      unfolding topval_powi using powi2_add [of 52 972] by simp
    also have "\<dots> \<le> of_int n * 2 powi q"
      using n52 q972 n by (intro mult_mono) (simp_all only: of_int_le_iff powi2_le_iff, simp_all)
    finally have "topval \<le> \<bar>rnd r\<bar>" unfolding v .
    moreover have "absval (mkf s r) = topval"
      unfolding m by (rule absval_inf) (simp add: is_inf_def)
    ultimately show ?thesis using m by (intro exI [of _ "2047 * 2 ^ 52"]) (simp add: min_def)
  qed
qed

lemma not_nan_mkf [simp]: "\<not> is_nan (mkf s r)"
proof (cases "r = 0")
  case True
  then show ?thesis by (simp add: mkf_def is_nan_def)
next
  case False
  from mkf_pattern [OF this, of s] show ?thesis by (auto simp: is_nan_def)
qed

lemma sgnb_mkf [simp]: "sgnb (mkf s r) = (r < 0 \<or> r = 0 \<and> s)"
proof (cases "r = 0")
  case True
  then show ?thesis by (simp add: mkf_def)
next
  case False
  from mkf_pattern [OF this, of s] False show ?thesis by auto
qed

lemma fval_mkf [simp]: "fval (mkf s r) = xrnd r"
proof (cases "r = 0")
  case True
  then show ?thesis by (simp add: mkf_def fval_def absval_mkbits xrnd.zero)
next
  case False
  from mkf_pattern [OF this, of s]
  have a: "absval (mkf s r) = min topval \<bar>rnd r\<bar>" by blast
  have "0 \<le> rnd r" if "0 < r" using that rnd_nonneg [of r] by simp
  moreover have "rnd r \<le> 0" if "r < 0" using that rnd_nonneg [of "- r"] by (simp add: rnd_minus)
  ultimately show ?thesis using False a topval_pos
    by (cases "0 < r") (auto simp: fval_def xrnd_def min_def max_def abs_if split: if_splits)
qed

subsection \<open>Code equations: the operations on integers\<close>

lemma abs_rne: "\<bar>rne x\<bar> = rne \<bar>x\<bar>"
  using rne_mono [of 0 x] rne_mono [of x 0] by (cases "0 \<le> x") (auto simp: abs_if rne_minus)

definition rneq :: "int \<Rightarrow> int \<Rightarrow> int" where
  "rneq n d = (let k = n div d; m = n mod d in
     if 2 * m < d then k else if d < 2 * m then k + 1 else if even k then k else k + 1)"

lemma rne_divide:
  assumes "0 < d"
  shows "rne (of_int n / of_int d) = rneq n d"
proof -
  let ?x = "of_int n / of_int d :: rat"
  have f: "\<lfloor>?x\<rfloor> = n div d" by (simp add: floor_divide_of_int_eq)
  have "of_int n = (of_int (n div d * d + n mod d) :: rat)" by simp
  then have "?x - of_int (n div d) = of_int (n mod d) / of_int d"
    using assms by (simp only: of_int_add of_int_mult) (simp add: field_simps)
  moreover have "of_int (n mod d) / of_int d < (1/2 :: rat) \<longleftrightarrow> 2 * (n mod d) < d"
    using assms by (simp add: field_simps) (metis of_int_less_iff of_int_mult of_int_numeral mult.commute)
  moreover have "1/2 < (of_int (n mod d) / of_int d :: rat) \<longleftrightarrow> d < 2 * (n mod d)"
    using assms by (simp add: field_simps) (metis of_int_less_iff of_int_mult of_int_numeral mult.commute)
  ultimately show ?thesis by (simp only: rne_def rneq_def Let_def f)
qed

definition expoq :: "int \<Rightarrow> int \<Rightarrow> int" where
  "expoq a b = (if b \<le> a then bitlen (a div b) - 1 else - bitlen (- ((- b) div a) - 1))"

lemma expo_divide:
  assumes "0 < a" and "0 < b"
  shows "expo (of_int a / of_int b) = expoq a b"
proof -
  have c: "\<lceil>1 / (of_int a / of_int b :: rat)\<rceil> = - ((- b) div a)"
    by (simp add: ceiling_divide_eq_div)
  have "1 \<le> (of_int a / of_int b :: rat) \<longleftrightarrow> b \<le> a"
    using assms by (simp add: le_divide_eq)
  then show ?thesis using assms c
    by (simp add: expo_def expoq_def Let_def floor_divide_of_int_eq abs_divide)
qed

lemma powi2_nonneg: "0 \<le> e \<Longrightarrow> (2::rat) powi e = of_int (2 ^ nat e)"
  by (simp add: power_int_nonneg_exp)

lemma powi2_neg: "\<not> 0 \<le> e \<Longrightarrow> (2::rat) powi e = 1 / of_int (2 ^ nat (- e))"
  using power_int_minus [of "2::rat" "- e"] by (simp add: power_int_nonneg_exp divide_inverse)

text \<open>\<open>mkq s a b\<close> is \<open>mkf s (a / b)\<close>, computed on integers.\<close>

definition mkq :: "bool \<Rightarrow> int \<Rightarrow> int \<Rightarrow> f64" where
  "mkq s a b = (if a = 0 then mkbits s 0
     else let q = max (expoq \<bar>a\<bar> b - 52) (- 1074);
              n = (if 0 \<le> q then rneq \<bar>a\<bar> (b * 2 ^ nat q) else rneq (\<bar>a\<bar> * 2 ^ nat (- q)) b)
          in mkbits (a < 0) (min ((q + 1074) * 2 ^ 52 + n) (2047 * 2 ^ 52)))"

lemma mkf_divide:
  assumes "0 < b"
  shows "mkf s (of_int a / of_int b) = mkq s a b"
proof (cases "a = 0")
  case True
  then show ?thesis by (simp add: mkf_def mkq_def)
next
  case False
  let ?r = "of_int a / of_int b :: rat" and ?q = "max (expoq \<bar>a\<bar> b - 52) (- 1074)"
  have ar: "\<bar>?r\<bar> = of_int \<bar>a\<bar> / of_int b" using assms by simp
  have "expo ?r = expo \<bar>?r\<bar>" by (simp add: expo_def)
  also have "\<dots> = expoq \<bar>a\<bar> b" unfolding ar using False assms by (intro expo_divide) auto
  finally have q: "qexp ?r = ?q" by (simp add: qexp_def)
  have n: "\<bar>rne (?r / 2 powi ?q)\<bar> = (if 0 \<le> ?q then rneq \<bar>a\<bar> (b * 2 ^ nat ?q) else rneq (\<bar>a\<bar> * 2 ^ nat (- ?q)) b)"
  proof (cases "0 \<le> ?q")
    case True
    then have "\<bar>?r / 2 powi ?q\<bar> = of_int \<bar>a\<bar> / of_int (b * 2 ^ nat ?q)"
      using assms by (simp only: abs_divide ar powi2_nonneg) simp
    moreover have "0 < b * 2 ^ nat ?q" using assms by simp
    ultimately show ?thesis using True by (simp only: abs_rne rne_divide if_True)
  next
    case False
    have "\<bar>?r / 2 powi ?q\<bar> = of_int (\<bar>a\<bar> * 2 ^ nat (- ?q)) / of_int b"
      using assms by (simp only: abs_divide ar powi2_neg [OF False]) simp
    then show ?thesis using False assms by (simp only: abs_rne rne_divide if_False)
  qed
  have "?r \<noteq> 0" and "?r < 0 \<longleftrightarrow> a < 0" using False assms by (auto simp: divide_less_0_iff)
  then show ?thesis using False by (simp only: mkf_def mkq_def q n Let_def if_False)
qed

lemma mkf_code [code]: "mkf s r = (case quotient_of r of (a, b) \<Rightarrow> mkq s a b)"
proof -
  obtain a b where r: "quotient_of r = (a, b)" by fastforce
  then have "0 < b" by (rule quotient_of_denom_pos)
  moreover have "r = of_int a / of_int b" using r by (rule quotient_of_div)
  ultimately show ?thesis using r by (simp add: mkf_divide)
qed

subsubsection \<open>Arithmetic on integers\<close>

definition fman :: "f64 \<Rightarrow> int" where
  "fman x = (let m = (if fexp x = 0 then frac x else 2 ^ 52 + frac x) in if sgnb x then - m else m)"

definition fpow :: "f64 \<Rightarrow> int" where
  "fpow x = (if fexp x = 0 then - 1074 else fexp x - 1075)"

lemma fval_dyadic: "fval x = of_int (fman x) * 2 powi fpow x"
  by (simp add: fval_def absval_def fman_def fpow_def Let_def)

definition dyq :: "bool \<Rightarrow> int \<Rightarrow> int \<Rightarrow> f64" where
  "dyq s m e = (if 0 \<le> e then mkq s (m * 2 ^ nat e) 1 else mkq s m (2 ^ nat (- e)))"

lemma mkf_dyadic: "mkf s (of_int m * 2 powi e) = dyq s m e"
proof (cases "0 \<le> e")
  case True
  have "mkf s (of_int m * 2 powi e) = mkf s (of_int (m * 2 ^ nat e) / of_int 1)"
    using True by (simp add: powi2_nonneg)
  then show ?thesis using True by (simp only: mkf_divide dyq_def if_True)
next
  case False
  have "mkf s (of_int m * 2 powi e) = mkf s (of_int m / of_int (2 ^ nat (- e)))"
    using False by (simp add: powi2_neg)
  then show ?thesis using False by (subst (asm) mkf_divide) (simp_all add: dyq_def)
qed

definition fscale :: "f64 \<Rightarrow> int \<Rightarrow> int" where
  "fscale x e = fman x * 2 ^ nat (fpow x - e)"

lemma fval_scale: "e \<le> fpow x \<Longrightarrow> fval x = of_int (fscale x e) * 2 powi e"
proof -
  assume "e \<le> fpow x"
  then have "(2::rat) powi fpow x = 2 powi (int (nat (fpow x - e)) + e)" by simp
  then have "(2::rat) powi fpow x = of_int (2 ^ nat (fpow x - e)) * 2 powi e"
    by (simp only: powi2_add power_int_of_nat) simp
  then show ?thesis by (simp add: fval_dyadic fscale_def)
qed

definition fsumq :: "bool \<Rightarrow> f64 \<Rightarrow> f64 \<Rightarrow> f64" where
  "fsumq s x y = (let e = min (fpow x) (fpow y) in dyq s (fscale x e + fscale y e) e)"

definition fprodq :: "bool \<Rightarrow> f64 \<Rightarrow> f64 \<Rightarrow> f64" where
  "fprodq s x y = dyq s (fman x * fman y) (fpow x + fpow y)"

definition fquotq :: "bool \<Rightarrow> f64 \<Rightarrow> f64 \<Rightarrow> f64" where
  "fquotq s x y = (let e = fpow x - fpow y; m = sgn (fman y) * fman x; d = \<bar>fman y\<bar> in
     if 0 \<le> e then mkq s (m * 2 ^ nat e) d else mkq s m (d * 2 ^ nat (- e)))"

lemma mkf_sum: "mkf s (fval x + fval y) = fsumq s x y"
proof -
  let ?e = "min (fpow x) (fpow y)"
  have "fval x + fval y = of_int (fscale x ?e + fscale y ?e) * 2 powi ?e"
    by (simp only: fval_scale [of ?e x] fval_scale [of ?e y] of_int_add min.cobounded1 min.cobounded2)
      (simp add: distrib_right)
  then show ?thesis by (simp only: mkf_dyadic fsumq_def Let_def)
qed

lemma mkf_prod: "mkf s (fval x * fval y) = fprodq s x y"
proof -
  have "fval x * fval y = of_int (fman x * fman y) * 2 powi (fpow x + fpow y)"
    by (simp add: fval_dyadic powi2_add)
  then show ?thesis by (simp only: mkf_dyadic fprodq_def)
qed

lemma fval_eq_0: "fval x = 0 \<longleftrightarrow> fman x = 0"
  by (simp add: fval_dyadic)

lemma mkf_quot:
  assumes "fval y \<noteq> 0"
  shows "mkf s (fval x / fval y) = fquotq s x y"
proof -
  let ?m = "sgn (fman y) * fman x" and ?d = "\<bar>fman y\<bar>" and ?e = "fpow x - fpow y"
  have d: "0 < ?d" using assms by (simp add: fval_eq_0)
  have md: "of_int (fman x) / of_int (fman y) = (of_int ?m / of_int ?d :: rat)"
    using d by (cases "fman y" "0::int" rule: linorder_cases) auto
  have pw: "(2::rat) powi fpow x / 2 powi fpow y = 2 powi ?e" by (simp add: power_int_diff)
  have v: "fval x / fval y = of_int ?m / of_int ?d * 2 powi ?e"
    by (simp only: md [symmetric] pw [symmetric] fval_dyadic) simp
  show ?thesis
  proof (cases "0 \<le> ?e")
    case True
    then have "fval x / fval y = of_int (?m * 2 ^ nat ?e) / of_int ?d"
      unfolding v by (simp add: powi2_nonneg)
    then show ?thesis using d True by (simp only: mkf_divide fquotq_def Let_def if_True)
  next
    case False
    then have "fval x / fval y = of_int ?m / of_int (?d * 2 ^ nat (- ?e))"
      unfolding v by (simp add: powi2_neg)
    moreover have "0 < ?d * 2 ^ nat (- ?e)" using d by simp
    ultimately show ?thesis using False by (simp only: mkf_divide fquotq_def Let_def if_False)
  qed
qed

lemma fadd_code [code]: "fadd x y = (if is_nan x \<or> is_nan y then f_nan
     else if is_inf x then (if is_inf y \<and> sgnb x \<noteq> sgnb y then f_nan else x)
     else if is_inf y then y else fsumq (sgnb x \<and> sgnb y) x y)"
  by (simp add: fadd_def mkf_sum)

lemma fmul_code [code]: "fmul x y = (let s = (sgnb x \<noteq> sgnb y) in
     if is_nan x \<or> is_nan y \<or> (is_inf x \<and> fman y = 0) \<or> (fman x = 0 \<and> is_inf y) then f_nan
     else if is_inf x \<or> is_inf y then f_inf s else fprodq s x y)"
  by (simp add: fmul_def mkf_prod fval_eq_0 Let_def)

lemma fdiv_code [code]: "fdiv x y = (let s = (sgnb x \<noteq> sgnb y) in
     if is_nan x \<or> is_nan y \<or> (is_inf x \<and> is_inf y) \<or> (fman x = 0 \<and> fman y = 0) then f_nan
     else if is_inf x \<or> fman y = 0 then f_inf s
     else if is_inf y then mkbits s 0 else fquotq s x y)"
  by (simp add: fdiv_def mkf_quot fval_eq_0 Let_def)

lemma fval_less: "fval x < fval y \<longleftrightarrow> (let e = min (fpow x) (fpow y) in fscale x e < fscale y e)"
  by (simp only: fval_scale [of "min (fpow x) (fpow y)" x] fval_scale [of "min (fpow x) (fpow y)" y]
      min.cobounded1 min.cobounded2 Let_def mult_less_cancel_right_pos [OF powi2_pos] of_int_less_iff)

lemma fval_le: "fval x \<le> fval y \<longleftrightarrow> \<not> (let e = min (fpow x) (fpow y) in fscale y e < fscale x e)"
  using fval_less [of y x] by (simp only: not_less [symmetric] min.commute)

lemma less_f64_code [code]: "x < y \<longleftrightarrow> \<not> is_nan x \<and> \<not> is_nan y \<and>
    (let e = min (fpow x) (fpow y) in fscale x e < fscale y e)" for x y :: f64
  by (simp only: less_f64_def fval_less)

lemma less_eq_f64_code [code]: "x \<le> y \<longleftrightarrow> \<not> is_nan x \<and> \<not> is_nan y \<and>
    \<not> (let e = min (fpow x) (fpow y) in fscale y e < fscale x e)" for x y :: f64
  by (simp only: less_eq_f64_def fval_le)

lemma feq_code [code]: "feq x y \<longleftrightarrow> \<not> is_nan x \<and> \<not> is_nan y \<and>
    (let e = min (fpow x) (fpow y) in fscale x e = fscale y e)"
proof -
  have "fval x = fval y \<longleftrightarrow> \<not> fval x < fval y \<and> \<not> fval y < fval x" by auto
  then show ?thesis unfolding feq_def fval_less [of x y] fval_less [of y x]
    by (simp only: min.commute [of "fpow y"] Let_def) auto
qed

subsection \<open>Conversions\<close>

definition f_of_int64 :: "int64 \<Rightarrow> f64" where
  "f_of_int64 w = lit (of_int (sint w))"

definition f_of_int32 :: "int32 \<Rightarrow> f64" where
  "f_of_int32 w = lit (of_int (sint w))"

lemma mkf_of_int: "mkf s (of_int n) = mkq s n 1"
  using mkf_divide [of 1 s n] by simp

lemma f_of_int64_code [code]: "f_of_int64 w = mkq False (sint w) 1"
  by (simp only: f_of_int64_def mkf_of_int)

lemma f_of_int32_code [code]: "f_of_int32 w = mkq False (sint w) 1"
  by (simp only: f_of_int32_def mkf_of_int)

definition trunc :: "rat \<Rightarrow> int" where
  "trunc r = (if r < 0 then - \<lfloor>- r\<rfloor> else \<lfloor>r\<rfloor>)"

text \<open>
  \<open>int64(f)\<close> truncates toward zero.  Outside the range of int64 the Go specification leaves
  the result to the implementation; amd64 gives the least int64.
\<close>

definition int64_of_f :: "f64 \<Rightarrow> int64" where
  "int64_of_f x = (let t = trunc (fval x) in
     if is_fin x \<and> - (2 ^ 63) \<le> t \<and> t < 2 ^ 63 then word_of_int t else word_of_int (- (2 ^ 63)))"

text \<open>\<open>math.Round\<close>: to the nearest integer, halves away from zero.\<close>

definition math_Round :: "f64 \<Rightarrow> f64" where
  "math_Round x = (if is_fin x then
     (let r = fval x in mkf (sgnb x) (of_int (if r < 0 then - \<lfloor>- r + 1/2\<rfloor> else \<lfloor>r + 1/2\<rfloor>)))
     else x)"

subsection \<open>The order\<close>

lemma fval_0 [simp]: "fval 0 = 0"
  by (simp add: zero_f64_def fval_def absval_mkbits)

lemma not_nan_0 [simp]: "\<not> is_nan 0"
  by (simp add: zero_f64_def is_nan_def)

lemma is_fin_0 [simp]: "is_fin 0"
  by (simp add: zero_f64_def is_fin_def)

lemma lit_0: "lit 0 = 0"
  by (simp add: mkf_def zero_f64_def)

lemma nan_simps [simp]: "is_nan f_nan" "\<not> is_nan (f_inf s)" "is_inf (f_inf s)"
  by (simp_all add: f_nan_def f_inf_def is_nan_def is_inf_def)

lemma not_nan_mkbits_0 [simp]: "\<not> is_nan (mkbits s 0)"
  by (simp add: is_nan_def)

lemma sgnb_f_inf [simp]: "sgnb (f_inf s) = s"
  by (simp add: f_inf_def)

lemma fval_inf: "is_inf x \<Longrightarrow> fval x = (if sgnb x then - topval else topval)"
  by (simp add: fval_def absval_inf)

lemma fval_f_inf [simp]: "fval (f_inf s) = (if s then - topval else topval)"
  using fval_inf [of "f_inf s"] by simp

lemma f_le_refl: "\<not> is_nan x \<Longrightarrow> x \<le> x"
  by (simp add: less_eq_f64_def)

lemma f_le_trans [trans]: "x \<le> y \<Longrightarrow> y \<le> z \<Longrightarrow> x \<le> z" for x y z :: f64
  by (auto simp: less_eq_f64_def)

lemma f_less_le_trans [trans]: "x < y \<Longrightarrow> y \<le> z \<Longrightarrow> x < z" for x y z :: f64
  by (auto simp: less_eq_f64_def less_f64_def)

lemma f_le_less_trans [trans]: "x \<le> y \<Longrightarrow> y < z \<Longrightarrow> x < z" for x y z :: f64
  by (auto simp: less_eq_f64_def less_f64_def)

lemma f_less_imp_le: "x < y \<Longrightarrow> x \<le> y" for x y :: f64
  by (auto simp: less_eq_f64_def less_f64_def)

lemma f_not_less: "\<not> is_nan x \<Longrightarrow> \<not> is_nan y \<Longrightarrow> \<not> x < y \<longleftrightarrow> y \<le> x"
  by (auto simp: less_eq_f64_def less_f64_def)

lemma f_not_le: "\<not> is_nan x \<Longrightarrow> \<not> is_nan y \<Longrightarrow> \<not> x \<le> y \<longleftrightarrow> y < x"
  by (auto simp: less_eq_f64_def less_f64_def)

lemma f_leD: "x \<le> y \<Longrightarrow> \<not> is_nan x \<and> \<not> is_nan y \<and> fval x \<le> fval y"
  by (simp add: less_eq_f64_def)

lemma f_lessD: "x < y \<Longrightarrow> \<not> is_nan x \<and> \<not> is_nan y \<and> fval x < fval y"
  by (simp add: less_f64_def)

lemma f_nonneg_iff: "0 \<le> x \<longleftrightarrow> \<not> is_nan x \<and> 0 \<le> fval x"
  by (simp add: less_eq_f64_def)

lemma f_pos_iff: "0 < x \<longleftrightarrow> \<not> is_nan x \<and> 0 < fval x"
  by (simp add: less_f64_def)

lemma sgnb_pos: "0 < fval x \<Longrightarrow> \<not> sgnb x"
  using absval_nonneg [of x] by (auto simp: fval_def)

lemma sgnb_inf_nonneg: "is_inf x \<Longrightarrow> 0 \<le> fval x \<Longrightarrow> \<not> sgnb x"
  using topval_pos by (auto simp: fval_inf split: if_splits)

subsection \<open>Arithmetic and the order\<close>

lemma fin_add:
  assumes "is_fin x" and "is_fin y"
  shows "\<not> is_nan (x + y)" and "fval (x + y) = xrnd (fval x + fval y)"
  using assms by (simp_all add: plus_f64_def fadd_def)

lemma fin_mul:
  assumes "is_fin x" and "is_fin y"
  shows "\<not> is_nan (x * y)" and "fval (x * y) = xrnd (fval x * fval y)"
  using assms by (simp_all add: times_f64_def fmul_def)

lemma fin_div:
  assumes "is_fin x" and "is_fin y" and "fval y \<noteq> 0"
  shows "\<not> is_nan (x / y)" and "fval (x / y) = xrnd (fval x / fval y)"
  using assms by (simp_all add: divide_f64_def fdiv_def)

lemma mkbits_mag_simps [simp]: "mag (mkbits s (mag x)) = mag x" "sgnb (mkbits s (mag x)) = s"
  using mag_range [of x] by auto

lemma fval_fneg [simp]: "fval (fneg x) = - fval x"
proof -
  have "absval (fneg x) = absval x" by (simp add: absval_def fexp_def frac_def fneg_def)
  moreover have "sgnb (fneg x) = (\<not> sgnb x)" by (simp add: fneg_def)
  ultimately show ?thesis by (simp add: fval_def)
qed

lemma fneg_class [simp]: "is_fin (fneg x) = is_fin x" "is_nan (fneg x) = is_nan x" "is_inf (fneg x) = is_inf x"
  by (simp_all add: fneg_def is_fin_def is_nan_def is_inf_def)

lemma fin_sub:
  assumes "is_fin x" and "is_fin y"
  shows "\<not> is_nan (x - y)" and "fval (x - y) = xrnd (fval x - fval y)"
  using assms fin_add [of x "fneg y"] by (simp_all add: plus_f64_def minus_f64_def)

lemma f_add_nonneg:
  assumes "0 \<le> x" and "0 \<le> y"
  shows "\<not> is_nan (x + y)" and "fval (x + y) = xrnd (fval x + fval y)"
proof -
  have nx: "\<not> is_nan x" and vx: "0 \<le> fval x" and ny: "\<not> is_nan y" and vy: "0 \<le> fval y"
    using assms by (simp_all add: f_nonneg_iff)
  have top: "xrnd (a + topval) = topval" if "0 \<le> a" for a
    using that xrnd_mono [of topval "a + topval"] xrnd_bound [of "a + topval"] topval_pos
      xrnd_id [OF rnd_topval] by simp
  consider "is_inf x" | "is_inf y" "\<not> is_inf x" | "is_fin x" "is_fin y"
    using nx ny fin_cases by blast
  then have "\<not> is_nan (x + y) \<and> fval (x + y) = xrnd (fval x + fval y)"
  proof cases
    case 1
    then have sx: "\<not> sgnb x" using vx by (rule sgnb_inf_nonneg)
    then have "fval x = topval" using 1 by (simp add: fval_inf)
    moreover have "\<not> (is_inf y \<and> sgnb x \<noteq> sgnb y)" using sx vy sgnb_inf_nonneg by blast
    then have "x + y = x" using nx ny 1 by (auto simp add: plus_f64_def fadd_def)
    ultimately have "fval x = topval" and "x + y = x" by auto
    then show ?thesis using nx vy top [of "fval y"] by (simp add: add.commute)
  next
    case 2
    have "\<not> sgnb y" using 2(1) vy by (rule sgnb_inf_nonneg)
    then have "fval y = topval" and "x + y = y"
      using nx ny 2 by (simp_all add: plus_f64_def fadd_def fval_inf)
    then show ?thesis using ny vx top [of "fval x"] by simp
  next
    case 3
    then show ?thesis using fin_add by blast
  qed
  then show "\<not> is_nan (x + y)" and "fval (x + y) = xrnd (fval x + fval y)" by auto
qed

lemma f_add_ge_left: "0 \<le> x \<Longrightarrow> 0 \<le> y \<Longrightarrow> x \<le> x + y" for x y :: f64
  using f_add_nonneg [of x y] xrnd.add_ge [of "fval x" "fval y"]
  by (simp add: less_eq_f64_def)

lemma f_add_ge_right: "0 \<le> x \<Longrightarrow> 0 \<le> y \<Longrightarrow> y \<le> x + y" for x y :: f64
  using f_add_nonneg [of x y] xrnd.add_ge [of "fval y" "fval x"]
  by (simp add: less_eq_f64_def add.commute)

lemma f_add_nonneg_nonneg [intro]: "0 \<le> x \<Longrightarrow> 0 \<le> y \<Longrightarrow> 0 \<le> x + y" for x y :: f64
  using f_add_ge_left f_le_trans by blast

lemma f_add_mono: "0 \<le> a \<Longrightarrow> a \<le> b \<Longrightarrow> 0 \<le> c \<Longrightarrow> c \<le> d \<Longrightarrow> a + c \<le> b + d" for a b c d :: f64
proof -
  assume h: "0 \<le> a" "a \<le> b" "0 \<le> c" "c \<le> d"
  then have "0 \<le> b" and "0 \<le> d" using f_le_trans by blast+
  with h show ?thesis using f_add_nonneg [of a c] f_add_nonneg [of b d]
    by (auto simp: less_eq_f64_def intro: xrnd_mono)
qed

lemma f_fin_iff: "0 \<le> x \<Longrightarrow> is_fin x \<or> is_inf x \<and> fval x = topval"
  using fin_cases [of x] sgnb_inf_nonneg [of x] by (auto simp: f_nonneg_iff fval_inf)

lemma f_mul_inf:
  assumes "0 \<le> x" and "0 \<le> y" and "is_inf x \<or> is_inf y" and "\<not> is_nan (x * y)"
  shows "fval (x * y) = topval"
proof -
  have nx: "\<not> is_nan x" "0 \<le> fval x" and ny: "\<not> is_nan y" "0 \<le> fval y"
    using assms by (simp_all add: f_nonneg_iff)
  have d: "\<not> (is_inf x \<and> fval y = 0) \<and> \<not> (fval x = 0 \<and> is_inf y)"
    using assms(4) by (auto simp: times_f64_def fmul_def split: if_splits)
  then have "0 < fval x" and "0 < fval y"
    using nx ny assms(3) topval_pos sgnb_inf_nonneg [of x] sgnb_inf_nonneg [of y]
    by (auto simp: fval_inf)
  then have "\<not> sgnb x" and "\<not> sgnb y" by (auto dest: sgnb_pos)
  then show ?thesis using assms nx ny d by (auto simp: times_f64_def fmul_def Let_def)
qed

lemma f_mul_nonneg: "0 \<le> x \<Longrightarrow> 0 \<le> y \<Longrightarrow> \<not> is_nan (x * y) \<Longrightarrow> 0 \<le> x * y" for x y :: f64
proof -
  assume h: "0 \<le> x" "0 \<le> y" "\<not> is_nan (x * y)"
  show ?thesis
  proof (cases "is_inf x \<or> is_inf y")
    case True
    then have "fval (x * y) = topval" using h by (intro f_mul_inf)
    then show ?thesis using h(3) topval_pos by (simp add: f_nonneg_iff)
  next
    case False
    then have "is_fin x" and "is_fin y" using h(1,2) f_fin_iff [of x] f_fin_iff [of y] by auto
    with h show ?thesis using fin_mul [of x y] xrnd.pos_part [of "fval x * fval y"]
      by (simp add: f_nonneg_iff)
  qed
qed

lemma f_le_fin:
  assumes "0 \<le> x" and "x \<le> y" and "is_fin y"
  shows "is_fin x"
proof -
  from assms(1,2) have x: "\<not> is_nan x" "0 \<le> fval x" and y: "\<not> is_nan y" "fval x \<le> fval y"
    by (simp_all add: less_eq_f64_def)
  have "\<bar>fval y\<bar> < topval" using assms(3) is_fin_iff [OF y(1)] by blast
  with x y show ?thesis by (simp only: is_fin_iff [OF x(1)])
qed

lemma f_mul_mono:
  fixes a b c d :: f64
  assumes "0 \<le> a" "a \<le> b" "0 \<le> c" "c \<le> d" and "\<not> is_nan (a * c)" "\<not> is_nan (b * d)"
  shows "a * c \<le> b * d"
proof (cases "is_inf b \<or> is_inf d")
  case True
  have "0 \<le> b" "0 \<le> d" using assms f_le_trans by blast+
  then have "fval (b * d) = topval" using True assms(6) by (intro f_mul_inf)
  moreover have "fval (a * c) \<le> topval" using fval_bound [OF assms(5)] by simp
  ultimately show ?thesis using assms by (simp add: less_eq_f64_def)
next
  case False
  have b: "is_fin b" and d: "is_fin d" using False assms(2,4) fin_cases [of b] fin_cases [of d] by (auto dest: f_leD)
  have a: "is_fin a" and c: "is_fin c" using assms b d by (blast intro: f_le_fin)+
  have "fval a * fval c \<le> fval b * fval d"
    using assms by (intro mult_mono) (auto dest!: f_leD)
  then show ?thesis using fin_mul [OF a c] fin_mul [OF b d]
    by (simp add: less_eq_f64_def xrnd_mono)
qed

lemma f_div_fin_iff:
  assumes "0 \<le> x" and "0 < y" and "\<not> is_nan (x / y)"
  shows "fval (x / y) = (if is_inf x then topval else if is_inf y then 0 else xrnd (fval x / fval y))"
proof -
  have x: "\<not> is_nan x" "0 \<le> fval x" and y: "\<not> is_nan y" "0 < fval y"
    using assms by (simp_all add: f_nonneg_iff f_pos_iff)
  have sy: "\<not> sgnb y" using y(2) by (rule sgnb_pos)
  have n: "\<not> (is_inf x \<and> is_inf y)"
    using assms(3) x y by (auto simp: divide_f64_def fdiv_def Let_def split: if_splits)
  consider "is_inf x" | "\<not> is_inf x" "is_inf y" | "\<not> is_inf x" "\<not> is_inf y" by blast
  then show ?thesis
  proof cases
    case 1
    have "\<not> sgnb x" using 1 x(2) by (rule sgnb_inf_nonneg)
    with 1 x y sy n show ?thesis by (simp add: divide_f64_def fdiv_def Let_def)
  next
    case 2
    have "fval (mkbits s 0) = 0" for s by (simp add: fval_def absval_mkbits)
    with 2 x y n show ?thesis by (simp add: divide_f64_def fdiv_def Let_def)
  next
    case 3
    with x y show ?thesis by (simp add: divide_f64_def fdiv_def Let_def)
  qed
qed

lemma f_div_nonneg: "0 \<le> x \<Longrightarrow> 0 < y \<Longrightarrow> \<not> is_nan (x / y) \<Longrightarrow> 0 \<le> x / y" for x y :: f64
  using f_div_fin_iff [of x y] xrnd.pos_part [of "fval x / fval y"] topval_pos
  by (auto simp: f_nonneg_iff f_pos_iff)

lemma f_div_not_nan: "0 \<le> x \<Longrightarrow> 0 < y \<Longrightarrow> is_fin x \<or> is_fin y \<Longrightarrow> \<not> is_nan (x / y)" for x y :: f64
  by (auto simp: divide_f64_def fdiv_def Let_def f_nonneg_iff f_pos_iff)

lemma f_mul_not_nan:
  "\<not> is_nan x \<Longrightarrow> \<not> is_nan y \<Longrightarrow> (is_fin x \<and> is_fin y) \<or> (0 < x \<and> 0 < y) \<Longrightarrow> \<not> is_nan (x * y)" for x y :: f64
  by (auto simp: times_f64_def fmul_def Let_def f_pos_iff)

lemma f_pos_fin: "is_fin y \<Longrightarrow> 0 < y \<Longrightarrow> \<not> is_inf y" for y :: f64
  by simp

lemma f_div_mono:
  fixes a b c :: f64
  assumes "0 \<le> a" "a \<le> b" "0 < c" and "is_fin c"
  shows "a / c \<le> b / c"
proof -
  have b0: "0 \<le> b" using assms f_le_trans by blast
  have na: "\<not> is_nan (a / c)" and nb: "\<not> is_nan (b / c)" using assms b0 f_div_not_nan by blast+
  have "is_inf b" if "is_inf a"
    using that assms b0 f_fin_iff [of b] f_le_fin [of a b] by auto
  moreover have "fval a / fval c \<le> fval b / fval c"
    using assms by (intro divide_right_mono) (auto dest!: f_leD f_lessD)
  moreover have "xrnd (fval a / fval c) \<le> topval" using xrnd_bound [of "fval a / fval c"] by simp
  ultimately have "fval (a / c) \<le> fval (b / c)"
    using f_div_fin_iff [OF assms(1,3) na] f_div_fin_iff [OF b0 assms(3) nb] assms(4)
    by (auto intro: xrnd_mono)
  then show ?thesis using na nb by (simp add: less_eq_f64_def)
qed

subsection \<open>Integers as floats\<close>

lemma rnd_int_bound: "\<bar>n\<bar> \<le> 2 ^ 63 \<Longrightarrow> \<bar>rnd (of_int n)\<bar> \<le> 2 ^ 63"
proof -
  assume "\<bar>n\<bar> \<le> 2 ^ 63"
  then have "of_int \<bar>n\<bar> \<le> (of_int (2 ^ 63) :: rat)" by (simp only: of_int_le_iff)
  then have "\<bar>of_int n\<bar> \<le> (2 ^ 63 :: rat)" by simp
  moreover have "rnd (2 ^ 63) = 2 ^ 63" using rnd_exact [of 1 63] by simp
  ultimately show ?thesis using rnd.abs_le_repr [of "2 ^ 63" "of_int n"] by simp
qed

lemma sint64_range: "- (2 ^ 63) \<le> sint (w :: int64) \<and> sint w < 2 ^ 63"
  using sint_range_size [of w] by (simp add: word_size)

lemma big_topval: "(2::rat) ^ 63 < topval"
  unfolding topval_def by (rule power_strict_increasing) simp_all

lemma lit_int:
  assumes "\<bar>n\<bar> \<le> 2 ^ 63"
  shows "fval (lit (of_int n)) = rnd (of_int n)" and "is_fin (lit (of_int n))"
proof -
  have lt: "\<bar>rnd (of_int n)\<bar> < topval" using rnd_int_bound [OF assms] big_topval by linarith
  then show v: "fval (lit (of_int n)) = rnd (of_int n)" by (simp only: fval_mkf xrnd_rnd_small)
  have "\<not> is_nan (lit (of_int n))" by simp
  then show "is_fin (lit (of_int n))" using lt is_fin_iff v by auto
qed

lemma f_of_int64_fin [simp]: "is_fin (f_of_int64 w)" "\<not> is_nan (f_of_int64 w)"
proof -
  have "\<bar>sint w\<bar> \<le> 2 ^ 63" using sint64_range [of w] by linarith
  then show "is_fin (f_of_int64 w)" unfolding f_of_int64_def by (rule lit_int(2))
  then show "\<not> is_nan (f_of_int64 w)" by simp
qed

lemma fval_f_of_int64: "fval (f_of_int64 w) = rnd (of_int (sint w))"
proof -
  have "\<bar>sint w\<bar> \<le> 2 ^ 63" using sint64_range [of w] by linarith
  then show ?thesis unfolding f_of_int64_def by (rule lit_int(1))
qed

lemma f_of_int64_mono: "v \<le>s w \<Longrightarrow> f_of_int64 v \<le> f_of_int64 w"
  unfolding less_eq_f64_def fval_f_of_int64 word_sle_eq
  by (auto intro!: rnd_mono simp del: of_int_sint simp: of_int_le_iff)

lemma f_of_int64_0 [simp]: "f_of_int64 0 = 0"
  by (simp add: f_of_int64_def lit_0)

lemma rnd_of_int_ge1: "1 \<le> n \<Longrightarrow> 1 \<le> rnd (of_int n)"
proof -
  assume "1 \<le> n"
  then have "(1::rat) \<le> of_int n" by simp
  moreover have "rnd 1 = 1" using rnd_of_int [of 1] by simp
  ultimately show ?thesis using rnd.ge_repr [of 1 "of_int n"] by simp
qed

lemma f_of_int64_pos: "0 <s w \<Longrightarrow> 0 < f_of_int64 w"
proof -
  assume "0 <s w"
  then have "1 \<le> sint w" by (simp add: word_sless_alt)
  then have "1 \<le> rnd (of_int (sint w))" by (rule rnd_of_int_ge1)
  then show ?thesis by (simp only: f_pos_iff fval_f_of_int64) simp
qed

lemma sint32_range: "- (2 ^ 31) \<le> sint (w :: int32) \<and> sint w < 2 ^ 31"
  using sint_range_size [of w] by (simp add: word_size)

lemma f_of_int32_exact: "fval (f_of_int32 w) = of_int (sint w)" "is_fin (f_of_int32 w)"
proof -
  have b: "\<bar>sint w\<bar> \<le> 2 ^ 53" and b': "\<bar>sint w\<bar> \<le> 2 ^ 63" using sint32_range [of w] by (auto simp: abs_le_iff)
  show "fval (f_of_int32 w) = of_int (sint w)"
    unfolding f_of_int32_def using lit_int(1) [OF b'] rnd_of_int [OF b] by simp
  show "is_fin (f_of_int32 w)" unfolding f_of_int32_def by (rule lit_int(2) [OF b'])
qed

lemma f_of_int32_pos: "0 <s w \<Longrightarrow> 0 < f_of_int32 w"
proof -
  assume "0 <s w"
  then have "0 < sint w" by (simp add: word_sless_alt)
  then have "(0::rat) < of_int (sint w)" by (simp only: of_int_0_less_iff)
  moreover have "\<not> is_nan (f_of_int32 w)" using f_of_int32_exact(2) by simp
  ultimately show ?thesis by (simp only: f_pos_iff f_of_int32_exact) simp
qed

text \<open>Literals of the source that are exactly representable.\<close>

lemma lit_exact: "rnd r = r \<Longrightarrow> \<bar>r\<bar> < topval \<Longrightarrow> fval (lit r) = r \<and> is_fin (lit r)"
  using is_fin_iff [of "lit r"] xrnd_rnd_small [of r] by simp

lemma lit_small_int: "\<bar>n\<bar> \<le> 2 ^ 53 \<Longrightarrow> fval (lit (of_int n)) = of_int n \<and> is_fin (lit (of_int n))"
  using lit_int [of n] rnd_of_int [of n] by simp

end
