(* ===== verification/GoFmt.thy ===== *)
theory GoFmt
  imports Prelude GoFloat
begin

text \<open>
  Rendering of float64 values by \<open>fmt\<close> and \<open>strconv.FormatFloat(v, 'f', p, 64)\<close>: the exact
  decimal expansion rounded to \<open>p\<close> places, ties to even.
\<close>

text \<open>The absolute value scaled by \<open>10 ^ p\<close> and rounded to an integer.\<close>

definition fdec :: "nat \<Rightarrow> f64 \<Rightarrow> int" where
  "fdec p x = rne (absval x * 10 ^ p)"

definition dot_at :: "nat \<Rightarrow> gostring \<Rightarrow> gostring" where
  "dot_at p s = (if p = 0 then s else take (length s - p) s @ ''.'' @ drop (length s - p) s)"

definition fmt_f :: "nat \<Rightarrow> f64 \<Rightarrow> gostring" where
  "fmt_f p x = (if is_nan x then ''NaN''
     else (if sgnb x then ''-'' else if is_inf x then ''+'' else []) @
       (if is_inf x then ''Inf'' else dot_at p (zpad (p + 1) (udec (fdec p x)))))"

definition show_int64 :: "int64 \<Rightarrow> gostring" where
  "show_int64 w = show_int (sint w)"

definition show_int32 :: "int32 \<Rightarrow> gostring" where
  "show_int32 w = show_int (sint w)"

lemma show_int64_inj: "show_int64 v = show_int64 w \<Longrightarrow> v = w"
  by (simp add: show_int64_def) (metis show_int_inj signed_word_eqI)

lemma absval_dyadic: "absval x = of_int \<bar>fman x\<bar> * 2 powi fpow x"
  using abs_fval [of x] by (simp add: fval_dyadic abs_mult)

lemma fdec_code [code]: "fdec p x = (let m = \<bar>fman x\<bar> * 10 ^ p; e = fpow x in
    if 0 \<le> e then m * 2 ^ nat e else rneq m (2 ^ nat (- e)))"
proof (cases "0 \<le> fpow x")
  case True
  have "absval x * 10 ^ p = of_int (\<bar>fman x\<bar> * 10 ^ p * 2 ^ nat (fpow x))"
    by (simp only: absval_dyadic powi2_nonneg [OF True]) simp
  then show ?thesis using True by (simp only: fdec_def rne_of_int Let_def if_True)
next
  case False
  have "absval x * 10 ^ p = of_int (\<bar>fman x\<bar> * 10 ^ p) / of_int (2 ^ nat (- fpow x))"
    by (simp only: absval_dyadic powi2_neg [OF False]) simp
  then show ?thesis using False rne_divide [of "2 ^ nat (- fpow x)" "\<bar>fman x\<bar> * 10 ^ p"]
    by (simp only: fdec_def Let_def if_False) simp
qed

text \<open>The rendered number is within half a unit of the last printed place.\<close>

lemma fdec_error: "\<bar>of_int (fdec p x) - absval x * 10 ^ p\<bar> \<le> 1/2"
  unfolding fdec_def by (rule rne_error)

lemma fdec_nonneg: "0 \<le> fdec p x"
  using rne_mono [of 0 "absval x * 10 ^ p"] absval_nonneg [of x] by (simp add: fdec_def)

end
