(* ===== verification/GoTime.thy ===== *)
theory GoTime
  imports GoFmt
begin

text \<open>
  Go's \<open>time\<close> package as the controllers use it.  An instant is the number of nanoseconds since
  0001-01-01T00:00:00Z, so the zero \<open>time.Time\<close> is 0; a \<open>time.Duration\<close> is a number of
  nanoseconds.  Calendar fields are those of the proleptic Gregorian calendar in UTC.
\<close>

type_synonym gotime = int
type_synonym duration = int

definition nsSecond :: int where "nsSecond = 1000000000"
definition nsMinute :: int where "nsMinute = 60000000000"
definition nsHour :: int where "nsHour = 3600000000000"
definition nsDay :: int where "nsDay = 86400000000000"

lemmas ns_defs = nsSecond_def nsMinute_def nsHour_def nsDay_def

definition IsZero :: "gotime \<Rightarrow> bool" where
  "IsZero t = (t = 0)"

text \<open>\<open>t.Sub(u)\<close> saturates at the ends of the range of int64.\<close>

definition time_Sub :: "gotime \<Rightarrow> gotime \<Rightarrow> duration" where
  "time_Sub t u = max (- (2 ^ 63)) (min (2 ^ 63 - 1) (t - u))"

text \<open>Integer division truncating toward zero, and its remainder.\<close>

definition tdiv :: "int \<Rightarrow> int \<Rightarrow> int" where
  "tdiv a b = (if a < 0 then - (- a div b) else a div b)"

definition tmod :: "int \<Rightarrow> int \<Rightarrow> int" where
  "tmod a b = a - b * tdiv a b"

definition Hours :: "duration \<Rightarrow> f64" where
  "Hours d = lit (of_int (tdiv d nsHour)) + lit (of_int (tmod d nsHour)) / lit 3600000000000"

definition Seconds :: "duration \<Rightarrow> f64" where
  "Seconds d = lit (of_int (tdiv d nsSecond)) + lit (of_int (tmod d nsSecond)) / lit 1000000000"

definition Minutes :: "duration \<Rightarrow> f64" where
  "Minutes d = lit (of_int (tdiv d nsMinute)) + lit (of_int (tmod d nsMinute)) / lit 60000000000"

text \<open>Nanoseconds from the zero time to the Unix epoch.\<close>

definition unixEpoch :: int where
  "unixEpoch = 62135596800000000000"

definition UnixNano :: "gotime \<Rightarrow> int64" where
  "UnixNano t = word_of_int (t - unixEpoch)"

definition time_Unix_nano :: "int64 \<Rightarrow> gotime" where
  "time_Unix_nano n = unixEpoch + sint n"

subsection \<open>The calendar\<close>

definition day_of :: "gotime \<Rightarrow> int" where
  "day_of t = t div nsDay"

definition is_leap :: "int \<Rightarrow> bool" where
  "is_leap y = (y mod 4 = 0 \<and> (y mod 100 \<noteq> 0 \<or> y mod 400 = 0))"

definition days_before_year :: "int \<Rightarrow> int" where
  "days_before_year y = 365 * (y - 1) + (y - 1) div 4 - (y - 1) div 100 + (y - 1) div 400"

definition year_of_day :: "int \<Rightarrow> int" where
  "year_of_day d = (let n400 = d div 146097; d1 = d mod 146097;
     n100 = min 3 (d1 div 36524); d2 = d1 - 36524 * n100;
     n4 = d2 div 1461; d3 = d2 mod 1461; n1 = min 3 (d3 div 365)
     in 400 * n400 + 100 * n100 + 4 * n4 + n1 + 1)"

definition yday_of_day :: "int \<Rightarrow> int" where
  "yday_of_day d = d - days_before_year (year_of_day d)"

text \<open>Days of the year before month \<open>m\<close> (1 to 13).\<close>

definition days_before_month :: "bool \<Rightarrow> int \<Rightarrow> int" where
  "days_before_month leap m =
     (if leap then [0, 31, 60, 91, 121, 152, 182, 213, 244, 274, 305, 335, 366] ! nat (m - 1)
      else [0, 31, 59, 90, 120, 151, 181, 212, 243, 273, 304, 334, 365] ! nat (m - 1))"

fun find_month :: "bool \<Rightarrow> int \<Rightarrow> int list \<Rightarrow> int" where
  "find_month leap yd [] = 12"
| "find_month leap yd (m # ms) = (if yd < days_before_month leap (m + 1) then m else find_month leap yd ms)"

definition month_of_day :: "int \<Rightarrow> int" where
  "month_of_day d = find_month (is_leap (year_of_day d)) (yday_of_day d) [1, 2, 3, 4, 5, 6, 7, 8, 9, 10, 11]"

definition mday_of_day :: "int \<Rightarrow> int" where
  "mday_of_day d = yday_of_day d - days_before_month (is_leap (year_of_day d)) (month_of_day d) + 1"

definition time_Year :: "gotime \<Rightarrow> int" where "time_Year t = year_of_day (day_of t)"
definition time_Month :: "gotime \<Rightarrow> int" where "time_Month t = month_of_day (day_of t)"
definition time_Day :: "gotime \<Rightarrow> int" where "time_Day t = mday_of_day (day_of t)"

text \<open>Sunday is 0; day 0 was a Monday.\<close>

definition Weekday :: "gotime \<Rightarrow> int" where
  "Weekday t = (day_of t + 1) mod 7"

text \<open>\<open>time.Date(y, m, d, 0, 0, 0, 0, time.UTC)\<close>, months and days out of range normalised.\<close>

definition day_number :: "int \<Rightarrow> int \<Rightarrow> int \<Rightarrow> int" where
  "day_number y m d = (let y' = y + (m - 1) div 12; m' = (m - 1) mod 12 + 1
     in days_before_year y' + days_before_month (is_leap y') m' + (d - 1))"

definition time_Date :: "int \<Rightarrow> int \<Rightarrow> int \<Rightarrow> gotime" where
  "time_Date y m d = day_number y m d * nsDay"

text \<open>\<open>t.AddDate(0, n, 0)\<close>\<close>

definition add_months :: "gotime \<Rightarrow> int \<Rightarrow> gotime" where
  "add_months t n = day_number (time_Year t) (time_Month t + n) (time_Day t) * nsDay + t mod nsDay"

text \<open>\<open>t.ISOWeek()\<close>: year and week number of the Thursday of the week of \<open>t\<close>.\<close>

definition ISOWeek :: "gotime \<Rightarrow> int \<times> int" where
  "ISOWeek t = (let th = day_of t + 3 - (day_of t mod 7)
     in (year_of_day th, yday_of_day th div 7 + 1))"

subsection \<open>Calendar facts\<close>

lemma div_pred:
  assumes "0 < k"
  shows "y div k = (y - 1) div k + (if y mod k = 0 then 1 else (0::int))"
proof -
  have y: "y = k * (y div k) + y mod k" and r: "0 \<le> y mod k" "y mod k < k" using assms by auto
  show ?thesis
  proof (cases "y mod k = 0")
    case True
    then have "(y - 1) div k = y div k - 1"
      using y assms by (intro int_div_pos_eq [where r = "k - 1"]) (auto simp: algebra_simps)
    with True show ?thesis by simp
  next
    case False
    then have "(y - 1) div k = y div k"
      using y r by (intro int_div_pos_eq [where r = "y mod k - 1"]) linarith+
    with False show ?thesis by simp
  qed
qed

lemma mod_100_4: "y mod 100 = 0 \<Longrightarrow> y mod 4 = (0::int)"
  using mod_mod_cancel [of 4 100 y] by simp

lemma mod_400_100: "y mod 400 = 0 \<Longrightarrow> y mod 100 = (0::int)"
  using mod_mod_cancel [of 100 400 y] by simp

lemma days_before_year_Suc: "days_before_year (y + 1) = days_before_year y + (if is_leap y then 366 else 365)"
proof -
  have A: "y div 4 = (y - 1) div 4 + (if y mod 4 = 0 then 1 else 0)"
    and B: "y div 100 = (y - 1) div 100 + (if y mod 100 = 0 then 1 else 0)"
    and C: "y div 400 = (y - 1) div 400 + (if y mod 400 = 0 then 1 else 0)"
    by (intro div_pred; simp)+
  have "days_before_year (y + 1) = 365 * y + y div 4 - y div 100 + y div 400"
    by (simp add: days_before_year_def)
  also have "\<dots> = days_before_year y + (if is_leap y then 366 else 365)"
    unfolding A B C days_before_year_def is_leap_def using mod_100_4 [of y] mod_400_100 [of y]
    by (cases "y mod 4 = 0"; cases "y mod 100 = 0"; cases "y mod 400 = 0") simp_all
  finally show ?thesis .
qed

text \<open>The year split into four-century, century, four-year and year steps.\<close>

lemma cal_expand:
  assumes "0 \<le> b" "b \<le> 3" "0 \<le> c" "c \<le> 24" "0 \<le> e" "e \<le> 3"
  shows "days_before_year (400 * a + 100 * b + 4 * c + e + 1) = 146097 * a + 36524 * b + 1461 * c + 365 * e"
    and "is_leap (400 * a + 100 * b + 4 * c + e + 1) \<longleftrightarrow> e = 3 \<and> (c < 24 \<or> b = 3)"
proof -
  let ?y = "400 * a + 100 * b + 4 * c + e"
  have "?y div 4 = 100 * a + 25 * b + c" using assms by (intro int_div_pos_eq [where r = e]) auto
  moreover have "?y div 100 = 4 * a + b" using assms by (intro int_div_pos_eq [where r = "4 * c + e"]) auto
  moreover have "?y div 400 = a" using assms by (intro int_div_pos_eq [where r = "100 * b + 4 * c + e"]) auto
  ultimately show "days_before_year (?y + 1) = 146097 * a + 36524 * b + 1461 * c + 365 * e"
    by (simp add: days_before_year_def)
  have m4: "(?y + 1) mod 4 = (e + 1) mod 4"
    using mod_mult_self1 [of "e + 1" "100 * a + 25 * b + c" 4] by (simp add: algebra_simps)
  have m100: "(?y + 1) mod 100 = (4 * c + e + 1) mod 100"
    using mod_mult_self1 [of "4 * c + e + 1" "4 * a + b" 100] by (simp add: algebra_simps)
  have m400: "(?y + 1) mod 400 = (100 * b + 4 * c + e + 1) mod 400"
    using mod_mult_self1 [of "100 * b + 4 * c + e + 1" a 400] by (simp add: algebra_simps)
  have e4: "(e + 1) mod 4 = 0 \<longleftrightarrow> e = 3" using assms by presburger
  have c100: "(4 * c + 4) mod 100 = 0 \<longleftrightarrow> c = 24"
    using assms by (cases "c = 24") (auto simp: mod_pos_pos_trivial)
  have b400: "(100 * b + 100) mod 400 = 0 \<longleftrightarrow> b = 3"
    using assms by (cases "b = 3") (auto simp: mod_pos_pos_trivial)
  have leap: "is_leap (?y + 1) \<longleftrightarrow>
      (e + 1) mod 4 = 0 \<and> ((4 * c + e + 1) mod 100 \<noteq> 0 \<or> (100 * b + 4 * c + e + 1) mod 400 = 0)"
    by (simp only: is_leap_def m4 m100 m400)
  show "is_leap (?y + 1) \<longleftrightarrow> e = 3 \<and> (c < 24 \<or> b = 3)"
  proof (cases "e = 3")
    case True
    then have "4 * c + e + 1 = 4 * c + 4" and "100 * b + 4 * c + e + 1 = 100 * b + 4 * c + 4" by auto
    then have "is_leap (?y + 1) \<longleftrightarrow> c \<noteq> 24 \<or> (100 * b + 4 * c + 4) mod 400 = 0"
      unfolding leap using c100 e4 True by (simp only:) blast
    moreover have "(100 * b + 4 * c + 4) mod 400 = 0 \<longleftrightarrow> b = 3" if "c = 24"
    proof -
      have "100 * b + 4 * c + 4 = 100 * b + 100" using that by simp
      then show ?thesis using b400 by (simp only:)
    qed
    ultimately show ?thesis using True assms by auto
  next
    case False
    then show ?thesis unfolding leap using e4 by simp
  qed
qed

lemma min3_div:
  assumes "0 \<le> x" and "x \<le> 4 * k" and "0 < (k::int)"
  shows "0 \<le> min 3 (x div k)" and "min 3 (x div k) \<le> 3" and "k * min 3 (x div k) \<le> x"
    and "x \<le> k * min 3 (x div k) + k" and "min 3 (x div k) < 3 \<Longrightarrow> x < k * min 3 (x div k) + k"
proof -
  have q: "x = k * (x div k) + x mod k" "0 \<le> x mod k" "x mod k < k" using assms by simp_all
  have q0: "0 \<le> x div k" using assms by (simp add: pos_imp_zdiv_nonneg_iff)
  show "0 \<le> min 3 (x div k)" "min 3 (x div k) \<le> 3" using q0 by auto
  have "k * min 3 (x div k) \<le> k * (x div k)" using assms(3) by (intro mult_left_mono) auto
  then show "k * min 3 (x div k) \<le> x" using q by linarith
  show lt: "x < k * min 3 (x div k) + k" if "min 3 (x div k) < 3"
  proof -
    have "min 3 (x div k) = x div k" using that by linarith
    then have "k * min 3 (x div k) = k * (x div k)" by simp
    then show ?thesis using q by linarith
  qed
  show "x \<le> k * min 3 (x div k) + k"
  proof (cases "min 3 (x div k) < 3")
    case False
    then have "min 3 (x div k) = 3" by linarith
    then show ?thesis using assms(2) by simp
  qed (use lt in linarith)
qed

lemma year_of_day_bounds:
  "days_before_year (year_of_day d) \<le> d \<and> d < days_before_year (year_of_day d + 1)"
proof -
  define a d1 where "a = d div 146097" and "d1 = d mod 146097"
  define b where "b = min 3 (d1 div 36524)"
  define d2 where "d2 = d1 - 36524 * b"
  define c d3 where "c = d2 div 1461" and "d3 = d2 mod 1461"
  define e where "e = min 3 (d3 div 365)"
  have d: "d = 146097 * a + d1" "0 \<le> d1" "d1 < 146097" by (simp_all add: a_def d1_def)
  have b: "0 \<le> b" "b \<le> 3" "0 \<le> d2" "b < 3 \<Longrightarrow> d2 < 36524" "d2 \<le> 36524"
    using min3_div [of d1 36524] d(2,3) unfolding b_def d2_def by linarith+
  have c: "d2 = 1461 * c + d3" "0 \<le> d3" "d3 < 1461" by (simp_all add: c_def d3_def)
  have "0 \<le> 1461 * c + 1460" and "1461 * c \<le> 36524" using b c by linarith+
  then have c24: "0 \<le> c" "c \<le> 24" by linarith+
  have e: "0 \<le> e" "e \<le> 3" "365 * e \<le> d3" "d3 < 365 * e + 366" "e < 3 \<Longrightarrow> d3 < 365 * e + 365"
    using min3_div [of d3 365] c(2,3) unfolding e_def by linarith+
  let ?y = "400 * a + 100 * b + 4 * c + e + 1"
  have y: "year_of_day d = ?y"
    by (simp only: year_of_day_def Let_def a_def b_def c_def d1_def d2_def d3_def e_def)
  have x: "d = 146097 * a + 36524 * b + 1461 * c + d3" using d(1) c(1) unfolding d2_def by linarith
  have L: "e = 3 \<and> (c < 24 \<or> b = 3)" if "365 * e + 365 \<le> d3"
  proof
    show "e = 3" using that e by linarith
    show "c < 24 \<or> b = 3"
    proof (rule ccontr)
      assume "\<not> (c < 24 \<or> b = 3)"
      then have "c = 24" and "d2 < 36524" using b c24 by auto
      then show False using that c \<open>e = 3\<close> by linarith
    qed
  qed
  note ce = cal_expand [OF b(1,2) c24 e(1,2)]
  have n: "days_before_year (year_of_day d + 1) = 146097 * a + 36524 * b + 1461 * c + 365 * e
      + (if e = 3 \<and> (c < 24 \<or> b = 3) then 366 else 365)"
    unfolding y days_before_year_Suc [of ?y] ce by (rule refl)
  have "d < days_before_year (year_of_day d + 1)"
  proof (cases "365 * e + 365 \<le> d3")
    case True
    then show ?thesis using L x e unfolding n by simp
  next
    case False
    then show ?thesis using x unfolding n by (simp split: if_split)
  qed
  moreover have "days_before_year (year_of_day d) \<le> d"
    unfolding y ce using x e by linarith
  ultimately show ?thesis by blast
qed

lemma days_before_year_step: "days_before_year y + 365 \<le> days_before_year (y + 1)"
  by (simp add: days_before_year_Suc)

lemma days_before_year_mono: "x \<le> y \<Longrightarrow> days_before_year x \<le> days_before_year y"
proof (induction y rule: int_ge_induct)
  case (step i)
  then show ?case using days_before_year_step [of i] by linarith
qed simp

lemma year_of_day_unique:
  assumes "days_before_year y \<le> d" and "d < days_before_year (y + 1)"
  shows "year_of_day d = y"
proof (rule ccontr)
  assume "year_of_day d \<noteq> y"
  then consider "year_of_day d + 1 \<le> y" | "y + 1 \<le> year_of_day d" by linarith
  then show False
    using assms year_of_day_bounds [of d] days_before_year_mono [of "year_of_day d + 1" y]
      days_before_year_mono [of "y + 1" "year_of_day d"]
    by cases auto
qed

lemma yday_bounds:
  "0 \<le> yday_of_day d" "yday_of_day d < days_before_month (is_leap (year_of_day d)) 13"
  using year_of_day_bounds [of d]
  by (auto simp: yday_of_day_def days_before_year_Suc days_before_month_def split: if_splits)

fun chain_to_12 :: "int \<Rightarrow> int list \<Rightarrow> bool" where
  "chain_to_12 m [] = (m = 12)"
| "chain_to_12 m (x # xs) = (x = m \<and> chain_to_12 (m + 1) xs)"

lemma chain_to_12_le: "chain_to_12 m ms \<Longrightarrow> m \<le> 12"
  by (induction ms arbitrary: m) force+

lemma find_month_first:
  "chain_to_12 m ms \<Longrightarrow> m \<le> 12 \<Longrightarrow> days_before_month leap m \<le> yd \<Longrightarrow> yd < days_before_month leap 13 \<Longrightarrow>
    m \<le> find_month leap yd ms \<and> find_month leap yd ms \<le> 12
    \<and> days_before_month leap (find_month leap yd ms) \<le> yd \<and> yd < days_before_month leap (find_month leap yd ms + 1)"
proof (induction ms arbitrary: m)
  case (Cons x xs)
  have "m + 1 \<le> 12" using Cons.prems chain_to_12_le [of "m + 1" xs] by simp
  then show ?case using Cons.IH [of "m + 1"] Cons.prems by force
qed simp

lemma find_month_range:
  assumes "0 \<le> yd" and "yd < days_before_month leap 13"
  shows "1 \<le> find_month leap yd [1, 2, 3, 4, 5, 6, 7, 8, 9, 10, 11]"
    and "find_month leap yd [1, 2, 3, 4, 5, 6, 7, 8, 9, 10, 11] \<le> 12"
    and "days_before_month leap (find_month leap yd [1, 2, 3, 4, 5, 6, 7, 8, 9, 10, 11]) \<le> yd"
    and "yd < days_before_month leap (find_month leap yd [1, 2, 3, 4, 5, 6, 7, 8, 9, 10, 11] + 1)"
proof -
  have "chain_to_12 1 [1, 2, 3, 4, 5, 6, 7, 8, 9, 10, 11]" by simp
  note f = find_month_first [OF this one_le_numeral _ assms(2)]
  have "days_before_month leap 1 \<le> yd" using assms by (simp add: days_before_month_def)
  note f = f [OF this]
  show "1 \<le> find_month leap yd [1, 2, 3, 4, 5, 6, 7, 8, 9, 10, 11]"
    "find_month leap yd [1, 2, 3, 4, 5, 6, 7, 8, 9, 10, 11] \<le> 12"
    "days_before_month leap (find_month leap yd [1, 2, 3, 4, 5, 6, 7, 8, 9, 10, 11]) \<le> yd"
    "yd < days_before_month leap (find_month leap yd [1, 2, 3, 4, 5, 6, 7, 8, 9, 10, 11] + 1)"
    using f by blast+
qed

lemma twelve: "1 \<le> m \<Longrightarrow> m \<le> 12 \<Longrightarrow> m \<in> {1, 2, 3, 4, 5, 6, 7, 8, 9, 10, 11, 12 :: int}"
  by simp presburger

lemma find_month_unique:
  assumes "1 \<le> m" "m \<le> 12" "days_before_month leap m \<le> yd" "yd < days_before_month leap (m + 1)"
  shows "find_month leap yd [1, 2, 3, 4, 5, 6, 7, 8, 9, 10, 11] = m"
  using twelve [OF assms(1,2)] assms(3,4)
  by (simp only: insert_iff empty_iff HOL.simp_thms) (elim disjE; cases leap; simp add: days_before_month_def)

lemmas month_range = find_month_range [OF yday_bounds, folded month_of_day_def]

text \<open>A day is the number of its own calendar fields.\<close>

lemma day_number_fields: "day_number (year_of_day d) (month_of_day d) (mday_of_day d) = d"
proof -
  have m: "1 \<le> month_of_day d" "month_of_day d \<le> 12" by (rule month_range)+
  then have "(month_of_day d - 1) div 12 = 0" "(month_of_day d - 1) mod 12 = month_of_day d - 1" by auto
  then show ?thesis by (simp add: day_number_def mday_of_day_def yday_of_day_def Let_def)
qed

text \<open>The first of a month has the fields it was built from.\<close>

lemma fields_first_of_month:
  assumes "1 \<le> m" "m \<le> 12"
  shows "year_of_day (day_number y m 1) = y" and "month_of_day (day_number y m 1) = m"
    and "mday_of_day (day_number y m 1) = 1"
proof -
  have n: "day_number y m 1 = days_before_year y + days_before_month (is_leap y) m"
    using assms by (simp add: day_number_def Let_def)
  have r: "0 \<le> days_before_month (is_leap y) m"
    "days_before_month (is_leap y) m < days_before_month (is_leap y) (m + 1)"
    "days_before_month (is_leap y) m < (if is_leap y then 366 else 365)"
    using twelve [OF assms] by (auto simp: days_before_month_def)
  show y: "year_of_day (day_number y m 1) = y"
    using r(1,3) unfolding n by (intro year_of_day_unique) (auto simp: days_before_year_Suc)
  have yd: "yday_of_day (day_number y m 1) = days_before_month (is_leap y) m"
    unfolding yday_of_day_def y by (simp add: n)
  show mo: "month_of_day (day_number y m 1) = m"
    unfolding month_of_day_def y yd using assms r by (intro find_month_unique) auto
  show "mday_of_day (day_number y m 1) = 1"
    unfolding mday_of_day_def y mo yd by simp
qed

lemma mday_pos: "1 \<le> mday_of_day d"
  using month_range(3) [of d] by (simp add: mday_of_day_def)

lemma day_number_mday: "1 \<le> m \<Longrightarrow> m \<le> 12 \<Longrightarrow> day_number y m d = day_number y m 1 + (d - 1)"
  by (simp add: day_number_def Let_def)

lemma day_of_Date [simp]: "day_of (time_Date y m d) = day_number y m d"
  by (simp add: day_of_def time_Date_def nsDay_def)

lemma day_of_bounds: "day_of t * nsDay \<le> t" "t < (day_of t + 1) * nsDay"
proof -
  have "t = nsDay * day_of t + t mod nsDay" "0 \<le> t mod nsDay" "t mod nsDay < nsDay"
    by (simp_all add: day_of_def nsDay_def)
  then show "day_of t * nsDay \<le> t" "t < (day_of t + 1) * nsDay" by (simp_all add: algebra_simps)
qed

subsection \<open>Months\<close>

lemma time_Date_fields:
  assumes "1 \<le> m" "m \<le> 12"
  shows "time_Year (time_Date y m 1) = y" and "time_Month (time_Date y m 1) = m" and "time_Day (time_Date y m 1) = 1"
  using fields_first_of_month [OF assms] by (simp_all add: time_Year_def time_Month_def time_Day_def)

lemma add_month_first:
  assumes "1 \<le> m" "m \<le> 12"
  shows "add_months (time_Date y m 1) 1 = time_Date y (m + 1) 1"
  by (simp add: add_months_def time_Date_fields [OF assms]) (simp add: time_Date_def)

lemma time_Month_range: "1 \<le> time_Month t" "time_Month t \<le> 12"
  by (simp_all add: time_Month_def month_range)

lemma next_month_day:
  "day_of t < day_number (time_Year t) (time_Month t + 1) 1"
proof (cases "time_Month t = 12")
  case True
  have "day_of t < days_before_year (time_Year t + 1)"
    using year_of_day_bounds [of "day_of t"] by (simp add: time_Year_def)
  then show ?thesis using True by (simp add: day_number_def Let_def days_before_month_def)
next
  case False
  then have m: "1 \<le> time_Month t + 1" "time_Month t + 1 \<le> 12" using time_Month_range [of t] by auto
  have "yday_of_day (day_of t) < days_before_month (is_leap (time_Year t)) (time_Month t + 1)"
    using month_range(4) [of "day_of t"] by (simp add: time_Month_def time_Year_def)
  then show ?thesis using m by (simp add: day_number_def Let_def yday_of_day_def time_Year_def)
qed

lemma month_start_le: "time_Date (time_Year t) (time_Month t) 1 \<le> t"
proof -
  have "day_number (time_Year t) (time_Month t) (time_Day t) = day_of t"
    by (simp add: time_Year_def time_Month_def time_Day_def day_number_fields)
  then have "day_number (time_Year t) (time_Month t) 1 \<le> day_of t"
    using day_number_mday [OF time_Month_range(1) [of t] time_Month_range(2) [of t], of "time_Year t" "time_Day t"]
      mday_pos [of "day_of t"]
    by (simp add: time_Day_def)
  then have "day_number (time_Year t) (time_Month t) 1 * nsDay \<le> day_of t * nsDay"
    by (intro mult_right_mono) (simp_all add: nsDay_def)
  then show ?thesis using day_of_bounds(1) [of t] by (simp add: time_Date_def)
qed

lemma month_end_gt: "t < time_Date (time_Year t) (time_Month t + 1) 1"
proof -
  have "(day_of t + 1) * nsDay \<le> day_number (time_Year t) (time_Month t + 1) 1 * nsDay"
    using next_month_day [of t] by (intro mult_right_mono) (simp_all add: nsDay_def)
  then show ?thesis using day_of_bounds(2) [of t] by (simp add: time_Date_def)
qed

lemma day_start_le: "time_Date (time_Year t) (time_Month t) (time_Day t) \<le> t"
  "t < time_Date (time_Year t) (time_Month t) (time_Day t) + nsDay"
proof -
  have "day_number (time_Year t) (time_Month t) (time_Day t) = day_of t"
    by (simp add: time_Year_def time_Month_def time_Day_def day_number_fields)
  then show "time_Date (time_Year t) (time_Month t) (time_Day t) \<le> t"
    "t < time_Date (time_Year t) (time_Month t) (time_Day t) + nsDay"
    using day_of_bounds [of t] by (simp_all add: time_Date_def algebra_simps)
qed

subsection \<open>Months tile time\<close>

definition month_start :: "int \<Rightarrow> gotime" where
  "month_start k = time_Date (k div 12) (k mod 12 + 1) 1"

definition month_index :: "gotime \<Rightarrow> int" where
  "month_index t = 12 * time_Year t + (time_Month t - 1)"

lemma time_Date_12: "time_Date (y + (m - 1) div 12) ((m - 1) mod 12 + 1) d = time_Date y m d"
  by (simp add: time_Date_def day_number_def Let_def)

lemma month_start_index: "time_Date y (m + 1) 1 = month_start (12 * y + m)"
  using time_Date_12 [of y "m + 1" 1] by (simp add: month_start_def)

lemma month_start_of: "time_Date (time_Year t) (time_Month t) 1 = month_start (month_index t)"
  using month_start_index [of "time_Year t" "time_Month t - 1"] by (simp add: month_index_def)

lemma month_next_of: "time_Date (time_Year t) (time_Month t + 1) 1 = month_start (month_index t + 1)"
  using month_start_index [of "time_Year t" "time_Month t"] by (simp add: month_index_def)

lemma month_index_start: "month_index (month_start k) = k"
proof -
  have "1 \<le> k mod 12 + 1" "k mod 12 + 1 \<le> 12" by simp_all
  from time_Date_fields [OF this] show ?thesis by (simp add: month_index_def month_start_def)
qed

lemma month_start_less_Suc: "month_start k < month_start (k + 1)"
  using month_end_gt [of "month_start k"] by (simp add: month_next_of month_index_start)

lemma month_start_mono: "j \<le> k \<Longrightarrow> month_start j \<le> month_start k"
  by (induction k rule: int_ge_induct) (use month_start_less_Suc in \<open>auto intro: less_imp_le order_trans\<close>)

lemma month_index_unique:
  assumes "month_start k \<le> t" "t < month_start (k + 1)"
  shows "month_index t = k"
proof (rule ccontr)
  assume "month_index t \<noteq> k"
  then consider "month_index t + 1 \<le> k" | "k + 1 \<le> month_index t" by linarith
  then show False
  proof cases
    case 1
    from month_start_mono [OF 1] show False using assms month_end_gt [of t] by (simp add: month_next_of)
  next
    case 2
    from month_start_mono [OF 2] show False using assms month_start_le [of t] by (simp add: month_start_of)
  qed
qed

lemma add_month_start: "add_months (month_start k) 1 = month_start (k + 1)"
proof -
  have m: "1 \<le> k mod 12 + 1" "k mod 12 + 1 \<le> 12" by simp_all
  show ?thesis
    using add_month_first [OF m, of "k div 12"] month_start_index [of "k div 12" "k mod 12 + 1"]
    by (simp add: month_start_def [of k])
qed

end
