(* ===== verification/FloatFacts.thy ===== *)
theory FloatFacts
  imports GoFloat
begin

text \<open>
  Facts about float64 arithmetic the cost calculations rest on: exactness of small literals,
  the sign of a difference, quotients against one, and a percentage reaching 100.
\<close>

named_theorems lits \<open>values of literals\<close>

lemma rnd_numeral [lits]: "numeral n \<le> (2 ^ 53 :: int) \<Longrightarrow> rnd (numeral n) = numeral n"
  using rnd_of_int [of "numeral n"] by simp

lemma fval_lit_numeral [lits]:
  "numeral n \<le> (2 ^ 53 :: int) \<Longrightarrow> fval (lit (numeral n)) = numeral n"
  using lit_small_int [of "numeral n"] by simp

lemma fin_lit_numeral [lits]: "numeral n \<le> (2 ^ 53 :: int) \<Longrightarrow> is_fin (lit (numeral n))"
  using lit_small_int [of "numeral n"] by simp

lemma lit_1 [lits]: "fval (lit 1) = 1" "is_fin (lit 1)"
  using lit_small_int [of 1] by simp_all

lemma rnd_1 [lits, simp]: "rnd 1 = 1"
  using rnd_of_int [of 1] by simp

lemma rnd_powi [lits]: "- 1074 \<le> e \<Longrightarrow> rnd (2 powi e) = 2 powi e"
  using rnd_exact [of 1 e] by simp

lemma lit_numeral_pos [lits]: "numeral n \<le> (2 ^ 53 :: int) \<Longrightarrow> 0 < lit (numeral n)"
  by (simp add: f_pos_iff fval_lit_numeral del: fval_mkf)

lemma lit_1_pos [lits]: "0 < lit 1"
  by (simp add: f_pos_iff lits del: fval_mkf)

lemma lit_mono: "r \<le> s \<Longrightarrow> lit r \<le> lit s"
  by (simp add: less_eq_f64_def xrnd_mono)

lemma f_fin_nonneg: "0 \<le> x \<Longrightarrow> fval x < topval \<Longrightarrow> is_fin x"
  using f_fin_iff [of x] by auto

subsection \<open>Differences\<close>

lemma fman_bound: "\<bar>fman x\<bar> < 2 ^ 53"
  using frac_range [of x] by (simp add: fman_def Let_def)

lemma fpow_ge: "- 1074 \<le> fpow x"
  using fexp_nonneg [of x] by (simp add: fpow_def)

text \<open>Two different float64 values differ by at least the least positive one (gradual underflow).\<close>

lemma fval_gap:
  assumes "fval x < fval y"
  shows "2 powi (- 1074) \<le> fval y - fval x"
proof -
  let ?e = "min (fpow x) (fpow y)"
  have x: "fval x = of_int (fscale x ?e) * 2 powi ?e" and y: "fval y = of_int (fscale y ?e) * 2 powi ?e"
    by (simp_all only: fval_scale min.cobounded1 min.cobounded2)
  have "fscale x ?e < fscale y ?e" using assms fval_less [of x y] by (simp add: Let_def)
  then have "1 \<le> (of_int (fscale y ?e - fscale x ?e) :: rat)" by simp
  then have "1 * 2 powi ?e \<le> of_int (fscale y ?e - fscale x ?e) * (2 powi ?e :: rat)"
    by (intro mult_right_mono) simp_all
  also have "\<dots> = fval y - fval x" by (simp add: x [symmetric] y [symmetric] left_diff_distrib)
  finally have "2 powi ?e \<le> fval y - fval x" by simp
  moreover have "(2::rat) powi (- 1074) \<le> 2 powi ?e"
    using fpow_ge [of x] fpow_ge [of y] by (subst powi2_le_iff) simp
  ultimately show ?thesis by simp
qed

lemma xrnd_gap: "2 powi (- 1074) \<le> r \<Longrightarrow> 0 < xrnd r"
proof -
  assume "2 powi (- 1074) \<le> r"
  then have "2 powi (- 1074) \<le> rnd r" by (intro rnd.ge_repr rnd_powi order_refl)
  moreover have "(0::rat) < 2 powi (- 1074)" by simp
  ultimately have "0 < rnd r" by (rule less_le_trans [rotated])
  then show ?thesis using topval_pos by (simp add: xrnd_def)
qed

lemma f_sub_pos_iff:
  assumes "is_fin x" and "is_fin y"
  shows "0 < y - x \<longleftrightarrow> x < y"
proof -
  have "0 < xrnd (fval y - fval x) \<longleftrightarrow> fval x < fval y"
    using xrnd_gap fval_gap [of x y] xrnd.le_repr [of 0 "fval y - fval x"]
    by (metis diff_ge_0_iff_ge leD leI le_iff_diff_le_0 xrnd.zero)
  then show ?thesis using fin_sub [OF assms(2,1)] assms by (simp add: less_f64_def)
qed

lemma f_sub_le:
  assumes "is_fin x" and "is_fin y" and "0 \<le> x"
  shows "y - x \<le> y"
proof -
  have "xrnd (fval y - fval x) \<le> fval y"
    using assms by (intro xrnd.le_repr) (simp_all add: f_nonneg_iff)
  then show ?thesis using fin_sub [OF assms(2,1)] assms by (simp add: less_eq_f64_def)
qed

lemma f_sub_nonneg:
  assumes "is_fin x" and "is_fin y" and "x \<le> y"
  shows "0 \<le> y - x"
  using fin_sub [OF assms(2,1)] xrnd.pos_part [of "fval y - fval x"] assms(3)
  by (simp add: less_eq_f64_def)

subsection \<open>Quotients\<close>

lemma f_div_ge1:
  assumes "0 < y" and "y \<le> x" and "is_fin y"
  shows "lit 1 \<le> x / y"
proof -
  have x0: "0 \<le> x" using assms f_less_imp_le f_le_trans by blast
  have n: "\<not> is_nan (x / y)" using x0 assms f_div_not_nan by blast
  have "1 \<le> fval x / fval y" using assms by (auto dest!: f_leD f_lessD simp: f_pos_iff)
  then have "1 \<le> xrnd (fval x / fval y)"
    using xrnd_id [of 1] topval_pos big_topval by (intro xrnd.ge_repr) (auto simp: topval_def)
  moreover have "(1::rat) \<le> topval" by (simp add: topval_def)
  ultimately have "1 \<le> fval (x / y)"
    using f_div_fin_iff [OF x0 assms(1) n] assms(3) by auto
  then show ?thesis using n by (simp add: less_eq_f64_def lits del: fval_mkf)
qed

lemma f_div_le1:
  assumes "0 \<le> x" and "x \<le> y" and "0 < y" and "is_fin y"
  shows "x / y \<le> lit 1"
proof -
  have n: "\<not> is_nan (x / y)" using assms f_div_not_nan by blast
  have fx: "is_fin x" using assms(1,2,4) by (rule f_le_fin)
  have "fval x / fval y \<le> 1" using assms by (auto dest!: f_leD f_lessD simp: f_pos_iff)
  then have "xrnd (fval x / fval y) \<le> 1" by (intro xrnd.le_repr xrnd_id) (auto simp: topval_def)
  then have "fval (x / y) \<le> 1"
    using f_div_fin_iff [OF assms(1,3) n] assms(4) fx by simp
  then show ?thesis using n by (simp add: less_eq_f64_def lits del: fval_mkf)
qed

text \<open>The quotient of a smaller by a larger float64 is at most the predecessor of one.\<close>

lemma fpow_normal: "- 1074 < fpow x \<Longrightarrow> 2 ^ 52 \<le> \<bar>fman x\<bar>"
  using frac_range [of x] by (auto simp: fpow_def fman_def Let_def split: if_splits)

lemma quotient_below_one:
  assumes "0 \<le> fval x" and "fval x < fval y"
  shows "fval x * 2 ^ 53 \<le> fval y * (2 ^ 53 - 1)"
proof (cases "fpow y \<le> fpow x")
  case True
  let ?e = "fpow y"
  have x: "fval x = of_int (fscale x ?e) * 2 powi ?e" using fval_scale [OF True] .
  have y: "fval y = of_int (fman y) * 2 powi ?e" by (rule fval_dyadic)
  have "fscale x ?e < fman y"
  proof -
    have "of_int (fscale x ?e) * (2::rat) powi ?e < of_int (fman y) * 2 powi ?e" using assms(2) x y by simp
    then show ?thesis by (simp add: mult_less_cancel_right)
  qed
  then have "fscale x ?e * 2 ^ 53 \<le> (fman y - 1) * 2 ^ 53" by simp
  also have "\<dots> \<le> fman y * (2 ^ 53 - 1)" using fman_bound [of y] by (simp add: algebra_simps)
  finally have "of_int (fscale x ?e * 2 ^ 53) \<le> (of_int (fman y * (2 ^ 53 - 1)) :: rat)"
    by (simp only: of_int_le_iff)
  then have "of_int (fscale x ?e * 2 ^ 53) * 2 powi ?e \<le> (of_int (fman y * (2 ^ 53 - 1)) :: rat) * 2 powi ?e"
    by (rule mult_right_mono) simp
  then show ?thesis unfolding x y by (simp add: algebra_simps)
next
  case False
  let ?e = "fpow x"
  have le: "?e \<le> fpow y" and n: "2 ^ 52 \<le> \<bar>fman y\<bar>" using False fpow_normal [of y] fpow_ge [of x] by auto
  have y: "fval y = of_int (fscale y ?e) * 2 powi ?e" using fval_scale [OF le] .
  have x: "fval x = of_int (fman x) * 2 powi ?e" by (rule fval_dyadic)
  have "0 < fval y" using assms by simp
  then have pos: "0 < fman y" using powi2_pos [of "fpow y"] by (simp add: fval_dyadic zero_less_mult_iff del: powi2_pos)
  have "(2::int) ^ 1 \<le> 2 ^ nat (fpow y - ?e)" using False by (intro power_increasing) auto
  then have "2 ^ 52 * 2 ^ 1 \<le> fman y * 2 ^ nat (fpow y - ?e)"
    using n pos by (intro mult_mono) auto
  then have "2 ^ 53 \<le> fscale y ?e" by (simp add: fscale_def)
  then have "fman x * 2 ^ 53 \<le> fscale y ?e * (2 ^ 53 - 1)"
    using fman_bound [of x] by (simp add: abs_less_iff)
  then have "of_int (fman x * 2 ^ 53) \<le> (of_int (fscale y ?e * (2 ^ 53 - 1)) :: rat)"
    by (simp only: of_int_le_iff)
  then have "of_int (fman x * 2 ^ 53) * 2 powi ?e \<le> (of_int (fscale y ?e * (2 ^ 53 - 1)) :: rat) * 2 powi ?e"
    by (rule mult_right_mono) simp
  then show ?thesis unfolding x y by (simp add: algebra_simps)
qed

lemma pred_one: "rnd ((2 ^ 53 - 1) / 2 ^ 53) = (2 ^ 53 - 1) / 2 ^ 53"
proof -
  have "(2 :: rat) powi (- 53) = inverse (2 powi 53)" by (rule power_int_minus)
  then have "(2 :: rat) powi (- 53) = 1 / 2 ^ 53" by (simp add: inverse_eq_divide)
  then have e: "of_int (2 ^ 53 - 1) * (2 :: rat) powi (- 53) = (2 ^ 53 - 1) / 2 ^ 53"
    by simp
  have "rnd (of_int (2 ^ 53 - 1) * 2 powi (- 53)) = of_int (2 ^ 53 - 1) * 2 powi (- 53)"
    by (rule rnd_exact) simp_all
  then show ?thesis unfolding e .
qed

lemma f_div_lt1:
  assumes "0 \<le> x" and "x < y" and "is_fin y"
  shows "\<not> is_nan (x / y)" and "fval (x / y) \<le> (2 ^ 53 - 1) / 2 ^ 53"
proof -
  have y0: "0 < y" using assms f_le_less_trans by blast
  show n: "\<not> is_nan (x / y)" using assms y0 f_div_not_nan by blast
  have fx: "is_fin x" using assms f_less_imp_le f_le_fin by blast
  have "fval x / fval y \<le> (2 ^ 53 - 1) / 2 ^ 53"
    using quotient_below_one [of x y] assms y0
    by (simp add: f_nonneg_iff f_pos_iff less_f64_def divide_le_eq mult.commute)
  then have "xrnd (fval x / fval y) \<le> (2 ^ 53 - 1) / 2 ^ 53"
    using pred_one by (intro xrnd.le_repr xrnd_id) (auto simp: topval_def)
  then show "fval (x / y) \<le> (2 ^ 53 - 1) / 2 ^ 53"
    using f_div_fin_iff [OF assms(1) y0 n] assms(3) fx by simp
qed

lemma percent_pred_one: "rnd ((2 ^ 53 - 1) / 2 ^ 53 * 100) < 100"
proof -
  have "lit ((2 ^ 53 - 1) / 2 ^ 53 * 100) < lit 100" by code_simp
  then have "xrnd ((2 ^ 53 - 1) / 2 ^ 53 * 100) < 100"
    by (auto dest!: f_lessD simp add: lits simp del: power_numeral) (simp add: xrnd_id rnd_numeral topval_def)
  then show ?thesis by (simp add: xrnd_def topval_def split: if_splits)
qed

text \<open>A percentage computed as \<open>x / y * 100\<close> reaches 100 exactly when \<open>x\<close> reaches \<open>y\<close>.\<close>

lemma f_percent_100:
  assumes "0 \<le> x" and "0 < y" and "is_fin y"
  shows "lit 100 \<le> x / y * lit 100 \<longleftrightarrow> y \<le> x"
proof
  assume "y \<le> x"
  then have q: "lit 1 \<le> x / y" using assms f_div_ge1 by blast
  have n: "\<not> is_nan (x / y)" using q by (simp add: less_eq_f64_def)
  have q0: "0 < x / y" using q f_less_le_trans lit_1_pos by blast
  have l: "is_fin (lit 100)" "0 < lit 100" by (simp_all add: lits)
  have "\<not> is_nan (x / y * lit 100)" using n q0 l f_mul_not_nan [of "x / y" "lit 100"] by simp
  moreover have "\<not> is_nan (lit 1 * lit 100)" using lit_1 l by (intro fin_mul(1))
  ultimately have "lit 1 * lit 100 \<le> x / y * lit 100"
    using q f_less_imp_le [OF lit_1_pos] f_less_imp_le [OF l(2)] f_le_refl [of "lit 100"] by (intro f_mul_mono) simp_all
  moreover have "lit 1 * lit 100 = lit 100" by code_simp
  ultimately show "lit 100 \<le> x / y * lit 100" by simp
next
  assume p: "lit 100 \<le> x / y * lit 100"
  show "y \<le> x"
  proof (rule ccontr)
    assume "\<not> y \<le> x"
    then have "x < y" using assms by (simp add: f_not_le f_nonneg_iff f_pos_iff)
    then have n: "\<not> is_nan (x / y)" and q: "fval (x / y) \<le> (2 ^ 53 - 1) / 2 ^ 53"
      using f_div_lt1 assms by blast+
    have "0 \<le> x / y" using assms n f_div_nonneg by blast
    then have f: "is_fin (x / y)" using q by (intro f_fin_nonneg) (auto simp: topval_def)
    have "fval (x / y * lit 100) = xrnd (fval (x / y) * 100)"
      using fin_mul [OF f fin_lit_numeral] by (simp add: lits del: fval_mkf)
    also have "\<dots> \<le> xrnd ((2 ^ 53 - 1) / 2 ^ 53 * 100)" using q by (intro xrnd_mono mult_right_mono) simp_all
    also have "\<dots> = rnd ((2 ^ 53 - 1) / 2 ^ 53 * 100)"
      using percent_pred_one rnd_nonneg [of "(2 ^ 53 - 1) / 2 ^ 53 * 100"]
      by (intro xrnd_rnd_small) (simp add: topval_def)
    also have "\<dots> < 100" by (rule percent_pred_one)
    finally show False using p by (simp add: less_eq_f64_def lits del: fval_mkf)
  qed
qed

subsection \<open>Exact integer sums\<close>

lemma sgnb_lit: "sgnb (lit r) = (r < 0)"
  by simp

lemma mkf_sign: "r \<noteq> 0 \<Longrightarrow> mkf s r = lit r"
  by (simp add: mkf_def)

text \<open>Integers up to \<open>2 ^ 53\<close> add without rounding.\<close>

lemma lit_add:
  assumes "\<bar>m\<bar> \<le> 2 ^ 53" and "\<bar>n\<bar> \<le> 2 ^ 53"
  shows "lit (of_int m) + lit (of_int n) = lit (of_int (m + n))"
proof -
  let ?x = "lit (of_int m)" and ?y = "lit (of_int n)"
  have f: "is_fin ?x" "is_fin ?y" and v: "fval ?x = of_int m" "fval ?y = of_int n"
    using lit_small_int [OF assms(1)] lit_small_int [OF assms(2)] by blast+
  have c: "\<not> is_nan ?x" "\<not> is_nan ?y" "\<not> is_inf ?x" "\<not> is_inf ?y" using f fin_simps by blast+
  have s: "sgnb ?x = (m < 0)" "sgnb ?y = (n < 0)" by (simp_all only: sgnb_lit of_int_less_0_iff)
  have "?x + ?y = mkf (m < 0 \<and> n < 0) (of_int (m + n))"
    by (simp only: plus_f64_def fadd_def c if_False HOL.simp_thms s v of_int_add)
  also have "\<dots> = lit (of_int (m + n))"
  proof (cases "m + n = 0")
    case True
    then have "\<not> (m < 0 \<and> n < 0)" by linarith
    then show ?thesis by (simp only: HOL.simp_thms)
  next
    case False
    then have "of_int (m + n) \<noteq> (0::rat)" by (simp only: of_int_eq_0_iff HOL.simp_thms)
    then show ?thesis by (rule mkf_sign)
  qed
  finally show ?thesis .
qed

end
