(* ===== verification/Calculator.thy ===== *)
theory Calculator
  imports GoTime FloatFacts
begin

text \<open>
  \<open>internal/calculator/calculator.go\<close>: hourly cost of the hardware, token rates, cost per
  token, comparison with cloud prices and the break-even volume.  All arithmetic is float64.
\<close>

subsection \<open>Hourly cost\<close>

record HardwareCosts =
  PurchasePriceUSD :: f64
  AmortizationYears :: int32
  MaintenancePercentPerYear :: f64
  RatePerKWh :: f64
  PUEFactor :: f64

record CostResult =
  AmortizationPerHour :: f64
  ElectricityPerHour :: f64
  TotalPerHour :: f64
  CostPerToken :: f64
  CostPerMillionTokens :: f64
  GPUEfficiencyRatio :: f64

text \<open>Returns (amortization, electricity, total).\<close>

definition ComputeHourlyCost :: "HardwareCosts \<Rightarrow> f64 \<Rightarrow> f64 \<times> f64 \<times> f64" where
  "ComputeHourlyCost hw powerDrawWatts =
    (let hoursPerYear = lit 8760;
         totalYears = f_of_int32 (AmortizationYears hw);
         amortization = (PurchasePriceUSD hw * (lit 1 + MaintenancePercentPerYear hw)) / (totalYears * hoursPerYear);
         powerKW = powerDrawWatts / lit 1000;
         pue = (if feq (PUEFactor hw) 0 then lit 1 else PUEFactor hw);
         electricity = powerKW * RatePerKWh hw * pue;
         total = amortization + electricity
     in (amortization, electricity, total))"

subsection \<open>Token rates\<close>

record TokenSnapshot =
  ts_Timestamp :: gotime
  ts_InputTokens :: f64
  ts_OutputTokens :: f64

text \<open>Returns (inputPerHour, outputPerHour, totalPerHour).\<close>

definition ComputeTokenRate :: "TokenSnapshot \<Rightarrow> TokenSnapshot \<Rightarrow> f64 \<times> f64 \<times> f64" where
  "ComputeTokenRate prev cur =
    (let elapsed = time_Sub (ts_Timestamp cur) (ts_Timestamp prev) in
     if elapsed \<le> 0 then (0, 0, 0)
     else
       let hours = Hours elapsed;
           inputDelta = ts_InputTokens cur - ts_InputTokens prev;
           outputDelta = ts_OutputTokens cur - ts_OutputTokens prev;
           inputDelta = (if inputDelta < 0 then ts_InputTokens cur else inputDelta);
           outputDelta = (if outputDelta < 0 then ts_OutputTokens cur else outputDelta);
           inputPerHour = inputDelta / hours;
           outputPerHour = outputDelta / hours
       in (inputPerHour, outputPerHour, inputPerHour + outputPerHour))"

definition ComputeCostPerToken :: "f64 \<Rightarrow> f64 \<Rightarrow> f64" where
  "ComputeCostPerToken hourlyCost tokensPerHour =
    (if tokensPerHour \<le> 0 then 0 else hourlyCost / tokensPerHour)"

definition ActiveHoursCostPerMillionTokens :: "f64 \<Rightarrow> f64 \<Rightarrow> f64 \<Rightarrow> int64 \<Rightarrow> f64" where
  "ActiveHoursCostPerMillionTokens hourlyCost activeHours wallClockHours totalTokens =
    (if totalTokens \<le>s 0 \<or> activeHours \<le> 0 \<or> hourlyCost \<le> 0 then 0
     else
       let effectiveActiveHours =
             (if 0 < wallClockHours \<and> wallClockHours < activeHours then wallClockHours else activeHours);
           activeHoursCost = hourlyCost * effectiveActiveHours
       in activeHoursCost / (f_of_int64 totalTokens / lit 1000000))"

definition ComputeFull :: "HardwareCosts \<Rightarrow> f64 \<Rightarrow> TokenSnapshot \<Rightarrow> TokenSnapshot \<Rightarrow> CostResult" where
  "ComputeFull hw powerDrawWatts prev cur =
    (let (amort, elec, total) = ComputeHourlyCost hw powerDrawWatts;
         (inputRate, outputRate, totalRate) = ComputeTokenRate prev cur;
         cpt = ComputeCostPerToken total totalRate;
         efficiency = (if lit 10 < powerDrawWatts \<and> 0 < totalRate then lit 1
                       else if lit 10 < powerDrawWatts then 0 else 0)
     in \<lparr>AmortizationPerHour = amort, ElectricityPerHour = elec, TotalPerHour = total,
         CostPerToken = cpt, CostPerMillionTokens = cpt * lit 1000000, GPUEfficiencyRatio = efficiency\<rparr>)"

subsection \<open>Cloud prices\<close>

record CloudPricing =
  cp_Provider :: gostring
  cp_Model :: gostring
  cp_InputPerMillion :: f64
  cp_OutputPerMillion :: f64

record CloudComparison =
  cc_Provider :: gostring
  cc_Model :: gostring
  cc_CloudCostUSD :: f64
  cc_OnPremCostUSD :: f64
  cc_SavingsUSD :: f64
  cc_SavingsPercent :: f64

text \<open>The body of the loop of \<open>CompareToCloud\<close>.\<close>

definition compareOne :: "int64 \<Rightarrow> int64 \<Rightarrow> f64 \<Rightarrow> CloudPricing \<Rightarrow> CloudComparison" where
  "compareOne inputTokens outputTokens onPremCostUSD p =
    (let cloudCost = (f_of_int64 inputTokens / lit 1000000 * cp_InputPerMillion p)
           + (f_of_int64 outputTokens / lit 1000000 * cp_OutputPerMillion p);
         savings = cloudCost - onPremCostUSD;
         savingsPct = (if 0 < cloudCost then (savings / cloudCost) * lit 100 else 0)
     in \<lparr>cc_Provider = cp_Provider p, cc_Model = cp_Model p, cc_CloudCostUSD = cloudCost,
         cc_OnPremCostUSD = onPremCostUSD, cc_SavingsUSD = savings, cc_SavingsPercent = savingsPct\<rparr>)"

fun CompareToCloud :: "int64 \<Rightarrow> int64 \<Rightarrow> f64 \<Rightarrow> CloudPricing list \<Rightarrow> CloudComparison list" where
  "CompareToCloud inputTokens outputTokens onPremCostUSD [] = []"
| "CompareToCloud inputTokens outputTokens onPremCostUSD (p # pricing) =
    compareOne inputTokens outputTokens onPremCostUSD p # CompareToCloud inputTokens outputTokens onPremCostUSD pricing"

subsection \<open>Break-even\<close>

definition DailyHardwareCost :: "f64 \<Rightarrow> f64 \<Rightarrow> f64 \<Rightarrow> f64 \<Rightarrow> f64" where
  "DailyHardwareCost amortizationPerHour idleWatts ratePerKWh pueFactor =
    (let pue = (if pueFactor \<le> 0 then lit 1 else pueFactor);
         amortizationPerDay = amortizationPerHour * lit 24;
         idleElectricityPerDay = (idleWatts / lit 1000) * lit 24 * ratePerKWh * pue
     in amortizationPerDay + idleElectricityPerDay)"

definition CloudCostPerToken :: "CloudPricing \<Rightarrow> int64 \<Rightarrow> int64 \<Rightarrow> f64" where
  "CloudCostPerToken p inputTokens outputTokens =
    (let total = inputTokens + outputTokens;
         (inFrac, outFrac) =
           (if total \<le>s 0 then (lit (1/2), lit (1/2))
            else (f_of_int64 inputTokens / f_of_int64 total, f_of_int64 outputTokens / f_of_int64 total))
     in (inFrac * cp_InputPerMillion p + outFrac * cp_OutputPerMillion p) / lit 1000000)"

definition BreakEvenTokensPerDay :: "f64 \<Rightarrow> f64 \<Rightarrow> f64" where
  "BreakEvenTokensPerDay dailyHardwareCost cloudCostPerToken =
    (if cloudCostPerToken \<le> 0 then 0 else dailyHardwareCost / cloudCostPerToken)"

definition PercentOfBreakEven :: "f64 \<Rightarrow> f64 \<Rightarrow> f64" where
  "PercentOfBreakEven currentTokensPerDay breakEvenTokensPerDay =
    (if breakEvenTokensPerDay \<le> 0 then 0 else currentTokensPerDay / breakEvenTokensPerDay * lit 100)"

subsection \<open>Products of finite non-negative factors\<close>

definition nn_fin :: "f64 \<Rightarrow> bool" where
  "nn_fin x = (0 \<le> x \<and> is_fin x)"

lemma nn_finD: "nn_fin x \<Longrightarrow> 0 \<le> x" "nn_fin x \<Longrightarrow> is_fin x" "nn_fin x \<Longrightarrow> \<not> is_nan x"
  by (auto simp: nn_fin_def)

lemma mul_nn: "nn_fin x \<Longrightarrow> nn_fin y \<Longrightarrow> 0 \<le> x * y"
  by (intro f_mul_nonneg) (auto simp: nn_fin_def fin_mul)

lemma div_nn: "0 \<le> x \<Longrightarrow> 0 < y \<Longrightarrow> is_fin y \<Longrightarrow> 0 \<le> x / y" for x y :: f64
  by (intro f_div_nonneg f_div_not_nan) auto

lemma nn_lit: "numeral n \<le> (2 ^ 53 :: int) \<Longrightarrow> nn_fin (lit (numeral n))"
  by (simp add: nn_fin_def lits f_less_imp_le del: fval_mkf)

text \<open>A non-negative, possibly infinite, factor times a positive finite one is not NaN.\<close>

lemma mul_pos_not_nan: "0 \<le> x \<Longrightarrow> 0 < y \<Longrightarrow> is_fin y \<Longrightarrow> \<not> is_nan (x * y)" for x y :: f64
  by (auto simp: times_f64_def fmul_def Let_def f_nonneg_iff f_pos_iff)

lemma mul_pos_nn: "0 \<le> x \<Longrightarrow> 0 < y \<Longrightarrow> is_fin y \<Longrightarrow> 0 \<le> x * y" for x y :: f64
  by (intro f_mul_nonneg mul_pos_not_nan) (auto intro: f_less_imp_le)

lemma mul_pos_mono: "0 \<le> x \<Longrightarrow> x \<le> x' \<Longrightarrow> 0 < y \<Longrightarrow> is_fin y \<Longrightarrow> x * y \<le> x' * y" for x y :: f64
  by (intro f_mul_mono mul_pos_not_nan) (auto intro: f_less_imp_le f_le_trans f_le_refl)

lemma div_nn_fin:
  assumes "nn_fin x" and "lit 1 \<le> y" and "is_fin y"
  shows "nn_fin (x / y)"
proof -
  have y: "0 < y" "1 \<le> fval y" using assms(2) by (auto simp: less_eq_f64_def less_f64_def lits simp del: fval_mkf)
  have x: "0 \<le> x" "is_fin x" "0 \<le> fval x" using assms(1) by (auto simp: nn_fin_def f_nonneg_iff)
  have le: "0 \<le> x / y" using x(1) y(1) assms(3) by (rule div_nn)
  have "fval x / fval y \<le> fval x" using x y mult_left_mono [of 1 "fval y" "fval x"] by (simp add: divide_le_eq)
  then have "fval (x / y) \<le> fval x"
    using x y assms(3) f_div_fin_iff [OF x(1) y(1)] le
    by (auto simp: f_nonneg_iff f_pos_iff intro: xrnd.le_repr)
  moreover have "\<bar>fval x\<bar> < topval" using is_fin_iff [of x] nn_finD [OF assms(1)] by blast
  then have "fval x < topval" by linarith
  ultimately show ?thesis using le by (auto simp: nn_fin_def intro: f_fin_nonneg)
qed

text \<open>
  The inputs of the cost formula as the CRD describes them: finite and non-negative, at least one
  year of amortization (its validation minimum), a maintenance share between 0 and 1.
\<close>

definition hw_ok :: "HardwareCosts \<Rightarrow> bool" where
  "hw_ok hw = (nn_fin (PurchasePriceUSD hw) \<and> 0 <s AmortizationYears hw \<and>
     0 \<le> MaintenancePercentPerYear hw \<and> MaintenancePercentPerYear hw \<le> lit 1 \<and>
     nn_fin (RatePerKWh hw) \<and> nn_fin (PUEFactor hw))"

lemma one_plus_maint:
  assumes "0 \<le> m" and "m \<le> lit 1"
  shows "0 < lit 1 + m" and "is_fin (lit 1 + m)"
proof -
  have one: "0 \<le> lit 1" by (rule f_less_imp_le [OF lit_1_pos])
  show "0 < lit 1 + m" using f_less_le_trans [OF lit_1_pos f_add_ge_left [OF one assms(1)]] .
  have "lit 1 + m \<le> lit 1 + lit 1" using f_le_refl [of "lit 1"] one assms by (intro f_add_mono) simp_all
  moreover have "is_fin (lit 1 + lit 1)" by code_simp
  ultimately show "is_fin (lit 1 + m)" using assms one by (meson f_add_nonneg_nonneg f_le_fin)
qed

lemma total_hours:
  assumes "0 <s y"
  shows "0 < f_of_int32 y * lit 8760" and "is_fin (f_of_int32 y * lit 8760)"
proof -
  have y: "1 \<le> sint y" "sint y < 2 ^ 31" using assms sint32_range [of y] by (simp_all add: word_sless_alt)
  have b: "\<bar>sint y * 8760\<bar> \<le> 2 ^ 53" using y by simp
  have f: "is_fin (lit 8760)" by (simp add: lits)
  have l: "fval (lit 8760) = 8760" by (simp add: lits del: fval_mkf)
  have n: "\<not> is_nan (f_of_int32 y * lit 8760)" by (rule fin_mul(1) [OF f_of_int32_exact(2) f])
  have v: "fval (f_of_int32 y * lit 8760) = xrnd (of_int (sint y) * 8760)"
    using fin_mul(2) [OF f_of_int32_exact(2) f, of y] by (simp only: f_of_int32_exact l)
  have r: "rnd (of_int (sint y * 8760)) = of_int (sint y * 8760)" using b by (rule rnd_of_int)
  have t: "\<bar>of_int (sint y * 8760)\<bar> < topval"
  proof -
    have "\<bar>of_int (sint y * 8760)\<bar> \<le> (of_int (2 ^ 53) :: rat)" using b by (metis of_int_abs of_int_le_iff)
    also have "\<dots> < topval" by (simp add: topval_def)
    finally show ?thesis .
  qed
  have v': "fval (f_of_int32 y * lit 8760) = of_int (sint y * 8760)"
    using v xrnd_rnd_small [of "of_int (sint y * 8760)"] r t by (simp only: of_int_mult of_int_numeral)
  have "(0::rat) < of_int (sint y * 8760)" using y(1) by (simp only: of_int_0_less_iff)
  then show "0 < f_of_int32 y * lit 8760" using n v' by (simp only: f_pos_iff HOL.simp_thms)
  show "is_fin (f_of_int32 y * lit 8760)" unfolding is_fin_iff [OF n] v' by (rule t)
qed

lemma amortization_nonneg:
  assumes "hw_ok hw"
  shows "0 \<le> (PurchasePriceUSD hw * (lit 1 + MaintenancePercentPerYear hw)) / (f_of_int32 (AmortizationYears hw) * lit 8760)"
proof -
  have "0 \<le> PurchasePriceUSD hw * (lit 1 + MaintenancePercentPerYear hw)"
    using assms one_plus_maint by (intro mul_pos_nn) (auto simp: hw_ok_def nn_fin_def)
  then show ?thesis using assms total_hours by (intro div_nn) (auto simp: hw_ok_def)
qed

definition effPUE :: "HardwareCosts \<Rightarrow> f64" where
  "effPUE hw = (if feq (PUEFactor hw) 0 then lit 1 else PUEFactor hw)"

lemma effPUE_pos: "hw_ok hw \<Longrightarrow> 0 < effPUE hw \<and> is_fin (effPUE hw)"
  using lit_1_pos lit_1(2) by (auto simp: effPUE_def feq_def hw_ok_def nn_fin_def f_nonneg_iff f_pos_iff simp del: fval_mkf)

lemma kw_fin: "nn_fin w \<Longrightarrow> nn_fin (w / lit 1000)"
  by (rule div_nn_fin) (simp_all add: less_eq_f64_def lits del: fval_mkf)

lemma electricity_nonneg: "hw_ok hw \<Longrightarrow> nn_fin w \<Longrightarrow> 0 \<le> w / lit 1000 * RatePerKWh hw * effPUE hw"
  using effPUE_pos by (intro mul_pos_nn mul_nn kw_fin) (auto simp: hw_ok_def)

lemma electricity_mono:
  assumes "hw_ok hw" and "nn_fin w" and "nn_fin w'" and "w \<le> w'"
  shows "w / lit 1000 * RatePerKWh hw * effPUE hw \<le> w' / lit 1000 * RatePerKWh hw * effPUE hw"
proof -
  have r: "nn_fin (RatePerKWh hw)" using assms by (simp add: hw_ok_def)
  have k: "nn_fin (w / lit 1000)" "nn_fin (w' / lit 1000)" using assms kw_fin by auto
  have "w / lit 1000 \<le> w' / lit 1000"
    using assms by (intro f_div_mono) (auto simp: nn_fin_def lits simp del: fval_mkf)
  then have "w / lit 1000 * RatePerKWh hw \<le> w' / lit 1000 * RatePerKWh hw"
    using r k by (intro f_mul_mono) (auto simp: nn_fin_def fin_mul f_le_refl)
  then show ?thesis using effPUE_pos [OF assms(1)] mul_nn [OF k(1) r] by (blast intro: mul_pos_mono)
qed

lemma ComputeHourlyCost_eq:
  "ComputeHourlyCost hw w =
    (let a = (PurchasePriceUSD hw * (lit 1 + MaintenancePercentPerYear hw)) / (f_of_int32 (AmortizationYears hw) * lit 8760);
         e = w / lit 1000 * RatePerKWh hw * effPUE hw in (a, e, a + e))"
  by (simp add: ComputeHourlyCost_def Let_def effPUE_def)

subsection \<open>Properties\<close>

text \<open>The hourly cost is the sum of two non-negative parts, and rounding never makes the total
  smaller than either: \<open>total \<ge> amortization\<close> and \<open>total \<ge> electricity\<close> in float64, for every
  cost profile and power draw in the documented range (overflow to infinity included, NaN never).\<close>

theorem hourly_cost_bounds:
  assumes "hw_ok hw" and "nn_fin w"
  shows "case ComputeHourlyCost hw w of (a, e, t) \<Rightarrow> 0 \<le> a \<and> 0 \<le> e \<and> a \<le> t \<and> e \<le> t"
  using assms amortization_nonneg [OF assms(1)] electricity_nonneg [OF assms]
  by (auto simp: ComputeHourlyCost_eq Let_def intro: f_add_ge_left f_add_ge_right)

definition demo_hw :: HardwareCosts where
  "demo_hw = \<lparr>PurchasePriceUSD = lit 960, AmortizationYears = 3, MaintenancePercentPerYear = lit (5/100),
     RatePerKWh = lit (12/100), PUEFactor = 0\<rparr>"

lemma hw_ok_demo: "hw_ok demo_hw"
  unfolding hw_ok_def nn_fin_def demo_hw_def by code_simp

lemma nn_fin_150: "nn_fin (lit 150)" and nn_fin_60: "nn_fin (lit 60)"
  by (simp_all add: nn_lit)

theorem hourly_cost_bounds_witness:
  "case ComputeHourlyCost demo_hw (lit 150) of (a, e, t) \<Rightarrow> 0 \<le> a \<and> 0 \<le> e \<and> a \<le> t \<and> e \<le> t"
  by (rule hourly_cost_bounds [OF hw_ok_demo nn_fin_150])

text \<open>More power never costs less: the electricity and the total of \<open>ComputeHourlyCost\<close> are
  monotone in the power draw, and the amortization does not depend on it.\<close>

theorem hourly_cost_mono:
  assumes "hw_ok hw" and "nn_fin w" and "nn_fin w'" and "w \<le> w'"
  shows "case ComputeHourlyCost hw w of (a, e, t) \<Rightarrow>
     case ComputeHourlyCost hw w' of (a', e', t') \<Rightarrow> a = a' \<and> e \<le> e' \<and> t \<le> t'"
  using electricity_mono [OF assms] amortization_nonneg [OF assms(1)] electricity_nonneg [OF assms(1,2)]
  by (auto simp: ComputeHourlyCost_eq Let_def f_nonneg_iff intro!: f_add_mono f_le_refl)

theorem hourly_cost_mono_witness:
  "case ComputeHourlyCost demo_hw (lit 60) of (a, e, t) \<Rightarrow>
     case ComputeHourlyCost demo_hw (lit 150) of (a', e', t') \<Rightarrow> a = a' \<and> e \<le> e' \<and> t \<le> t'"
proof -
  have "lit 60 \<le> lit 150" by code_simp
  then show ?thesis by (rule hourly_cost_mono [OF hw_ok_demo nn_fin_60 nn_fin_150])
qed

subsection \<open>Token rates\<close>

lemma tdiv_tmod: "0 \<le> a \<Longrightarrow> 0 < b \<Longrightarrow> a = b * tdiv a b + tmod a b \<and> 0 \<le> tdiv a b \<and> 0 \<le> tmod a b \<and> tmod a b < b"
  by (simp add: tdiv_def tmod_def pos_imp_zdiv_nonneg_iff minus_mult_div_eq_mod)

lemma lit_of_int_nn: "0 \<le> n \<Longrightarrow> n \<le> 2 ^ 63 \<Longrightarrow> nn_fin (lit (of_int n))"
  using lit_int [of n] rnd_nonneg [of "of_int n"] by (simp add: nn_fin_def f_nonneg_iff)

lemma lit_of_int_pos: "1 \<le> n \<Longrightarrow> n \<le> 2 ^ 63 \<Longrightarrow> lit 1 \<le> lit (of_int n)"
  using lit_int [of n] rnd_of_int_ge1 [of n] by (simp add: less_eq_f64_def lits del: fval_mkf)

lemma lit_one_le: "numeral n \<le> (2 ^ 53 :: int) \<Longrightarrow> lit 1 \<le> lit (numeral n)"
  by (simp add: less_eq_f64_def lits del: fval_mkf)

text \<open>A positive elapsed time is a positive number of hours.\<close>

lemma unit_quotient_pos:
  assumes "lit 1 \<le> x" and "is_fin x"
  shows "0 < x / lit 3600000000000"
proof -
  let ?c = "lit 3600000000000"
  have c: "is_fin ?c" "0 < ?c" "fval ?c = 3600000000000" by (simp_all add: lits del: fval_mkf)
  have x: "1 \<le> fval x" using assms(1) by (simp add: less_eq_f64_def lits del: fval_mkf)
  have "(2::rat) powi (- 1074) \<le> 2 powi (- 42)" by (subst powi2_le_iff) simp
  also have "(2::rat) powi (- 42) = inverse (2 powi 42)" by (rule power_int_minus)
  also have "\<dots> \<le> 1 / 3600000000000" by simp
  also have "\<dots> \<le> fval x / fval ?c" unfolding c(3) using x by (rule divide_right_mono) simp
  finally have "0 < xrnd (fval x / fval ?c)" by (rule xrnd_gap)
  then show ?thesis using fin_div [OF assms(2) c(1)] c(3) by (simp add: f_pos_iff del: fval_mkf)
qed

lemma Hours_pos:
  assumes "0 < d" and "d < 2 ^ 63"
  shows "0 < Hours d"
proof -
  let ?q = "lit (of_int (tdiv d nsHour))" and ?r = "lit (of_int (tmod d nsHour))" and ?c = "lit 3600000000000"
  have q: "0 \<le> tdiv d nsHour" "tdiv d nsHour \<le> 2 ^ 63" "0 \<le> tmod d nsHour" "tmod d nsHour \<le> 2 ^ 63"
    "d = nsHour * tdiv d nsHour + tmod d nsHour"
    using tdiv_tmod [of d nsHour] assms by (auto simp: nsHour_def)
  have Q: "nn_fin ?q" and R: "nn_fin ?r" using q by (auto intro: lit_of_int_nn)
  have D: "0 \<le> ?r / ?c" using R by (intro div_nn) (simp_all add: nn_fin_def lits del: fval_mkf)
  have le: "?q \<le> Hours d" "?r / ?c \<le> Hours d"
    unfolding Hours_def using nn_finD(1) [OF Q] D by (rule f_add_ge_left, rule f_add_ge_right)
  consider "1 \<le> tdiv d nsHour" | "1 \<le> tmod d nsHour" using q assms(1) by (cases "tdiv d nsHour = 0") auto
  then show ?thesis
  proof cases
    case 1
    then have "lit 1 \<le> ?q" using q by (intro lit_of_int_pos)
    then show ?thesis using le(1) lit_1_pos f_le_trans f_less_le_trans by blast
  next
    case 2
    then have "0 < ?r / ?c" using q R by (intro unit_quotient_pos lit_of_int_pos nn_finD(2))
    then show ?thesis using le(2) f_less_le_trans by blast
  qed
qed

lemma div_fin_nn: "nn_fin x \<Longrightarrow> 0 < y \<Longrightarrow> 0 \<le> x / y"
  by (intro f_div_nonneg f_div_not_nan) (auto simp: nn_fin_def)

text \<open>The delta of a counter that may have been reset.\<close>

definition counterDelta :: "f64 \<Rightarrow> f64 \<Rightarrow> f64" where
  "counterDelta prev cur = (if cur < prev then cur else cur - prev)"

lemma counterDelta_eq:
  "is_fin x \<Longrightarrow> is_fin y \<Longrightarrow> (if y - x < 0 then y else y - x) = counterDelta x y"
  using f_sub_pos_iff [of y x] fin_sub [of x y] fin_sub [of y x] xrnd_minus [of "fval x - fval y"]
  by (auto simp: counterDelta_def less_f64_def)

lemma counterDelta_bounds:
  assumes "nn_fin x" and "nn_fin y"
  shows "0 \<le> counterDelta x y \<and> counterDelta x y \<le> y"
  using assms f_sub_le [of x y] f_sub_nonneg [of x y] f_not_less [of y x] f_le_refl [of y]
  by (auto simp: counterDelta_def nn_fin_def)

lemma time_Sub_pos: "u < t \<Longrightarrow> 0 < time_Sub t u \<and> time_Sub t u < 2 ^ 63"
  by (simp add: time_Sub_def)

lemma ComputeTokenRate_eq:
  assumes "nn_fin (ts_InputTokens p)" "nn_fin (ts_InputTokens c)" "nn_fin (ts_OutputTokens p)" "nn_fin (ts_OutputTokens c)"
    and "ts_Timestamp p < ts_Timestamp c"
  shows "ComputeTokenRate p c = (let h = Hours (time_Sub (ts_Timestamp c) (ts_Timestamp p));
      i = counterDelta (ts_InputTokens p) (ts_InputTokens c) / h;
      u = counterDelta (ts_OutputTokens p) (ts_OutputTokens c) / h in (i, u, i + u))"
  using assms time_Sub_pos [OF assms(5)] by (simp add: ComputeTokenRate_def Let_def counterDelta_eq nn_fin_def)

text \<open>C21 Token rates survive counter resets: for finite non-negative counters read at increasing
  times, a counter that went backwards counts from its new value, one that did not counts its
  increase; the rates are never negative or NaN and the total bounds each part.\<close>

theorem token_rate_correct:
  assumes "nn_fin (ts_InputTokens p)" "nn_fin (ts_InputTokens c)" "nn_fin (ts_OutputTokens p)" "nn_fin (ts_OutputTokens c)"
    and "ts_Timestamp p < ts_Timestamp c"
  shows "case ComputeTokenRate p c of (i, u, t) \<Rightarrow>
    i = (if ts_InputTokens c < ts_InputTokens p then ts_InputTokens c else ts_InputTokens c - ts_InputTokens p)
          / Hours (time_Sub (ts_Timestamp c) (ts_Timestamp p))
    \<and> u = (if ts_OutputTokens c < ts_OutputTokens p then ts_OutputTokens c else ts_OutputTokens c - ts_OutputTokens p)
          / Hours (time_Sub (ts_Timestamp c) (ts_Timestamp p))
    \<and> 0 \<le> i \<and> 0 \<le> u \<and> i \<le> t \<and> u \<le> t"
proof -
  let ?h = "Hours (time_Sub (ts_Timestamp c) (ts_Timestamp p))"
  have h: "0 < ?h" using time_Sub_pos [OF assms(5)] Hours_pos by blast
  have nn: "0 \<le> counterDelta x y / ?h" if "nn_fin x" "nn_fin y" for x y
    using counterDelta_bounds [OF that] f_le_fin [of "counterDelta x y" y] that h
    by (intro div_fin_nn) (auto simp: nn_fin_def)
  show ?thesis
    using nn [OF assms(1,2)] nn [OF assms(3,4)]
    by (auto simp: ComputeTokenRate_eq [OF assms] Let_def counterDelta_def [symmetric] intro: f_add_ge_left f_add_ge_right)
qed

definition demo_prev :: TokenSnapshot where
  "demo_prev = \<lparr>ts_Timestamp = 0, ts_InputTokens = lit 1000, ts_OutputTokens = lit 100\<rparr>"

definition demo_cur :: TokenSnapshot where
  "demo_cur = \<lparr>ts_Timestamp = nsHour, ts_InputTokens = lit 1500, ts_OutputTokens = lit 40\<rparr>"

theorem token_rate_correct_witness:
  "case ComputeTokenRate demo_prev demo_cur of (i, u, t) \<Rightarrow>
    i = (lit 1500 - lit 1000) / Hours nsHour \<and> u = lit 40 / Hours nsHour \<and> 0 \<le> i \<and> 0 \<le> u \<and> i \<le> t \<and> u \<le> t"
proof -
  have "nn_fin (ts_InputTokens demo_prev)" "nn_fin (ts_InputTokens demo_cur)"
    "nn_fin (ts_OutputTokens demo_prev)" "nn_fin (ts_OutputTokens demo_cur)"
    "ts_Timestamp demo_prev < ts_Timestamp demo_cur"
    by (simp_all add: demo_prev_def demo_cur_def nn_lit nsHour_def)
  note t = token_rate_correct [OF this]
  have "\<not> lit 1500 < lit 1000" "lit 40 < lit 100" "time_Sub nsHour 0 = nsHour" by code_simp+
  with t show ?thesis by (simp only: demo_prev_def demo_cur_def TokenSnapshot.simps if_True if_False)
qed

subsection \<open>Active-hours cost\<close>

lemma tokens_millions:
  assumes "0 <s n"
  shows "0 < f_of_int64 n / lit 1000000" and "is_fin (f_of_int64 n / lit 1000000)"
proof -
  let ?c = "lit 1000000"
  have c: "is_fin ?c" "lit 1 \<le> ?c" "fval ?c = 1000000" by (simp_all add: lits lit_one_le del: fval_mkf)
  have p: "0 < f_of_int64 n" using assms by (rule f_of_int64_pos)
  have "nn_fin (f_of_int64 n / ?c)" using p c f_less_imp_le by (intro div_nn_fin) (auto simp: nn_fin_def)
  then show "is_fin (f_of_int64 n / ?c)" by (rule nn_finD)
  have "1 \<le> sint n" using assms by (simp add: word_sless_alt)
  then have x: "1 \<le> fval (f_of_int64 n)" unfolding fval_f_of_int64 by (rule rnd_of_int_ge1)
  have "(2::rat) powi (- 1074) \<le> 2 powi (- 42)" by (subst powi2_le_iff) simp
  also have "(2::rat) powi (- 42) = inverse (2 powi 42)" by (rule power_int_minus)
  also have "\<dots> \<le> 1 / 1000000" by simp
  also have "\<dots> \<le> fval (f_of_int64 n) / fval ?c" unfolding c(3) using x by (rule divide_right_mono) simp
  finally have "0 < xrnd (fval (f_of_int64 n) / fval ?c)" by (rule xrnd_gap)
  then show "0 < f_of_int64 n / ?c"
    using fin_div [OF f_of_int64_fin(1) c(1)] c(3) by (simp add: f_pos_iff del: fval_mkf)
qed

text \<open>C22 The active-hours cost per million tokens is never negative and never above the fully loaded
  wall-clock cost: whatever the sampler reports, capping at the window keeps it at or below the
  cost computed with every hour of the window.\<close>

theorem active_hours_capped:
  assumes "0 < hourly" and "is_fin hourly" and "0 < wall" and "is_fin wall" and "0 <s n" and "\<not> is_nan act"
  shows "0 \<le> ActiveHoursCostPerMillionTokens hourly act wall n
    \<and> ActiveHoursCostPerMillionTokens hourly act wall n \<le> hourly * wall / (f_of_int64 n / lit 1000000)"
proof -
  let ?m = "f_of_int64 n / lit 1000000" and ?e = "if 0 < wall \<and> wall < act then wall else act"
  note m = tokens_millions [OF assms(5)]
  have nn: "nn_fin hourly" "nn_fin wall" using assms f_less_imp_le by (auto simp: nn_fin_def)
  have top: "0 \<le> hourly * wall / ?m" using nn m by (intro div_nn mul_nn)
  show ?thesis
  proof (cases "act \<le> 0")
    case True
    then have "ActiveHoursCostPerMillionTokens hourly act wall n = 0"
      by (simp add: ActiveHoursCostPerMillionTokens_def)
    then show ?thesis using top by (simp add: f_nonneg_iff less_eq_f64_def)
  next
    case False
    have v: "ActiveHoursCostPerMillionTokens hourly act wall n = hourly * ?e / ?m"
    proof -
      have "\<not> n \<le>s 0" using assms(5) by (simp add: word_sless_alt word_sle_eq)
      moreover have "\<not> hourly \<le> 0" using assms(1) by (simp add: less_f64_def less_eq_f64_def)
      ultimately show ?thesis using False unfolding ActiveHoursCostPerMillionTokens_def Let_def
        by (simp only: if_False HOL.simp_thms)
    qed
    have e: "0 \<le> ?e" "?e \<le> wall"
      using False assms f_not_le [of act 0] f_not_less [of wall act] f_le_refl [of wall] f_less_imp_le by auto
    then have "nn_fin ?e" using f_le_fin assms(4) unfolding nn_fin_def by blast
    then have h: "0 \<le> hourly * ?e" "\<not> is_nan (hourly * ?e)" "\<not> is_nan (hourly * wall)"
      using nn mul_nn by (auto simp: nn_fin_def fin_mul simp del: if_split)
    have "hourly * ?e \<le> hourly * wall"
      using e nn h by (intro f_mul_mono) (auto simp: nn_fin_def f_le_refl simp del: if_split)
    then have "hourly * ?e / ?m \<le> hourly * wall / ?m" using h m by (intro f_div_mono)
    moreover have "0 \<le> hourly * ?e / ?m" using h(1) m by (rule div_nn)
    ultimately show ?thesis unfolding v by blast
  qed
qed

theorem active_hours_capped_witness:
  "ActiveHoursCostPerMillionTokens (lit 3) (lit 30) (lit 24) 2000000 \<le> lit 3 * lit 24 / (f_of_int64 2000000 / lit 1000000)"
proof -
  have "0 <s (2000000::int64)" by code_simp
  from active_hours_capped [OF _ _ _ _ this, of "lit 3" "lit 24" "lit 30"] show ?thesis
    by (simp add: lits del: fval_mkf)
qed

subsection \<open>Cloud comparison\<close>

lemma compare_length [simp]: "length (CompareToCloud i u x ps) = length ps"
  by (induction ps) simp_all

lemma compare_map: "CompareToCloud i u x ps = map (compareOne i u x) ps"
  by (induction ps) simp_all

lemma f_of_int64_nn: "0 \<le>s n \<Longrightarrow> nn_fin (f_of_int64 n)"
  using f_of_int64_mono [of 0 n] by (simp add: nn_fin_def)

lemma tokens_millions_nn: "0 \<le>s n \<Longrightarrow> nn_fin (f_of_int64 n / lit 1000000)"
  by (intro div_nn_fin f_of_int64_nn) (simp_all add: lits lit_one_le del: fval_mkf)

text \<open>The catalog price of a model: at most a million dollars per million tokens.\<close>

definition price_ok :: "f64 \<Rightarrow> bool" where
  "price_ok r = (0 \<le> r \<and> r \<le> lit 1000000)"

lemma price_nn: "price_ok r \<Longrightarrow> nn_fin r"
  using f_le_fin [of r "lit 1000000"] by (simp add: price_ok_def nn_fin_def lits del: fval_mkf)

lemma f_of_int64_le_top: "f_of_int64 n \<le> lit (2 ^ 63)"
proof -
  have e: "lit (2 ^ 63) = lit (of_int (2 ^ 63))" by simp
  have "rnd (of_int (sint n)) \<le> rnd (of_int (2 ^ 63))"
    by (intro rnd_mono) (use sint64_range [of n] in \<open>simp only: of_int_le_iff less_imp_le\<close>)
  then have "fval (f_of_int64 n) \<le> fval (lit (of_int (2 ^ 63)))"
    unfolding fval_f_of_int64 by (subst lit_int(1)) simp_all
  then show ?thesis unfolding e less_eq_f64_def by simp
qed

lemma cost_part_bound:
  assumes "0 \<le>s n" and "price_ok r"
  shows "0 \<le> f_of_int64 n / lit 1000000 * r" and "f_of_int64 n / lit 1000000 * r \<le> lit (2 ^ 63) * lit 1000000"
proof -
  show n: "0 \<le> f_of_int64 n / lit 1000000 * r" using assms by (intro mul_nn tokens_millions_nn price_nn)
  have l: "is_fin (lit (2 ^ 63))" "is_fin (lit 1000000)" by code_simp+
  have m: "f_of_int64 n / lit 1000000 \<le> lit (2 ^ 63)"
  proof -
    have "f_of_int64 n / lit 1000000 \<le> lit (2 ^ 63) / lit 1000000"
      using f_of_int64_nn [OF assms(1)] f_of_int64_le_top [of n] by (intro f_div_mono) (auto simp: nn_fin_def lits simp del: fval_mkf)
    moreover have "lit (2 ^ 63) / lit 1000000 \<le> lit (2 ^ 63)" by code_simp
    ultimately show ?thesis by (rule f_le_trans)
  qed
  have "\<not> is_nan (lit (2 ^ 63) * lit 1000000)" using l by (rule fin_mul(1))
  then show "f_of_int64 n / lit 1000000 * r \<le> lit (2 ^ 63) * lit 1000000"
    using m n assms tokens_millions_nn [OF assms(1)] by (intro f_mul_mono) (auto simp: price_ok_def f_nonneg_iff nn_fin_def)
qed

lemma cloud_cost_fin:
  assumes "0 \<le>s i" "0 \<le>s u" "price_ok r" "price_ok q"
  shows "nn_fin (f_of_int64 i / lit 1000000 * r + f_of_int64 u / lit 1000000 * q)"
proof -
  note a = cost_part_bound [OF assms(1,3)] and b = cost_part_bound [OF assms(2,4)]
  have "f_of_int64 i / lit 1000000 * r + f_of_int64 u / lit 1000000 * q
      \<le> lit (2 ^ 63) * lit 1000000 + lit (2 ^ 63) * lit 1000000"
    using a b by (intro f_add_mono)
  moreover have "is_fin (lit (2 ^ 63) * lit 1000000 + lit (2 ^ 63) * lit 1000000)" by code_simp
  ultimately show ?thesis using a b f_le_fin unfolding nn_fin_def by blast
qed

lemma savings_percent_le:
  assumes "nn_fin x" and "nn_fin c" and "0 < c"
  shows "(c - x) / c * lit 100 \<le> lit 100"
proof -
  have x: "is_fin x" "0 \<le> fval x" and c: "is_fin c" "0 < fval c"
    using assms by (auto simp: nn_fin_def f_nonneg_iff f_pos_iff)
  have s: "\<not> is_nan (c - x)" "fval (c - x) = xrnd (fval c - fval x)" using fin_sub [OF c(1) x(1)] by auto
  have "fval (c - x) \<le> fval c" using s c(1) x(2) by (simp add: xrnd.le_repr)
  moreover have "- fval x \<le> fval (c - x)"
    using s(2) xrnd.ge_repr [of "- fval x" "fval c - fval x"] x(1) c(2) xrnd_minus [of "fval x"] by simp
  moreover have "\<bar>fval c\<bar> < topval" "\<bar>fval x\<bar> < topval" using c x is_fin_iff nn_finD assms by blast+
  ultimately have "\<bar>fval (c - x)\<bar> < topval" using c x by linarith
  then have sf: "is_fin (c - x)" using is_fin_iff [OF s(1)] by blast
  have "fval (c - x) / fval c \<le> 1" using \<open>fval (c - x) \<le> fval c\<close> c by simp
  then have q: "\<not> is_nan ((c - x) / c)" "fval ((c - x) / c) \<le> 1"
    using fin_div [OF sf c(1)] c(2) by (auto intro!: xrnd.le_repr xrnd_id simp: topval_def)
  have h: "is_fin (lit 100)" "fval (lit 100) = 100" by (simp_all add: lits del: fval_mkf)
  show ?thesis
  proof (cases "is_fin ((c - x) / c)")
    case True
    have "fval ((c - x) / c * lit 100) = xrnd (fval ((c - x) / c) * 100)"
      using fin_mul [OF True h(1)] h(2) by simp
    also have "\<dots> \<le> 100" using q(2) by (intro xrnd.le_repr xrnd_id) (auto simp: lits topval_def)
    finally show ?thesis using fin_mul [OF True h(1)] h by (simp add: less_eq_f64_def del: fval_mkf)
  next
    case False
    then have i: "is_inf ((c - x) / c)" using q(1) fin_cases by blast
    then have "sgnb ((c - x) / c)" using q(2) fval_inf [OF i] by (auto simp: topval_def split: if_splits)
    moreover have "\<not> sgnb (lit 100)" using h(2) by (intro sgnb_pos) simp
    ultimately have "(c - x) / c * lit 100 = f_inf True"
      using i q(1) h fval_inf [OF i] topval_pos by (simp add: times_f64_def fmul_def del: fval_mkf sgnb_mkf)
    then show ?thesis using h by (simp add: less_eq_f64_def topval_def del: fval_mkf)
  qed
qed

text \<open>\<open>CompareToCloud\<close> answers every catalog entry once and in order: the row names that entry,
  carries the on-prem cost it was given and a finite non-negative cloud cost; its savings are
  positive exactly when the cloud costs more, and its percentage never exceeds 100.\<close>

theorem compare_to_cloud_rows:
  assumes "0 \<le>s i" and "0 \<le>s u" and "nn_fin x"
    and "\<forall>p \<in> set ps. price_ok (cp_InputPerMillion p) \<and> price_ok (cp_OutputPerMillion p)"
  shows "list_all2 (\<lambda>p c. cc_Provider c = cp_Provider p \<and> cc_Model c = cp_Model p \<and> cc_OnPremCostUSD c = x
      \<and> nn_fin (cc_CloudCostUSD c) \<and> (0 < cc_SavingsUSD c \<longleftrightarrow> x < cc_CloudCostUSD c)
      \<and> cc_SavingsPercent c \<le> lit 100) ps (CompareToCloud i u x ps)"
proof -
  have "nn_fin (cc_CloudCostUSD (compareOne i u x p))
      \<and> (0 < cc_SavingsUSD (compareOne i u x p) \<longleftrightarrow> x < cc_CloudCostUSD (compareOne i u x p))
      \<and> cc_SavingsPercent (compareOne i u x p) \<le> lit 100" if "p \<in> set ps" for p
  proof -
    have c: "nn_fin (f_of_int64 i / lit 1000000 * cp_InputPerMillion p + f_of_int64 u / lit 1000000 * cp_OutputPerMillion p)"
      using assms that by (intro cloud_cost_fin) auto
    have "0 \<le> lit 100" by (rule f_less_imp_le) (simp add: lits del: fval_mkf)
    then show ?thesis
      using c f_sub_pos_iff [OF nn_finD(2) [OF assms(3)] nn_finD(2) [OF c]] savings_percent_le [OF assms(3) c]
      by (simp add: compareOne_def Let_def del: fval_mkf)
  qed
  then show ?thesis unfolding compare_map
    by (auto simp: list_all2_map2 list.rel_refl_strong list_all2_same compareOne_def Let_def)
qed

definition demo_pricing :: "CloudPricing list" where
  "demo_pricing = [\<lparr>cp_Provider = ''openai'', cp_Model = ''m1'', cp_InputPerMillion = lit (5/2), cp_OutputPerMillion = lit 10\<rparr>,
     \<lparr>cp_Provider = ''google'', cp_Model = ''m2'', cp_InputPerMillion = lit (1/10), cp_OutputPerMillion = lit (2/5)\<rparr>]"

theorem compare_to_cloud_rows_witness:
  "list_all2 (\<lambda>p c. cc_Provider c = cp_Provider p \<and> cc_Model c = cp_Model p \<and> cc_OnPremCostUSD c = lit 3
      \<and> nn_fin (cc_CloudCostUSD c) \<and> (0 < cc_SavingsUSD c \<longleftrightarrow> lit 3 < cc_CloudCostUSD c)
      \<and> cc_SavingsPercent c \<le> lit 100) demo_pricing (CompareToCloud 1000000 500000 (lit 3) demo_pricing)"
proof (rule compare_to_cloud_rows)
  show "0 \<le>s (1000000::int64)" "0 \<le>s (500000::int64)" by code_simp+
  show "nn_fin (lit 3)" by (rule nn_lit) simp
  show "\<forall>p \<in> set demo_pricing. price_ok (cp_InputPerMillion p) \<and> price_ok (cp_OutputPerMillion p)"
    unfolding demo_pricing_def price_ok_def by code_simp
qed

text \<open>Break-even is exact in float64: with a positive finite break-even volume, the reported
  percentage is at least 100 if and only if the current volume is at least the break-even volume.
  No rounding of the division or of the multiplication by 100 can flip the verdict.\<close>

theorem percent_break_even_exact:
  assumes "0 \<le> cur" and "0 < be" and "is_fin be"
  shows "lit 100 \<le> PercentOfBreakEven cur be \<longleftrightarrow> be \<le> cur"
  using f_percent_100 [OF assms] assms(2)
  by (simp add: PercentOfBreakEven_def less_f64_def less_eq_f64_def)

theorem percent_break_even_exact_witness:
  "\<not> lit 100 \<le> PercentOfBreakEven (lit 999999) (lit 1000000)"
proof -
  have "\<not> lit 1000000 \<le> lit 999999" by code_simp
  then show ?thesis
    using percent_break_even_exact [of "lit 999999" "lit 1000000"] nn_lit [THEN nn_finD(1)]
    by (simp add: lits del: fval_mkf)
qed

end
