(* ===== verification/Pricing.thy ===== *)
theory Pricing
  imports Calculator
begin

text \<open>
  \<open>internal/calculator/pricing.go\<close>: the pricing catalog, its validation, the flat form the
  comparisons use and the choice between the operator's override and the embedded catalog.
  Parsing YAML is outside the repository: the parsed catalog, or the error, is an argument.
\<close>

record modelPricing =
  mp_Model :: gostring
  mp_Tier :: gostring
  mp_InputPerMillion :: f64
  mp_OutputPerMillion :: f64
  mp_Notes :: gostring

record providerWithPrice =
  pp_Provider :: gostring
  pp_Models :: "modelPricing list"

record PricingCatalog =
  pc_LastVerified :: gostring
  pc_Sources :: "(gostring, gostring) gomap"
  pc_Providers :: "providerWithPrice list"

definition emptyCatalog :: PricingCatalog where
  "emptyCatalog = \<lparr>pc_LastVerified = [], pc_Sources = [], pc_Providers = []\<rparr>"

subsection \<open>Flattening\<close>

fun flattenModels :: "gostring \<Rightarrow> modelPricing list \<Rightarrow> CloudPricing list \<Rightarrow> CloudPricing list" where
  "flattenModels provider [] out = out"
| "flattenModels provider (m # ms) out = flattenModels provider ms
    (out @ [\<lparr>cp_Provider = provider, cp_Model = mp_Model m,
             cp_InputPerMillion = mp_InputPerMillion m, cp_OutputPerMillion = mp_OutputPerMillion m\<rparr>])"

fun flattenProviders :: "providerWithPrice list \<Rightarrow> CloudPricing list \<Rightarrow> CloudPricing list" where
  "flattenProviders [] out = out"
| "flattenProviders (p # ps) out = flattenProviders ps (flattenModels (pp_Provider p) (pp_Models p) out)"

definition Flatten :: "PricingCatalog \<Rightarrow> CloudPricing list" where
  "Flatten c = flattenProviders (pc_Providers c) []"

subsection \<open>Validation\<close>

text \<open>The key of the duplicate check.\<close>

definition entryKey :: "gostring \<Rightarrow> gostring \<Rightarrow> gostring" where
  "entryKey provider model = to_lower (provider @ ''/'' @ model)"

fun validateModels :: "gostring \<Rightarrow> modelPricing list \<Rightarrow> gostring list \<Rightarrow> gostring + gostring list" where
  "validateModels provider [] seen = Inr seen"
| "validateModels provider (m # ms) seen =
    (if mp_Model m = [] then Inl (provider @ '' has a model with empty name'')
     else let key = entryKey provider (mp_Model m) in
       if key \<in> set seen then Inl (''duplicate entry '' @ provider @ ''/'' @ mp_Model m)
       else if mp_InputPerMillion m < 0 \<or> mp_OutputPerMillion m < 0
         then Inl (provider @ ''/'' @ mp_Model m @ '' has negative pricing'')
       else validateModels provider ms (key # seen))"

fun validateProviders :: "providerWithPrice list \<Rightarrow> gostring list \<Rightarrow> gostring option" where
  "validateProviders [] seen = None"
| "validateProviders (p # ps) seen =
    (if pp_Provider p = [] then Some ''provider with empty name''
     else (case validateModels (pp_Provider p) (pp_Models p) seen of
        Inl e \<Rightarrow> Some e | Inr seen' \<Rightarrow> validateProviders ps seen'))"

text \<open>\<open>None\<close> is the nil error.\<close>

definition Validate :: "PricingCatalog \<Rightarrow> gostring option" where
  "Validate c = (if length (pc_Providers c) = 0 then Some ''catalog has no providers''
     else validateProviders (pc_Providers c) [])"

subsection \<open>Loading and choosing\<close>

text \<open>The results of \<open>os.ReadFile\<close> and \<open>yaml.Unmarshal\<close> are arguments.\<close>

definition LoadCloudPricingFile :: "(gostring \<Rightarrow> gostring + 'b) \<Rightarrow> ('b \<Rightarrow> gostring + PricingCatalog) \<Rightarrow> gostring \<Rightarrow> gostring + PricingCatalog" where
  "LoadCloudPricingFile readFile unmarshal path =
    (case readFile path of Inl err \<Rightarrow> Inl (''reading pricing file: '' @ err)
     | Inr data \<Rightarrow> (case unmarshal data of
          Inl err \<Rightarrow> Inl (''parsing pricing file '' @ path @ '': '' @ err)
        | Inr c \<Rightarrow> (case Validate c of
             Some err \<Rightarrow> Inl (''validating pricing file '' @ path @ '': '' @ err)
           | None \<Rightarrow> Inr c)))"

text \<open>The package state: the override and the once-parsed embedded catalog.\<close>

record pricingState =
  overrideCatalog :: "PricingCatalog option"
  defaultCatalog :: "(gostring + PricingCatalog) option"

definition SetOverrideCloudPricing :: "PricingCatalog option \<Rightarrow> pricingState \<Rightarrow> pricingState" where
  "SetOverrideCloudPricing c st = st\<lparr>overrideCatalog := c\<rparr>"

text \<open>\<open>sync.Once\<close>: the embedded document is parsed on the first call only.\<close>

definition DefaultCloudPricingCatalog :: "(gostring + PricingCatalog) \<Rightarrow> pricingState \<Rightarrow> (gostring + PricingCatalog) \<times> pricingState" where
  "DefaultCloudPricingCatalog embedded st = (case defaultCatalog st of
     Some r \<Rightarrow> (r, st) | None \<Rightarrow> (embedded, st\<lparr>defaultCatalog := Some embedded\<rparr>))"

text \<open>\<open>Inl\<close> is the panic on a malformed embedded catalog.\<close>

definition DefaultCloudPricing :: "(gostring + PricingCatalog) \<Rightarrow> pricingState \<Rightarrow> (gostring + CloudPricing list) \<times> pricingState" where
  "DefaultCloudPricing embedded st = (case overrideCatalog st of
     Some c \<Rightarrow> (Inr (Flatten c), st)
   | None \<Rightarrow> (case DefaultCloudPricingCatalog embedded st of
        (Inl err, st') \<Rightarrow> (Inl (''embedded cloud pricing catalog is malformed: '' @ err), st')
      | (Inr c, st') \<Rightarrow> (Inr (Flatten c), st')))"

subsection \<open>Lemmas\<close>

definition entry :: "providerWithPrice \<Rightarrow> modelPricing \<Rightarrow> CloudPricing" where
  "entry p m = \<lparr>cp_Provider = pp_Provider p, cp_Model = mp_Model m,
     cp_InputPerMillion = mp_InputPerMillion m, cp_OutputPerMillion = mp_OutputPerMillion m\<rparr>"

lemma flattenModels_map: "flattenModels (pp_Provider p) ms out = out @ map (entry p) ms"
  by (induction ms arbitrary: out) (simp_all add: entry_def)

lemma flattenProviders_concat:
  "flattenProviders ps out = out @ concat (map (\<lambda>p. map (entry p) (pp_Models p)) ps)"
  by (induction ps arbitrary: out) (simp_all add: flattenModels_map)

lemma Flatten_concat: "Flatten c = concat (map (\<lambda>p. map (entry p) (pp_Models p)) (pc_Providers c))"
  by (simp add: Flatten_def flattenProviders_concat)

definition flatKey :: "CloudPricing \<Rightarrow> gostring" where
  "flatKey e = entryKey (cp_Provider e) (cp_Model e)"

definition entry_ok :: "CloudPricing \<Rightarrow> bool" where
  "entry_ok e = (cp_Provider e \<noteq> [] \<and> cp_Model e \<noteq> [] \<and> \<not> cp_InputPerMillion e < 0 \<and> \<not> cp_OutputPerMillion e < 0)"

lemma validateModels_iff:
  assumes "pp_Provider p \<noteq> []"
  shows "validateModels (pp_Provider p) ms seen = Inr seen' \<longleftrightarrow>
    (\<forall>e \<in> set (map (entry p) ms). entry_ok e) \<and> distinct (map flatKey (map (entry p) ms))
    \<and> set (map flatKey (map (entry p) ms)) \<inter> set seen = {}
    \<and> seen' = rev (map flatKey (map (entry p) ms)) @ seen"
  using assms
proof (induction ms arbitrary: seen)
  case (Cons m ms)
  have k: "flatKey (entry p m) = entryKey (pp_Provider p) (mp_Model m)" by (simp add: flatKey_def entry_def)
  have o: "entry_ok (entry p m) \<longleftrightarrow> mp_Model m \<noteq> [] \<and> \<not> (mp_InputPerMillion m < 0 \<or> mp_OutputPerMillion m < 0)"
    using Cons.prems by (auto simp: entry_ok_def entry_def)
  show ?case using Cons.IH [OF Cons.prems, of "flatKey (entry p m) # seen"]
    by (auto simp: Let_def k [symmetric] o simp del: map_map)
qed auto

lemma validateProviders_iff:
  "validateProviders ps seen = None \<longleftrightarrow>
    (\<forall>p \<in> set ps. pp_Provider p \<noteq> []) \<and> (\<forall>e \<in> set (flattenProviders ps []). entry_ok e)
    \<and> distinct (map flatKey (flattenProviders ps [])) \<and> set (map flatKey (flattenProviders ps [])) \<inter> set seen = {}"
proof (induction ps arbitrary: seen)
  case (Cons p ps)
  show ?case
  proof (cases "pp_Provider p = []")
    case False
    let ?k = "map flatKey (map (entry p) (pp_Models p))"
    have f: "flattenProviders (p # ps) [] = map (entry p) (pp_Models p) @ flattenProviders ps []"
      by (simp add: flattenProviders_concat)
    show ?thesis
    proof (cases "validateModels (pp_Provider p) (pp_Models p) seen")
      case (Inl e)
      have "\<nexists>s'. validateModels (pp_Provider p) (pp_Models p) seen = Inr s'" using Inl by simp
      then have "\<not> ((\<forall>e \<in> set (map (entry p) (pp_Models p)). entry_ok e) \<and> distinct ?k \<and> set ?k \<inter> set seen = {})"
        unfolding validateModels_iff [OF False] by blast
      then show ?thesis using False Inl unfolding f by auto
    next
      case (Inr seen')
      then have v: "(\<forall>e \<in> set (map (entry p) (pp_Models p)). entry_ok e)" "distinct ?k" "set ?k \<inter> set seen = {}" "seen' = rev ?k @ seen"
        unfolding validateModels_iff [OF False] by blast+
      have e: "validateProviders (p # ps) seen = validateProviders ps (rev ?k @ seen)"
        using False Inr v(4) by simp
      show ?thesis using False v(1-3) unfolding e f Cons.IH by auto
    qed
  qed simp
qed simp

subsection \<open>Properties\<close>

text \<open>C23 Validation is exact: a catalog is accepted if and only if it has a provider, every provider
  and model is named, no price is negative and no two entries share a provider/model key up to
  letter case.\<close>

theorem validate_iff:
  "Validate c = None \<longleftrightarrow> pc_Providers c \<noteq> [] \<and> (\<forall>p \<in> set (pc_Providers c). pp_Provider p \<noteq> [])
    \<and> (\<forall>e \<in> set (Flatten c). cp_Model e \<noteq> [] \<and> \<not> cp_InputPerMillion e < 0 \<and> \<not> cp_OutputPerMillion e < 0)
    \<and> distinct (map (\<lambda>e. to_lower (cp_Provider e @ ''/'' @ cp_Model e)) (Flatten c))"
proof -
  have k: "(\<lambda>e. to_lower (cp_Provider e @ ''/'' @ cp_Model e)) = flatKey"
    by (simp add: fun_eq_iff flatKey_def entryKey_def)
  have "(\<forall>p \<in> set (pc_Providers c). pp_Provider p \<noteq> []) \<Longrightarrow> e \<in> set (Flatten c) \<Longrightarrow> cp_Provider e \<noteq> []" for e
    by (auto simp: Flatten_concat entry_def)
  then show ?thesis unfolding k by (auto simp: Validate_def validateProviders_iff Flatten_def [symmetric] entry_ok_def)
qed

definition demo_catalog :: "gostring list \<Rightarrow> PricingCatalog" where
  "demo_catalog models = \<lparr>pc_LastVerified = [], pc_Sources = [], pc_Providers = [\<lparr>pp_Provider = ''OpenAI'',
     pp_Models = map (\<lambda>m. \<lparr>mp_Model = m, mp_Tier = [], mp_InputPerMillion = lit 2, mp_OutputPerMillion = lit 8, mp_Notes = []\<rparr>) models\<rparr>]\<rparr>"

theorem validate_iff_witness:
  "Validate (demo_catalog [''gpt-4o'', ''gpt-4o-mini'']) = None \<and> Validate (demo_catalog [''gpt-4o'', ''GPT-4o'']) \<noteq> None"
proof -
  have "\<not> lit 2 < 0" "\<not> lit 8 < 0" by code_simp+
  moreover have "to_lower ''OpenAI/gpt-4o'' \<noteq> to_lower ''OpenAI/gpt-4o-mini''" "to_lower ''OpenAI/gpt-4o'' = to_lower ''OpenAI/GPT-4o''"
    by code_simp+
  ultimately show ?thesis
    using validate_iff [of "demo_catalog [''gpt-4o'', ''gpt-4o-mini'']"] validate_iff [of "demo_catalog [''gpt-4o'', ''GPT-4o'']"]
    by (simp add: demo_catalog_def Flatten_concat entry_def)
qed

text \<open>The operator's override always wins and can be cleared: after installing a catalog the
  prices are its flat form whatever the embedded document is; after clearing it the prices are
  those of the embedded catalog as parsed by the first call, and a malformed one panics.\<close>

theorem override_precedence:
  "fst (DefaultCloudPricing embedded (SetOverrideCloudPricing (Some c) st)) = Inr (Flatten c)
   \<and> (let (r, st') = DefaultCloudPricing embedded (SetOverrideCloudPricing None st);
          parsed = (case defaultCatalog st of Some r \<Rightarrow> r | None \<Rightarrow> embedded)
      in r = (case parsed of Inl e \<Rightarrow> Inl (''embedded cloud pricing catalog is malformed: '' @ e) | Inr d \<Rightarrow> Inr (Flatten d))
         \<and> DefaultCloudPricing embedded2 st' = (r, st'))"
  by (auto simp: DefaultCloudPricing_def DefaultCloudPricingCatalog_def SetOverrideCloudPricing_def Let_def
      split: option.splits sum.splits prod.splits)

end
