(* ===== verification/Kube.thy ===== *)
theory Kube
  imports GoTime FloatFacts
begin

text \<open>
  What the controllers use of the Kubernetes libraries, none of which is in the repository: status
  conditions (\<open>meta.SetStatusCondition\<close>, \<open>meta.FindStatusCondition\<close>), API errors, object metadata,
  pods, and Prometheus gauges.  The two condition functions are an argument of every definition that
  uses them; the locale \<open>status_conditions\<close> names their documented behaviour.
\<close>

datatype ConditionStatus = ConditionTrue | ConditionFalse | ConditionUnknown

record Condition =
  c_Type :: gostring
  c_Status :: ConditionStatus
  c_Reason :: gostring
  c_Message :: gostring
  c_LastTransitionTime :: gotime

record condition_ops =
  cs_find :: "Condition list \<Rightarrow> gostring \<Rightarrow> Condition option"
  cs_set :: "Condition list \<Rightarrow> Condition \<Rightarrow> Condition list"

locale status_conditions =
  fixes C :: condition_ops
  assumes find_type: "cs_find C cs t = Some c \<Longrightarrow> c_Type c = t"
    and set_same: "\<exists>c'. cs_find C (cs_set C cs c) (c_Type c) = Some c' \<and> c_Status c' = c_Status c
      \<and> c_Reason c' = c_Reason c \<and> c_Message c' = c_Message c"
    and set_other: "t \<noteq> c_Type c \<Longrightarrow> cs_find C (cs_set C cs c) t = cs_find C cs t"
    and set_time: "cs_find C cs (c_Type c) = Some c0 \<Longrightarrow> c_Status c0 = c_Status c \<Longrightarrow>
      cs_find C (cs_set C cs c) (c_Type c) = Some c' \<Longrightarrow> c_LastTransitionTime c' = c_LastTransitionTime c0"
begin

text \<open>The status, reason and message of a condition, the time of transition left aside.\<close>

definition view :: "Condition list \<Rightarrow> gostring \<Rightarrow> (ConditionStatus \<times> gostring \<times> gostring) option" where
  "view cs t = map_option (\<lambda>c. (c_Status c, c_Reason c, c_Message c)) (cs_find C cs t)"

lemma view_set: "view (cs_set C cs c) t =
  (if t = c_Type c then Some (c_Status c, c_Reason c, c_Message c) else view cs t)"
  using set_same [of cs c] set_other [of t c cs] by (auto simp: view_def)

end

subsection \<open>The documented behaviour on lists\<close>

definition std_find :: "Condition list \<Rightarrow> gostring \<Rightarrow> Condition option" where
  "std_find cs t = List.find (\<lambda>c. c_Type c = t) cs"

fun std_set :: "Condition list \<Rightarrow> Condition \<Rightarrow> Condition list" where
  "std_set [] c = [c]"
| "std_set (d # cs) c = (if c_Type d = c_Type c
     then c\<lparr>c_LastTransitionTime := (if c_Status d = c_Status c then c_LastTransitionTime d else c_LastTransitionTime c)\<rparr> # cs
     else d # std_set cs c)"

definition std_conditions :: condition_ops where
  "std_conditions = \<lparr>cs_find = std_find, cs_set = std_set\<rparr>"

lemma std_find_simps [simp]:
  "std_find [] t = None" "std_find (c # cs) t = (if c_Type c = t then Some c else std_find cs t)"
  by (simp_all add: std_find_def)

lemma std_find_set: "std_find (std_set cs c) t =
  (if t = c_Type c then Some (case std_find cs t of
       Some d \<Rightarrow> c\<lparr>c_LastTransitionTime := (if c_Status d = c_Status c then c_LastTransitionTime d else c_LastTransitionTime c)\<rparr>
     | None \<Rightarrow> c) else std_find cs t)"
  by (induction cs) auto

interpretation std: status_conditions std_conditions
proof unfold_locales
  fix cs t c
  show "cs_find std_conditions cs t = Some c \<Longrightarrow> c_Type c = t"
    by (auto simp: std_conditions_def std_find_def find_Some_iff)
qed (auto simp: std_conditions_def std_find_set split: option.splits)

subsection \<open>Errors, metadata, pods\<close>

datatype kerror = NotFound gostring | NoMatch gostring | KError gostring

fun kerror_text :: "kerror \<Rightarrow> gostring" where
  "kerror_text (NotFound s) = s"
| "kerror_text (NoMatch s) = s"
| "kerror_text (KError s) = s"

record ObjectMeta =
  om_Name :: gostring
  om_Namespace :: gostring
  om_CreationTimestamp :: gotime

record Pod =
  pod_Name :: gostring
  pod_Namespace :: gostring
  pod_Annotations :: "(gostring, gostring) gomap"
  pod_Labels :: "(gostring, gostring) gomap"
  pod_Phase :: gostring
  pod_IP :: gostring
  pod_NodeName :: gostring

text \<open>\<open>ctrl.Result\<close>: the requeue delay.\<close>

record Result =
  RequeueAfter :: duration

subsection \<open>Prometheus gauges\<close>

text \<open>The value of each gauge at each tuple of label values; \<open>Set\<close> overwrites it.\<close>

type_synonym gauges = "(gostring \<times> gostring list, f64) gomap"

definition gauge_set :: "gostring \<Rightarrow> gostring list \<Rightarrow> f64 \<Rightarrow> gauges \<Rightarrow> gauges" where
  "gauge_set name labels v m = gm_put (name, labels) v m"

definition gauge_get :: "gauges \<Rightarrow> gostring \<Rightarrow> gostring list \<Rightarrow> f64 option" where
  "gauge_get m name labels = map_of m (name, labels)"

lemma gauge_get_set [simp, store_simps]:
  "gauge_get (gauge_set n ls v m) n' ls' = (if n' = n \<and> ls' = ls then Some v else gauge_get m n' ls')"
  by (auto simp: gauge_get_def gauge_set_def)

end
