(* ===== verification/ApiTypes.thy ===== *)
theory ApiTypes
  imports Kube
begin

text \<open>\<open>api/v1alpha1\<close>: the custom resources, with the fields the controllers read and write.\<close>

subsection \<open>CostProfile\<close>

record HardwareSpec =
  hs_GPUModel :: gostring
  hs_GPUCount :: int32
  hs_PurchasePriceUSD :: f64
  hs_AmortizationYears :: int32
  hs_MaintenancePercentPerYear :: f64
  hs_TDPWatts :: "int32 option"

record ElectricitySpec =
  es_RatePerKWh :: f64
  es_PUEFactor :: f64
  es_IdleWattsThreshold :: "f64 option"

record CloudTarget =
  ct_Provider :: gostring
  ct_Model :: gostring

record CloudComparisonSpec =
  ccs_Targets :: "CloudTarget list"

record CostProfileSpec =
  cps_Hardware :: HardwareSpec
  cps_Electricity :: ElectricitySpec
  cps_NodeSelector :: "(gostring, gostring) gomap"
  cps_NamespaceSelector :: "(gostring, gostring) gomap"
  cps_CloudComparison :: "CloudComparisonSpec option"

record CostProfileStatus =
  cpt_HourlyCostUSD :: f64
  cpt_AmortizationRatePerHour :: f64
  cpt_ElectricityCostPerHour :: f64
  cpt_CurrentPowerDrawWatts :: f64
  cpt_LastUpdated :: "gotime option"
  cpt_Conditions :: "Condition list"

record CostProfile =
  prof_Meta :: ObjectMeta
  prof_Spec :: CostProfileSpec
  prof_Status :: CostProfileStatus

subsection \<open>UsageReport\<close>

type_synonym ReportSchedule = gostring

definition ReportScheduleDaily :: ReportSchedule where "ReportScheduleDaily = ''daily''"
definition ReportScheduleWeekly :: ReportSchedule where "ReportScheduleWeekly = ''weekly''"
definition ReportScheduleMonthly :: ReportSchedule where "ReportScheduleMonthly = ''monthly''"

record UsageReportSpec =
  urs_CostProfileRef :: gostring
  urs_Schedule :: ReportSchedule
  urs_Namespaces :: "gostring list"

record ModelCostBreakdown =
  mb_Model :: gostring
  mb_Namespace :: gostring
  mb_InputTokens :: int64
  mb_OutputTokens :: int64
  mb_EstimatedCostUSD :: f64
  mb_CostPerMillionTokens :: f64

record NamespaceCostBreakdown =
  nb_Namespace :: gostring
  nb_EstimatedCostUSD :: f64
  nb_TokenCount :: int64

record CloudComparisonEntry =
  ce_Provider :: gostring
  ce_Model :: gostring
  ce_EstimatedCloudCostUSD :: f64
  ce_SavingsUSD :: f64
  ce_SavingsPercent :: f64

record BreakEvenEntry =
  be_Provider :: gostring
  be_Model :: gostring
  be_BreakEvenTokensPerDay :: int64
  be_CurrentUtilizationTokensPerDay :: int64
  be_PercentOfBreakEven :: f64
  be_Verdict :: gostring

record UsageReportStatus =
  ut_Period :: gostring
  ut_PeriodStart :: "gotime option"
  ut_PeriodEnd :: "gotime option"
  ut_InputTokens :: int64
  ut_OutputTokens :: int64
  ut_EstimatedCostUSD :: f64
  ut_CostPerMillionTokens :: f64
  ut_MarginalCostPerMillionTokens :: f64
  ut_ActiveHoursCostPerMillionTokens :: f64
  ut_ActiveEnergyKWh :: f64
  ut_GPUEfficiencyRatio :: f64
  ut_UtilizationPercent :: f64
  ut_ActiveHoursInPeriod :: f64
  ut_TotalHoursInPeriod :: f64
  ut_ByModel :: "ModelCostBreakdown list"
  ut_ByNamespace :: "NamespaceCostBreakdown list"
  ut_CloudComparison :: "CloudComparisonEntry list"
  ut_BreakEvenAnalysis :: "BreakEvenEntry list"
  ut_LastUpdated :: "gotime option"
  ut_Conditions :: "Condition list"

record UsageReport =
  ur_Meta :: ObjectMeta
  ur_Spec :: UsageReportSpec
  ur_Status :: UsageReportStatus

subsection \<open>TokenBudget\<close>

record TokenBudgetScope =
  tsc_Namespace :: gostring

record AlertThreshold =
  at_Percent :: int32
  at_Severity :: gostring

record TokenBudgetSpec =
  tbs_Scope :: TokenBudgetScope
  tbs_MonthlyLimitUSD :: f64
  tbs_AlertThresholds :: "AlertThreshold list"

record TokenBudgetStatus =
  tbt_CurrentSpendUSD :: f64
  tbt_UtilizationPercent :: f64
  tbt_PeriodStart :: "gotime option"
  tbt_PeriodEnd :: "gotime option"
  tbt_LastUpdated :: "gotime option"
  tbt_Conditions :: "Condition list"

record TokenBudget =
  tb_Meta :: ObjectMeta
  tb_Spec :: TokenBudgetSpec
  tb_Status :: TokenBudgetStatus

end
