(* ===== verification/ApiStore.thy ===== *)
theory ApiStore
  imports Pricing ApiTypes
begin

text \<open>
  \<open>internal/api\<close>: the in-memory store the controllers publish to and the HTTP handlers that read
  it.  Each method takes the lock for its whole effect and is one atomic step; getters copy, so a
  value read is never changed by a later write.
\<close>

subsection \<open>Data\<close>

record CostData =
  cd_ProfileName :: gostring
  cd_GPUModel :: gostring
  cd_GPUCount :: int32
  cd_HourlyCostUSD :: f64
  cd_AmortizationPerHr :: f64
  cd_ElectricityPerHr :: f64
  cd_PowerDrawWatts :: f64
  cd_MonthlyProjected :: f64
  cd_YearlyProjected :: f64
  cd_PurchasePriceUSD :: f64
  cd_AmortizationYears :: int32
  cd_RatePerKWh :: f64
  cd_PUEFactor :: f64
  cd_UptimeHours :: f64
  cd_LastUpdated :: gotime

record ModelData =
  md_Model :: gostring
  md_Namespace :: gostring
  md_Pod :: gostring
  md_InputTokens :: f64
  md_OutputTokens :: f64
  md_TokensPerHour :: f64
  md_CostPerMTok :: f64
  md_TokensPerSec :: f64
  md_IsActive :: bool

record NamespaceCostData =
  nc_Namespace :: gostring
  nc_EstimatedCostUSD :: f64
  nc_TokenCount :: int64
  nc_Models :: "gostring list"

record ComparisonData =
  xd_Provider :: gostring
  xd_Model :: gostring
  xd_CloudCostUSD :: f64
  xd_OnPremCostUSD :: f64
  xd_SavingsUSD :: f64
  xd_SavingsPercent :: f64
  xd_InputPerMTok :: f64
  xd_OutputPerMTok :: f64

record BreakEvenData =
  bd_Provider :: gostring
  bd_Model :: gostring
  bd_BreakEvenTokensPerDay :: int64
  bd_CurrentUtilizationTokensPerDay :: int64
  bd_PercentOfBreakEven :: f64
  bd_Verdict :: gostring

record BudgetData =
  gd_Name :: gostring
  gd_Namespace :: gostring
  gd_MonthlyLimitUSD :: f64
  gd_CurrentSpendUSD :: f64
  gd_UtilizationPercent :: f64
  gd_Status :: gostring

subsection \<open>The store\<close>

record Store =
  st_cost :: "CostData option"
  st_models :: "ModelData list"
  st_comparisons :: "ComparisonData list"
  st_namespaceCosts :: "NamespaceCostData list"
  st_budgets :: "BudgetData list"
  st_breakEven :: "BreakEvenData list"

definition NewStore :: Store where
  "NewStore = \<lparr>st_cost = None, st_models = [], st_comparisons = [], st_namespaceCosts = [], st_budgets = [], st_breakEven = []\<rparr>"

definition SetCostData :: "CostData \<Rightarrow> Store \<Rightarrow> Store" where "SetCostData data s = s\<lparr>st_cost := Some data\<rparr>"
definition SetModels :: "ModelData list \<Rightarrow> Store \<Rightarrow> Store" where "SetModels models s = s\<lparr>st_models := models\<rparr>"
definition SetComparisons :: "ComparisonData list \<Rightarrow> Store \<Rightarrow> Store" where
  "SetComparisons comparisons s = s\<lparr>st_comparisons := comparisons\<rparr>"
definition SetBreakEven :: "BreakEvenData list \<Rightarrow> Store \<Rightarrow> Store" where "SetBreakEven data s = s\<lparr>st_breakEven := data\<rparr>"
definition SetNamespaceCosts :: "NamespaceCostData list \<Rightarrow> Store \<Rightarrow> Store" where
  "SetNamespaceCosts costs s = s\<lparr>st_namespaceCosts := costs\<rparr>"
definition SetBudgets :: "BudgetData list \<Rightarrow> Store \<Rightarrow> Store" where "SetBudgets budgets s = s\<lparr>st_budgets := budgets\<rparr>"

definition GetCostData :: "Store \<Rightarrow> CostData option" where "GetCostData s = st_cost s"
definition GetModels :: "Store \<Rightarrow> ModelData list" where "GetModels s = st_models s"
definition GetComparisons :: "Store \<Rightarrow> ComparisonData list" where "GetComparisons s = st_comparisons s"
definition GetBreakEven :: "Store \<Rightarrow> BreakEvenData list" where "GetBreakEven s = st_breakEven s"
definition GetNamespaceCosts :: "Store \<Rightarrow> NamespaceCostData list" where "GetNamespaceCosts s = st_namespaceCosts s"
definition GetBudgets :: "Store \<Rightarrow> BudgetData list" where "GetBudgets s = st_budgets s"

lemmas store_defs = SetCostData_def SetModels_def SetComparisons_def SetBreakEven_def SetNamespaceCosts_def
  SetBudgets_def GetCostData_def GetModels_def GetComparisons_def GetBreakEven_def GetNamespaceCosts_def GetBudgets_def

text \<open>
  What a controller may rely on when it owns one slot of the store while the others are written by
  the other controllers: it reads back its last write, and the writes of the others commute with it.
\<close>

locale store_slot =
  fixes get :: "'s \<Rightarrow> 'v" and set :: "'v \<Rightarrow> 's \<Rightarrow> 's" and foreign :: "('s \<Rightarrow> 's) set"
  assumes get_set: "get (set v s) = v"
    and set_set: "set v (set w s) = set v s"
    and get_foreign: "f \<in> foreign \<Longrightarrow> get (f s) = get s"
begin

lemma get_after_foreign: "Ball (List.set fs) (\<lambda>f. f \<in> foreign) \<Longrightarrow> get (fold (\<lambda>f. f) fs (set v s)) = v"
  by (induction fs arbitrary: v s rule: rev_induct) (simp_all add: get_set get_foreign)

end

definition not_budgets :: "(Store \<Rightarrow> Store) set" where
  "not_budgets = range SetCostData \<union> range SetModels \<union> range SetComparisons \<union> range SetBreakEven \<union> range SetNamespaceCosts"

definition not_namespaceCosts :: "(Store \<Rightarrow> Store) set" where
  "not_namespaceCosts = range SetCostData \<union> range SetModels \<union> range SetComparisons \<union> range SetBreakEven \<union> range SetBudgets"

definition not_breakEven :: "(Store \<Rightarrow> Store) set" where
  "not_breakEven = range SetCostData \<union> range SetModels \<union> range SetComparisons \<union> range SetNamespaceCosts \<union> range SetBudgets"

interpretation budgets_slot: store_slot GetBudgets SetBudgets not_budgets
  by unfold_locales (auto simp: store_defs not_budgets_def)

interpretation namespace_slot: store_slot GetNamespaceCosts SetNamespaceCosts not_namespaceCosts
  by unfold_locales (auto simp: store_defs not_namespaceCosts_def)

interpretation breakEven_slot: store_slot GetBreakEven SetBreakEven not_breakEven
  by unfold_locales (auto simp: store_defs not_breakEven_def)

subsection \<open>Comparisons\<close>

fun buildRows :: "CloudPricing list \<Rightarrow> nat \<Rightarrow> CloudComparison list \<Rightarrow> ComparisonData list" where
  "buildRows pricing i [] = []"
| "buildRows pricing i (c # cs) =
    \<lparr>xd_Provider = cc_Provider c, xd_Model = cc_Model c, xd_CloudCostUSD = cc_CloudCostUSD c,
     xd_OnPremCostUSD = cc_OnPremCostUSD c, xd_SavingsUSD = cc_SavingsUSD c, xd_SavingsPercent = cc_SavingsPercent c,
     xd_InputPerMTok = cp_InputPerMillion (pricing ! i), xd_OutputPerMTok = cp_OutputPerMillion (pricing ! i)\<rparr>
    # buildRows pricing (i + 1) cs"

text \<open>The pricing state and the embedded catalog are those of \<open>DefaultCloudPricing\<close>; \<open>Inl\<close> is its panic.\<close>

definition BuildComparisons :: "(gostring + PricingCatalog) \<Rightarrow> pricingState \<Rightarrow> int64 \<Rightarrow> int64 \<Rightarrow> f64 \<Rightarrow> gostring + ComparisonData list" where
  "BuildComparisons embedded st inputTokens outputTokens onPremCost =
    (case fst (DefaultCloudPricing embedded st) of Inl e \<Rightarrow> Inl e
     | Inr pricing \<Rightarrow> Inr (buildRows pricing 0 (CompareToCloud inputTokens outputTokens onPremCost pricing)))"

subsection \<open>Handlers\<close>

record compareResponse =
  cr_comparisons :: "ComparisonData list"
  cr_pricingSources :: "(gostring \<times> gostring) list"
  cr_lastVerified :: gostring
  cr_disclaimer :: gostring
  cr_onPremCostUSD :: "f64 option"
  cr_uptimeHours :: "f64 option"

datatype body =
    BError gostring
  | BCost CostData
  | BBreakEven "BreakEvenData list" nat
  | BNamespaceCosts "NamespaceCostData list" nat
  | BModels "ModelData list" nat
  | BCompare compareResponse
  | BBudgets "BudgetData list" nat
  | BStatus "CostData option" "ModelData list" "ComparisonData list"
  | BHealth gostring

type_synonym response = "int \<times> body"

definition emDash :: gostring where
  "emDash = [CHR 0xE2, CHR 0x80, CHR 0x94]"

definition handleCostsCurrent :: "Store \<Rightarrow> response" where
  "handleCostsCurrent s = (case GetCostData s of
      None \<Rightarrow> (503, BError (''no cost data available yet '' @ emDash @ '' waiting for first reconcile''))
    | Some data \<Rightarrow> (200, BCost data))"

definition handleBreakEven :: "Store \<Rightarrow> response" where
  "handleBreakEven s = (let data = GetBreakEven s in
     if length data = 0 then (503, BError (''no break-even data available yet '' @ emDash @ '' waiting for first reconcile''))
     else (200, BBreakEven data (length data)))"

fun filterNamespace :: "gostring \<Rightarrow> NamespaceCostData list \<Rightarrow> NamespaceCostData list" where
  "filterNamespace ns [] = []"
| "filterNamespace ns (c # cs) = (if nc_Namespace c = ns then c # filterNamespace ns cs else filterNamespace ns cs)"

text \<open>The argument is the query parameter \<open>namespace\<close>, empty when absent.\<close>

definition handleCostsByNamespace :: "gostring \<Rightarrow> Store \<Rightarrow> response" where
  "handleCostsByNamespace nsFilter s =
    (let costs = GetNamespaceCosts s; costs = (if nsFilter \<noteq> [] then filterNamespace nsFilter costs else costs)
     in (200, BNamespaceCosts costs (length costs)))"

definition handleModels :: "Store \<Rightarrow> response" where
  "handleModels s = (let models = GetModels s in (200, BModels models (length models)))"

definition handleCompare :: "Store \<Rightarrow> response" where
  "handleCompare s =
    (let comparisons = GetComparisons s; cost = GetCostData s in
     (200, BCompare
       \<lparr>cr_comparisons = comparisons,
        cr_pricingSources = [(''OpenAI'', ''https://developers.openai.com/api/docs/pricing''),
          (''Anthropic'', ''https://platform.claude.com/docs/en/about-claude/pricing''),
          (''Google'', ''https://ai.google.dev/gemini-api/docs/pricing'')],
        cr_lastVerified = ''2026-03-21'',
        cr_disclaimer = ''Cloud pricing shown is list price. Does not reflect negotiated enterprise rates or batch discounts.'',
        cr_onPremCostUSD = map_option (\<lambda>c. cd_HourlyCostUSD c * cd_UptimeHours c) cost,
        cr_uptimeHours = map_option cd_UptimeHours cost\<rparr>))"

definition handleBudgets :: "Store \<Rightarrow> response" where
  "handleBudgets s = (let budgets = GetBudgets s in (200, BBudgets budgets (length budgets)))"

definition handleStatus :: "Store \<Rightarrow> response" where
  "handleStatus s = (200, BStatus (GetCostData s) (GetModels s) (GetComparisons s))"

definition handleHealthz :: "Store \<Rightarrow> response" where
  "handleHealthz s = (200, BHealth ''ok'')"

text \<open>The routes of \<open>NewServer\<close>; \<open>None\<close> is a request the mux answers itself (404 or 405).\<close>

definition route :: "gostring \<Rightarrow> gostring \<Rightarrow> gostring \<Rightarrow> Store \<Rightarrow> response option" where
  "route meth path nsFilter s =
    (if meth \<noteq> ''GET'' \<and> meth \<noteq> ''HEAD'' then None
     else if path = ''/api/v1/costs/current'' then Some (handleCostsCurrent s)
     else if path = ''/api/v1/costs/by-namespace'' then Some (handleCostsByNamespace nsFilter s)
     else if path = ''/api/v1/models'' then Some (handleModels s)
     else if path = ''/api/v1/compare'' then Some (handleCompare s)
     else if path = ''/api/v1/break-even'' then Some (handleBreakEven s)
     else if path = ''/api/v1/budgets'' then Some (handleBudgets s)
     else if path = ''/api/v1/status'' then Some (handleStatus s)
     else if path = ''/healthz'' then Some (handleHealthz s)
     else None)"

text \<open>
  \<open>writeJSON\<close> sends the status first.  The encoder writes a value only when all of it can be encoded, and refuses a float that is
  infinite or not a number; the error is dropped, and then the body that is sent is empty (\<open>None\<close>).
\<close>

definition costFloats :: "CostData \<Rightarrow> f64 list" where
  "costFloats d = [cd_HourlyCostUSD d, cd_AmortizationPerHr d, cd_ElectricityPerHr d, cd_PowerDrawWatts d, cd_MonthlyProjected d,
     cd_YearlyProjected d, cd_PurchasePriceUSD d, cd_RatePerKWh d, cd_PUEFactor d, cd_UptimeHours d]"

definition modelFloats :: "ModelData \<Rightarrow> f64 list" where
  "modelFloats m = [md_InputTokens m, md_OutputTokens m, md_TokensPerHour m, md_CostPerMTok m, md_TokensPerSec m]"

definition comparisonFloats :: "ComparisonData \<Rightarrow> f64 list" where
  "comparisonFloats c = [xd_CloudCostUSD c, xd_OnPremCostUSD c, xd_SavingsUSD c, xd_SavingsPercent c, xd_InputPerMTok c, xd_OutputPerMTok c]"

definition budgetFloats :: "BudgetData \<Rightarrow> f64 list" where
  "budgetFloats b = [gd_MonthlyLimitUSD b, gd_CurrentSpendUSD b, gd_UtilizationPercent b]"

fun jsonFloats :: "body \<Rightarrow> f64 list" where
  "jsonFloats (BError msg) = []"
| "jsonFloats (BCost d) = costFloats d"
| "jsonFloats (BBreakEven rows n) = map bd_PercentOfBreakEven rows"
| "jsonFloats (BNamespaceCosts rows n) = map nc_EstimatedCostUSD rows"
| "jsonFloats (BModels rows n) = concat (map modelFloats rows)"
| "jsonFloats (BCompare r) = concat (map comparisonFloats (cr_comparisons r))
    @ (case cr_onPremCostUSD r of None \<Rightarrow> [] | Some x \<Rightarrow> [x]) @ (case cr_uptimeHours r of None \<Rightarrow> [] | Some x \<Rightarrow> [x])"
| "jsonFloats (BBudgets rows n) = concat (map budgetFloats rows)"
| "jsonFloats (BStatus cost models rows) = (case cost of None \<Rightarrow> [] | Some d \<Rightarrow> costFloats d)
    @ concat (map modelFloats models) @ concat (map comparisonFloats rows)"
| "jsonFloats (BHealth st) = []"

definition writeJSON :: "int \<Rightarrow> body \<Rightarrow> int \<times> body option" where
  "writeJSON status data = (status, if list_all is_fin (jsonFloats data) then Some data else None)"

subsection \<open>Lemmas\<close>

text \<open>One row that cannot be encoded hides all of them: a budget with a tiny limit has an infinite utilization, and from then on the budgets
  are answered by an empty body with status 200.\<close>

lemma budgets_hidden:
  assumes "r \<in> set (GetBudgets s)" and "gd_UtilizationPercent r = lit 1000 / lit (1 / 10 ^ 306) * lit 100"
  shows "case handleBudgets s of (status, data) \<Rightarrow> writeJSON status data = (200, None)"
proof -
  have "\<not> is_fin (lit 1000 / lit (1 / 10 ^ 306) * lit 100)" by code_simp
  then have "\<not> list_all is_fin (concat (map budgetFloats (GetBudgets s)))"
    using assms by (force simp: list_all_iff budgetFloats_def)
  then show ?thesis by (simp add: handleBudgets_def writeJSON_def Let_def)
qed

lemma buildRows_zip:
  "i + length cs \<le> length pricing \<Longrightarrow> buildRows pricing i cs = map (\<lambda>(p, c).
    \<lparr>xd_Provider = cc_Provider c, xd_Model = cc_Model c, xd_CloudCostUSD = cc_CloudCostUSD c,
     xd_OnPremCostUSD = cc_OnPremCostUSD c, xd_SavingsUSD = cc_SavingsUSD c, xd_SavingsPercent = cc_SavingsPercent c,
     xd_InputPerMTok = cp_InputPerMillion p, xd_OutputPerMTok = cp_OutputPerMillion p\<rparr>) (zip (drop i pricing) cs)"
proof (induction pricing i cs rule: buildRows.induct)
  case (2 pricing i c cs)
  then have "drop i pricing = pricing ! i # drop (i + 1) pricing" by (simp add: Cons_nth_drop_Suc)
  then show ?case using 2 by simp
qed simp

lemma filterNamespace_filter: "filterNamespace ns cs = filter (\<lambda>c. nc_Namespace c = ns) cs"
  by (induction cs) auto

text \<open>Every row of the comparison API carries the price of its own catalog entry: \<open>BuildComparisons\<close>
  answers one row per entry of the active catalog, in order, with that entry's provider, model and
  prices and the figures \<open>CompareToCloud\<close> computes for it (the index into the catalog never misses).\<close>

theorem build_comparisons_aligned:
  "BuildComparisons embedded st i u x = (case fst (DefaultCloudPricing embedded st) of Inl e \<Rightarrow> Inl e
    | Inr pricing \<Rightarrow> Inr (map (\<lambda>p. let c = compareOne i u x p in
        \<lparr>xd_Provider = cp_Provider p, xd_Model = cp_Model p, xd_CloudCostUSD = cc_CloudCostUSD c,
         xd_OnPremCostUSD = x, xd_SavingsUSD = cc_SavingsUSD c, xd_SavingsPercent = cc_SavingsPercent c,
         xd_InputPerMTok = cp_InputPerMillion p, xd_OutputPerMTok = cp_OutputPerMillion p\<rparr>) pricing))"
proof -
  have "buildRows pricing 0 (CompareToCloud i u x pricing) = map (\<lambda>p. let c = compareOne i u x p in
        \<lparr>xd_Provider = cp_Provider p, xd_Model = cp_Model p, xd_CloudCostUSD = cc_CloudCostUSD c,
         xd_OnPremCostUSD = x, xd_SavingsUSD = cc_SavingsUSD c, xd_SavingsPercent = cc_SavingsPercent c,
         xd_InputPerMTok = cp_InputPerMillion p, xd_OutputPerMTok = cp_OutputPerMillion p\<rparr>) pricing" for pricing
    by (subst buildRows_zip) (simp_all add: compare_map zip_map2 zip_same_conv_map Let_def compareOne_def)
  then show ?thesis by (simp add: BuildComparisons_def split: sum.splits)
qed

end
