(* ===== verification/Metrics.thy ===== *)
theory Metrics
  imports Kube
begin

text \<open>
  \<open>internal/metrics/metrics.go\<close>: the gauges with their full names (namespace and name), help texts and label names.
  \<open>WithLabelValues\<close> panics when the number of values is not the number of label names.
\<close>

definition gauge_name :: "gostring \<Rightarrow> gostring" where
  "gauge_name n = ''infercost_'' @ n"

definition HourlyCostUSD :: gostring where "HourlyCostUSD = gauge_name ''hourly_cost_usd''"
definition mAmortizationPerHour :: gostring where "mAmortizationPerHour = gauge_name ''amortization_per_hour_usd''"
definition mElectricityPerHour :: gostring where "mElectricityPerHour = gauge_name ''electricity_per_hour_usd''"
definition GPUPowerWatts :: gostring where "GPUPowerWatts = gauge_name ''gpu_power_watts''"
definition CostPerTokenUSD :: gostring where "CostPerTokenUSD = gauge_name ''cost_per_token_usd''"
definition CostPerMillionTokensUSD :: gostring where "CostPerMillionTokensUSD = gauge_name ''cost_per_million_tokens_usd''"
definition CloudEquivalentCostUSD :: gostring where "CloudEquivalentCostUSD = gauge_name ''cloud_equivalent_cost_usd''"
definition SavingsVsCloudUSD :: gostring where "SavingsVsCloudUSD = gauge_name ''savings_vs_cloud_usd''"
definition SavingsVsCloudPercent :: gostring where "SavingsVsCloudPercent = gauge_name ''savings_vs_cloud_percent''"
definition TokensTotal :: gostring where "TokensTotal = gauge_name ''tokens_total''"
definition mGPUEfficiencyRatio :: gostring where "mGPUEfficiencyRatio = gauge_name ''gpu_efficiency_ratio''"
definition TokensPerHour :: gostring where "TokensPerHour = gauge_name ''tokens_per_hour''"
definition BudgetLimitUSD :: gostring where "BudgetLimitUSD = gauge_name ''budget_limit_usd''"
definition BudgetCurrentSpendUSD :: gostring where "BudgetCurrentSpendUSD = gauge_name ''budget_current_spend_usd''"
definition BudgetUtilizationPercent :: gostring where "BudgetUtilizationPercent = gauge_name ''budget_utilization_percent''"
definition mBreakEvenTokensPerDay :: gostring where "mBreakEvenTokensPerDay = gauge_name ''break_even_tokens_per_day''"
definition mPercentOfBreakEven :: gostring where "mPercentOfBreakEven = gauge_name ''percent_of_break_even''"

definition all_gauges :: "gostring list" where
  "all_gauges = [HourlyCostUSD, mAmortizationPerHour, mElectricityPerHour, GPUPowerWatts, CostPerTokenUSD,
     CostPerMillionTokensUSD, CloudEquivalentCostUSD, SavingsVsCloudUSD, SavingsVsCloudPercent, TokensTotal,
     mGPUEfficiencyRatio, TokensPerHour, BudgetLimitUSD, BudgetCurrentSpendUSD, BudgetUtilizationPercent,
     mBreakEvenTokensPerDay, mPercentOfBreakEven]"

lemmas gauge_defs = HourlyCostUSD_def mAmortizationPerHour_def mElectricityPerHour_def GPUPowerWatts_def
  CostPerTokenUSD_def CostPerMillionTokensUSD_def CloudEquivalentCostUSD_def SavingsVsCloudUSD_def
  SavingsVsCloudPercent_def TokensTotal_def mGPUEfficiencyRatio_def TokensPerHour_def BudgetLimitUSD_def
  BudgetCurrentSpendUSD_def BudgetUtilizationPercent_def mBreakEvenTokensPerDay_def mPercentOfBreakEven_def

text \<open>\<open>MustRegister\<close> panics on a name registered twice: the names are distinct.\<close>

lemma gauges_distinct: "distinct all_gauges"
  by (simp add: all_gauges_def gauge_defs gauge_name_def)

lemmas gauge_neq = gauges_distinct [unfolded all_gauges_def distinct.simps list.set insert_iff empty_iff]

text \<open>The declarations; the registered gauges are these, in this order.\<close>

record gaugeVec =
  gv_Name :: gostring
  gv_Help :: gostring
  gv_Labels :: "gostring list"

definition gaugeVecs :: "gaugeVec list" where
  "gaugeVecs = [\<lparr>gv_Name = HourlyCostUSD, gv_Help = ''Total hourly infrastructure cost (amortization + electricity) in USD.'',
       gv_Labels = [''cost_profile'', ''node'', ''gpu_model'']\<rparr>,
     \<lparr>gv_Name = mAmortizationPerHour, gv_Help = ''Hourly hardware amortization cost in USD.'',
       gv_Labels = [''cost_profile'', ''node'']\<rparr>,
     \<lparr>gv_Name = mElectricityPerHour, gv_Help = ''Hourly electricity cost in USD based on real-time GPU power draw.'',
       gv_Labels = [''cost_profile'', ''node'']\<rparr>,
     \<lparr>gv_Name = GPUPowerWatts, gv_Help = ''Current GPU power draw in watts (from DCGM).'',
       gv_Labels = [''cost_profile'', ''node'', ''gpu'']\<rparr>,
     \<lparr>gv_Name = CostPerTokenUSD, gv_Help = ''Computed cost per token in USD.'',
       gv_Labels = [''model'', ''namespace'']\<rparr>,
     \<lparr>gv_Name = CostPerMillionTokensUSD, gv_Help = ''Computed cost per million tokens in USD.'',
       gv_Labels = [''model'', ''namespace'']\<rparr>,
     \<lparr>gv_Name = CloudEquivalentCostUSD, gv_Help = ''Estimated cost if the same tokens were processed by a cloud provider.'',
       gv_Labels = [''provider'', ''cloud_model'']\<rparr>,
     \<lparr>gv_Name = SavingsVsCloudUSD, gv_Help = ''USD saved compared to cloud provider pricing. Positive means on-prem is cheaper.'',
       gv_Labels = [''provider'', ''cloud_model'']\<rparr>,
     \<lparr>gv_Name = SavingsVsCloudPercent, gv_Help = ''Percentage saved compared to cloud provider pricing.'',
       gv_Labels = [''provider'', ''cloud_model'']\<rparr>,
     \<lparr>gv_Name = TokensTotal, gv_Help = ''Total tokens processed (passthrough from inference engine).'',
       gv_Labels = [''model'', ''namespace'', ''direction'']\<rparr>,
     \<lparr>gv_Name = mGPUEfficiencyRatio, gv_Help = ''Fraction of GPU time spent on active inference (0.0-1.0).'',
       gv_Labels = [''cost_profile'', ''node'']\<rparr>,
     \<lparr>gv_Name = TokensPerHour, gv_Help = ''Current token throughput rate (tokens per hour).'',
       gv_Labels = [''model'', ''namespace'']\<rparr>,
     \<lparr>gv_Name = BudgetLimitUSD, gv_Help = ''Configured monthly budget limit in USD.'',
       gv_Labels = [''namespace'', ''budget_name'']\<rparr>,
     \<lparr>gv_Name = BudgetCurrentSpendUSD, gv_Help = ''Current month spend against budget in USD.'',
       gv_Labels = [''namespace'', ''budget_name'']\<rparr>,
     \<lparr>gv_Name = BudgetUtilizationPercent, gv_Help = ''Budget utilization as percentage (spend/limit * 100).'',
       gv_Labels = [''namespace'', ''budget_name'']\<rparr>,
     \<lparr>gv_Name = mBreakEvenTokensPerDay, gv_Help = ''Daily token volume at which on-prem cost equals the cloud model'' @ [CHR 0x27] @ ''s cost.'',
       gv_Labels = [''cost_profile'', ''provider'', ''cloud_model'']\<rparr>,
     \<lparr>gv_Name = mPercentOfBreakEven, gv_Help = ''Current daily throughput as a percentage of the break-even volume (>=100 means on-prem wins).'',
       gv_Labels = [''cost_profile'', ''provider'', ''cloud_model'']\<rparr>]"

definition gauge_arity :: "gostring \<Rightarrow> nat option" where
  "gauge_arity n = map_option (\<lambda>v. length (gv_Labels v)) (List.find (\<lambda>v. gv_Name v = n) gaugeVecs)"

lemma gaugeVecs_registered: "map gv_Name gaugeVecs = all_gauges"
  by (simp add: gaugeVecs_def all_gauges_def)

lemma gauge_arity_simps [simp]:
  "gauge_arity HourlyCostUSD = Some 3" "gauge_arity mAmortizationPerHour = Some 2" "gauge_arity mElectricityPerHour = Some 2"
  "gauge_arity GPUPowerWatts = Some 3" "gauge_arity CostPerTokenUSD = Some 2" "gauge_arity CostPerMillionTokensUSD = Some 2"
  "gauge_arity CloudEquivalentCostUSD = Some 2" "gauge_arity SavingsVsCloudUSD = Some 2" "gauge_arity SavingsVsCloudPercent = Some 2"
  "gauge_arity TokensTotal = Some 3" "gauge_arity TokensPerHour = Some 2" "gauge_arity BudgetLimitUSD = Some 2"
  "gauge_arity BudgetCurrentSpendUSD = Some 2" "gauge_arity BudgetUtilizationPercent = Some 2"
  "gauge_arity mBreakEvenTokensPerDay = Some 3" "gauge_arity mPercentOfBreakEven = Some 3"
  by (simp_all add: gauge_arity_def gaugeVecs_def gauge_defs gauge_name_def)

text \<open>Every value set carries as many label values as its gauge has labels.\<close>

definition well_labelled :: "gauges \<Rightarrow> bool" where
  "well_labelled g = (\<forall>n ls. gauge_get g n ls \<noteq> None \<longrightarrow> gauge_arity n = Some (length ls))"

lemma well_labelled_empty [simp]: "well_labelled []"
  by (simp add: well_labelled_def gauge_get_def)

lemma well_labelled_set: "gauge_arity n = Some (length ls) \<Longrightarrow> well_labelled g \<Longrightarrow> well_labelled (gauge_set n ls v g)"
  by (simp add: well_labelled_def)

end
