(* ===== verification/Bytes.thy ===== *)
theory Bytes
  imports Prelude "HOL-Library.Word"
begin

text \<open>
  \<open>encoding/binary.BigEndian\<close> on eight bytes and \<open>bytes.Compare\<close>, which order the keys of the
  sample store.
\<close>

unbundle bit_operations_syntax

type_synonym byte = "8 word"

definition PutUint64 :: "64 word \<Rightarrow> byte list" where
  "PutUint64 v = [ucast (drop_bit 56 v), ucast (drop_bit 48 v), ucast (drop_bit 40 v), ucast (drop_bit 32 v),
     ucast (drop_bit 24 v), ucast (drop_bit 16 v), ucast (drop_bit 8 v), ucast v]"

definition Uint64 :: "byte list \<Rightarrow> 64 word" where
  "Uint64 b = ucast (b ! 7) OR push_bit 8 (ucast (b ! 6)) OR push_bit 16 (ucast (b ! 5)) OR push_bit 24 (ucast (b ! 4))
     OR push_bit 32 (ucast (b ! 3)) OR push_bit 40 (ucast (b ! 2)) OR push_bit 48 (ucast (b ! 1)) OR push_bit 56 (ucast (b ! 0))"

text \<open>\<open>bytes.Compare(a, b) < 0\<close>: lexicographic, a proper prefix being smaller.\<close>

fun bytes_less :: "byte list \<Rightarrow> byte list \<Rightarrow> bool" where
  "bytes_less [] [] = False"
| "bytes_less [] (y # ys) = True"
| "bytes_less (x # xs) [] = False"
| "bytes_less (x # xs) (y # ys) = (x < y \<or> x = y \<and> bytes_less xs ys)"

lemma length_PutUint64 [simp]: "length (PutUint64 v) = 8"
  by (simp add: PutUint64_def)

lemma Uint64_Put [simp]: "Uint64 (PutUint64 v) = v"
proof (rule bit_word_eqI)
  fix n assume n: "n < LENGTH(64)"
  define q r where "q = n div 8" and "r = n mod 8"
  have r: "r < 8" and e: "n = r + 8 * q" and "q < 8" using n by (auto simp: q_def r_def)
  then have "q \<in> {0, 1, 2, 3, 4, 5, 6, 7}" by auto
  then show "bit (Uint64 (PutUint64 v)) n \<longleftrightarrow> bit v n"
    unfolding e using r by (elim insertE emptyE) (simp_all add: Uint64_def PutUint64_def bit_simps add.commute)
qed

lemma bytes_less_irrefl [simp]: "\<not> bytes_less xs xs"
  by (induction xs) simp_all

lemma bytes_less_trans: "bytes_less xs ys \<Longrightarrow> bytes_less ys zs \<Longrightarrow> bytes_less xs zs"
proof (induction xs ys arbitrary: zs rule: bytes_less.induct)
  case (2 y ys)
  then show ?case by (cases zs) auto
next
  case (4 x xs y ys)
  then show ?case by (cases zs) auto
qed auto

lemma bytes_less_linear: "bytes_less xs ys \<or> xs = ys \<or> bytes_less ys xs"
  by (induction xs ys rule: bytes_less.induct) auto

text \<open>The base-256 digits of a number.\<close>

fun digits256 :: "nat \<Rightarrow> int \<Rightarrow> int list" where
  "digits256 0 v = []"
| "digits256 (Suc n) v = (v div 256 ^ n) # digits256 n (v mod 256 ^ n)"

fun lex_less :: "int list \<Rightarrow> int list \<Rightarrow> bool" where
  "lex_less (x # xs) (y # ys) = (x < y \<or> x = y \<and> lex_less xs ys)"
| "lex_less xs ys = False"

lemma lex_less_digits:
  "0 \<le> v \<Longrightarrow> v < 256 ^ n \<Longrightarrow> 0 \<le> w \<Longrightarrow> w < 256 ^ n \<Longrightarrow> lex_less (digits256 n v) (digits256 n w) \<longleftrightarrow> v < w"
proof (induction n arbitrary: v w)
  case (Suc n)
  let ?b = "256 ^ n :: int"
  have m: "v = ?b * (v div ?b) + v mod ?b" "w = ?b * (w div ?b) + w mod ?b" by simp_all
  have IH: "lex_less (digits256 n (v mod ?b)) (digits256 n (w mod ?b)) \<longleftrightarrow> v mod ?b < w mod ?b"
    by (intro Suc.IH) simp_all
  have lt: "x < y" if "x div ?b < y div ?b" for x y :: int
    using that zdiv_mono1 [of y x ?b] by (metis linorder_not_less zero_less_numeral zero_less_power)
  consider "v div ?b < w div ?b" | "v div ?b = w div ?b" | "w div ?b < v div ?b" by linarith
  then show ?case
  proof cases
    case 2
    then have "v < w \<longleftrightarrow> v mod ?b < w mod ?b" using m by (metis add_less_cancel_left)
    then show ?thesis using 2 IH by simp
  qed (use lt [of v w] lt [of w v] in auto)
qed simp

lemma digit256_bits: "v div 256 ^ k mod 256 = take_bit 8 (drop_bit (8 * k) (v::int))"
  by (simp add: take_bit_eq_mod drop_bit_eq_div power_mult)

lemma zdiv_less_of_mult: "v < b * 256 \<Longrightarrow> 0 < b \<Longrightarrow> v div b < (256::int)"
proof (rule ccontr)
  assume h: "v < b * 256" "0 < b" "\<not> v div b < 256"
  then have "b * 256 \<le> b * (v div b)" by (intro mult_left_mono) auto
  moreover have "v = b * (v div b) + v mod b" "0 \<le> v mod b" using h by simp_all
  ultimately show False using h(1) by linarith
qed

lemma digits256_map: "0 \<le> v \<Longrightarrow> v < 256 ^ n \<Longrightarrow> digits256 n v = map (\<lambda>k. v div 256 ^ k mod 256) (rev [0..<n])"
proof (induction n arbitrary: v)
  case (Suc n)
  have "v div 256 ^ n < 256" using Suc.prems by (intro zdiv_less_of_mult) simp_all
  then have hd: "v div 256 ^ n mod 256 = v div 256 ^ n" using Suc.prems by (simp add: pos_imp_zdiv_nonneg_iff)
  have "(v mod 256 ^ n) div 256 ^ k mod 256 = v div 256 ^ k mod 256" if "k < n" for k
  proof -
    have "v mod 256 ^ n = take_bit (8 * n) v" by (simp add: take_bit_eq_mod power_mult)
    then show ?thesis using that unfolding digit256_bits by (intro bit_eqI) (auto simp: bit_simps)
  qed
  then show ?case using Suc.IH [of "v mod 256 ^ n"] hd by simp
qed simp

lemma uint_digit: "uint (ucast (drop_bit (8 * k) v) :: byte) = uint (v :: 64 word) div 256 ^ k mod 256"
  unfolding digit256_bits by (intro bit_eqI) (auto simp: bit_simps bit_uint_iff)

lemma uint_Put: "map uint (PutUint64 v) = digits256 8 (uint v)"
proof -
  have "uint v < 256 ^ 8" using uint_lt2p [of v] by simp
  then have "digits256 8 (uint v) = map (\<lambda>k. uint v div 256 ^ k mod 256) [7, 6, 5, 4, 3, 2, 1, 0]"
    by (subst digits256_map) (simp_all add: eval_nat_numeral upt_rec)
  also have "\<dots> = map uint (PutUint64 v)"
    unfolding uint_digit [symmetric] PutUint64_def by simp
  finally show ?thesis ..
qed

lemma bytes_less_uint: "length xs = length ys \<Longrightarrow> bytes_less xs ys \<longleftrightarrow> lex_less (map uint xs) (map uint ys)"
  by (induction xs ys rule: bytes_less.induct) (auto simp: word_less_def word_uint_eq_iff)

text \<open>Big-endian keys compare as the unsigned numbers they encode.\<close>

lemma bytes_less_Put [simp]: "bytes_less (PutUint64 v) (PutUint64 w) \<longleftrightarrow> v < w"
proof -
  have "uint u < 256 ^ 8" for u :: "64 word" using uint_lt2p [of u] by simp
  then show ?thesis by (simp add: bytes_less_uint uint_Put lex_less_digits word_less_def)
qed

lemma Put_inj [simp]: "PutUint64 v = PutUint64 w \<longleftrightarrow> v = w"
  by (metis Uint64_Put)

end
