(* ===== verification/SampleStore.thy ===== *)
theory SampleStore
  imports Bytes GoTime
begin

text \<open>
  \<open>internal/utilization/store.go\<close>: power samples kept in a bbolt database, one bucket per
  CostProfile key, ordered by a big-endian timestamp.  bbolt itself is outside the repository: a
  record of its operations is an argument of every definition, and the locale \<open>bbolt_db\<close> names the
  documented behaviour the store relies on.  Transactions run on a working copy of the database
  that \<open>bb_commit\<close> installs, so a failing transaction leaves the database as it was.
\<close>

type_synonym gerror = gostring

subsection \<open>Interface of bbolt\<close>

record 'db bbolt =
  bb_view :: "'db \<Rightarrow> gerror option"
  bb_commit :: "'db \<Rightarrow> 'db \<Rightarrow> gerror + 'db"
  bb_names :: "'db \<Rightarrow> gostring list"
  bb_bucket :: "'db \<Rightarrow> gostring \<Rightarrow> (byte list \<times> byte list) list option"
  bb_seek :: "'db \<Rightarrow> gostring \<Rightarrow> byte list \<Rightarrow> (byte list \<times> byte list) list"
  bb_create :: "gostring \<Rightarrow> 'db \<Rightarrow> gerror + 'db"
  bb_put :: "gostring \<Rightarrow> byte list \<Rightarrow> byte list \<Rightarrow> 'db \<Rightarrow> gerror + 'db"
  bb_delete :: "gostring \<Rightarrow> byte list \<Rightarrow> 'db \<Rightarrow> gerror + 'db"

definition bb_content :: "'db bbolt \<Rightarrow> 'db \<Rightarrow> gostring \<Rightarrow> (byte list \<times> byte list) list" where
  "bb_content B db n = (case bb_bucket B db n of None \<Rightarrow> [] | Some kvs \<Rightarrow> kvs)"

definition keys_sorted :: "(byte list \<times> byte list) list \<Rightarrow> bool" where
  "keys_sorted kvs = sorted_wrt bytes_less (map fst kvs)"

locale bbolt_db =
  fixes B :: "'db bbolt"
  assumes sorted: "bb_bucket B db n = Some kvs \<Longrightarrow> keys_sorted kvs"
    and names: "set (bb_names B db) = {n. bb_bucket B db n \<noteq> None}"
    and seek: "bb_seek B db n k = dropWhile (\<lambda>kv. bytes_less (fst kv) k) (bb_content B db n)"
    and create: "bb_create B n db = Inr db' \<Longrightarrow>
      bb_bucket B db' = (bb_bucket B db)(n \<mapsto> bb_content B db n)"
    and put: "bb_put B n k v db = Inr db' \<Longrightarrow> bb_bucket B db n \<noteq> None \<Longrightarrow>
      map_of (bb_content B db' n) = (map_of (bb_content B db n))(k \<mapsto> v)
      \<and> (\<forall>m. m \<noteq> n \<longrightarrow> bb_bucket B db' m = bb_bucket B db m) \<and> bb_bucket B db' n \<noteq> None"
    and delete: "bb_delete B n k db = Inr db' \<Longrightarrow>
      map_of (bb_content B db' n) = (map_of (bb_content B db n))(k := None)
      \<and> (\<forall>m. m \<noteq> n \<longrightarrow> bb_bucket B db' m = bb_bucket B db m)
      \<and> (bb_bucket B db' n = None \<longleftrightarrow> bb_bucket B db n = None)"
    and commit: "bb_commit B db work = Inr db' \<Longrightarrow> bb_bucket B db' = bb_bucket B work"

subsection \<open>Samples and their encoding\<close>

record Sample =
  sAt :: gotime
  sPowerW :: f64
  sActiveW :: f64

definition mkKey :: "gotime \<Rightarrow> byte list" where
  "mkKey t = PutUint64 (UnixNano t)"

definition decodeSampleKey :: "byte list \<Rightarrow> gotime" where
  "decodeSampleKey k = time_Unix_nano (Uint64 k)"

definition encodeSample :: "Sample \<Rightarrow> byte list" where
  "encodeSample s = PutUint64 (bits (sPowerW s)) @ PutUint64 (bits (sActiveW s))"

definition decodeSample :: "byte list \<Rightarrow> byte list \<Rightarrow> gerror + Sample" where
  "decodeSample k v =
    (if length v \<noteq> 16 then Inl (''invalid sample value length '' @ show_int (int (length v)))
     else Inr \<lparr>sAt = decodeSampleKey k, sPowerW = F64 (Uint64 (take 8 v)), sActiveW = F64 (Uint64 (drop 8 v))\<rparr>)"

subsection \<open>Operations\<close>

text \<open>\<open>db.Update\<close> runs the function on a working copy and commits it, \<open>db.View\<close> reads.\<close>

definition bb_update :: "'db bbolt \<Rightarrow> ('db \<Rightarrow> gerror + 'db) \<Rightarrow> 'db \<Rightarrow> gerror + 'db" where
  "bb_update B f db = (case bb_view B db of Some e \<Rightarrow> Inl e
     | None \<Rightarrow> (case f db of Inl e \<Rightarrow> Inl e | Inr work \<Rightarrow> bb_commit B db work))"

definition Store_Append :: "'db bbolt \<Rightarrow> gostring \<Rightarrow> Sample \<Rightarrow> 'db \<Rightarrow> gerror + 'db" where
  "Store_Append B key sample db = bb_update B (\<lambda>tx.
     case bb_create B key tx of Inl e \<Rightarrow> Inl e
     | Inr tx' \<Rightarrow> bb_put B key (mkKey (sAt sample)) (encodeSample sample) tx') db"

text \<open>The cursor loop of \<open>LoadRange\<close>.\<close>

fun loadLoop :: "gotime \<Rightarrow> (byte list \<times> byte list) list \<Rightarrow> Sample list \<Rightarrow> gerror + Sample list" where
  "loadLoop endt [] out = Inr out"
| "loadLoop endt ((k, v) # rest) out =
    (if \<not> IsZero endt \<and> \<not> bytes_less k (mkKey endt) then Inr out
     else (case decodeSample k v of Inl e \<Rightarrow> Inl e | Inr sample \<Rightarrow> loadLoop endt rest (out @ [sample])))"

definition Store_LoadRange :: "'db bbolt \<Rightarrow> gostring \<Rightarrow> gotime \<Rightarrow> gotime \<Rightarrow> 'db \<Rightarrow> gerror + Sample list" where
  "Store_LoadRange B key start endt db =
    (case bb_view B db of Some e \<Rightarrow> Inl e
     | None \<Rightarrow> (case bb_bucket B db key of None \<Rightarrow> Inr []
        | Some _ \<Rightarrow> loadLoop endt (bb_seek B db key (mkKey start)) []))"

definition Store_Keys :: "'db bbolt \<Rightarrow> 'db \<Rightarrow> gerror + gostring list" where
  "Store_Keys B db = (case bb_view B db of Some e \<Rightarrow> Inl e | None \<Rightarrow> Inr (bb_names B db))"

text \<open>The keys of a bucket before the cutoff, collected from the start of the cursor.\<close>

fun staleKeys :: "byte list \<Rightarrow> (byte list \<times> byte list) list \<Rightarrow> byte list list" where
  "staleKeys cutoffKey [] = []"
| "staleKeys cutoffKey ((k, v) # rest) =
    (if \<not> bytes_less k cutoffKey then [] else k # staleKeys cutoffKey rest)"

fun deleteAll :: "'db bbolt \<Rightarrow> gostring \<Rightarrow> byte list list \<Rightarrow> 'db \<Rightarrow> gerror + 'db" where
  "deleteAll B n [] tx = Inr tx"
| "deleteAll B n (k # ks) tx = (case bb_delete B n k tx of Inl e \<Rightarrow> Inl e | Inr tx' \<Rightarrow> deleteAll B n ks tx')"

fun pruneBuckets :: "'db bbolt \<Rightarrow> byte list \<Rightarrow> gostring list \<Rightarrow> 'db \<Rightarrow> gerror + 'db" where
  "pruneBuckets B cutoffKey [] tx = Inr tx"
| "pruneBuckets B cutoffKey (n # ns) tx =
    (case deleteAll B n (staleKeys cutoffKey (bb_content B tx n)) tx of
       Inl e \<Rightarrow> Inl e | Inr tx' \<Rightarrow> pruneBuckets B cutoffKey ns tx')"

definition Store_Prune :: "'db bbolt \<Rightarrow> gotime \<Rightarrow> 'db \<Rightarrow> gerror + 'db" where
  "Store_Prune B cutoff db = bb_update B (\<lambda>tx. pruneBuckets B (mkKey cutoff) (bb_names B tx) tx) db"

text \<open>The methods of \<open>*Store\<close> the Sampler calls.\<close>

record 'db store_ops =
  st_append :: "gostring \<Rightarrow> Sample \<Rightarrow> 'db \<Rightarrow> gerror + 'db"
  st_load :: "gostring \<Rightarrow> gotime \<Rightarrow> gotime \<Rightarrow> 'db \<Rightarrow> gerror + Sample list"
  st_keys :: "'db \<Rightarrow> gerror + gostring list"
  st_prune :: "gotime \<Rightarrow> 'db \<Rightarrow> gerror + 'db"

definition bolt_store :: "'db bbolt \<Rightarrow> 'db store_ops" where
  "bolt_store B = \<lparr>st_append = Store_Append B, st_load = Store_LoadRange B, st_keys = Store_Keys B,
     st_prune = Store_Prune B\<rparr>"

subsection \<open>Keys order samples by time\<close>

text \<open>The instants whose nanoseconds since the Unix epoch fit in a non-negative int64: 1970 to 2262.\<close>

definition time_ok :: "gotime \<Rightarrow> bool" where
  "time_ok t = (unixEpoch \<le> t \<and> t < unixEpoch + 2 ^ 63)"

lemma int64_small: "0 \<le> d \<Longrightarrow> d < 2 ^ 63 \<Longrightarrow> uint (word_of_int d :: int64) = d \<and> sint (word_of_int d :: int64) = d"
  by (simp add: uint_word_of_int_eq int_word_sint take_bit_int_eq_self)

lemma UnixNano_ok: "time_ok t \<Longrightarrow> uint (UnixNano t) = t - unixEpoch \<and> sint (UnixNano t) = t - unixEpoch"
  unfolding UnixNano_def time_ok_def by (rule int64_small) auto

lemma mkKey_less: "time_ok s \<Longrightarrow> time_ok t \<Longrightarrow> bytes_less (mkKey s) (mkKey t) \<longleftrightarrow> s < t"
  using UnixNano_ok [of s] UnixNano_ok [of t] by (simp add: mkKey_def word_less_def)

lemma decode_mkKey [simp]: "time_ok t \<Longrightarrow> decodeSampleKey (mkKey t) = t"
  using UnixNano_ok [of t] by (simp add: mkKey_def decodeSampleKey_def time_Unix_nano_def)

lemma decode_encode [simp]: "time_ok (sAt s) \<Longrightarrow> decodeSample (mkKey (sAt s)) (encodeSample s) = Inr s"
  by (simp add: decodeSample_def encodeSample_def)

definition encPair :: "Sample \<Rightarrow> byte list \<times> byte list" where
  "encPair s = (mkKey (sAt s), encodeSample s)"

text \<open>\<open>store_rep B db n ss\<close>: the bucket of \<open>n\<close> holds exactly the samples \<open>ss\<close>, by increasing time.\<close>

definition store_rep :: "'db bbolt \<Rightarrow> 'db \<Rightarrow> gostring \<Rightarrow> Sample list \<Rightarrow> bool" where
  "store_rep B db n ss = (bb_content B db n = map encPair ss
     \<and> sorted_wrt (<) (map sAt ss) \<and> (\<forall>s \<in> set ss. time_ok (sAt s)))"

lemma bytes_less_lex: "bytes_less xs ys \<longleftrightarrow> xs < ys"
  by (induction xs ys rule: bytes_less.induct) auto

lemma keys_sorted_eq:
  assumes "keys_sorted xs" and "keys_sorted ys" and "map_of xs = map_of ys"
  shows "xs = ys"
proof -
  have l: "bytes_less = (<)" by (intro ext) (rule bytes_less_lex)
  have s: "sorted_wrt (<) (map fst xs)" "sorted_wrt (<) (map fst ys)"
    using assms(1,2) by (simp_all add: keys_sorted_def l)
  have "set (map fst xs) = set (map fst ys)" using assms(3) by (metis dom_map_of_conv_image_fst set_map)
  then have k: "map fst xs = map fst ys" using s by (intro strict_sorted_equal)
  have d: "distinct (map fst xs)" "distinct (map fst ys)" using s by (simp_all add: strict_sorted_iff)
  have "zs = map (\<lambda>k. (k, the (map_of zs k))) (map fst zs)" if "distinct (map fst zs)" for zs :: "(byte list \<times> byte list) list"
  proof -
    have "(fst z, the (map_of zs (fst z))) = z" if "z \<in> set zs" for z
      using that \<open>distinct (map fst zs)\<close> by (metis map_of_is_SomeI option.sel prod.collapse)
    then have "map (\<lambda>z. (fst z, the (map_of zs (fst z)))) zs = zs" by (intro map_idI) blast
    then show ?thesis by (simp add: comp_def)
  qed
  from this [OF d(1)] this [OF d(2)] show ?thesis by (simp only: k assms(3))
qed

lemma fst_encPair [simp]: "fst (encPair s) = mkKey (sAt s)"
  by (simp add: encPair_def)

lemma keys_sorted_enc:
  "sorted_wrt (<) (map sAt ss) \<Longrightarrow> \<forall>s \<in> set ss. time_ok (sAt s) \<Longrightarrow> keys_sorted (map encPair ss)"
  by (induction ss) (auto simp: keys_sorted_def mkKey_less)

lemma map_of_snoc: "k \<notin> fst ` set xs \<Longrightarrow> map_of (xs @ [(k, v)]) = (map_of xs)(k \<mapsto> v)"
  by (induction xs) (auto simp: fun_upd_twist)

context bbolt_db
begin

lemma content_sorted: "keys_sorted (bb_content B db n)"
  using sorted by (auto simp: bb_content_def keys_sorted_def split: option.splits)

lemma update_Inr: "bb_update B f db = Inr db' \<Longrightarrow> \<exists>work. f db = Inr work \<and> bb_bucket B db' = bb_bucket B work"
  by (auto simp: bb_update_def commit split: option.splits sum.splits)

lemma content_cong: "bb_bucket B db = bb_bucket B db' \<Longrightarrow> bb_content B db = bb_content B db'"
  by (intro ext) (simp add: bb_content_def)

lemma content_create: "bb_create B n db = Inr db' \<Longrightarrow> bb_content B db' = bb_content B db"
  using create [of n db db'] by (intro ext) (auto simp: bb_content_def)

lemma append_rep:
  assumes "Store_Append B key s db = Inr db'" and "store_rep B db key ss" and "time_ok (sAt s)"
    and "\<forall>x \<in> set ss. sAt x < sAt s"
  shows "store_rep B db' key (ss @ [s])"
    and "m \<noteq> key \<Longrightarrow> store_rep B db' m rs = store_rep B db m rs"
proof -
  obtain tx work where c: "bb_create B key db = Inr tx"
    and p: "bb_put B key (mkKey (sAt s)) (encodeSample s) tx = Inr work" and w: "bb_bucket B db' = bb_bucket B work"
    using assms(1) update_Inr unfolding Store_Append_def by (force split: sum.splits)
  have ne: "bb_bucket B tx key \<noteq> None" using create [OF c] by simp
  note p = put [OF p ne]
  have "sorted_wrt (<) (map sAt (ss @ [s]))" "\<forall>x \<in> set (ss @ [s]). time_ok (sAt x)"
    using assms(2-4) by (auto simp: store_rep_def sorted_wrt_append)
  then have srt: "keys_sorted (map encPair (ss @ [s]))" by (rule keys_sorted_enc)
  have new: "mkKey (sAt s) \<notin> mkKey ` sAt ` set ss"
  proof -
    have "bytes_less (mkKey (sAt x)) (mkKey (sAt s))" if "x \<in> set ss" for x
      using that assms(2-4) by (simp add: store_rep_def mkKey_less)
    then show ?thesis by force
  qed
  have "map_of (bb_content B db' key) = (map_of (map encPair ss))(mkKey (sAt s) \<mapsto> encodeSample s)"
    using p assms(2) unfolding store_rep_def content_create [OF c] content_cong [OF w] by simp
  also have "\<dots> = map_of (map encPair (ss @ [s]))"
    using new map_of_snoc [of "mkKey (sAt s)" "map encPair ss" "encodeSample s"]
    by (simp add: image_image encPair_def)
  finally have "bb_content B db' key = map encPair (ss @ [s])" by (rule keys_sorted_eq [OF content_sorted srt])
  then show "store_rep B db' key (ss @ [s])"
    using assms(2-4) by (auto simp: store_rep_def sorted_wrt_append)
  have "bb_content B db' m = bb_content B db m" if "m \<noteq> key" for m
    using p that content_create [OF c] content_cong [OF w] by (metis bb_content_def)
  then show "m \<noteq> key \<Longrightarrow> store_rep B db' m rs = store_rep B db m rs" by (simp add: store_rep_def)
qed

text \<open>The cursor from the key of \<open>start\<close> sees the samples from \<open>start\<close> on; the loop stops at \<open>end\<close>.\<close>

lemma seek_rep:
  assumes "store_rep B db key ss" and "time_ok a"
  shows "bb_seek B db key (mkKey a) = map encPair (filter (\<lambda>s. a \<le> sAt s) ss)"
proof -
  have "dropWhile (\<lambda>kv. bytes_less (fst kv) (mkKey a)) (map encPair ss) = map encPair (filter (\<lambda>s. a \<le> sAt s) ss)"
    if "sorted_wrt (<) (map sAt ss)" "\<forall>s \<in> set ss. time_ok (sAt s)"
    using that
  proof (induction ss)
    case (Cons s ss)
    show ?case
    proof (cases "sAt s < a")
      case False
      then have "filter (\<lambda>s. a \<le> sAt s) (s # ss) = s # ss" using Cons.prems(1) by (intro filter_True) auto
      then show ?thesis using False Cons.prems assms(2) by (simp add: mkKey_less)
    qed (use Cons assms(2) in \<open>simp add: mkKey_less\<close>)
  qed simp
  then show ?thesis using assms by (simp add: seek store_rep_def)
qed

end

lemma loadLoop_filter:
  assumes "sorted_wrt (<) (map sAt ss)" and "\<forall>s \<in> set ss. time_ok (sAt s)" and "time_ok b"
  shows "loadLoop b (map encPair ss) out = Inr (out @ filter (\<lambda>s. sAt s < b) ss)"
  using assms
proof (induction ss arbitrary: out)
  case (Cons s ss)
  have nz: "\<not> IsZero b" using assms(3) by (auto simp: IsZero_def time_ok_def unixEpoch_def)
  show ?case
  proof (cases "sAt s < b")
    case True
    then show ?thesis using Cons by (simp add: encPair_def mkKey_less)
  next
    case False
    then have "filter (\<lambda>s. sAt s < b) ss = []" using Cons.prems(1) by (auto simp: filter_empty_conv)
    then show ?thesis using False nz Cons.prems by (simp add: encPair_def mkKey_less)
  qed
qed simp

context bbolt_db
begin

lemma load_rep:
  assumes "store_rep B db key ss" and "time_ok a" and "time_ok b" and "bb_view B db = None"
  shows "Store_LoadRange B key a b db = Inr (filter (\<lambda>s. a \<le> sAt s \<and> sAt s < b) ss)"
proof (cases "bb_bucket B db key")
  case None
  then show ?thesis using assms by (simp add: Store_LoadRange_def store_rep_def bb_content_def)
next
  case (Some kvs)
  have "sorted_wrt (<) (map sAt (filter (\<lambda>s. a \<le> sAt s) ss))"
    using assms(1) by (auto simp: store_rep_def sorted_wrt_map intro: sorted_wrt_filter)
  moreover have "\<forall>s \<in> set ss. time_ok (sAt s)" using assms(1) by (simp add: store_rep_def)
  ultimately show ?thesis using Some assms(3,4) seek_rep [OF assms(1,2)]
    by (simp add: Store_LoadRange_def loadLoop_filter conj_commute)
qed

lemma map_of_filter_keys: "map_of (filter (\<lambda>kv. fst kv \<notin> K) xs) = map_of xs |` (- K)"
  by (induction xs) (auto simp: restrict_map_def fun_eq_iff)

lemma mkKey_inj: "time_ok s \<Longrightarrow> time_ok t \<Longrightarrow> mkKey s = mkKey t \<longleftrightarrow> s = t"
  by (metis decode_mkKey)

lemma deleteAll_map:
  assumes "deleteAll B n ks tx = Inr tx'"
  shows "map_of (bb_content B tx' n) = (map_of (bb_content B tx n)) |` (- set ks)"
    and "m \<noteq> n \<Longrightarrow> bb_content B tx' m = bb_content B tx m"
proof -
  have "map_of (bb_content B tx' n) = (map_of (bb_content B tx n)) |` (- set ks)
      \<and> (\<forall>m. m \<noteq> n \<longrightarrow> bb_content B tx' m = bb_content B tx m)"
    using assms
  proof (induction ks arbitrary: tx)
    case (Cons k ks)
    then obtain ty where d: "bb_delete B n k tx = Inr ty" and r: "deleteAll B n ks ty = Inr tx'"
      by (auto split: sum.splits)
    have "bb_content B ty m = bb_content B tx m" if "m \<noteq> n" for m
      using delete [OF d] that by (simp add: bb_content_def)
    then show ?case using delete [OF d] Cons.IH [OF r] by (auto simp: restrict_map_def fun_eq_iff)
  qed (simp add: restrict_map_def)
  then show "map_of (bb_content B tx' n) = (map_of (bb_content B tx n)) |` (- set ks)"
    and "m \<noteq> n \<Longrightarrow> bb_content B tx' m = bb_content B tx m" by blast+
qed

lemma stale_filter:
  assumes "sorted_wrt (<) (map sAt ss)" and "\<forall>s \<in> set ss. time_ok (sAt s)" and "time_ok c"
  shows "staleKeys (mkKey c) (map encPair ss) = map (mkKey \<circ> sAt) (filter (\<lambda>s. sAt s < c) ss)"
  using assms
proof (induction ss)
  case (Cons s ss)
  show ?case
  proof (cases "sAt s < c")
    case False
    then have "filter (\<lambda>s. sAt s < c) ss = []" using Cons.prems(1) by (auto simp: filter_empty_conv)
    then show ?thesis using False Cons.prems by (simp add: encPair_def mkKey_less)
  qed (use Cons in \<open>simp add: encPair_def mkKey_less\<close>)
qed simp

lemma prune_bucket_rep:
  assumes r: "store_rep B tx n ss" and c: "time_ok c"
    and d: "deleteAll B n (staleKeys (mkKey c) (bb_content B tx n)) tx = Inr tx'"
  shows "store_rep B tx' n (filter (\<lambda>s. c \<le> sAt s) ss)"
proof -
  let ?keep = "filter (\<lambda>s. c \<le> sAt s) ss"
  have s: "sorted_wrt (<) (map sAt ss)" "\<forall>s \<in> set ss. time_ok (sAt s)" "bb_content B tx n = map encPair ss"
    using r by (simp_all add: store_rep_def)
  have k: "sorted_wrt (<) (map sAt ?keep)" "\<forall>s \<in> set ?keep. time_ok (sAt s)"
    using s by (auto simp: sorted_wrt_map intro: sorted_wrt_filter)
  let ?K = "mkKey ` sAt ` {s \<in> set ss. sAt s < c}"
  have "mkKey (sAt s) \<notin> ?K \<longleftrightarrow> c \<le> sAt s" if "s \<in> set ss" for s
    using that s(2) by (auto simp: mkKey_inj)
  then have "map encPair ?keep = filter (\<lambda>kv. fst kv \<notin> ?K) (map encPair ss)"
    by (auto simp: filter_map comp_def intro!: arg_cong [of _ _ "map encPair"] filter_cong)
  then have "map_of (map encPair ?keep) = map_of (map encPair ss) |` (- ?K)"
    by (simp only: map_of_filter_keys)
  then have "map_of (bb_content B tx' n) = map_of (map encPair ?keep)"
    using deleteAll_map(1) [OF d] s c by (simp add: stale_filter image_image)
  then have "bb_content B tx' n = map encPair ?keep" using k by (intro keys_sorted_eq content_sorted keys_sorted_enc)
  then show ?thesis using k by (simp add: store_rep_def)
qed

lemma pruneBuckets_rep:
  assumes "pruneBuckets B (mkKey c) ns tx = Inr tx'" and "time_ok c" and "\<And>n. store_rep B tx n (ss n)"
  shows "store_rep B tx' n (if n \<in> set ns then filter (\<lambda>s. c \<le> sAt s) (ss n) else ss n)"
  using assms(1,3)
proof (induction ns arbitrary: tx ss)
  case (Cons m ns)
  then obtain ty where d: "deleteAll B m (staleKeys (mkKey c) (bb_content B tx m)) tx = Inr ty"
    and r: "pruneBuckets B (mkKey c) ns ty = Inr tx'" by (auto split: sum.splits)
  let ?f = "filter (\<lambda>s. c \<le> sAt s)"
  have "store_rep B ty k ((ss(m := ?f (ss m))) k)" for k
    using prune_bucket_rep [OF Cons.prems(2) assms(2) d] deleteAll_map(2) [OF d, of k] Cons.prems(2) [of k]
    by (auto simp: store_rep_def)
  from Cons.IH [OF r this] show ?case by (auto split: if_splits)
qed simp

lemma prune_rep:
  assumes "Store_Prune B c db = Inr db'" and "time_ok c" and r: "\<And>n. store_rep B db n (ss n)"
  shows "store_rep B db' n (filter (\<lambda>s. c \<le> sAt s) (ss n))"
proof -
  obtain work where p: "pruneBuckets B (mkKey c) (bb_names B db) db = Inr work"
    and w: "bb_bucket B db' = bb_bucket B work"
    using assms(1) update_Inr unfolding Store_Prune_def by blast
  have "ss n = []" if "n \<notin> set (bb_names B db)"
    using that names [of db] r [of n] by (auto simp: store_rep_def bb_content_def)
  then show ?thesis using pruneBuckets_rep [OF p assms(2) r, of n] content_cong [OF w]
    by (auto simp: store_rep_def split: if_splits)
qed

end

subsection \<open>The interface of the store\<close>

text \<open>What the Sampler relies on: an abstract content per key, sorted by time.\<close>

locale sample_store =
  fixes St :: "'db store_ops" and rep :: "'db \<Rightarrow> gostring \<Rightarrow> Sample list \<Rightarrow> bool"
  assumes rep_sorted: "rep db k ss \<Longrightarrow> sorted_wrt (<) (map sAt ss)"
    and append_key: "st_append St k s db = Inr db' \<Longrightarrow> rep db k ss \<Longrightarrow> time_ok (sAt s) \<Longrightarrow>
      \<forall>x \<in> set ss. sAt x < sAt s \<Longrightarrow> rep db' k (ss @ [s])"
    and append_other: "st_append St k s db = Inr db' \<Longrightarrow> rep db k ss \<Longrightarrow> time_ok (sAt s) \<Longrightarrow>
      \<forall>x \<in> set ss. sAt x < sAt s \<Longrightarrow> m \<noteq> k \<Longrightarrow> rep db m rs \<Longrightarrow> rep db' m rs"
    and load: "st_load St k a b db = Inr xs \<Longrightarrow> rep db k ss \<Longrightarrow> time_ok a \<Longrightarrow> time_ok b \<Longrightarrow>
      xs = filter (\<lambda>s. a \<le> sAt s \<and> sAt s < b) ss"
    and keys: "st_keys St db = Inr ks \<Longrightarrow> rep db k ss \<Longrightarrow> ss \<noteq> [] \<Longrightarrow> k \<in> set ks"
    and prune: "st_prune St c db = Inr db' \<Longrightarrow> time_ok c \<Longrightarrow> (\<And>k. rep db k (f k)) \<Longrightarrow>
      rep db' k (filter (\<lambda>s. c \<le> sAt s) (f k))"

sublocale bbolt_db \<subseteq> bolt: sample_store "bolt_store B" "store_rep B"
proof unfold_locales
  fix k a b db xs ss
  assume l: "st_load (bolt_store B) k a b db = Inr xs" and h: "store_rep B db k ss" "time_ok a" "time_ok b"
  then have "bb_view B db = None" by (auto simp: bolt_store_def Store_LoadRange_def split: option.splits)
  then show "xs = filter (\<lambda>s. a \<le> sAt s \<and> sAt s < b) ss"
    using l load_rep [OF h] by (simp add: bolt_store_def)
next
  fix db ks k ss
  assume "st_keys (bolt_store B) db = Inr ks" and "store_rep B db k ss" and "ss \<noteq> []"
  then show "k \<in> set ks" using names [of db]
    by (auto simp: bolt_store_def Store_Keys_def store_rep_def bb_content_def split: option.splits)
next
  fix c db db' f k
  assume "st_prune (bolt_store B) c db = Inr db'" "time_ok c" "\<And>k. store_rep B db k (f k)"
  then show "store_rep B db' k (filter (\<lambda>s. c \<le> sAt s) (f k))"
    by (intro prune_rep) (simp_all add: bolt_store_def)
qed (auto simp: bolt_store_def store_rep_def dest: append_rep)

subsection \<open>An in-memory database\<close>

text \<open>An instance of the interface on association lists, for concrete runs.\<close>

type_synonym memdb = "(gostring \<times> (byte list \<times> byte list) list) list"

definition by_key :: "(byte list \<times> byte list) list \<Rightarrow> (byte list \<times> byte list) list" where
  "by_key kvs = map (\<lambda>k. (k, the (map_of kvs k))) (sorted_list_of_set (set (map fst kvs)))"

definition mem_bucket :: "memdb \<Rightarrow> gostring \<Rightarrow> (byte list \<times> byte list) list option" where
  "mem_bucket db n = map_option by_key (map_of db n)"

definition mem_raw :: "memdb \<Rightarrow> gostring \<Rightarrow> (byte list \<times> byte list) list" where
  "mem_raw db n = (case map_of db n of None \<Rightarrow> [] | Some kvs \<Rightarrow> kvs)"

definition mem_bbolt :: "memdb bbolt" where
  "mem_bbolt = \<lparr>bb_view = (\<lambda>_. None), bb_commit = (\<lambda>_ w. Inr w), bb_names = map fst, bb_bucket = mem_bucket,
     bb_seek = (\<lambda>db n k. dropWhile (\<lambda>kv. bytes_less (fst kv) k)
       (case mem_bucket db n of None \<Rightarrow> [] | Some kvs \<Rightarrow> kvs)),
     bb_create = (\<lambda>n db. Inr (AList.update n (mem_raw db n) db)),
     bb_put = (\<lambda>n k v db. Inr (AList.update n (AList.update k v (mem_raw db n)) db)),
     bb_delete = (\<lambda>n k db. Inr (if map_of db n = None then db else AList.update n (AList.delete k (mem_raw db n)) db))\<rparr>"

lemma by_key_sorted: "keys_sorted (by_key kvs)"
proof -
  have "bytes_less = (<)" by (intro ext) (rule bytes_less_lex)
  moreover have "map fst (by_key kvs) = sorted_list_of_set (set (map fst kvs))"
    by (simp add: by_key_def comp_def)
  ultimately show ?thesis by (simp add: keys_sorted_def strict_sorted_iff)
qed

lemma map_of_by_key [simp]: "map_of (by_key kvs) = map_of kvs"
proof
  fix k
  have "map_of (map (\<lambda>k. (k, the (map_of kvs k))) ks) k = (if k \<in> set ks then Some (the (map_of kvs k)) else None)" for ks
    by (induction ks) auto
  then show "map_of (by_key kvs) k = map_of kvs k"
    using map_of_eq_None_iff [of kvs k] by (auto simp: by_key_def)
qed

lemma by_key_Nil [simp]: "by_key [] = []"
  by (simp add: by_key_def)

interpretation mem: bbolt_db mem_bbolt
proof unfold_locales
  fix db :: memdb and n
  show "set (bb_names mem_bbolt db) = {n. bb_bucket mem_bbolt db n \<noteq> None}"
    by (auto simp: mem_bbolt_def mem_bucket_def map_of_eq_None_iff image_iff)
  show "bb_bucket mem_bbolt db n = Some kvs \<Longrightarrow> keys_sorted kvs" for kvs
    by (auto simp: mem_bbolt_def mem_bucket_def by_key_sorted)
qed (auto simp: mem_bbolt_def bb_content_def mem_bucket_def mem_raw_def update_conv' delete_conv' by_key_def[symmetric] fun_eq_iff split: option.splits if_splits)

subsection \<open>Properties\<close>

text \<open>C24 The byte order of the keys is the order of time, and a stored record decodes to the sample it
  encodes, NaN bit patterns included, for every instant between 1970 and 2262.\<close>

theorem sample_codec:
  assumes "time_ok (sAt s)" and "time_ok (sAt t)"
  shows "(bytes_less (mkKey (sAt s)) (mkKey (sAt t)) \<longleftrightarrow> sAt s < sAt t)
    \<and> decodeSample (mkKey (sAt s)) (encodeSample s) = Inr s"
  using assms mkKey_less by simp

definition demo_sample :: "int \<Rightarrow> f64 \<Rightarrow> Sample" where
  "demo_sample k p = \<lparr>sAt = unixEpoch + k * nsSecond, sPowerW = p, sActiveW = lit 30\<rparr>"

lemma demo_sample_ok: "0 \<le> k \<Longrightarrow> k < 2 ^ 33 \<Longrightarrow> time_ok (sAt (demo_sample k p))"
  by (simp add: demo_sample_def time_ok_def nsSecond_def)

theorem sample_codec_witness:
  "bytes_less (mkKey (sAt (demo_sample 30 f_nan))) (mkKey (sAt (demo_sample 60 0)))
   \<and> decodeSample (mkKey (sAt (demo_sample 30 f_nan))) (encodeSample (demo_sample 30 f_nan)) = Inr (demo_sample 30 f_nan)"
  using sample_codec [OF demo_sample_ok demo_sample_ok, of 30 60 f_nan 0]
  by (simp add: demo_sample_def nsSecond_def)

text \<open>C16 The store refines a time-ordered list of samples per key: after a successful Append of a
  newer sample, LoadRange answers exactly the samples of the old list and the new one that lie in
  the half-open range, in ascending order, and the other keys are untouched.\<close>

theorem append_then_load:
  assumes "bbolt_db B" and "store_rep B db key ss" and "time_ok (sAt s)" and "\<forall>x \<in> set ss. sAt x < sAt s"
    and "Store_Append B key s db = Inr db'" and "bb_view B db' = None" and "time_ok a" and "time_ok b"
  shows "Store_LoadRange B key a b db' = Inr (filter (\<lambda>x. a \<le> sAt x \<and> sAt x < b) (ss @ [s]))
    \<and> (m \<noteq> key \<longrightarrow> store_rep B db' m rs = store_rep B db m rs)"
  using bbolt_db.load_rep [OF assms(1) bbolt_db.append_rep(1) [OF assms(1,5,2,3,4)] assms(7,8,6)]
    bbolt_db.append_rep(2) [OF assms(1,5,2,3,4)] by blast

lemma mem_empty_rep: "store_rep mem_bbolt [] k []"
  by (simp add: store_rep_def bb_content_def mem_bbolt_def mem_bucket_def)

lemma mem_append: "Store_Append mem_bbolt k s db =
  Inr (let d = AList.update k (mem_raw db k) db in AList.update k (AList.update (mkKey (sAt s)) (encodeSample s) (mem_raw d k)) d)"
  by (simp add: Store_Append_def bb_update_def mem_bbolt_def Let_def)

theorem append_then_load_witness:
  "\<exists>db'. Store_Append mem_bbolt ''ns/a'' (demo_sample 30 (lit 100)) [] = Inr db'
    \<and> Store_LoadRange mem_bbolt ''ns/a'' (unixEpoch + 1) (unixEpoch + nsHour) db' = Inr [demo_sample 30 (lit 100)]"
proof -
  let ?s = "demo_sample 30 (lit 100)"
  obtain db' where d: "Store_Append mem_bbolt ''ns/a'' ?s [] = Inr db'" using mem_append by blast
  have v: "bb_view mem_bbolt db' = None" by (simp add: mem_bbolt_def)
  have t: "time_ok (unixEpoch + 1)" "time_ok (unixEpoch + nsHour)" by (simp_all add: time_ok_def nsHour_def)
  have "Store_LoadRange mem_bbolt ''ns/a'' (unixEpoch + 1) (unixEpoch + nsHour) db'
      = Inr (filter (\<lambda>x. unixEpoch + 1 \<le> sAt x \<and> sAt x < unixEpoch + nsHour) ([] @ [?s]))"
    using append_then_load [OF mem.bbolt_db_axioms mem_empty_rep demo_sample_ok _ d v t] by simp
  then show ?thesis using d by (simp add: demo_sample_def ns_defs)
qed

end
