(* ===== verification/Sampler.thy ===== *)
theory Sampler
  imports SampleStore Calculator
begin

text \<open>
  \<open>internal/utilization/sampler.go\<close>: the sliding window of power samples per CostProfile, its
  garbage collection, hydration from the store and the integration of hours and energy over a
  window.  Every method holds the mutex for its whole effect, so a method is one atomic step; the
  clock is an argument.  The store is optional and reached through its interface.
\<close>

definition DefaultRetention :: duration where
  "DefaultRetention = 48 * nsHour"

definition DefaultStoreRetention :: duration where
  "DefaultStoreRetention = 45 * 24 * nsHour"

definition pruneInterval :: duration where
  "pruneInterval = 15 * nsMinute"

record 'db Sampler =
  sm_retention :: duration
  sm_samples :: "(gostring, Sample list) gomap"
  sm_store :: "'db option"
  sm_lastPrune :: gotime

definition NewSampler :: "'db Sampler" where
  "NewSampler = \<lparr>sm_retention = DefaultRetention, sm_samples = [], sm_store = None, sm_lastPrune = 0\<rparr>"

definition NewSamplerWithRetention :: "duration \<Rightarrow> 'db Sampler" where
  "NewSamplerWithRetention retention = NewSampler\<lparr>sm_retention := retention\<rparr>"

definition samples_of :: "'db Sampler \<Rightarrow> gostring \<Rightarrow> Sample list" where
  "samples_of s key = gm_get [] (sm_samples s) key"

subsection \<open>Recording\<close>

text \<open>\<open>sort.Search\<close>: the binary search of the standard library on \<open>[i, j)\<close>.\<close>

function sort_Search :: "(nat \<Rightarrow> bool) \<Rightarrow> nat \<Rightarrow> nat \<Rightarrow> nat" where
  "sort_Search f i j = (if i < j then
     (let h = (i + j) div 2 in if \<not> f h then sort_Search f (h + 1) j else sort_Search f i h) else i)"
  by pat_completeness auto
termination
  by (relation "measure (\<lambda>(f, i, j). j - i)") auto

declare sort_Search.simps [simp del]

definition gcLocked :: "gostring \<Rightarrow> gotime \<Rightarrow> 'db Sampler \<Rightarrow> 'db Sampler" where
  "gcLocked key now s =
    (let cutoff = now - sm_retention s; samples = samples_of s key in
     if length samples = 0 \<or> \<not> sAt (samples ! 0) < cutoff then s
     else
       let idx = sort_Search (\<lambda>i. \<not> sAt (samples ! i) < cutoff) 0 (length samples) in
       if length samples \<le> idx then s\<lparr>sm_samples := gm_put key (take 0 samples) (sm_samples s)\<rparr>
       else s\<lparr>sm_samples := gm_put key (drop idx samples) (sm_samples s)\<rparr>)"

text \<open>A failing prune is ignored: it leaves the database as it was.\<close>

definition pruneStore :: "'db store_ops \<Rightarrow> gotime \<Rightarrow> 'db Sampler \<Rightarrow> 'db Sampler" where
  "pruneStore St now s = (case sm_store s of None \<Rightarrow> s
     | Some db \<Rightarrow>
       if \<not> IsZero (sm_lastPrune s) \<and> time_Sub now (sm_lastPrune s) < pruneInterval then s
       else
         let s' = s\<lparr>sm_lastPrune := now\<rparr> in
         (case st_prune St (now - sm_retention s) db of Inl _ \<Rightarrow> s' | Inr db' \<Rightarrow> s'\<lparr>sm_store := Some db'\<rparr>))"

text \<open>\<open>Record\<close> returns the error of the store, if any, and the state after the call.\<close>

definition Record :: "'db store_ops \<Rightarrow> gotime \<Rightarrow> gostring \<Rightarrow> f64 \<Rightarrow> f64 \<Rightarrow> 'db Sampler \<Rightarrow> gerror option \<times> 'db Sampler" where
  "Record St now key powerW activeThresholdW s =
    (let sample = \<lparr>sAt = now, sPowerW = powerW, sActiveW = activeThresholdW\<rparr>;
         append = (\<lambda>s. gcLocked key now (s\<lparr>sm_samples := gm_put key (samples_of s key @ [sample]) (sm_samples s)\<rparr>))
     in case sm_store s of
          None \<Rightarrow> (None, append s)
        | Some db \<Rightarrow> (case st_append St key sample db of
            Inl e \<Rightarrow> (Some e, s)
          | Inr db' \<Rightarrow> (None, append (pruneStore St now (s\<lparr>sm_store := Some db'\<rparr>)))))"

definition Snapshot :: "'db Sampler \<Rightarrow> gostring \<Rightarrow> Sample list" where
  "Snapshot s key = samples_of s key"

subsection \<open>Hydration\<close>

fun hydrateKeys :: "'db store_ops \<Rightarrow> gotime \<Rightarrow> gotime \<Rightarrow> gostring list \<Rightarrow> 'db \<Rightarrow> 'db Sampler \<Rightarrow> gerror + 'db Sampler" where
  "hydrateKeys St cutoff now [] db s = Inr s"
| "hydrateKeys St cutoff now (key # ks) db s = (case st_load St key cutoff now db of
      Inl e \<Rightarrow> Inl e
    | Inr samples \<Rightarrow> hydrateKeys St cutoff now ks db (s\<lparr>sm_samples := gm_put key samples (sm_samples s)\<rparr>))"

definition hydrate :: "'db store_ops \<Rightarrow> gotime \<Rightarrow> 'db Sampler \<Rightarrow> gerror + 'db Sampler" where
  "hydrate St now s = (case sm_store s of None \<Rightarrow> Inr s
     | Some db \<Rightarrow> (case st_keys St db of Inl e \<Rightarrow> Inl e
        | Inr ks \<Rightarrow> hydrateKeys St (now - sm_retention s) now ks db s))"

definition newSamplerWithStore :: "'db store_ops \<Rightarrow> duration \<Rightarrow> 'db option \<Rightarrow> gotime \<Rightarrow> gerror + 'db Sampler" where
  "newSamplerWithStore St retention store now =
    hydrate St now \<lparr>sm_retention = retention, sm_samples = [], sm_store = store, sm_lastPrune = 0\<rparr>"

subsection \<open>Summaries\<close>

record WindowSummary =
  ActiveHours :: f64
  TotalHours :: f64
  ActiveEnergyKWh :: f64
  TotalEnergyKWh :: f64

definition zeroSummary :: WindowSummary where
  "zeroSummary = \<lparr>ActiveHours = 0, TotalHours = 0, ActiveEnergyKWh = 0, TotalEnergyKWh = 0\<rparr>"

text \<open>The credit of one sample for a number of nanoseconds.\<close>

definition addInterval :: "Sample \<Rightarrow> duration \<Rightarrow> WindowSummary \<Rightarrow> WindowSummary" where
  "addInterval sample d w =
    (let hours = Seconds d / lit 3600;
         energyKWh = sPowerW sample * hours / lit 1000;
         w = w\<lparr>TotalHours := TotalHours w + hours, TotalEnergyKWh := TotalEnergyKWh w + energyKWh\<rparr>
     in if sActiveW sample < sPowerW sample
        then w\<lparr>ActiveHours := ActiveHours w + hours, ActiveEnergyKWh := ActiveEnergyKWh w + energyKWh\<rparr>
        else w)"

fun summarizeLoop :: "gotime \<Rightarrow> gotime \<Rightarrow> Sample list \<Rightarrow> WindowSummary \<Rightarrow> WindowSummary" where
  "summarizeLoop start endt [] w = w"
| "summarizeLoop start endt (sample # rest) w =
    (let nextAt = (case rest of [] \<Rightarrow> endt | s' # _ \<Rightarrow> sAt s');
         intervalStart = (if sAt sample < start then start else sAt sample);
         intervalEnd = (if endt < nextAt then endt else nextAt)
     in if \<not> intervalStart < intervalEnd then summarizeLoop start endt rest w
        else summarizeLoop start endt rest (addInterval sample (time_Sub intervalEnd intervalStart) w))"

definition Summarize :: "'db Sampler \<Rightarrow> gostring \<Rightarrow> gotime \<Rightarrow> gotime \<Rightarrow> WindowSummary" where
  "Summarize s key start endt =
    (let samples = samples_of s key in
     if length samples = 0 then zeroSummary else summarizeLoop start endt samples zeroSummary)"

definition ActiveAndTotalHours :: "'db Sampler \<Rightarrow> gostring \<Rightarrow> gotime \<Rightarrow> gotime \<Rightarrow> f64 \<times> f64" where
  "ActiveAndTotalHours s key start endt =
    (let w = Summarize s key start endt in (ActiveHours w, TotalHours w))"

definition DefaultIdleThresholdWatts :: "int32 option \<Rightarrow> int32 \<Rightarrow> f64" where
  "DefaultIdleThresholdWatts tdpPerGPU gpuCount =
    (let count = f_of_int32 gpuCount; count = (if count \<le> 0 then lit 1 else count) in
     case tdpPerGPU of
       Some tdp \<Rightarrow> if 0 <s tdp then f_of_int32 tdp * lit (2/10) * count else lit 30 * count
     | None \<Rightarrow> lit 30 * count)"

subsection \<open>Binary search\<close>

lemma sort_Search_correct:
  assumes "\<And>a b. a \<le> b \<Longrightarrow> f a \<Longrightarrow> b < j \<Longrightarrow> f b" and "i \<le> j"
  shows "i \<le> sort_Search f i j \<and> sort_Search f i j \<le> j
    \<and> (\<forall>k. i \<le> k \<and> k < sort_Search f i j \<longrightarrow> \<not> f k) \<and> (\<forall>k. sort_Search f i j \<le> k \<and> k < j \<longrightarrow> f k)"
  using assms
proof (induction f i j rule: sort_Search.induct)
  case (1 f i j)
  show ?case
  proof (cases "i < j")
    case True
    let ?h = "(i + j) div 2"
    have h: "i \<le> ?h" "?h < j" using True by auto
    show ?thesis
    proof (cases "f ?h")
      case True
      have "i \<le> sort_Search f i ?h \<and> sort_Search f i ?h \<le> ?h
        \<and> (\<forall>k. i \<le> k \<and> k < sort_Search f i ?h \<longrightarrow> \<not> f k) \<and> (\<forall>k. sort_Search f i ?h \<le> k \<and> k < ?h \<longrightarrow> f k)"
        using \<open>i < j\<close> True h 1(3) by (intro 1(2)) (auto intro: 1(3))
      moreover have "sort_Search f i j = sort_Search f i ?h"
        using \<open>i < j\<close> True by (subst sort_Search.simps) (simp add: Let_def)
      moreover have "f k" if "?h \<le> k" "k < j" for k using 1(3) [OF that(1) True that(2)] .
      ultimately show ?thesis using h by (metis le_trans less_imp_le linorder_not_less)
    next
      case False
      have "?h + 1 \<le> sort_Search f (?h + 1) j \<and> sort_Search f (?h + 1) j \<le> j
        \<and> (\<forall>k. ?h + 1 \<le> k \<and> k < sort_Search f (?h + 1) j \<longrightarrow> \<not> f k) \<and> (\<forall>k. sort_Search f (?h + 1) j \<le> k \<and> k < j \<longrightarrow> f k)"
        using \<open>i < j\<close> False h 1(3) by (intro 1(1)) auto
      moreover have "sort_Search f i j = sort_Search f (?h + 1) j"
        using \<open>i < j\<close> False by (subst sort_Search.simps) (simp add: Let_def)
      moreover have "\<not> f k" if "k < ?h + 1" for k
      proof -
        have "k \<le> ?h" using that by simp
        then show ?thesis using 1(3) [OF _ _ h(2)] False by blast
      qed
      ultimately have "?h + 1 \<le> sort_Search f i j \<and> sort_Search f i j \<le> j"
        and lo: "\<And>k. ?h + 1 \<le> k \<and> k < sort_Search f i j \<Longrightarrow> \<not> f k" "\<And>k. k < ?h + 1 \<Longrightarrow> \<not> f k"
        and hi: "\<And>k. sort_Search f i j \<le> k \<and> k < j \<Longrightarrow> f k" by auto
      then have "i \<le> sort_Search f i j \<and> sort_Search f i j \<le> j" using h by linarith
      moreover have "\<not> f k" if "k < sort_Search f i j" for k using lo that by (cases "k < ?h + 1") auto
      ultimately show ?thesis using hi by blast
    qed
  next
    case False
    then have "sort_Search f i j = i" by (subst sort_Search.simps) simp
    then show ?thesis using False 1(4) by auto
  qed
qed

subsection \<open>Garbage collection\<close>

lemma samples_of_put [simp]:
  "samples_of (s\<lparr>sm_samples := gm_put k xs (sm_samples s)\<rparr>) k' = (if k' = k then xs else samples_of s k')"
  by (simp add: samples_of_def)

lemma samples_of_upd [simp]:
  "samples_of (s\<lparr>sm_store := st\<rparr>) k = samples_of s k" "samples_of (s\<lparr>sm_lastPrune := t\<rparr>) k = samples_of s k"
  by (simp_all add: samples_of_def)

lemma drop_first_filter:
  assumes "\<forall>k < n. \<not> P (xs ! k)" and "\<forall>k. n \<le> k \<and> k < length xs \<longrightarrow> P (xs ! k)" and "n \<le> length xs"
  shows "drop n xs = filter P xs"
proof -
  have "filter P (take n xs) = []" using assms by (auto simp: filter_empty_conv in_set_conv_nth)
  moreover have "filter P (drop n xs) = drop n xs" using assms by (intro filter_True) (auto simp: in_set_conv_nth)
  ultimately show ?thesis by (metis append_self_conv2 append_take_drop_id filter_append)
qed

definition time_sorted :: "Sample list \<Rightarrow> bool" where
  "time_sorted xs = sorted_wrt (\<le>) (map sAt xs)"

lemma time_sorted_nth: "time_sorted xs \<Longrightarrow> i \<le> j \<Longrightarrow> j < length xs \<Longrightarrow> sAt (xs ! i) \<le> sAt (xs ! j)"
  by (cases "i = j") (auto simp: time_sorted_def sorted_wrt_iff_nth_less)

lemma time_sorted_filter: "time_sorted xs \<Longrightarrow> time_sorted (filter P xs)"
  by (auto simp: time_sorted_def sorted_wrt_map intro: sorted_wrt_filter)

lemma gc_other: "k' \<noteq> k \<Longrightarrow> samples_of (gcLocked k now s) k' = samples_of s k'"
  by (simp add: gcLocked_def Let_def)

lemma gc_fields [simp]:
  "sm_store (gcLocked k now s) = sm_store s" "sm_retention (gcLocked k now s) = sm_retention s"
  "sm_lastPrune (gcLocked k now s) = sm_lastPrune s"
  by (simp_all add: gcLocked_def Let_def)

text \<open>The fast path and the binary search of \<open>gcLocked\<close> compute a plain filter on a sorted window.\<close>

lemma gc_filter:
  assumes "time_sorted (samples_of s k)"
  shows "samples_of (gcLocked k now s) k = filter (\<lambda>x. now - sm_retention s \<le> sAt x) (samples_of s k)"
proof -
  let ?xs = "samples_of s k" and ?c = "now - sm_retention s"
  let ?f = "\<lambda>i. \<not> sAt (?xs ! i) < ?c" and ?P = "\<lambda>x. ?c \<le> sAt x"
  have mono: "?f b" if "a \<le> b" "?f a" "b < length ?xs" for a b
    using time_sorted_nth [OF assms that(1,3)] that(2) by linarith
  show ?thesis
  proof (cases "length ?xs = 0 \<or> ?f 0")
    case True
    then have "filter ?P ?xs = ?xs" using mono [of 0]
      by (intro filter_True) (auto simp: in_set_conv_nth not_less)
    then show ?thesis using True by (auto simp: gcLocked_def)
  next
    case False
    define i where "i = sort_Search ?f 0 (length ?xs)"
    have r: "0 \<le> i \<and> i \<le> length ?xs \<and> (\<forall>k. 0 \<le> k \<and> k < i \<longrightarrow> \<not> ?f k) \<and> (\<forall>k. i \<le> k \<and> k < length ?xs \<longrightarrow> ?f k)"
      unfolding i_def by (rule sort_Search_correct) (use mono in blast, simp)
    have "drop i ?xs = filter ?P ?xs"
    proof (rule drop_first_filter)
      show "\<forall>k<i. \<not> ?P (?xs ! k)" using r by (meson le0 not_le)
      show "\<forall>k. i \<le> k \<and> k < length ?xs \<longrightarrow> ?P (?xs ! k)" using r by (meson not_le)
      show "i \<le> length ?xs" using r by blast
    qed
    moreover have "gcLocked k now s = s\<lparr>sm_samples := gm_put k (drop i ?xs) (sm_samples s)\<rparr>"
    proof (cases "length ?xs \<le> i")
      case True
      then have "drop i ?xs = take 0 ?xs" by (simp only: drop_all take0)
      then show ?thesis using False True unfolding gcLocked_def Let_def i_def [symmetric] by (simp only: if_True if_False)
    next
      case no: False
      then show ?thesis using False unfolding gcLocked_def Let_def i_def [symmetric] by (simp only: if_False)
    qed
    ultimately show ?thesis by (simp only: samples_of_put refl if_True)
  qed
qed

lemma pruneStore_samples [simp]:
  "samples_of (pruneStore St now s) k = samples_of s k" "sm_retention (pruneStore St now s) = sm_retention s"
  by (auto simp: pruneStore_def Let_def samples_of_def split: option.splits sum.splits)

definition newSample :: "gotime \<Rightarrow> f64 \<Rightarrow> f64 \<Rightarrow> Sample" where
  "newSample now p a = \<lparr>sAt = now, sPowerW = p, sActiveW = a\<rparr>"

lemma Record_samples:
  assumes "Record St now key p a s = (None, s')" and "time_sorted (samples_of s key)"
    and "\<forall>x \<in> set (samples_of s key). sAt x \<le> now"
  shows "samples_of s' key = filter (\<lambda>x. now - sm_retention s \<le> sAt x) (samples_of s key @ [newSample now p a])"
    and "k \<noteq> key \<Longrightarrow> samples_of s' k = samples_of s k" and "sm_retention s' = sm_retention s"
proof -
  have srt: "time_sorted (samples_of s key @ [newSample now p a])"
    using assms(2,3) by (auto simp: time_sorted_def sorted_wrt_append newSample_def)
  obtain t where t: "samples_of t = samples_of s" "sm_retention t = sm_retention s"
    and s': "s' = gcLocked key now (t\<lparr>sm_samples := gm_put key (samples_of t key @ [newSample now p a]) (sm_samples t)\<rparr>)"
  proof (cases "sm_store s")
    case None
    then show thesis using assms(1) by (intro that [of s]) (simp_all add: Record_def Let_def newSample_def)
  next
    case (Some db)
    then obtain db' where a: "st_append St key (newSample now p a) db = Inr db'"
      using assms(1) by (auto simp: Record_def Let_def newSample_def split: sum.splits)
    show thesis
    proof (rule that)
      let ?t = "pruneStore St now (s\<lparr>sm_store := Some db'\<rparr>)"
      show "samples_of ?t = samples_of s" "sm_retention ?t = sm_retention s" by (simp_all add: fun_eq_iff)
      show "s' = gcLocked key now (?t\<lparr>sm_samples := gm_put key (samples_of ?t key @ [newSample now p a]) (sm_samples ?t)\<rparr>)"
        using assms(1) Some a by (simp add: Record_def Let_def newSample_def)
    qed
  qed
  show "samples_of s' key = filter (\<lambda>x. now - sm_retention s \<le> sAt x) (samples_of s key @ [newSample now p a])"
    unfolding s' by (subst gc_filter) (use srt t in simp_all)
  show "k \<noteq> key \<Longrightarrow> samples_of s' k = samples_of s k" unfolding s' using t by (simp add: gc_other)
  show "sm_retention s' = sm_retention s" unfolding s' using t by simp
qed

text \<open>The window invariant: every key's samples are in time order and none is later than the clock.\<close>

definition window_ok :: "gotime \<Rightarrow> 'db Sampler \<Rightarrow> bool" where
  "window_ok now s = (\<forall>k. time_sorted (samples_of s k) \<and> (\<forall>x \<in> set (samples_of s k). sAt x \<le> now))"

lemma Record_effect:
  assumes "window_ok t s" and "t \<le> now" and "0 \<le> sm_retention s"
    and "Record St now key p a s = (err, s')"
  shows "window_ok now s' \<and> sm_retention s' = sm_retention s \<and> (err \<noteq> None \<longrightarrow> s' = s)
    \<and> (err = None \<longrightarrow> samples_of s' key = filter (\<lambda>x. now - sm_retention s \<le> sAt x) (samples_of s key) @ [newSample now p a]
        \<and> (\<forall>k. k \<noteq> key \<longrightarrow> samples_of s' k = samples_of s k))"
proof (cases err)
  case None
  have w: "time_sorted (samples_of s k)" "\<forall>x \<in> set (samples_of s k). sAt x \<le> now" for k
    using assms(1,2) by (auto simp: window_ok_def intro: order_trans)
  note r = Record_samples [OF assms(4) [unfolded None] w]
  have "time_sorted (samples_of s' key)" using w [of key] unfolding r(1)
    by (intro time_sorted_filter) (auto simp: time_sorted_def sorted_wrt_append newSample_def)
  moreover have "\<forall>x \<in> set (samples_of s' key). sAt x \<le> now" using w(2) [of key] unfolding r(1) by (auto simp: newSample_def)
  ultimately have "window_ok now s'" using w r(2) by (metis window_ok_def)
  then show ?thesis using None r assms(3) by (auto simp: newSample_def)
next
  case (Some e)
  then have "s' = s" using assms(4) by (auto simp: Record_def Let_def split: option.splits sum.splits)
  then show ?thesis using Some assms(1,2) by (auto simp: window_ok_def intro: order_trans)
qed

text \<open>Whether a sample is kept: with no store attached always, otherwise when the store takes it.\<close>

definition persists :: "'db store_ops \<Rightarrow> gostring \<Rightarrow> Sample \<Rightarrow> 'db Sampler \<Rightarrow> bool" where
  "persists St key x s = (case sm_store s of None \<Rightarrow> True | Some db \<Rightarrow> \<not> isl (st_append St key x db))"

lemma Record_persists:
  "Record St now key p a s = (err, s') \<Longrightarrow> err = None \<longleftrightarrow> persists St key (newSample now p a) s"
  by (auto simp: Record_def persists_def newSample_def Let_def split: option.splits sum.splits)

text \<open>C20 \<open>Record\<close> under a clock that does not run backwards: the window invariant is preserved, the
  window of the key becomes exactly the old samples and the new one from which those older than the
  retention are dropped, the other windows are untouched, and a failed persist changes nothing.\<close>

theorem record_window:
  assumes "window_ok t s" and "t \<le> now" and "0 \<le> sm_retention s"
    and "Record St now key p a s = (err, s')"
  shows "window_ok now s' \<and> sm_retention s' = sm_retention s \<and> (err \<noteq> None \<longrightarrow> s' = s)
    \<and> (err = None \<longrightarrow> samples_of s' key = filter (\<lambda>x. now - sm_retention s \<le> sAt x) (samples_of s key) @ [newSample now p a]
        \<and> (\<forall>k. k \<noteq> key \<longrightarrow> samples_of s' k = samples_of s k))"
  by (rule Record_effect [OF assms])

definition demo_sampler :: "memdb Sampler" where
  "demo_sampler = NewSampler\<lparr>sm_samples := [(''ns/a'', [demo_sample 0 (lit 90), demo_sample 3600 (lit 20)])]\<rparr>"

lemma samples_of_demo: "samples_of demo_sampler k = (if k = ''ns/a'' then [demo_sample 0 (lit 90), demo_sample 3600 (lit 20)] else [])"
  by (simp add: demo_sampler_def samples_of_def gm_get_def NewSampler_def)

lemma window_ok_demo: "window_ok (unixEpoch + nsHour) demo_sampler"
  by (auto simp: window_ok_def samples_of_demo time_sorted_def demo_sample_def ns_defs)

theorem record_window_witness:
  "\<exists>s'. Record (bolt_store mem_bbolt) (unixEpoch + 49 * nsHour) ''ns/a'' (lit 50) (lit 30) demo_sampler = (None, s')
    \<and> samples_of s' ''ns/a'' = [demo_sample 3600 (lit 20), newSample (unixEpoch + 49 * nsHour) (lit 50) (lit 30)]"
proof -
  let ?now = "unixEpoch + 49 * nsHour"
  obtain s' where r: "Record (bolt_store mem_bbolt) ?now ''ns/a'' (lit 50) (lit 30) demo_sampler = (None, s')"
    by (simp add: Record_def Let_def demo_sampler_def NewSampler_def)
  have d: "sm_retention demo_sampler = 48 * nsHour"
    by (simp add: demo_sampler_def NewSampler_def DefaultRetention_def)
  have "unixEpoch + nsHour \<le> ?now" "0 \<le> sm_retention demo_sampler" by (simp_all add: d nsHour_def)
  from record_window [OF window_ok_demo this r] r show ?thesis
    by (simp add: d samples_of_demo demo_sample_def ns_defs)
qed

subsection \<open>What a summary credits\<close>

text \<open>The samples a window credits, each with the nanoseconds it stands for.\<close>

fun credited :: "gotime \<Rightarrow> gotime \<Rightarrow> Sample list \<Rightarrow> (Sample \<times> duration) list" where
  "credited start endt [] = []"
| "credited start endt (x # rest) =
    (let b = max start (sAt x); e = min endt (case rest of [] \<Rightarrow> endt | y # _ \<Rightarrow> sAt y)
     in (if b < e then [(x, e - b)] else []) @ credited start endt rest)"


lemma credited_pos: "(x, d) \<in> set (credited start endt xs) \<Longrightarrow> 0 < d \<and> d \<le> endt - start \<and> x \<in> set xs"
  by (induction start endt xs rule: credited.induct) (auto simp: Let_def split: if_splits)


lemma summarizeLoop_credited:
  assumes "endt - start < 2 ^ 63"
  shows "summarizeLoop start endt xs w = foldl (\<lambda>w (x, d). addInterval x d w) w (credited start endt xs)"
proof (induction xs arbitrary: w)
  case (Cons x rest)
  let ?b = "max start (sAt x)" and ?e = "min endt (case rest of [] \<Rightarrow> endt | y # _ \<Rightarrow> sAt y)"
  have b: "(if sAt x < start then start else sAt x) = ?b"
    and e: "(if endt < (case rest of [] \<Rightarrow> endt | y # _ \<Rightarrow> sAt y) then endt else (case rest of [] \<Rightarrow> endt | y # _ \<Rightarrow> sAt y)) = ?e"
    by (simp_all add: max_def min_def)
  have d: "time_Sub ?e ?b = ?e - ?b" if "?b < ?e"
  proof -
    have "0 < ?e - ?b" "?e - ?b < 2 ^ 63" using that assms by linarith+
    then show ?thesis unfolding time_Sub_def by linarith
  qed
  show ?case unfolding summarizeLoop.simps credited.simps Let_def b e using Cons d by (cases "?b < ?e") (simp_all del: max_less_iff_conj min_less_iff_conj)
qed simp

subsection \<open>Active hours and energy are part of the total\<close>

lemma Seconds_nn: "0 \<le> d \<Longrightarrow> d < 2 ^ 63 \<Longrightarrow> nn_fin (Seconds d)"
proof -
  assume h: "0 \<le> d" "d < 2 ^ 63"
  let ?q = "lit (of_int (tdiv d nsSecond))" and ?r = "lit (of_int (tmod d nsSecond))" and ?c = "lit 1000000000"
  have q: "0 \<le> tdiv d nsSecond" "tdiv d nsSecond \<le> 2 ^ 63" "0 \<le> tmod d nsSecond" "tmod d nsSecond \<le> 1000000000"
    using tdiv_tmod [of d nsSecond] h by (auto simp: nsSecond_def)
  have c: "lit 1 \<le> ?c" "is_fin ?c" by (simp_all add: lits lit_one_le del: fval_mkf)
  have Q: "nn_fin ?q" and R: "nn_fin (?r / ?c)" using q c by (auto intro!: lit_of_int_nn div_nn_fin)
  have "of_int (tdiv d nsSecond) \<le> (of_int (2 ^ 63) :: rat)" using q(2) by (simp only: of_int_le_iff)
  then have "?q \<le> lit (2 ^ 63)" by (intro lit_mono) simp
  moreover have "of_int (tmod d nsSecond) \<le> (of_int 1000000000 :: rat)" using q(4) by (simp only: of_int_le_iff)
  then have "?r \<le> ?c" by (intro lit_mono) simp
  then have "?r / ?c \<le> lit 1"
    using q c lit_of_int_nn [of "tmod d nsSecond"] f_less_le_trans [OF lit_1_pos c(1)]
    by (intro f_div_le1) (auto simp: nn_fin_def)
  ultimately have "Seconds d \<le> lit (2 ^ 63) + lit 1"
    unfolding Seconds_def using Q R by (intro f_add_mono) (auto simp: nn_fin_def)
  moreover have "is_fin (lit (2 ^ 63) + lit 1)" by code_simp
  moreover have "0 \<le> Seconds d" unfolding Seconds_def using Q R by (intro f_add_nonneg_nonneg) (auto simp: nn_fin_def)
  ultimately show ?thesis using f_le_fin unfolding nn_fin_def by blast
qed

definition summary_ok :: "WindowSummary \<Rightarrow> bool" where
  "summary_ok w = (0 \<le> ActiveHours w \<and> ActiveHours w \<le> TotalHours w
     \<and> 0 \<le> ActiveEnergyKWh w \<and> ActiveEnergyKWh w \<le> TotalEnergyKWh w)"

lemma summary_ok_zero: "summary_ok zeroSummary"
  by (simp add: summary_ok_def zeroSummary_def f_le_refl)

lemma addInterval_ok:
  assumes "summary_ok w" and "nn_fin (sPowerW x)" and "0 < d" and "d < 2 ^ 63"
  shows "summary_ok (addInterval x d w)"
proof -
  have s: "nn_fin (Seconds d)" using assms(3,4) by (intro Seconds_nn) auto
  have h: "nn_fin (Seconds d / lit 3600)"
    using s by (rule div_nn_fin) (simp_all add: lits lit_one_le del: fval_mkf)
  have e: "0 \<le> sPowerW x * (Seconds d / lit 3600) / lit 1000"
    using mul_nn [OF assms(2) h] by (rule div_nn) (simp_all add: lits del: fval_mkf)
  have step: "0 \<le> a + v \<and> a + v \<le> t + v \<and> a \<le> t + v" if "0 \<le> a" "a \<le> t" "0 \<le> v" for a t v :: f64
    using that f_add_mono [OF that(1,2,3) f_le_refl] f_add_ge_left [of t v] f_le_trans by (meson f_add_nonneg_nonneg f_nonneg_iff)
  show ?thesis
    using assms(1) step [of "ActiveHours w" "TotalHours w"] step [of "ActiveEnergyKWh w" "TotalEnergyKWh w"] nn_finD(1) [OF h] e
    unfolding summary_ok_def addInterval_def Let_def by simp
qed

lemma foldl_credit_ok:
  assumes "summary_ok w" and "\<forall>(x, d) \<in> set cs. nn_fin (sPowerW x) \<and> 0 < d \<and> d < 2 ^ 63"
  shows "summary_ok (foldl (\<lambda>w (x, d). addInterval x d w) w cs)"
  using assms
proof (induction cs arbitrary: w)
  case (Cons c cs)
  have "summary_ok (addInterval (fst c) (snd c) w)" using Cons.prems by (intro addInterval_ok) auto
  then show ?case using Cons by (simp add: case_prod_unfold)
qed simp






text \<open>The four figures of a fold of credits, each as a sum of its own.\<close>

lemma fold_fields:
  "TotalHours (foldl (\<lambda>w (x, d). addInterval x d w) w cs) = foldl (\<lambda>a (x, d). a + Seconds d / lit 3600) (TotalHours w) cs"
  "TotalEnergyKWh (foldl (\<lambda>w (x, d). addInterval x d w) w cs)
    = foldl (\<lambda>a (x, d). a + sPowerW x * (Seconds d / lit 3600) / lit 1000) (TotalEnergyKWh w) cs"
  "ActiveHours (foldl (\<lambda>w (x, d). addInterval x d w) w cs)
    = foldl (\<lambda>a (x, d). a + Seconds d / lit 3600) (ActiveHours w) (filter (\<lambda>(x, d). sActiveW x < sPowerW x) cs)"
  "ActiveEnergyKWh (foldl (\<lambda>w (x, d). addInterval x d w) w cs)
    = foldl (\<lambda>a (x, d). a + sPowerW x * (Seconds d / lit 3600) / lit 1000) (ActiveEnergyKWh w)
        (filter (\<lambda>(x, d). sActiveW x < sPowerW x) cs)"
  by (induction cs arbitrary: w; simp add: addInterval_def Let_def case_prod_unfold)+


text \<open>Whatever power was recorded (finite, non-negative), the active hours and the active energy of
  a summary are non-negative and never exceed the totals, in float64 and for any order of samples.\<close>

theorem summarize_active_le_total:
  assumes "endt - start < 2 ^ 63" and "\<forall>x \<in> set (samples_of s key). nn_fin (sPowerW x)"
  shows "case Summarize s key start endt of w \<Rightarrow> 0 \<le> ActiveHours w \<and> ActiveHours w \<le> TotalHours w
     \<and> 0 \<le> ActiveEnergyKWh w \<and> ActiveEnergyKWh w \<le> TotalEnergyKWh w"
proof -
  have "\<forall>(x, d) \<in> set (credited start endt (samples_of s key)). nn_fin (sPowerW x) \<and> 0 < d \<and> d < 2 ^ 63"
    using credited_pos assms by fastforce
  then have "summary_ok (foldl (\<lambda>w (x, d). addInterval x d w) zeroSummary (credited start endt (samples_of s key)))"
    by (rule foldl_credit_ok [OF summary_ok_zero])
  then have "summary_ok (Summarize s key start endt)"
    using summarizeLoop_credited [OF assms(1)] summary_ok_zero by (simp add: Summarize_def Let_def)
  then show ?thesis by (simp add: summary_ok_def)
qed


theorem summarize_active_le_total_witness:
  "case Summarize demo_sampler ''ns/a'' unixEpoch (unixEpoch + 2 * nsHour) of w \<Rightarrow> 0 \<le> ActiveHours w \<and> ActiveHours w \<le> TotalHours w
     \<and> 0 \<le> ActiveEnergyKWh w \<and> ActiveEnergyKWh w \<le> TotalEnergyKWh w"
proof (rule summarize_active_le_total)
  show "unixEpoch + 2 * nsHour - unixEpoch < 2 ^ 63" by (simp add: nsHour_def)
  show "\<forall>x \<in> set (samples_of demo_sampler ''ns/a''). nn_fin (sPowerW x)"
    by (simp add: samples_of_demo demo_sample_def nn_lit)
qed

subsection \<open>Restarts\<close>

text \<open>A run of \<open>Record\<close> calls at increasing times, each succeeding or failing.\<close>

inductive sampler_run :: "'db store_ops \<Rightarrow> gotime \<Rightarrow> 'db Sampler \<Rightarrow> gotime \<Rightarrow> 'db Sampler \<Rightarrow> bool" for St where
  run_refl: "sampler_run St t s t s"
| run_step: "sampler_run St t0 s0 t s \<Longrightarrow> t < now \<Longrightarrow> time_ok now \<Longrightarrow> Record St now key p a s = (err, s') \<Longrightarrow>
    sampler_run St t0 s0 now s'"

lemma filter_later: "c \<le> c' \<Longrightarrow> filter (\<lambda>x. c \<le> sAt x) xs = filter (\<lambda>x. c \<le> sAt x) ys \<Longrightarrow>
  filter (\<lambda>x. c' \<le> sAt x) xs = filter (\<lambda>x. c' \<le> sAt x) ys" for c :: int
proof -
  assume c: "c \<le> c'" and e: "filter (\<lambda>x. c \<le> sAt x) xs = filter (\<lambda>x. c \<le> sAt x) ys"
  have "filter (\<lambda>x. c' \<le> sAt x) zs = filter (\<lambda>x. c' \<le> sAt x) (filter (\<lambda>x. c \<le> sAt x) zs)" for zs
    using c by (auto intro: filter_cong)
  then show ?thesis using e by metis
qed

context sample_store
begin

text \<open>Memory and store agree on every sample still inside the retention window.\<close>

definition agree :: "gotime \<Rightarrow> 'db Sampler \<Rightarrow> bool" where
  "agree t s = (\<exists>db f. sm_store s = Some db \<and> (\<forall>k. rep db k (f k)) \<and> (\<forall>k. \<forall>x \<in> set (f k). sAt x \<le> t)
     \<and> window_ok t s \<and> (\<forall>k. filter (\<lambda>x. t - sm_retention s \<le> sAt x) (f k)
          = filter (\<lambda>x. t - sm_retention s \<le> sAt x) (samples_of s k)))"

lemma agree_later: "agree t s \<Longrightarrow> t \<le> t' \<Longrightarrow> agree t' s"
proof -
  assume "agree t s" and le: "t \<le> t'"
  then obtain db f where h: "sm_store s = Some db" "\<forall>k. rep db k (f k)" "\<forall>k. \<forall>x \<in> set (f k). sAt x \<le> t"
    "window_ok t s" "\<forall>k. filter (\<lambda>x. t - sm_retention s \<le> sAt x) (f k) = filter (\<lambda>x. t - sm_retention s \<le> sAt x) (samples_of s k)"
    unfolding agree_def by blast
  have "filter (\<lambda>x. t' - sm_retention s \<le> sAt x) (f k) = filter (\<lambda>x. t' - sm_retention s \<le> sAt x) (samples_of s k)" for k
    by (rule filter_later [OF _ h(5) [rule_format]]) (use le in simp)
  moreover have "\<forall>k. \<forall>x \<in> set (f k). sAt x \<le> t'" using h(3) le by (auto intro: order_trans)
  moreover have "window_ok t' s" using h(4) le by (auto simp: window_ok_def intro: order_trans)
  ultimately show ?thesis using h(1,2) unfolding agree_def by blast
qed

lemma prune_agree:
  assumes "\<forall>k. rep db k (f k)" and "time_ok (now - sm_retention s)" and "sm_store s = Some db"
  obtains db' g where "sm_store (pruneStore St now s) = Some db'" and "\<forall>k. rep db' k (g k)"
    and "\<forall>k. set (g k) \<subseteq> set (f k)"
    and "\<forall>k. filter (\<lambda>x. now - sm_retention s \<le> sAt x) (g k) = filter (\<lambda>x. now - sm_retention s \<le> sAt x) (f k)"
proof (cases "sm_store (pruneStore St now s) = Some db")
  case True
  then show thesis using assms(1) by (intro that) auto
next
  case False
  then obtain db' where p: "st_prune St (now - sm_retention s) db = Inr db'"
    and s: "sm_store (pruneStore St now s) = Some db'"
    using assms(3) by (auto simp: pruneStore_def Let_def split: sum.splits if_splits)
  have "\<forall>k. rep db' k (filter (\<lambda>x. now - sm_retention s \<le> sAt x) (f k))"
    using prune [OF p assms(2)] assms(1) by blast
  then show thesis using s by (intro that) auto
qed

lemma agree_Record:
  assumes "agree t s" and "t < now" and "Record St now key p a s = (err, s')"
    and "time_ok now" and "time_ok (now - sm_retention s)" and "0 \<le> sm_retention s"
  shows "agree now s' \<and> sm_retention s' = sm_retention s"
proof (cases err)
  case (Some e)
  then have "s' = s" using assms(3) by (auto simp: Record_def Let_def split: option.splits sum.splits)
  then show ?thesis using agree_later [OF assms(1)] assms(2) by simp
next
  case None
  let ?n = "newSample now p a" and ?P = "\<lambda>x. now - sm_retention s \<le> sAt x"
  obtain db f where st: "sm_store s = Some db" and r: "\<forall>k. rep db k (f k)" and le: "\<forall>k. \<forall>x \<in> set (f k). sAt x \<le> t"
    and w: "window_ok t s"
    and eq0: "\<forall>k. filter (\<lambda>x. t - sm_retention s \<le> sAt x) (f k) = filter (\<lambda>x. t - sm_retention s \<le> sAt x) (samples_of s k)"
    using assms(1) unfolding agree_def by blast
  have eq: "filter ?P (f k) = filter ?P (samples_of s k)" for k
    by (rule filter_later [OF _ eq0 [rule_format]]) (use assms(2) in simp)
  obtain db1 where ap: "st_append St key ?n db = Inr db1"
    and s': "s' = gcLocked key now (let u = pruneStore St now (s\<lparr>sm_store := Some db1\<rparr>)
        in u\<lparr>sm_samples := gm_put key (samples_of u key @ [?n]) (sm_samples u)\<rparr>)"
    using assms(3) None st by (auto simp: Record_def Let_def newSample_def split: sum.splits)
  have new: "\<forall>x \<in> set (f key). sAt x < sAt ?n" "time_ok (sAt ?n)" using le assms(2,4) by (auto simp: newSample_def intro: le_less_trans)
  define g where "g = f(key := f key @ [?n])"
  have g: "\<forall>k. rep db1 k (g k)"
    using append_key [OF ap r [rule_format] new(2,1)] append_other [OF ap r [rule_format] new(2,1)] r by (simp add: g_def)
  obtain db2 h where st2: "sm_store (pruneStore St now (s\<lparr>sm_store := Some db1\<rparr>)) = Some db2"
    and h: "\<forall>k. rep db2 k (h k)" "\<forall>k. set (h k) \<subseteq> set (g k)" "\<forall>k. filter ?P (h k) = filter ?P (g k)"
    using prune_agree [of db1 g now "s\<lparr>sm_store := Some db1\<rparr>"] g assms(5) by auto
  have R: "window_ok now s'" "sm_retention s' = sm_retention s"
    "samples_of s' key = filter ?P (samples_of s key) @ [?n]" "\<And>k. k \<noteq> key \<Longrightarrow> samples_of s' k = samples_of s k"
    using Record_effect [OF w less_imp_le [OF assms(2)] assms(6,3)] None by auto
  have "filter ?P (h k) = filter ?P (samples_of s' k)" for k
    using h(3) eq R(3,4) by (cases "k = key") (simp_all add: g_def)
  moreover have "\<forall>k. \<forall>x \<in> set (h k). sAt x \<le> now"
  proof (intro allI ballI)
    fix k x assume "x \<in> set (h k)"
    then have "x \<in> set (f k) \<or> x = ?n" using h(2) [rule_format, of k] by (cases "k = key") (auto simp: g_def)
    then show "sAt x \<le> now"
    proof
      assume "x \<in> set (f k)"
      then have "sAt x \<le> t" using le by blast
      then show ?thesis using assms(2) by linarith
    qed (simp add: newSample_def)
  qed
  moreover have "sm_store s' = Some db2" unfolding s' Let_def using st2 by simp
  ultimately show ?thesis using R(1,2) h(1) unfolding agree_def by auto
qed

lemma hydrateKeys_samples:
  assumes "hydrateKeys St c now ks db s = Inr s'" and "\<forall>k. rep db k (f k)" and "time_ok c" and "time_ok now"
  shows "samples_of s' k = (if k \<in> set ks then filter (\<lambda>x. c \<le> sAt x \<and> sAt x < now) (f k) else samples_of s k)
    \<and> sm_store s' = sm_store s \<and> sm_retention s' = sm_retention s"
  using assms(1)
proof (induction ks arbitrary: s)
  case (Cons m ks)
  then obtain xs where l: "st_load St m c now db = Inr xs"
    and h: "hydrateKeys St c now ks db (s\<lparr>sm_samples := gm_put m xs (sm_samples s)\<rparr>) = Inr s'"
    by (auto split: sum.splits)
  have "xs = filter (\<lambda>x. c \<le> sAt x \<and> sAt x < now) (f m)" using load [OF l _ assms(3,4)] assms(2) by blast
  then show ?case using Cons.IH [OF h] by auto
qed simp

lemma hydrated:
  assumes "newSamplerWithStore St ret (Some db) now = Inr s" and "\<forall>k. rep db k (f k)"
    and "time_ok (now - ret)" and "time_ok now"
  shows "samples_of s k = filter (\<lambda>x. now - ret \<le> sAt x \<and> sAt x < now) (f k)"
    and "sm_store s = Some db" and "sm_retention s = ret"
proof -
  obtain ks where ks: "st_keys St db = Inr ks"
    and h: "hydrateKeys St (now - ret) now ks db \<lparr>sm_retention = ret, sm_samples = [], sm_store = Some db, sm_lastPrune = 0\<rparr> = Inr s"
    using assms(1) by (auto simp: newSamplerWithStore_def hydrate_def split: sum.splits)
  note H = hydrateKeys_samples [OF h assms(2-4)]
  have "f k = []" if "k \<notin> set ks" using keys [OF ks] assms(2) that by blast
  then show "samples_of s k = filter (\<lambda>x. now - ret \<le> sAt x \<and> sAt x < now) (f k)"
    using H [of k] by (auto simp: samples_of_def gm_get_def)
  show "sm_store s = Some db" and "sm_retention s = ret" using H by auto
qed

lemma hydrated_agree:
  assumes "newSamplerWithStore St ret (Some db) now = Inr s" and "\<forall>k. rep db k (f k)"
    and "time_ok (now - ret)" and "time_ok now" and "\<forall>k. \<forall>x \<in> set (f k). sAt x < now"
  shows "agree now s"
proof -
  note H = hydrated [OF assms(1-4)]
  have e: "samples_of s k = filter (\<lambda>x. now - ret \<le> sAt x) (f k)" for k
    unfolding H using assms(5) by (auto intro: filter_cong)
  have "time_sorted (f k)" for k
    using rep_sorted assms(2) unfolding time_sorted_def by (metis less_imp_le sorted_wrt_mono_rel)
  then have "window_ok now s" using assms(5) unfolding window_ok_def e by (auto intro: time_sorted_filter less_imp_le)
  then show ?thesis unfolding agree_def H(3)
    by (intro exI [of _ db] exI [of _ f]) (use H(2) assms(2,5) e in \<open>auto intro: less_imp_le\<close>)
qed

lemma run_agree:
  assumes "sampler_run St t0 s0 t s" and "agree t0 s0" and "time_ok (t0 - sm_retention s0)" and "0 \<le> sm_retention s0"
  shows "agree t s \<and> sm_retention s = sm_retention s0 \<and> t0 \<le> t"
  using assms
proof (induction rule: sampler_run.induct)
  case (run_step t0 s0 t s now key p a err s')
  then have IH: "agree t s" "sm_retention s = sm_retention s0" "t0 \<le> t" by auto
  have "time_ok (now - sm_retention s)"
    using run_step.hyps(2,3) run_step.prems(2,3) IH(2,3) by (auto simp: time_ok_def)
  then show ?case using agree_Record [OF IH(1) run_step.hyps(2,4,3)] run_step.prems(3) run_step.hyps(2) IH(2,3) by auto
qed simp

lemma restart:
  assumes "\<forall>k. rep db k (f k)" and "\<forall>k. \<forall>x \<in> set (f k). sAt x < t0"
    and "newSamplerWithStore St ret (Some db) t0 = Inr s0" and "sampler_run St t0 s0 t s"
    and "sm_store s = Some db'" and "newSamplerWithStore St ret (Some db') now = Inr s1"
    and "0 \<le> ret" and "time_ok (t0 - ret)" and "time_ok t0" and "t < now" and "time_ok now"
  shows "samples_of s1 k = filter (\<lambda>x. now - ret \<le> sAt x) (samples_of s k)"
proof -
  note H0 = hydrated [OF assms(3,1,8,9)]
  have A: "agree t s" and r: "sm_retention s = ret" and le: "t0 \<le> t"
    using run_agree [OF assms(4) hydrated_agree [OF assms(3,1,8,9,2)]] H0(3) assms(7,8) by auto
  obtain g where g: "\<forall>k. rep db' k (g k)" "\<forall>k. \<forall>x \<in> set (g k). sAt x \<le> t"
    and e: "filter (\<lambda>x. t - ret \<le> sAt x) (g k) = filter (\<lambda>x. t - ret \<le> sAt x) (samples_of s k)"
    using A assms(5) r unfolding agree_def by auto
  have "time_ok (now - ret)" using assms(7,8,10,11) le by (auto simp: time_ok_def)
  then have "samples_of s1 k = filter (\<lambda>x. now - ret \<le> sAt x \<and> sAt x < now) (g k)"
    by (rule hydrated(1) [OF assms(6) g(1) _ assms(11)])
  also have "\<dots> = filter (\<lambda>x. now - ret \<le> sAt x) (g k)"
    by (rule filter_cong [OF refl]) (use g(2) assms(10) in fastforce)
  also have "\<dots> = filter (\<lambda>x. now - ret \<le> sAt x) (samples_of s k)"
    by (rule filter_later [OF _ e]) (use assms(10) in simp)
  finally show ?thesis .
qed

lemma run_sorted:
  assumes "\<forall>k. rep db k (f k)" and "\<forall>k. \<forall>x \<in> set (f k). sAt x < t0"
    and "newSamplerWithStore St ret (Some db) t0 = Inr s0" and "sampler_run St t0 s0 t s"
    and "0 \<le> ret" and "time_ok (t0 - ret)" and "time_ok t0"
  shows "time_sorted (samples_of s k)"
proof -
  have "agree t s"
    using run_agree [OF assms(4) hydrated_agree [OF assms(3,1,6,7,2)]] hydrated(3) [OF assms(3,1,6,7)] assms(5,6) by auto
  then show ?thesis by (auto simp: agree_def window_ok_def)
qed

end

context bbolt_db
begin

lemmas bolt_restart = bolt.restart
lemmas bolt_run_sorted = bolt.run_sorted

end

text \<open>Samples that the next sample had replaced before the window starts are credited nothing, so dropping them changes no summary.\<close>

lemma summarizeLoop_skip:
  "time_sorted (xs @ y # ys) \<Longrightarrow> sAt y \<le> start \<Longrightarrow> summarizeLoop start endt (xs @ y # ys) w = summarizeLoop start endt (y # ys) w"
proof (induction xs arbitrary: w)
  case (Cons x xs)
  obtain z zs where z: "xs @ y # ys = z # zs" by (cases xs) auto
  have "z = y \<or> z \<in> set xs" using z by (cases xs) auto
  then have "sAt z \<le> sAt y" using Cons.prems(1) by (auto simp: time_sorted_def sorted_wrt_append)
  then have "\<not> (if sAt x < start then start else sAt x) < (if endt < sAt z then endt else sAt z)" using Cons.prems(2) by auto
  then have "summarizeLoop start endt ((x # xs) @ y # ys) w = summarizeLoop start endt (xs @ y # ys) w"
    by (simp add: z Let_def)
  then show ?case using Cons by (simp add: time_sorted_def)
qed simp

lemma summarize_retained:
  assumes "samples_of s' k = filter (\<lambda>x. c \<le> sAt x) (samples_of s k)" and "time_sorted (samples_of s k)"
    and "(\<forall>x \<in> set (samples_of s k). c \<le> sAt x) \<or> (\<exists>x \<in> set (samples_of s k). c \<le> sAt x \<and> sAt x \<le> start)"
  shows "Summarize s' k start endt = Summarize s k start endt"
  using assms(3)
proof
  assume "\<forall>x \<in> set (samples_of s k). c \<le> sAt x"
  then have "samples_of s' k = samples_of s k" unfolding assms(1) by (simp add: filter_id_conv)
  then show ?thesis by (simp add: Summarize_def)
next
  assume "\<exists>x \<in> set (samples_of s k). c \<le> sAt x \<and> sAt x \<le> start"
  then obtain x where x: "x \<in> set (samples_of s k)" "c \<le> sAt x" "sAt x \<le> start" by blast
  let ?P = "\<lambda>x. \<not> c \<le> sAt x" and ?xs = "samples_of s k"
  have st: "sorted_wrt (\<lambda>x y. sAt x \<le> sAt y) ?xs" using assms(2) by (simp add: time_sorted_def sorted_wrt_map)
  have "dropWhile ?P ?xs \<noteq> []" using x by (auto simp: dropWhile_eq_Nil_conv)
  then obtain y ys where y: "dropWhile ?P ?xs = y # ys" by (cases "dropWhile ?P ?xs") auto
  have split: "?xs = takeWhile ?P ?xs @ y # ys" using takeWhile_dropWhile_id [of ?P ?xs] unfolding y by simp
  have cy: "c \<le> sAt y" using hd_dropWhile [of ?P ?xs] y by simp
  have le: "sAt y \<le> sAt z" if "z \<in> set ys" for z using st that by (subst (asm) split) (auto simp: sorted_wrt_append)
  have "x \<in> set (y # ys)" using x(1,2) by (subst (asm) split) (auto dest: set_takeWhileD)
  then have ys: "sAt y \<le> start" using le x(3) by fastforce
  have "filter (\<lambda>x. c \<le> sAt x) ?xs = y # ys"
  proof (subst split, simp only: filter_append)
    have "filter (\<lambda>x. c \<le> sAt x) (takeWhile ?P ?xs) = []" by (auto simp: filter_empty_conv dest: set_takeWhileD)
    moreover have "filter (\<lambda>x. c \<le> sAt x) (y # ys) = y # ys" using cy le by (intro filter_True) fastforce
    ultimately show "filter (\<lambda>x. c \<le> sAt x) (takeWhile ?P ?xs) @ filter (\<lambda>x. c \<le> sAt x) (y # ys) = y # ys" by simp
  qed
  moreover have "time_sorted (takeWhile ?P ?xs @ y # ys)" using assms(2) split by simp
  ultimately show ?thesis using summarizeLoop_skip [OF _ ys, of "takeWhile ?P ?xs"] split x(1)
    unfolding Summarize_def assms(1) Let_def by (metis length_0_conv list.distinct(1) list.set_cases)
qed

text \<open>C15 A restart loses nothing the window still needs: take any sampler hydrated from a store, run any sequence of Records at
  increasing times (failing ones included, pruning whenever it is due), then start a new sampler
  from the store that is left: for every key its window is the old window without the samples that
  have left the retention meanwhile, and \<open>Summarize\<close> answers what the sampler that kept running answers, whenever no
  sample of the key has left the retention or a retained sample is at or before the window start.  (In the remaining case, a window that
  starts before the first retained sample, the sampler that kept running still holds the expired sample in force there and credits it, and the
  restarted one does not: \<open>restart_edge\<close>.)\<close>

theorem restart_equivalence:
  assumes "bbolt_db B" and "\<forall>k. store_rep B db k (f k)" and "\<forall>k. \<forall>x \<in> set (f k). sAt x < t0"
    and "newSamplerWithStore (bolt_store B) ret (Some db) t0 = Inr s0"
    and "sampler_run (bolt_store B) t0 s0 t s" and "sm_store s = Some db'"
    and "newSamplerWithStore (bolt_store B) ret (Some db') now = Inr s1"
    and "0 \<le> ret" and "time_ok (t0 - ret)" and "time_ok t0" and "t < now" and "time_ok now"
  shows "(\<forall>k. samples_of s1 k = filter (\<lambda>x. now - ret \<le> sAt x) (samples_of s k))
    \<and> (\<forall>k start endt. (\<forall>x \<in> set (samples_of s k). now - ret \<le> sAt x) \<or> (\<exists>x \<in> set (samples_of s k). now - ret \<le> sAt x \<and> sAt x \<le> start)
        \<longrightarrow> Summarize s1 k start endt = Summarize s k start endt)"
  using bbolt_db.bolt_restart [OF assms] bbolt_db.bolt_run_sorted [OF assms(1-5,8-10)] summarize_retained by blast

definition demo_t0 :: gotime where "demo_t0 = unixEpoch + nsDay"
definition demo_start :: "memdb Sampler" where
  "demo_start = projr (newSamplerWithStore (bolt_store mem_bbolt) nsHour (Some []) demo_t0)"
definition demo_first :: "memdb Sampler" where
  "demo_first = snd (Record (bolt_store mem_bbolt) (demo_t0 + nsMinute) ''ns/a'' (lit 50) (lit 30) demo_start)"
definition demo_after :: "memdb Sampler" where
  "demo_after = snd (Record (bolt_store mem_bbolt) (demo_t0 + 30 * nsMinute) ''ns/a'' (lit 20) (lit 30) demo_first)"
definition demo_now :: gotime where "demo_now = demo_t0 + 70 * nsMinute"
definition demo_restarted :: "memdb Sampler" where
  "demo_restarted = projr (newSamplerWithStore (bolt_store mem_bbolt) nsHour (sm_store demo_after) demo_now)"

text \<open>The states of this run, with the bytes the store holds.\<close>

lemma demo_first_eq:
  "demo_first = \<lparr>sm_retention = nsHour, sm_samples = [(''ns/a'', [newSample (demo_t0 + nsMinute) (lit 50) (lit 30)])], sm_store = Some [(''ns/a'', [([0, 0, 78, 162, 137, 150, 88, 0], [64, 73, 0, 0, 0, 0, 0, 0, 64, 62, 0, 0, 0, 0, 0, 0])])], sm_lastPrune = demo_t0 + nsMinute\<rparr>"
  by code_simp

lemma demo_after_eq:
  "demo_after = \<lparr>sm_retention = nsHour, sm_samples = [(''ns/a'', [newSample (demo_t0 + nsMinute) (lit 50) (lit 30), newSample (demo_t0 + 30 * nsMinute) (lit 20) (lit 30)])], sm_store = Some [(''ns/a'', [([0, 0, 78, 162, 137, 150, 88, 0], [64, 73, 0, 0, 0, 0, 0, 0, 64, 62, 0, 0, 0, 0, 0, 0]), ([0, 0, 80, 55, 169, 171, 80, 0], [64, 52, 0, 0, 0, 0, 0, 0, 64, 62, 0, 0, 0, 0, 0, 0])])], sm_lastPrune = demo_t0 + 30 * nsMinute\<rparr>"
  unfolding demo_after_def demo_first_eq by code_simp

lemma demo_runs:
  "\<not> isl (newSamplerWithStore (bolt_store mem_bbolt) nsHour (Some []) demo_t0)"
  "fst (Record (bolt_store mem_bbolt) (demo_t0 + nsMinute) ''ns/a'' (lit 50) (lit 30) demo_start) = None"
  "fst (Record (bolt_store mem_bbolt) (demo_t0 + 30 * nsMinute) ''ns/a'' (lit 20) (lit 30) demo_first) = None"
  "sm_store demo_after \<noteq> None"
  "\<not> isl (newSamplerWithStore (bolt_store mem_bbolt) nsHour (sm_store demo_after) demo_now)"
  "samples_of demo_after ''ns/a'' = [newSample (demo_t0 + nsMinute) (lit 50) (lit 30), newSample (demo_t0 + 30 * nsMinute) (lit 20) (lit 30)]"
  unfolding demo_after_eq demo_first_eq by code_simp+

lemma demo_run: "sampler_run (bolt_store mem_bbolt) demo_t0 demo_start (demo_t0 + 30 * nsMinute) demo_after"
proof (rule run_step [OF run_step [OF run_refl]])
  show "Record (bolt_store mem_bbolt) (demo_t0 + nsMinute) ''ns/a'' (lit 50) (lit 30) demo_start = (None, demo_first)"
    "Record (bolt_store mem_bbolt) (demo_t0 + 30 * nsMinute) ''ns/a'' (lit 20) (lit 30) demo_first = (None, demo_after)"
    using demo_runs(2,3) by (simp_all add: demo_first_def demo_after_def prod_eq_iff)
qed (simp_all add: demo_t0_def time_ok_def ns_defs)

theorem restart_equivalence_witness:
  "samples_of demo_restarted ''ns/a'' = [newSample (demo_t0 + 30 * nsMinute) (lit 20) (lit 30)]
    \<and> Summarize demo_restarted ''ns/a'' (demo_t0 + 30 * nsMinute) demo_now = Summarize demo_after ''ns/a'' (demo_t0 + 30 * nsMinute) demo_now"
proof -
  obtain db' where d: "sm_store demo_after = Some db'" using demo_runs(4) by blast
  have t: "time_ok (demo_t0 - nsHour)" "time_ok demo_t0" "time_ok demo_now" "demo_t0 + 30 * nsMinute < demo_now" "0 \<le> nsHour"
    by (simp_all add: demo_t0_def demo_now_def time_ok_def ns_defs)
  have start: "newSamplerWithStore (bolt_store mem_bbolt) nsHour (Some []) demo_t0 = Inr demo_start"
    using demo_runs(1) by (simp add: demo_start_def)
  have again: "newSamplerWithStore (bolt_store mem_bbolt) nsHour (Some db') demo_now = Inr demo_restarted"
    using demo_runs(5) by (simp add: demo_restarted_def d)
  have rep: "\<forall>k. store_rep mem_bbolt [] k []" "\<forall>k. \<forall>x \<in> set []. sAt x < demo_t0" by (simp_all add: mem_empty_rep)
  note R = restart_equivalence [OF mem.bbolt_db_axioms rep start demo_run d again t(5,1,2,4,3)]
  have "samples_of demo_restarted ''ns/a'' = filter (\<lambda>x. demo_now - nsHour \<le> sAt x) (samples_of demo_after ''ns/a'')"
    using R by blast
  also have "\<dots> = [newSample (demo_t0 + 30 * nsMinute) (lit 20) (lit 30)]"
    unfolding demo_runs(6) by (simp add: newSample_def demo_now_def ns_defs)
  finally have "samples_of demo_restarted ''ns/a'' = [newSample (demo_t0 + 30 * nsMinute) (lit 20) (lit 30)]" .
  moreover have "\<exists>x \<in> set (samples_of demo_after ''ns/a''). demo_now - nsHour \<le> sAt x \<and> sAt x \<le> demo_t0 + 30 * nsMinute"
    unfolding demo_runs(6) by (simp add: newSample_def demo_now_def ns_defs)
  ultimately show ?thesis using R by blast
qed

text \<open>At the edge of the retention the two differ: over the whole retention window the sampler that kept running credits
  the expired sample until the first retained one, the restarted sampler starts at the latter.\<close>

lemma demo_restarted_window:
  "samples_of demo_restarted ''ns/a'' = [newSample (demo_t0 + 30 * nsMinute) (lit 20) (lit 30)]"
  unfolding demo_restarted_def demo_after_eq by code_simp

lemma restart_edge:
  "TotalHours (Summarize demo_after ''ns/a'' (demo_now - nsHour) demo_now) = 0 + Seconds (20 * nsMinute) / lit 3600 + Seconds (40 * nsMinute) / lit 3600"
  "TotalHours (Summarize demo_restarted ''ns/a'' (demo_now - nsHour) demo_now) = 0 + Seconds (40 * nsMinute) / lit 3600"
proof -
  have c: "credited (demo_now - nsHour) demo_now [newSample (demo_t0 + nsMinute) (lit 50) (lit 30), newSample (demo_t0 + 30 * nsMinute) (lit 20) (lit 30)]
      = [(newSample (demo_t0 + nsMinute) (lit 50) (lit 30), 20 * nsMinute), (newSample (demo_t0 + 30 * nsMinute) (lit 20) (lit 30), 40 * nsMinute)]"
    "credited (demo_now - nsHour) demo_now [newSample (demo_t0 + 30 * nsMinute) (lit 20) (lit 30)]
      = [(newSample (demo_t0 + 30 * nsMinute) (lit 20) (lit 30), 40 * nsMinute)]"
    by (simp_all add: newSample_def demo_now_def ns_defs)
  have b: "demo_now - (demo_now - nsHour) < 2 ^ 63" by (simp add: nsHour_def)
  have z: "TotalHours zeroSummary = 0" by (simp add: zeroSummary_def)
  show "TotalHours (Summarize demo_after ''ns/a'' (demo_now - nsHour) demo_now) = 0 + Seconds (20 * nsMinute) / lit 3600 + Seconds (40 * nsMinute) / lit 3600"
    unfolding Summarize_def demo_runs(6) Let_def summarizeLoop_credited [OF b] c
    by (simp add: fold_fields z del: foldl.simps) (simp only: foldl.simps case_prod_conv)
  show "TotalHours (Summarize demo_restarted ''ns/a'' (demo_now - nsHour) demo_now) = 0 + Seconds (40 * nsMinute) / lit 3600"
    unfolding Summarize_def demo_restarted_window Let_def summarizeLoop_credited [OF b] c
    by (simp add: fold_fields z del: foldl.simps) (simp only: foldl.simps case_prod_conv)
qed

end
