(* ===== verification/Scraper.thy ===== *)
theory Scraper
  imports FloatFacts GoFmt
begin

text \<open>
  \<open>internal/scraper\<close>: reading Prometheus endpoints.  The HTTP exchange and the text parser are
  outside the repository: \<open>fetch url\<close> gives the error of the exchange or the status code with the
  outcome of parsing the body into metric families.  A \<open>range\<close> over the family map visits the
  families in some order, which is the order of the list \<open>fetch\<close> gives.
\<close>

subsection \<open>Client\<close>

record MetricSample =
  ms_Name :: gostring
  ms_Labels :: "(gostring, gostring) gomap"
  ms_Value :: f64

datatype MetricType = COUNTER | GAUGE | SUMMARY | UNTYPED | HISTOGRAM

record metricFamily =
  mf_Name :: gostring
  mf_Type :: MetricType
  mf_Metrics :: "((gostring, gostring) gomap \<times> f64) list"

text \<open>The outcome of building the request and of \<open>http.Client.Do\<close>, each with its error, and of the text parser.\<close>

datatype fetch_error = BadRequest gostring | NoResponse gostring

type_synonym fetcher = "gostring \<Rightarrow> fetch_error + (int \<times> (gostring + metricFamily list))"

fun familySamples :: "gostring \<Rightarrow> MetricType \<Rightarrow> ((gostring, gostring) gomap \<times> f64) list \<Rightarrow> MetricSample list" where
  "familySamples name ty [] = []"
| "familySamples name ty ((labels, value) # ms) =
    (if ty \<in> {GAUGE, COUNTER, UNTYPED}
     then \<lparr>ms_Name = name, ms_Labels = labels, ms_Value = value\<rparr> # familySamples name ty ms
     else familySamples name ty ms)"

definition parseMetrics :: "(gostring + metricFamily list) \<Rightarrow> gostring + MetricSample list" where
  "parseMetrics body = (case body of Inl err \<Rightarrow> Inl (''parsing metrics: '' @ err)
     | Inr families \<Rightarrow> Inr (concat (map (\<lambda>f. familySamples (mf_Name f) (mf_Type f) (mf_Metrics f)) families)))"

definition client_Scrape :: "fetcher \<Rightarrow> gostring \<Rightarrow> gostring + MetricSample list" where
  "client_Scrape fetch url = (case fetch url of
      Inl (BadRequest err) \<Rightarrow> Inl (''creating request: '' @ err)
    | Inl (NoResponse err) \<Rightarrow> Inl (''scraping '' @ url @ '': '' @ err)
    | Inr (status, body) \<Rightarrow>
        if status \<noteq> 200 then Inl (''scraping '' @ url @ '': status '' @ show_int status)
        else parseMetrics body)"

fun FilterByName :: "MetricSample list \<Rightarrow> gostring \<Rightarrow> MetricSample list" where
  "FilterByName [] name = []"
| "FilterByName (s # ss) name = (if ms_Name s = name then s # FilterByName ss name else FilterByName ss name)"

subsection \<open>DCGM\<close>

record GPUPowerReading =
  gr_GPUID :: gostring
  gr_UUID :: gostring
  gr_ModelName :: gostring
  gr_Node :: gostring
  gr_Pod :: gostring
  gr_Namespace :: gostring
  gr_PowerW :: f64

definition DCGMPowerUsageMetric :: gostring where
  "DCGMPowerUsageMetric = ''DCGM_FI_DEV_POWER_USAGE''"

definition dcgmReading :: "MetricSample \<Rightarrow> GPUPowerReading" where
  "dcgmReading s = \<lparr>gr_GPUID = gm_get [] (ms_Labels s) ''gpu'', gr_UUID = gm_get [] (ms_Labels s) ''UUID'',
     gr_ModelName = gm_get [] (ms_Labels s) ''modelName'', gr_Node = gm_get [] (ms_Labels s) ''Hostname'',
     gr_Pod = gm_get [] (ms_Labels s) ''pod'', gr_Namespace = gm_get [] (ms_Labels s) ''namespace'',
     gr_PowerW = ms_Value s\<rparr>"

definition ScrapeDCGM :: "fetcher \<Rightarrow> gostring \<Rightarrow> gostring + GPUPowerReading list" where
  "ScrapeDCGM fetch endpoint = (case client_Scrape fetch endpoint of
      Inl err \<Rightarrow> Inl (''scraping DCGM: '' @ err)
    | Inr samples \<Rightarrow> Inr (map dcgmReading (FilterByName samples DCGMPowerUsageMetric)))"

fun totalPowerLoop :: "GPUPowerReading list \<Rightarrow> f64 \<Rightarrow> f64" where
  "totalPowerLoop [] acc = acc"
| "totalPowerLoop (r # rs) acc = totalPowerLoop rs (acc + gr_PowerW r)"

definition TotalPowerWatts :: "GPUPowerReading list \<Rightarrow> f64" where
  "TotalPowerWatts readings = totalPowerLoop readings 0"

subsection \<open>Inference backends\<close>

record InferenceMetrics =
  im_Pod :: gostring
  im_Namespace :: gostring
  im_Model :: gostring
  PromptTokensTotal :: f64
  PredictedTokensTotal :: f64
  PromptTokensPerSec :: f64
  PredictedTokensPerSec :: f64
  RequestsProcessing :: f64

definition zeroMetrics :: InferenceMetrics where
  "zeroMetrics = \<lparr>im_Pod = [], im_Namespace = [], im_Model = [], PromptTokensTotal = 0, PredictedTokensTotal = 0,
     PromptTokensPerSec = 0, PredictedTokensPerSec = 0, RequestsProcessing = 0\<rparr>"

text \<open>One sample of a vLLM pod adds to its field.\<close>

definition vllmStep :: "InferenceMetrics \<Rightarrow> MetricSample \<Rightarrow> InferenceMetrics" where
  "vllmStep m s =
    (if ms_Name s = ''vllm:prompt_tokens_total'' then m\<lparr>PromptTokensTotal := PromptTokensTotal m + ms_Value s\<rparr>
     else if ms_Name s = ''vllm:generation_tokens_total'' then m\<lparr>PredictedTokensTotal := PredictedTokensTotal m + ms_Value s\<rparr>
     else if ms_Name s = ''vllm:num_requests_running'' then m\<lparr>RequestsProcessing := RequestsProcessing m + ms_Value s\<rparr>
     else if ms_Name s = ''vllm:avg_prompt_throughput_toks_per_s'' then m\<lparr>PromptTokensPerSec := PromptTokensPerSec m + ms_Value s\<rparr>
     else if ms_Name s = ''vllm:avg_generation_throughput_toks_per_s'' then m\<lparr>PredictedTokensPerSec := PredictedTokensPerSec m + ms_Value s\<rparr>
     else m)"

definition ScrapeVLLM :: "fetcher \<Rightarrow> gostring \<Rightarrow> gostring + InferenceMetrics" where
  "ScrapeVLLM fetch endpoint = (case client_Scrape fetch endpoint of
      Inl err \<Rightarrow> Inl (''scraping vllm: '' @ err)
    | Inr samples \<Rightarrow> Inr (foldl vllmStep zeroMetrics samples))"

text \<open>One sample of a llama.cpp pod replaces its field.\<close>

definition llamaStep :: "InferenceMetrics \<Rightarrow> MetricSample \<Rightarrow> InferenceMetrics" where
  "llamaStep m s =
    (if ms_Name s = ''llamacpp:prompt_tokens_total'' then m\<lparr>PromptTokensTotal := ms_Value s\<rparr>
     else if ms_Name s = ''llamacpp:tokens_predicted_total'' then m\<lparr>PredictedTokensTotal := ms_Value s\<rparr>
     else if ms_Name s = ''llamacpp:prompt_tokens_seconds'' then m\<lparr>PromptTokensPerSec := ms_Value s\<rparr>
     else if ms_Name s = ''llamacpp:predicted_tokens_seconds'' then m\<lparr>PredictedTokensPerSec := ms_Value s\<rparr>
     else if ms_Name s = ''llamacpp:requests_processing'' then m\<lparr>RequestsProcessing := ms_Value s\<rparr>
     else m)"

definition ScrapeLlamaCPP :: "fetcher \<Rightarrow> gostring \<Rightarrow> gostring + InferenceMetrics" where
  "ScrapeLlamaCPP fetch endpoint = (case client_Scrape fetch endpoint of
      Inl err \<Rightarrow> Inl (''scraping llama.cpp: '' @ err)
    | Inr samples \<Rightarrow> Inr (foldl llamaStep zeroMetrics samples))"

subsection \<open>Apple power\<close>

record ApplePowerReading =
  CombinedW :: f64
  GPUW :: f64
  CPUW :: f64
  ANEW :: f64

text \<open>The last sample of a name, or the value before the loop.\<close>

fun lastValue :: "f64 \<Rightarrow> MetricSample list \<Rightarrow> f64" where
  "lastValue v [] = v"
| "lastValue v (s # ss) = lastValue (ms_Value s) ss"

definition ScrapeApplePower :: "fetcher \<Rightarrow> gostring \<Rightarrow> gostring + ApplePowerReading" where
  "ScrapeApplePower fetch endpoint = (case client_Scrape fetch endpoint of
      Inl err \<Rightarrow> Inl (''scraping Metal agent: '' @ err)
    | Inr samples \<Rightarrow> Inr
       \<lparr>CombinedW = lastValue 0 (FilterByName samples ''llmkube_metal_agent_apple_power_combined_watts''),
        GPUW = lastValue 0 (FilterByName samples ''llmkube_metal_agent_apple_power_gpu_watts''),
        CPUW = lastValue 0 (FilterByName samples ''llmkube_metal_agent_apple_power_cpu_watts''),
        ANEW = lastValue 0 (FilterByName samples ''llmkube_metal_agent_apple_power_ane_watts'')\<rparr>)"

subsection \<open>Choosing the backend and the port\<close>

text \<open>A backend is a string; two are known.\<close>

type_synonym Backend = gostring

definition BackendLlamaCPP :: Backend where "BackendLlamaCPP = ''llamacpp''"
definition BackendVLLM :: Backend where "BackendVLLM = ''vllm''"
definition BackendAnnotation :: gostring where "BackendAnnotation = ''infercost.ai/backend''"
definition MetricsPortAnnotation :: gostring where "MetricsPortAnnotation = ''infercost.ai/metrics-port''"
definition LLMKubeRuntimeLabel :: gostring where "LLMKubeRuntimeLabel = ''inference.llmkube.dev/runtime''"

definition DefaultPort :: "Backend \<Rightarrow> int" where
  "DefaultPort b = (if b = BackendVLLM then 8000 else 8080)"

datatype BackendSource = BackendSourceAnnotation | BackendSourceLabel | BackendSourceLLMKubeRuntime | BackendSourceDefault

fun BackendSource_String :: "BackendSource \<Rightarrow> gostring" where
  "BackendSource_String BackendSourceAnnotation = ''infercost.ai/backend annotation''"
| "BackendSource_String BackendSourceLabel = ''infercost.ai/backend label''"
| "BackendSource_String BackendSourceLLMKubeRuntime = LLMKubeRuntimeLabel @ '' label (LLMKube)''"
| "BackendSource_String BackendSourceDefault = ''default (no backend hint found)''"

definition normalizeBackend :: "gostring \<Rightarrow> Backend" where
  "normalizeBackend v = (if v = BackendVLLM then BackendVLLM else BackendLlamaCPP)"

definition ResolveBackendWithSource ::
  "(gostring, gostring) gomap \<Rightarrow> (gostring, gostring) gomap \<Rightarrow> Backend \<times> BackendSource" where
  "ResolveBackendWithSource annotations labels =
    (case map_of annotations BackendAnnotation of
       Some v \<Rightarrow> (normalizeBackend v, BackendSourceAnnotation)
     | None \<Rightarrow> (case map_of labels BackendAnnotation of
         Some v \<Rightarrow> (normalizeBackend v, BackendSourceLabel)
       | None \<Rightarrow> (case map_of labels LLMKubeRuntimeLabel of
           Some v \<Rightarrow> if v \<noteq> [] then (normalizeBackend v, BackendSourceLLMKubeRuntime)
                     else (BackendLlamaCPP, BackendSourceDefault)
         | None \<Rightarrow> (BackendLlamaCPP, BackendSourceDefault))))"

definition ResolveBackend :: "(gostring, gostring) gomap \<Rightarrow> (gostring, gostring) gomap \<Rightarrow> Backend" where
  "ResolveBackend annotations labels = (let (b, _) = ResolveBackendWithSource annotations labels in b)"

text \<open>
  \<open>fmt.Sscanf(s, "%d", &p)\<close>: blanks are skipped (a line break is an error), then an optional sign
  and decimal digits are read as an int64; what follows the digits is not looked at.
\<close>

definition is_digit :: "char \<Rightarrow> bool" where
  "is_digit c = (c \<in> set ''0123456789'')"

definition sscanf_d :: "gostring \<Rightarrow> int option" where
  "sscanf_d s =
    (let t = dropWhile (\<lambda>c. is_space c \<and> c \<noteq> CHR 0x0A) s;
         neg = (t \<noteq> [] \<and> hd t = CHR ''-'');
         u = (if t \<noteq> [] \<and> (hd t = CHR ''-'' \<or> hd t = CHR ''+'') then tl t else t);
         ds = takeWhile is_digit u;
         n = (if neg then - undec 0 ds else undec 0 ds)
     in if ds = [] \<or> n < - (2 ^ 63) \<or> 2 ^ 63 \<le> n then None else Some n)"

definition parsePort :: "gostring \<Rightarrow> int option" where
  "parsePort s = (case sscanf_d s of None \<Rightarrow> None
     | Some p \<Rightarrow> if p \<le> 0 \<or> 65535 < p then None else Some p)"

definition ResolveMetricsPort :: "Backend \<Rightarrow> (gostring, gostring) gomap \<Rightarrow> (gostring, gostring) gomap \<Rightarrow> int" where
  "ResolveMetricsPort backend annotations labels =
    (let fromLabels = (case map_of labels MetricsPortAnnotation of
           Some v \<Rightarrow> (case parsePort v of Some p \<Rightarrow> p | None \<Rightarrow> DefaultPort backend)
         | None \<Rightarrow> DefaultPort backend)
     in case map_of annotations MetricsPortAnnotation of
          Some v \<Rightarrow> (case parsePort v of Some p \<Rightarrow> p | None \<Rightarrow> fromLabels)
        | None \<Rightarrow> fromLabels)"

definition go_quote :: "gostring \<Rightarrow> gostring" where
  "go_quote s = ''\"'' @ concat (map (\<lambda>c. if c = CHR 0x22 \<or> c = CHR 0x5C then [CHR 0x5C, c] else [c]) s) @ ''\"''"

definition Scrape :: "fetcher \<Rightarrow> Backend \<Rightarrow> gostring \<Rightarrow> gostring + InferenceMetrics" where
  "Scrape fetch backend endpoint =
    (if backend = BackendVLLM then ScrapeVLLM fetch endpoint
     else if backend = BackendLlamaCPP then ScrapeLlamaCPP fetch endpoint
     else Inl (''unknown backend '' @ go_quote backend))"

subsection \<open>Lemmas\<close>

lemma backends_differ [simp]: "BackendVLLM \<noteq> BackendLlamaCPP" "BackendLlamaCPP \<noteq> BackendVLLM"
  by (simp_all add: BackendVLLM_def BackendLlamaCPP_def)

lemma normalize_known: "normalizeBackend v = BackendVLLM \<or> normalizeBackend v = BackendLlamaCPP"
  by (simp add: normalizeBackend_def)

lemma parsePort_range: "parsePort s = Some p \<Longrightarrow> 1 \<le> p \<and> p \<le> 65535"
  by (auto simp: parsePort_def split: option.splits if_splits)

lemma ResolveMetricsPort_range: "1 \<le> ResolveMetricsPort b annotations labels \<and> ResolveMetricsPort b annotations labels \<le> 65535"
proof -
  have "1 \<le> DefaultPort b \<and> DefaultPort b \<le> 65535" by (simp add: DefaultPort_def)
  then show ?thesis using parsePort_range by (auto simp: ResolveMetricsPort_def Let_def split: option.splits)
qed

lemma Scrape_known: "b = BackendVLLM \<or> b = BackendLlamaCPP \<Longrightarrow>
  Scrape fetch b endpoint = (if b = BackendVLLM then ScrapeVLLM fetch endpoint else ScrapeLlamaCPP fetch endpoint)"
  by (auto simp: Scrape_def)

lemma map_of_in: "k \<in> fst ` set m \<longleftrightarrow> (\<exists>v. map_of m k = Some v)"
  by (metis dom_map_of_conv_image_fst domIff not_Some_eq)

lemma digits_is_digit: "set ds \<subseteq> set ''0123456789'' \<Longrightarrow> takeWhile is_digit (ds @ rest) = ds @ takeWhile is_digit rest"
proof -
  assume "set ds \<subseteq> set ''0123456789''"
  then have "\<And>x. x \<in> set ds \<Longrightarrow> is_digit x" unfolding is_digit_def by blast
  then show ?thesis by (rule takeWhile_append2)
qed

lemma sscanf_udec:
  assumes "0 \<le> n" and "n < 2 ^ 63" and "rest = [] \<or> \<not> is_digit (hd rest)"
  shows "sscanf_d (udec n @ rest) = Some n"
proof -
  obtain c cs where u: "udec n = c # cs" using udec_nonempty [of n] by (cases "udec n") auto
  have c: "c \<in> set ''0123456789''" using udec_digits [OF assms(1)] u by auto
  then have "\<not> is_space c" and "c \<noteq> CHR ''-''" and "c \<noteq> CHR ''+''" by (auto simp: is_space_def)
  then have t: "dropWhile (\<lambda>c. is_space c \<and> c \<noteq> CHR 0x0A) (udec n @ rest) = udec n @ rest"
    and h: "hd (udec n @ rest) \<noteq> CHR ''-''" "hd (udec n @ rest) \<noteq> CHR ''+''" by (simp_all add: u)
  have "takeWhile is_digit rest = []" using assms(3) by (cases rest) auto
  then have "takeWhile is_digit (udec n @ rest) = udec n"
    using digits_is_digit [OF udec_digits [OF assms(1)]] by simp
  then show ?thesis unfolding sscanf_d_def Let_def t using h assms(1,2)
    by (simp add: undec_udec)
qed

text \<open>The counter a fold of \<open>vllmStep\<close> accumulates.\<close>

definition promptSamples :: "MetricSample list \<Rightarrow> MetricSample list" where
  "promptSamples ss = filter (\<lambda>s. ms_Name s = ''vllm:prompt_tokens_total'') ss"

lemma vllm_prompt_fold:
  "PromptTokensTotal (foldl vllmStep m ss) = foldl (+) (PromptTokensTotal m) (map ms_Value (promptSamples ss))"
  by (induction ss arbitrary: m) (auto simp: promptSamples_def vllmStep_def)

lemma foldl_lit_add:
  assumes "\<forall>x \<in> set xs. 0 \<le> x" and "0 \<le> a" and "a + sum_list xs \<le> 2 ^ 53"
  shows "foldl (+) (lit (of_int a)) (map (\<lambda>x. lit (of_int x)) xs) = lit (of_int (a + sum_list xs))"
  using assms
proof (induction xs arbitrary: a)
  case (Cons x xs)
  have "0 \<le> sum_list xs" using Cons.prems(1) by (intro sum_list_nonneg) auto
  then have "lit (of_int a) + lit (of_int x) = lit (of_int (a + x))"
    using Cons.prems by (intro lit_add) auto
  then show ?case using Cons.IH [of "a + x"] Cons.prems by (simp add: add.assoc del: of_int_add)
qed simp

subsection \<open>Properties\<close>

text \<open>The backend is chosen by the documented precedence (annotation, then label, then a non-empty
  runtime label, then llama.cpp); whatever the values are it is one of the two known backends, so
  \<open>Scrape\<close> never fails with an unknown backend, and the port is always a valid TCP port.\<close>

theorem backend_resolution:
  "case ResolveBackendWithSource annotations labels of (b, src) \<Rightarrow>
     (b = BackendVLLM \<or> b = BackendLlamaCPP)
   \<and> Scrape fetch b endpoint = (if b = BackendVLLM then ScrapeVLLM fetch endpoint else ScrapeLlamaCPP fetch endpoint)
   \<and> (src = BackendSourceAnnotation \<longleftrightarrow> BackendAnnotation \<in> fst ` set annotations)
   \<and> (src = BackendSourceLabel \<longleftrightarrow> BackendAnnotation \<notin> fst ` set annotations \<and> BackendAnnotation \<in> fst ` set labels)
   \<and> b = normalizeBackend (case src of
         BackendSourceAnnotation \<Rightarrow> gm_get [] annotations BackendAnnotation
       | BackendSourceLabel \<Rightarrow> gm_get [] labels BackendAnnotation
       | BackendSourceLLMKubeRuntime \<Rightarrow> gm_get [] labels LLMKubeRuntimeLabel
       | BackendSourceDefault \<Rightarrow> BackendLlamaCPP)
   \<and> 1 \<le> ResolveMetricsPort b annotations labels \<and> ResolveMetricsPort b annotations labels \<le> 65535"
proof -
  have n: "normalizeBackend BackendLlamaCPP = BackendLlamaCPP" by (simp add: normalizeBackend_def)
  show ?thesis using ResolveMetricsPort_range normalize_known Scrape_known n
    by (auto simp: ResolveBackendWithSource_def map_of_in gm_get_def split: option.splits)
qed

text \<open>A port annotation that starts with a valid port number is honoured, whatever follows the
  digits: \<open>"8000/tcp"\<close> and \<open>"9400x"\<close> are read as 8000 and 9400 rather than ignored.\<close>

theorem port_prefix_accepted:
  assumes "1 \<le> p" and "p \<le> 65535" and "rest = [] \<or> \<not> is_digit (hd rest)"
    and "map_of annotations MetricsPortAnnotation = Some (udec p @ rest)"
  shows "parsePort (udec p @ rest) = Some p \<and> ResolveMetricsPort b annotations labels = p"
  using sscanf_udec [of p rest] assms by (auto simp: parsePort_def ResolveMetricsPort_def)

theorem port_prefix_accepted_witness:
  "ResolveMetricsPort BackendLlamaCPP [(MetricsPortAnnotation, ''8000/tcp'')] [] = 8000"
proof -
  have "udec 8000 @ ''/tcp'' = ''8000/tcp''" by (simp add: udec.simps digit_def)
  then show ?thesis
    using port_prefix_accepted [of 8000 "''/tcp''" "[(MetricsPortAnnotation, ''8000/tcp'')]"] by (simp add: is_digit_def)
qed

text \<open>A vLLM pod serving several models reports exact totals: as long as the prompt counters are
  whole numbers adding up to at most \<open>2 ^ 53\<close>, the scraped total is their exact sum, in whatever
  order the exporter lists them.\<close>

theorem vllm_totals_exact:
  assumes "client_Scrape fetch endpoint = Inr samples"
    and "\<forall>s \<in> set (promptSamples samples). ms_Value s = lit (of_int (cnt s)) \<and> 0 \<le> cnt s"
    and "sum_list (map cnt (promptSamples samples)) \<le> 2 ^ 53"
  shows "\<exists>m. ScrapeVLLM fetch endpoint = Inr m
    \<and> PromptTokensTotal m = lit (of_int (sum_mset (image_mset cnt (mset (promptSamples samples)))))"
proof -
  have e: "map ms_Value (promptSamples samples) = map (\<lambda>x. lit (of_int x)) (map cnt (promptSamples samples))"
    using assms(2) by simp
  have "foldl (+) (lit (of_int 0)) (map ms_Value (promptSamples samples))
      = lit (of_int (0 + sum_list (map cnt (promptSamples samples))))"
    unfolding e using assms(2,3) by (intro foldl_lit_add) auto
  then show ?thesis using assms(1)
    by (simp add: ScrapeVLLM_def vllm_prompt_fold zeroMetrics_def lit_0 sum_mset_sum_list [symmetric] mset_map [symmetric] del: mset_map)
qed

definition demo_fetch :: fetcher where
  "demo_fetch url = Inr (200, Inr [\<lparr>mf_Name = ''vllm:prompt_tokens_total'', mf_Type = COUNTER,
     mf_Metrics = [([(''model_name'', ''a'')], lit (of_int 1200)), ([(''model_name'', ''b'')], lit (of_int 34))]\<rparr>])"

theorem vllm_totals_exact_witness:
  "\<exists>m. ScrapeVLLM demo_fetch ''http://10.0.0.7:8000/metrics'' = Inr m \<and> PromptTokensTotal m = lit (of_int 1234)"
proof -
  let ?ss = "[\<lparr>ms_Name = ''vllm:prompt_tokens_total'', ms_Labels = [(''model_name'', ''a'')], ms_Value = lit (of_int 1200)\<rparr>,
    \<lparr>ms_Name = ''vllm:prompt_tokens_total'', ms_Labels = [(''model_name'', ''b'')], ms_Value = lit (of_int 34)\<rparr>]"
  let ?cnt = "\<lambda>s. if ms_Labels s = [(''model_name'', ''a'')] then 1200 else 34 :: int"
  have c: "client_Scrape demo_fetch ''http://10.0.0.7:8000/metrics'' = Inr ?ss"
    by (simp add: client_Scrape_def demo_fetch_def parseMetrics_def)
  show ?thesis using vllm_totals_exact [OF c, of ?cnt] by (simp add: promptSamples_def)
qed

end
