(* ===== verification/CtlCommon.thy ===== *)
theory CtlCommon
  imports ApiStore Metrics Sampler Scraper
begin

text \<open>
  What the three controllers of \<open>internal/controller\<close> share: the outcome of a reconcile, the choice of the pods
  to scrape and of the endpoint to scrape them at, the sampler key and the idle threshold of a profile, and the
  order in which Go visits the entries of a map.
\<close>

text \<open>The return of a reconcile, or its panic.\<close>

datatype outcome = Done Result | Failed kerror | Panicked

text \<open>
  The state of the process: the cluster behind the client, the API store, the gauges, the pricing catalogs, the
  sampler shared by the controllers and the token snapshots of the CostProfile reconciler.
\<close>

record ('k, 'db) world =
  w_kube :: 'k
  w_api :: "Store option"
  w_gauges :: gauges
  w_pricing :: pricingState
  w_sampler :: "'db Sampler option"
  w_snapshots :: "(gostring, TokenSnapshot) gomap"

definition demo_world :: "'k \<Rightarrow> ('k, 'db) world" where
  "demo_world k = \<lparr>w_kube = k, w_api = Some NewStore, w_gauges = [], w_pricing = \<lparr>overrideCatalog = None, defaultCatalog = None\<rparr>,
     w_sampler = None, w_snapshots = []\<rparr>"

subsection \<open>Conditions\<close>

definition truth :: "bool \<Rightarrow> ConditionStatus" where
  "truth p = (if p then ConditionTrue else ConditionFalse)"

subsection \<open>Profiles and pods\<close>

definition modelLabel :: gostring where
  "modelLabel = ''inference.llmkube.dev/model''"

definition sampleKeyFor :: "CostProfile \<Rightarrow> gostring" where
  "sampleKeyFor profile = om_Namespace (prof_Meta profile) @ ''/'' @ om_Name (prof_Meta profile)"

definition resolveIdleThreshold :: "CostProfile \<Rightarrow> f64" where
  "resolveIdleThreshold profile = (case es_IdleWattsThreshold (cps_Electricity (prof_Spec profile)) of
     Some w \<Rightarrow> w
   | None \<Rightarrow> DefaultIdleThresholdWatts (hs_TDPWatts (cps_Hardware (prof_Spec profile))) (hs_GPUCount (cps_Hardware (prof_Spec profile))))"

text \<open>The backend of a pod and the scrape of its endpoint, as both scrape loops write them.\<close>

definition podEndpoint :: "Pod \<Rightarrow> Backend \<Rightarrow> gostring" where
  "podEndpoint pod backend = ''http://'' @ pod_IP pod @ '':''
     @ show_int (ResolveMetricsPort backend (pod_Annotations pod) (pod_Labels pod)) @ ''/metrics''"

definition scrapePod :: "fetcher \<Rightarrow> Pod \<Rightarrow> gostring + InferenceMetrics" where
  "scrapePod fetch pod = (let (backend, source) = ResolveBackendWithSource (pod_Annotations pod) (pod_Labels pod)
     in Scrape fetch backend (podEndpoint pod backend))"

definition demo_pod :: Pod where
  "demo_pod = \<lparr>pod_Name = ''llama-0'', pod_Namespace = ''ml'', pod_Annotations = [], pod_Labels = [(modelLabel, ''llama'')],
     pod_Phase = ''Running'', pod_IP = ''10.0.0.7'', pod_NodeName = ''gpu-1''\<rparr>"

definition demo_scrape :: fetcher where
  "demo_scrape url = Inr (200, Inr [\<lparr>mf_Name = ''llamacpp:prompt_tokens_total'', mf_Type = COUNTER, mf_Metrics = [([], lit 30)]\<rparr>,
     \<lparr>mf_Name = ''llamacpp:tokens_predicted_total'', mf_Type = COUNTER, mf_Metrics = [([], lit 12)]\<rparr>])"

text \<open>Namespace and name of two profiles give different sampler keys: a Kubernetes name has no slash.\<close>

lemma sampleKey_inj:
  assumes "CHR ''/'' \<notin> set (om_Namespace (prof_Meta p))" and "CHR ''/'' \<notin> set (om_Namespace (prof_Meta q))"
  shows "sampleKeyFor p = sampleKeyFor q \<longleftrightarrow> om_Namespace (prof_Meta p) = om_Namespace (prof_Meta q)
    \<and> om_Name (prof_Meta p) = om_Name (prof_Meta q)"
proof
  assume eq: "sampleKeyFor p = sampleKeyFor q"
  have tw: "takeWhile (\<lambda>c. c \<noteq> CHR ''/'') (sampleKeyFor r) = om_Namespace (prof_Meta r)"
    if "CHR ''/'' \<notin> set (om_Namespace (prof_Meta r))" for r
    unfolding sampleKeyFor_def using that by (subst takeWhile_append2) auto
  from tw [OF assms(1)] tw [OF assms(2)] eq show "om_Namespace (prof_Meta p) = om_Namespace (prof_Meta q)
    \<and> om_Name (prof_Meta p) = om_Name (prof_Meta q)" by (simp add: sampleKeyFor_def)
qed (simp add: sampleKeyFor_def)

subsection \<open>The order of a map\<close>

text \<open>
  A \<open>range\<close> over a map visits every entry once, in an order the language leaves open.  The visit is an argument
  of the loops that range over a map; the locale is what the language promises.
\<close>

locale map_range =
  fixes visit :: "('k, 'v) gomap \<Rightarrow> ('k \<times> 'v) list"
  assumes visit_mset: "mset (visit m) = mset m"
begin

lemma visit_set: "set (visit m) = set m"
  using arg_cong [OF visit_mset, of set_mset] by simp

lemma visit_length: "length (visit m) = length m"
  using arg_cong [OF visit_mset, of size] by simp

lemma visit_image: "image_mset f (mset (visit m)) = image_mset f (mset m)"
  by (simp add: visit_mset)

lemma visit_sum: "(\<Sum>x\<leftarrow>visit m. f x) = (\<Sum>x\<leftarrow>m. (f x :: 'c :: comm_monoid_add))"
 by (metis mset_map visit_image sum_mset_sum_list)

end

lemma visit_wf: "map_range visit \<Longrightarrow> gm_wf m \<Longrightarrow> gm_wf (visit m)"
  unfolding gm_wf_def by (metis map_range.visit_mset mset_eq_imp_distinct_iff mset_map)

interpretation in_order: map_range "\<lambda>m. m"
  by unfold_locales simp

interpretation in_reverse: map_range rev
  by unfold_locales simp

end
