(* ===== verification/CostPower.thy ===== *)
theory CostPower
  imports CtlCommon
begin

text \<open>
  \<open>internal/controller/costprofile_controller.go\<close>, where the power draw of a profile comes from: the DCGM exporter,
  the Metal agent, or the TDP declared on the profile, with the status condition each path emits.  The gauges
  written on the way are threaded; the endpoints are an argument.
\<close>

definition ConditionDCGMReachable :: gostring where "ConditionDCGMReachable = ''DCGMReachable''"
definition ReasonDCGMHealthy :: gostring where "ReasonDCGMHealthy = ''DCGMHealthy''"
definition ReasonDCGMNotConfigured :: gostring where "ReasonDCGMNotConfigured = ''DCGMNotConfigured''"
definition ReasonDCGMScrapeError :: gostring where "ReasonDCGMScrapeError = ''DCGMScrapeError''"
definition ReasonDCGMNoReadings :: gostring where "ReasonDCGMNoReadings = ''DCGMNoReadings''"
definition ConditionMetalReachable :: gostring where "ConditionMetalReachable = ''MetalReachable''"
definition ReasonMetalHealthy :: gostring where "ReasonMetalHealthy = ''MetalHealthy''"
definition ReasonMetalNotConfigured :: gostring where "ReasonMetalNotConfigured = ''MetalNotConfigured''"
definition ReasonMetalScrapeError :: gostring where "ReasonMetalScrapeError = ''MetalScrapeError''"
definition ReasonMetalSamplerOff :: gostring where "ReasonMetalSamplerOff = ''MetalSamplerOff''"

text \<open>The endpoints of \<open>CostProfileReconciler\<close>, fixed at start-up; empty when not configured.\<close>

record powerConfig =
  DCGMEndpoint :: gostring
  MetalEndpoint :: gostring

text \<open>The time of transition is set later, by \<open>Reconcile\<close>; until then it is the zero time.\<close>

definition powerCond :: "gostring \<Rightarrow> ConditionStatus \<Rightarrow> gostring \<Rightarrow> gostring \<Rightarrow> Condition" where
  "powerCond ty st reason msg =
    \<lparr>c_Type = ty, c_Status = st, c_Reason = reason, c_Message = msg, c_LastTransitionTime = 0\<rparr>"

definition hostnameKey :: gostring where
  "hostnameKey = ''kubernetes.io/hostname''"

text \<open>The host a profile is bound to, empty when the selector has none.\<close>

definition nodeOf :: "CostProfile \<Rightarrow> gostring" where
  "nodeOf profile = gm_get [] (cps_NodeSelector (prof_Spec profile)) hostnameKey"

definition fallbackPowerDraw :: "CostProfile \<Rightarrow> f64" where
  "fallbackPowerDraw profile = (case hs_TDPWatts (cps_Hardware (prof_Spec profile)) of
     Some tdp \<Rightarrow> f_of_int32 tdp * f_of_int32 (hs_GPUCount (cps_Hardware (prof_Spec profile)))
   | None \<Rightarrow> 0)"

subsection \<open>DCGM\<close>

fun dcgmLoop :: "gostring \<Rightarrow> gostring \<Rightarrow> GPUPowerReading list \<Rightarrow> f64 \<Rightarrow> gauges \<Rightarrow> f64 \<times> gauges" where
  "dcgmLoop name node [] acc g = (acc, g)"
| "dcgmLoop name node (reading # rs) acc g =
    (if node = [] \<or> gr_Node reading = node
     then dcgmLoop name node rs (acc + gr_PowerW reading)
       (gauge_set GPUPowerWatts [name, gr_Node reading, gr_GPUID reading] (gr_PowerW reading) g)
     else dcgmLoop name node rs acc g)"

definition readDCGMPower :: "fetcher \<Rightarrow> powerConfig \<Rightarrow> CostProfile \<Rightarrow> gauges \<Rightarrow> f64 \<times> Condition \<times> gauges" where
  "readDCGMPower fetch cfg profile g =
    (let endpoint = DCGMEndpoint cfg; power = fallbackPowerDraw profile; watts = fmt_f 0 power @ ''W'' in
     if endpoint = [] then (power, powerCond ConditionDCGMReachable ConditionFalse ReasonDCGMNotConfigured
       (''DCGM endpoint not set; using TDP fallback ('' @ watts @ ''). Install the DCGM exporter for real-time power ''
         @ emDash @ '' see https://infercost.ai/docs/dcgm.''), g)
     else (case ScrapeDCGM fetch endpoint of
       Inl err \<Rightarrow> (power, powerCond ConditionDCGMReachable ConditionFalse ReasonDCGMScrapeError
         (''DCGM scrape failed at '' @ endpoint @ '': '' @ err @ ''. Using TDP fallback ('' @ watts @ '').''), g)
     | Inr readings \<Rightarrow>
       let node = nodeOf profile; (totalPowerW, g') = dcgmLoop (om_Name (prof_Meta profile)) node readings 0 g in
       if feq totalPowerW 0 then
         let nodeDesc = (if node = [] then ''(any node)'' else node) in
         (power, powerCond ConditionDCGMReachable ConditionUnknown ReasonDCGMNoReadings
           (''DCGM reachable at '' @ endpoint @ '' but returned no readings for node '' @ go_quote nodeDesc
             @ ''. Check the nodeSelector matches a GPU host. Using TDP fallback ('' @ watts @ '').''), g')
       else (totalPowerW, powerCond ConditionDCGMReachable ConditionTrue ReasonDCGMHealthy
         (''DCGM healthy at '' @ endpoint @ '' ('' @ fmt_f 0 totalPowerW @ ''W current draw).''), g')))"

subsection \<open>Apple Silicon\<close>

definition looksApple :: "gostring \<Rightarrow> bool" where
  "looksApple gpuModel = has_prefix (to_lower (trim_space gpuModel)) ''apple ''"

definition readMetalPower :: "fetcher \<Rightarrow> powerConfig \<Rightarrow> CostProfile \<Rightarrow> gauges \<Rightarrow> f64 \<times> Condition \<times> gauges" where
  "readMetalPower fetch cfg profile g =
    (let endpoint = MetalEndpoint cfg; power = fallbackPowerDraw profile; watts = fmt_f 0 power @ ''W'' in
     if endpoint = [] then (power, powerCond ConditionMetalReachable ConditionFalse ReasonMetalNotConfigured
       (''Metal endpoint not set; using TDP fallback ('' @ watts
         @ ''). Install the LLMKube Metal Agent with --apple-power-enabled and pass --metal-endpoint to InferCost.''), g)
     else (case ScrapeApplePower fetch endpoint of
       Inl err \<Rightarrow> (power, powerCond ConditionMetalReachable ConditionFalse ReasonMetalScrapeError
         (''Metal scrape failed at '' @ endpoint @ '': '' @ err @ ''. Using TDP fallback ('' @ watts @ '').''), g)
     | Inr reading \<Rightarrow>
       if feq (CombinedW reading) 0 then
         (power, powerCond ConditionMetalReachable ConditionUnknown ReasonMetalSamplerOff
           (''Metal agent reachable at '' @ endpoint @ '' but apple_power_combined_watts is 0. Verify --apple-power-enabled is set and ''
             @ ''/etc/sudoers.d/llmkube-powermetrics is installed. Using TDP fallback ('' @ watts @ '').''), g)
       else
         let node = nodeOf profile; node = (if node = [] then om_Name (prof_Meta profile) else node) in
         (CombinedW reading, powerCond ConditionMetalReachable ConditionTrue ReasonMetalHealthy
           (''Metal agent healthy at '' @ endpoint @ '' ('' @ fmt_f 1 (CombinedW reading) @ ''W combined; gpu='' @ fmt_f 1 (GPUW reading)
             @ '' cpu='' @ fmt_f 1 (CPUW reading) @ '' ane='' @ fmt_f 1 (ANEW reading) @ '').''),
          gauge_set GPUPowerWatts [om_Name (prof_Meta profile), node, ''soc''] (CombinedW reading) g)))"

definition usesMetal :: "powerConfig \<Rightarrow> CostProfile \<Rightarrow> bool" where
  "usesMetal cfg profile = (MetalEndpoint cfg \<noteq> [] \<and> looksApple (hs_GPUModel (cps_Hardware (prof_Spec profile))))"

definition readPower :: "fetcher \<Rightarrow> powerConfig \<Rightarrow> CostProfile \<Rightarrow> gauges \<Rightarrow> f64 \<times> Condition \<times> gauges" where
  "readPower fetch cfg profile g =
    (if usesMetal cfg profile then readMetalPower fetch cfg profile g else readDCGMPower fetch cfg profile g)"

subsection \<open>What was measured\<close>

text \<open>The readings of the profile's node, and what they add up to.\<close>

definition nodeReadings :: "gostring \<Rightarrow> GPUPowerReading list \<Rightarrow> GPUPowerReading list" where
  "nodeReadings node readings = filter (\<lambda>r. node = [] \<or> gr_Node r = node) readings"

lemma dcgmLoop_eq: "dcgmLoop name node readings acc g = (totalPowerLoop (nodeReadings node readings) acc,
    foldl (\<lambda>g r. gauge_set GPUPowerWatts [name, gr_Node r, gr_GPUID r] (gr_PowerW r) g) g (nodeReadings node readings))"
  by (induction readings arbitrary: acc g) (simp_all add: nodeReadings_def)

text \<open>The reading of the hardware behind a profile: \<open>None\<close> when the exporter is not configured or not reached.\<close>

definition measured :: "fetcher \<Rightarrow> powerConfig \<Rightarrow> CostProfile \<Rightarrow> f64 option" where
  "measured fetch cfg profile =
    (if usesMetal cfg profile
     then (case ScrapeApplePower fetch (MetalEndpoint cfg) of Inl _ \<Rightarrow> None | Inr r \<Rightarrow> Some (CombinedW r))
     else if DCGMEndpoint cfg = [] then None
     else (case ScrapeDCGM fetch (DCGMEndpoint cfg) of Inl _ \<Rightarrow> None
       | Inr rs \<Rightarrow> Some (TotalPowerWatts (nodeReadings (nodeOf profile) rs))))"

lemmas powerCond_simps [simp] = powerCond_def [THEN arg_cong [where f = c_Type], simplified]
  powerCond_def [THEN arg_cong [where f = c_Status], simplified]
  powerCond_def [THEN arg_cong [where f = c_Reason], simplified]

lemma gauge_fold_other: "n \<noteq> GPUPowerWatts \<Longrightarrow>
    gauge_get (foldl (\<lambda>g r. gauge_set GPUPowerWatts (f r) (v r) g) g rs) n ls = gauge_get g n ls"
  by (induction rs arbitrary: g) simp_all

lemma readPower_other:
  assumes "readPower fetch cfg profile g = (p, c, g')" and "n \<noteq> GPUPowerWatts"
  shows "gauge_get g' n ls = gauge_get g n ls"
  using assms
  by (auto simp: readPower_def readDCGMPower_def readMetalPower_def Let_def dcgmLoop_eq gauge_fold_other split: if_splits sum.splits)

lemma readPower_honest:
  assumes "readPower fetch cfg profile g = (p, c, g')"
  shows "c_Type c = (if usesMetal cfg profile then ConditionMetalReachable else ConditionDCGMReachable)"
    and "case measured fetch cfg profile of
        None \<Rightarrow> c_Status c = ConditionFalse \<and> p = fallbackPowerDraw profile \<and> g' = g
      | Some w \<Rightarrow> if feq w 0 then c_Status c = ConditionUnknown \<and> p = fallbackPowerDraw profile
                  else c_Status c = ConditionTrue \<and> p = w"
  using assms
  by (auto simp: readPower_def readDCGMPower_def readMetalPower_def measured_def usesMetal_def Let_def dcgmLoop_eq TotalPowerWatts_def
      split: if_splits sum.splits)

definition demo_gpu_profile :: CostProfile where
  "demo_gpu_profile = \<lparr>prof_Meta = \<lparr>om_Name = ''gpu'', om_Namespace = ''finops'', om_CreationTimestamp = 0\<rparr>,
     prof_Spec = \<lparr>cps_Hardware = \<lparr>hs_GPUModel = ''RTX 5060 Ti'', hs_GPUCount = 2, hs_PurchasePriceUSD = lit 960,
        hs_AmortizationYears = 3, hs_MaintenancePercentPerYear = 0, hs_TDPWatts = Some 150\<rparr>,
       cps_Electricity = \<lparr>es_RatePerKWh = lit (8/100), es_PUEFactor = lit 1, es_IdleWattsThreshold = None\<rparr>,
       cps_NodeSelector = [(hostnameKey, ''gpu-1'')], cps_NamespaceSelector = [], cps_CloudComparison = None\<rparr>,
     prof_Status = \<lparr>cpt_HourlyCostUSD = 0, cpt_AmortizationRatePerHour = 0, cpt_ElectricityCostPerHour = 0,
       cpt_CurrentPowerDrawWatts = 0, cpt_LastUpdated = None, cpt_Conditions = []\<rparr>\<rparr>"

definition demo_dcgm :: fetcher where
  "demo_dcgm url = Inr (200, Inr [\<lparr>mf_Name = DCGMPowerUsageMetric, mf_Type = GAUGE,
     mf_Metrics = [([(''gpu'', ''0''), (''Hostname'', ''gpu-1'')], lit 95), ([(''gpu'', ''0''), (''Hostname'', ''gpu-2'')], lit 70)]\<rparr>])"

lemma demo_measured:
  "measured demo_dcgm \<lparr>DCGMEndpoint = ''http://dcgm:9400/metrics'', MetalEndpoint = []\<rparr> demo_gpu_profile = Some (0 + lit 95)"
  by (simp add: measured_def usesMetal_def ScrapeDCGM_def client_Scrape_def demo_dcgm_def parseMetrics_def dcgmReading_def nodeReadings_def
      nodeOf_def demo_gpu_profile_def gm_get_def TotalPowerWatts_def)

end
