(* ===== verification/CostScrape.thy ===== *)
theory CostScrape
  imports CostPower
begin

text \<open>
  \<open>internal/controller/costprofile_controller.go\<close>, \<open>scrapeInferencePods\<close>: the token counters of the pods of a
  profile, their rates over debounced snapshots, and the comparison with cloud prices.  The loop is a fold of
  \<open>podStep\<close>; the clock it reads for the pod at position \<open>i\<close> is \<open>clk i\<close>.
\<close>

definition minSnapshotInterval :: duration where
  "minSnapshotInterval = 10 * nsSecond"

text \<open>What the loop accumulates, and the gauges and snapshots it writes.\<close>

record scrapeState =
  sc_gauges :: gauges
  sc_snapshots :: "(gostring, TokenSnapshot) gomap"
  sc_input :: int64
  sc_output :: int64
  sc_models :: "ModelData list"

definition modelOf :: "Pod \<Rightarrow> gostring" where
  "modelOf pod = gm_get [] (pod_Labels pod) modelLabel"

text \<open>The guards of the loop: a labelled, running pod with an address, on the host of the profile if it names one.\<close>

definition podSelected :: "CostProfile \<Rightarrow> Pod \<Rightarrow> bool" where
  "podSelected profile pod =
    (modelOf pod \<noteq> [] \<and> pod_Phase pod = ''Running'' \<and> pod_IP pod \<noteq> []
     \<and> (case map_of (cps_NodeSelector (prof_Spec profile)) hostnameKey of Some hostname \<Rightarrow> pod_NodeName pod = hostname | None \<Rightarrow> True))"

definition snapshotKey :: "Pod \<Rightarrow> gostring" where
  "snapshotKey pod = pod_Namespace pod @ ''/'' @ pod_Name pod"

definition modelData :: "Pod \<Rightarrow> InferenceMetrics \<Rightarrow> ModelData" where
  "modelData pod im = \<lparr>md_Model = modelOf pod, md_Namespace = pod_Namespace pod, md_Pod = pod_Name pod,
     md_InputTokens = PromptTokensTotal im, md_OutputTokens = PredictedTokensTotal im, md_TokensPerHour = 0,
     md_CostPerMTok = 0, md_TokensPerSec = PredictedTokensPerSec im, md_IsActive = 0 < RequestsProcessing im\<rparr>"

definition snapshotOf :: "gotime \<Rightarrow> InferenceMetrics \<Rightarrow> TokenSnapshot" where
  "snapshotOf now im = \<lparr>ts_Timestamp = now, ts_InputTokens = PromptTokensTotal im, ts_OutputTokens = PredictedTokensTotal im\<rparr>"

text \<open>The counters, the totals and the model row of one scraped pod.\<close>

definition recordTokens :: "Pod \<Rightarrow> InferenceMetrics \<Rightarrow> scrapeState \<Rightarrow> scrapeState" where
  "recordTokens pod im s =
    s\<lparr>sc_gauges := gauge_set TokensTotal [modelOf pod, pod_Namespace pod, ''output''] (PredictedTokensTotal im)
        (gauge_set TokensTotal [modelOf pod, pod_Namespace pod, ''input''] (PromptTokensTotal im) (sc_gauges s)),
      sc_input := sc_input s + int64_of_f (PromptTokensTotal im), sc_output := sc_output s + int64_of_f (PredictedTokensTotal im),
      sc_models := sc_models s @ [modelData pod im]\<rparr>"

definition rateGauges :: "f64 \<Rightarrow> Pod \<Rightarrow> TokenSnapshot \<Rightarrow> TokenSnapshot \<Rightarrow> gauges \<Rightarrow> gauges" where
  "rateGauges hourlyCost pod prev cur g =
    (let (inRate, outRate, totalTokensPerHour) = ComputeTokenRate prev cur;
         costPerToken = ComputeCostPerToken hourlyCost totalTokensPerHour; labels = [modelOf pod, pod_Namespace pod]
     in gauge_set CostPerMillionTokensUSD labels (costPerToken * lit 1000000)
       (gauge_set CostPerTokenUSD labels costPerToken (gauge_set TokensPerHour labels totalTokensPerHour g)))"

text \<open>The debounced snapshot of one scraped pod.\<close>

definition updateRates :: "f64 \<Rightarrow> gotime \<Rightarrow> Pod \<Rightarrow> InferenceMetrics \<Rightarrow> scrapeState \<Rightarrow> scrapeState" where
  "updateRates hourlyCost now pod im s =
    (let cur = snapshotOf now im; write = s\<lparr>sc_snapshots := gm_put (snapshotKey pod) cur (sc_snapshots s)\<rparr>
     in case map_of (sc_snapshots s) (snapshotKey pod) of
          None \<Rightarrow> write
        | Some prev \<Rightarrow>
            if time_Sub now (ts_Timestamp prev) < minSnapshotInterval then s
            else write\<lparr>sc_gauges := rateGauges hourlyCost pod prev cur (sc_gauges s)\<rparr>)"

definition podStep :: "fetcher \<Rightarrow> CostProfile \<Rightarrow> f64 \<Rightarrow> gotime \<Rightarrow> Pod \<Rightarrow> scrapeState \<Rightarrow> scrapeState" where
  "podStep fetch profile hourlyCost now pod s =
    (if \<not> podSelected profile pod then s
     else (case scrapePod fetch pod of Inl err \<Rightarrow> s
      | Inr im \<Rightarrow> updateRates hourlyCost now pod im (recordTokens pod im s)))"

fun podLoop :: "fetcher \<Rightarrow> CostProfile \<Rightarrow> f64 \<Rightarrow> (nat \<Rightarrow> gotime) \<Rightarrow> nat \<Rightarrow> Pod list \<Rightarrow> scrapeState \<Rightarrow> scrapeState" where
  "podLoop fetch profile hourlyCost clk i [] s = s"
| "podLoop fetch profile hourlyCost clk i (pod # pods) s =
    podLoop fetch profile hourlyCost clk (i + 1) pods (podStep fetch profile hourlyCost (clk i) pod s)"

subsection \<open>Cloud comparison\<close>

definition comparisonGauges :: "CloudComparison list \<Rightarrow> gauges \<Rightarrow> gauges" where
  "comparisonGauges cs g = foldl (\<lambda>g c. gauge_set SavingsVsCloudPercent [cc_Provider c, cc_Model c] (cc_SavingsPercent c)
     (gauge_set SavingsVsCloudUSD [cc_Provider c, cc_Model c] (cc_SavingsUSD c)
     (gauge_set CloudEquivalentCostUSD [cc_Provider c, cc_Model c] (cc_CloudCostUSD c) g))) g cs"

text \<open>The hours since the profile was created, at least a thousandth.\<close>

definition hoursSince :: "gotime \<Rightarrow> CostProfile \<Rightarrow> f64" where
  "hoursSince now profile = Hours (time_Sub now (om_CreationTimestamp (prof_Meta profile)))"

definition onPremCostSince :: "gotime \<Rightarrow> CostProfile \<Rightarrow> f64 \<Rightarrow> f64" where
  "onPremCostSince now profile hourlyCost =
    (let h = hoursSince now profile; h = (if h < lit (1/1000) then lit (1/1000) else h) in hourlyCost * h)"

text \<open>
  The comparison, when any token was served; \<open>None\<close> is the panic of the catalog.  The second call of
  \<open>DefaultCloudPricing\<close>, in \<open>BuildComparisons\<close>, reads the state the first has left.
\<close>

definition compareCloud :: "(gostring + PricingCatalog) \<Rightarrow> gotime \<Rightarrow> CostProfile \<Rightarrow> f64 \<Rightarrow> int64 \<Rightarrow> int64 \<Rightarrow> ('k, 'db) world
    \<Rightarrow> bool \<times> ('k, 'db) world" where
  "compareCloud embedded now profile hourlyCost input output w =
    (if \<not> 0 <s input + output then (True, w)
     else
       let onPremCost = onPremCostSince now profile hourlyCost; (pricing, pst) = DefaultCloudPricing embedded (w_pricing w);
           w1 = w\<lparr>w_pricing := pst\<rparr>
       in case pricing of Inl panic \<Rightarrow> (False, w1)
          | Inr rates \<Rightarrow>
            let w2 = w1\<lparr>w_gauges := comparisonGauges (CompareToCloud input output onPremCost rates) (w_gauges w1)\<rparr>
            in case w_api w2 of None \<Rightarrow> (True, w2)
               | Some store \<Rightarrow> (case BuildComparisons embedded (w_pricing w2) input output onPremCost of
                   Inl panic \<Rightarrow> (False, w2)
                 | Inr rows \<Rightarrow> (True, w2\<lparr>w_api := Some (SetComparisons rows store)\<rparr>)))"

text \<open>Returns whether it panicked; a failing list of the pods is an error the caller only logs.\<close>

definition scrapeInferencePods :: "('k \<Rightarrow> kerror + Pod list) \<Rightarrow> fetcher \<Rightarrow> (gostring + PricingCatalog) \<Rightarrow> (nat \<Rightarrow> gotime) \<Rightarrow> gotime
    \<Rightarrow> CostProfile \<Rightarrow> f64 \<Rightarrow> ('k, 'db) world \<Rightarrow> (bool \<times> kerror option) \<times> ('k, 'db) world" where
  "scrapeInferencePods listPods fetch embedded clk now profile hourlyCost w =
    (case listPods (w_kube w) of Inl err \<Rightarrow> ((True, Some err), w)
     | Inr pods \<Rightarrow>
       let s = podLoop fetch profile hourlyCost clk 0 pods
             \<lparr>sc_gauges = w_gauges w, sc_snapshots = w_snapshots w, sc_input = 0, sc_output = 0, sc_models = []\<rparr>;
           (ok, w1) = compareCloud embedded now profile hourlyCost (sc_input s) (sc_output s)
             (w\<lparr>w_gauges := sc_gauges s, w_snapshots := sc_snapshots s\<rparr>)
       in ((ok, None), if ok then w1\<lparr>w_api := map_option (SetModels (sc_models s)) (w_api w1)\<rparr> else w1))"

end
