(* ===== verification/CostProfileCtl.thy ===== *)
theory CostProfileCtl
  imports CostScrape
begin

text \<open>
  \<open>internal/controller/costprofile_controller.go\<close>, \<open>Reconcile\<close>: the hourly cost of a profile from its economics and
  its power draw, published to the sampler, the gauges, the status and the API store.
\<close>

definition reconcileInterval :: duration where
  "reconcileInterval = 30 * nsSecond"

record 'k cost_client =
  kc_getProfile :: "'k \<Rightarrow> gostring \<Rightarrow> gostring \<Rightarrow> kerror + CostProfile"
  kc_listPods :: "'k \<Rightarrow> kerror + Pod list"
  kc_updateStatus :: "CostProfile \<Rightarrow> 'k \<Rightarrow> kerror + 'k"

text \<open>The readings of the clock, in the order the reconcile makes them.\<close>

record costClock =
  k_sample :: gotime
  k_pods :: "nat \<Rightarrow> gotime"
  k_compare :: gotime
  k_status :: gotime
  k_uptime :: gotime
  k_updated :: gotime

definition hardwareOf :: "CostProfile \<Rightarrow> HardwareCosts" where
  "hardwareOf profile = (let hw = cps_Hardware (prof_Spec profile); el = cps_Electricity (prof_Spec profile) in
    \<lparr>PurchasePriceUSD = hs_PurchasePriceUSD hw, AmortizationYears = hs_AmortizationYears hw,
     MaintenancePercentPerYear = hs_MaintenancePercentPerYear hw, RatePerKWh = es_RatePerKWh el, PUEFactor = es_PUEFactor el\<rparr>)"

text \<open>Step 2a; the error of a failed persist is only logged.\<close>

definition recordPower :: "'db store_ops \<Rightarrow> gotime \<Rightarrow> CostProfile \<Rightarrow> f64 \<Rightarrow> 'db Sampler \<Rightarrow> 'db Sampler" where
  "recordPower St now profile w s = (let (err, s') = Record St now (sampleKeyFor profile) w (resolveIdleThreshold profile) s in s')"

text \<open>Step 4.\<close>

definition costGauges :: "CostProfile \<Rightarrow> f64 \<times> f64 \<times> f64 \<Rightarrow> gauges \<Rightarrow> gauges" where
  "costGauges profile cost g =
    (let (amort, elec, tot) = cost; name = om_Name (prof_Meta profile); node = (if nodeOf profile = [] then ''unknown'' else nodeOf profile)
     in gauge_set mElectricityPerHour [name, node] elec
       (gauge_set mAmortizationPerHour [name, node] amort
       (gauge_set HourlyCostUSD [name, node, hs_GPUModel (cps_Hardware (prof_Spec profile))] tot g)))"

text \<open>Step 6: the fields and the two conditions.\<close>

definition readyCondition :: "f64 \<times> f64 \<times> f64 \<Rightarrow> gotime \<Rightarrow> Condition" where
  "readyCondition cost now = (let (amort, elec, tot) = cost in
    \<lparr>c_Type = ''Ready'', c_Status = ConditionTrue, c_Reason = ''CostComputed'',
     c_Message = ''Hourly cost: $'' @ fmt_f 4 tot @ '' (amort: $'' @ fmt_f 4 amort @ '', elec: $'' @ fmt_f 4 elec @ '')'',
     c_LastTransitionTime = now\<rparr>)"

definition costStatus :: "condition_ops \<Rightarrow> f64 \<times> f64 \<times> f64 \<Rightarrow> f64 \<Rightarrow> Condition \<Rightarrow> gotime \<Rightarrow> CostProfileStatus \<Rightarrow> CostProfileStatus" where
  "costStatus C cost totalPowerW powerCondition now st =
    (let (amort, elec, tot) = cost in
     st\<lparr>cpt_HourlyCostUSD := tot, cpt_AmortizationRatePerHour := amort, cpt_ElectricityCostPerHour := elec,
        cpt_CurrentPowerDrawWatts := totalPowerW, cpt_LastUpdated := Some now,
        cpt_Conditions := cs_set C (cs_set C (cpt_Conditions st) (readyCondition cost now)) (powerCondition\<lparr>c_LastTransitionTime := now\<rparr>)\<rparr>)"

text \<open>Step 7.\<close>

definition costData :: "CostProfile \<Rightarrow> f64 \<times> f64 \<times> f64 \<Rightarrow> f64 \<Rightarrow> gotime \<Rightarrow> gotime \<Rightarrow> CostData" where
  "costData profile cost totalPowerW uptime updated =
    (let (amort, elec, tot) = cost; hw = cps_Hardware (prof_Spec profile); el = cps_Electricity (prof_Spec profile) in
     \<lparr>cd_ProfileName = om_Name (prof_Meta profile), cd_GPUModel = hs_GPUModel hw, cd_GPUCount = hs_GPUCount hw,
      cd_HourlyCostUSD = tot, cd_AmortizationPerHr = amort, cd_ElectricityPerHr = elec, cd_PowerDrawWatts = totalPowerW,
      cd_MonthlyProjected = tot * lit 24 * lit 30, cd_YearlyProjected = tot * lit 8760,
      cd_PurchasePriceUSD = hs_PurchasePriceUSD hw, cd_AmortizationYears = hs_AmortizationYears hw,
      cd_RatePerKWh = es_RatePerKWh el, cd_PUEFactor = es_PUEFactor el, cd_UptimeHours = hoursSince uptime profile,
      cd_LastUpdated = updated\<rparr>)"

definition CostProfile_Reconcile :: "condition_ops \<Rightarrow> 'k cost_client \<Rightarrow> 'db store_ops \<Rightarrow> powerConfig \<Rightarrow> fetcher \<Rightarrow> (gostring + PricingCatalog)
    \<Rightarrow> costClock \<Rightarrow> gostring \<Rightarrow> gostring \<Rightarrow> ('k, 'db) world \<Rightarrow> outcome \<times> ('k, 'db) world" where
  "CostProfile_Reconcile C K St cfg fetch embedded clk rns rname w =
    (case kc_getProfile K (w_kube w) rns rname of
       Inl (NotFound _) \<Rightarrow> (Done \<lparr>RequeueAfter = 0\<rparr>, w)
     | Inl err \<Rightarrow> (Failed err, w)
     | Inr profile \<Rightarrow>
       let (totalPowerW, powerCondition, g) = readPower fetch cfg profile (w_gauges w);
           w1 = w\<lparr>w_gauges := g, w_sampler := map_option (recordPower St (k_sample clk) profile totalPowerW) (w_sampler w)\<rparr>;
           cost = ComputeHourlyCost (hardwareOf profile) totalPowerW;
           w2 = w1\<lparr>w_gauges := costGauges profile cost g\<rparr>;
           ((ok, listErr), w3) = scrapeInferencePods (kc_listPods K) fetch embedded (k_pods clk) (k_compare clk) profile (snd (snd cost)) w2
       in if \<not> ok then (Panicked, w3)
          else
            let profile' = profile\<lparr>prof_Status := costStatus C cost totalPowerW powerCondition (k_status clk) (prof_Status profile)\<rparr>
            in (case kc_updateStatus K profile' (w_kube w3) of
                  Inl err \<Rightarrow> (Failed err, w3)
                | Inr k \<Rightarrow> (Done \<lparr>RequeueAfter = reconcileInterval\<rparr>,
                    w3\<lparr>w_kube := k, w_api := map_option (SetCostData (costData profile' cost totalPowerW (k_uptime clk) (k_updated clk))) (w_api w3)\<rparr>)))"

end
