(* ===== verification/CostScrapeFacts.thy ===== *)
theory CostScrapeFacts
  imports CostScrape
begin

text \<open>
  What a scrape of the pods publishes: model rows and totals, the counters of a model, the debounced snapshots and the
  rates computed over them.
\<close>

subsection \<open>The scraped pods\<close>

definition scrapedPod :: "fetcher \<Rightarrow> CostProfile \<Rightarrow> gotime \<Rightarrow> Pod \<Rightarrow> (gotime \<times> Pod \<times> InferenceMetrics) list" where
  "scrapedPod fetch profile now pod =
    (if podSelected profile pod then (case scrapePod fetch pod of Inl err \<Rightarrow> [] | Inr im \<Rightarrow> [(now, pod, im)]) else [])"

fun scrapedPods :: "fetcher \<Rightarrow> CostProfile \<Rightarrow> (nat \<Rightarrow> gotime) \<Rightarrow> nat \<Rightarrow> Pod list \<Rightarrow> (gotime \<times> Pod \<times> InferenceMetrics) list" where
  "scrapedPods fetch profile clk i [] = []"
| "scrapedPods fetch profile clk i (pod # pods) = scrapedPod fetch profile (clk i) pod @ scrapedPods fetch profile clk (i + 1) pods"

lemma scrapedPod_cases:
  obtains "scrapedPod fetch profile now pod = []" | im where "scrapedPod fetch profile now pod = [(now, pod, im)]"
  by (cases "scrapePod fetch pod"; cases "podSelected profile pod"; simp add: scrapedPod_def)

definition scrapeOne :: "f64 \<Rightarrow> scrapeState \<Rightarrow> gotime \<times> Pod \<times> InferenceMetrics \<Rightarrow> scrapeState" where
  "scrapeOne hourlyCost s x = (case x of (now, pod, im) \<Rightarrow> updateRates hourlyCost now pod im (recordTokens pod im s))"

lemma podLoop_foldl:
  "podLoop fetch profile hourlyCost clk i pods s = foldl (scrapeOne hourlyCost) s (scrapedPods fetch profile clk i pods)"
  by (induction pods arbitrary: i s) (auto simp: podStep_def scrapeOne_def scrapedPod_def split: sum.split)

definition podKey :: "gotime \<times> Pod \<times> InferenceMetrics \<Rightarrow> gostring" where
  "podKey x = snapshotKey (fst (snd x))"

lemma podKey_triple [simp]: "podKey (now, pod, im) = snapshotKey pod"
  by (simp add: podKey_def)

lemma scrapedPods_keys:
  "distinct (map snapshotKey pods) \<Longrightarrow> distinct (map podKey (scrapedPods fetch profile clk i pods))
    \<and> podKey ` set (scrapedPods fetch profile clk i pods) \<subseteq> snapshotKey ` set pods"
proof (induction pods arbitrary: i)
  case (Cons p ps)
  then have d: "distinct (map snapshotKey ps)" by simp
  have k: "snapshotKey p \<notin> snapshotKey ` set ps" using Cons.prems by simp
  show ?case
    by (rule scrapedPod_cases [of fetch profile "clk i" p]; use Cons.IH [OF d, of "i + 1"] k in \<open>auto simp: podKey_def\<close>)
qed simp

subsection \<open>Totals, rows and counters\<close>

lemma updateRates_frame [simp]:
  "sc_input (updateRates h now pod im s) = sc_input s" "sc_output (updateRates h now pod im s) = sc_output s"
  "sc_models (updateRates h now pod im s) = sc_models s"
  by (simp_all add: updateRates_def Let_def split: option.split)


lemma rateGauges_other: "n \<notin> {TokensPerHour, CostPerTokenUSD, CostPerMillionTokensUSD} \<Longrightarrow>
    gauge_get (rateGauges h pod prev cur g) n ls = gauge_get g n ls"
  by (simp add: rateGauges_def Let_def split: prod.split)

lemma updateRates_other: "n \<notin> {TokensPerHour, CostPerTokenUSD, CostPerMillionTokensUSD} \<Longrightarrow>
    gauge_get (sc_gauges (updateRates h now pod im s)) n ls = gauge_get (sc_gauges s) n ls"
  by (simp add: updateRates_def Let_def rateGauges_other split: option.split)

lemma scrapeOne_totals: "sc_input (scrapeOne h s (now, pod, im)) = sc_input s + int64_of_f (PromptTokensTotal im)"
  "sc_output (scrapeOne h s (now, pod, im)) = sc_output s + int64_of_f (PredictedTokensTotal im)"
  "sc_models (scrapeOne h s (now, pod, im)) = sc_models s @ [modelData pod im]"
  by (simp_all add: scrapeOne_def recordTokens_def)

lemma scrape_totals_foldl:
  "sc_input (foldl (scrapeOne h) s xs) = sc_input s + (\<Sum>(now, pod, im)\<leftarrow>xs. int64_of_f (PromptTokensTotal im))
   \<and> sc_output (foldl (scrapeOne h) s xs) = sc_output s + (\<Sum>(now, pod, im)\<leftarrow>xs. int64_of_f (PredictedTokensTotal im))
   \<and> sc_models (foldl (scrapeOne h) s xs) = sc_models s @ map (\<lambda>(now, pod, im). modelData pod im) xs"
proof (induction xs arbitrary: s)
  case (Cons x xs)
  obtain now pod im where x: "x = (now, pod, im)" by (cases x) auto
  show ?case using Cons.IH [of "scrapeOne h s x"] by (simp add: x scrapeOne_totals add.assoc)
qed simp

text \<open>The readings of the replicas of a model in a namespace.\<close>

definition replicas :: "gostring \<Rightarrow> gostring \<Rightarrow> (gotime \<times> Pod \<times> InferenceMetrics) list \<Rightarrow> InferenceMetrics list" where
  "replicas model ns xs = map (\<lambda>(now, pod, im). im) (filter (\<lambda>(now, pod, im). modelOf pod = model \<and> pod_Namespace pod = ns) xs)"

lemma tokens_not_rates [simp]: "TokensTotal \<noteq> TokensPerHour" "TokensTotal \<noteq> CostPerTokenUSD" "TokensTotal \<noteq> CostPerMillionTokensUSD"
  "TokensPerHour \<noteq> TokensTotal" "CostPerTokenUSD \<noteq> TokensTotal" "CostPerMillionTokensUSD \<noteq> TokensTotal"
  "TokensPerHour \<noteq> CostPerTokenUSD" "TokensPerHour \<noteq> CostPerMillionTokensUSD" "CostPerTokenUSD \<noteq> CostPerMillionTokensUSD"
  "CostPerTokenUSD \<noteq> TokensPerHour" "CostPerMillionTokensUSD \<noteq> TokensPerHour" "CostPerMillionTokensUSD \<noteq> CostPerTokenUSD"
  by (simp_all add: gauge_defs gauge_name_def)

lemma scrapeOne_tokens: "gauge_get (sc_gauges (scrapeOne h s (now, pod, im))) TokensTotal [model, ns, dir] =
    (if modelOf pod = model \<and> pod_Namespace pod = ns \<and> dir = ''output'' then Some (PredictedTokensTotal im)
     else if modelOf pod = model \<and> pod_Namespace pod = ns \<and> dir = ''input'' then Some (PromptTokensTotal im)
     else gauge_get (sc_gauges s) TokensTotal [model, ns, dir])"
  by (auto simp: scrapeOne_def updateRates_other recordTokens_def)

lemma tokens_last:
  "gauge_get (sc_gauges (foldl (scrapeOne h) s xs)) TokensTotal [model, ns, ''input''] =
     (if replicas model ns xs = [] then gauge_get (sc_gauges s) TokensTotal [model, ns, ''input'']
      else Some (PromptTokensTotal (last (replicas model ns xs))))
   \<and> gauge_get (sc_gauges (foldl (scrapeOne h) s xs)) TokensTotal [model, ns, ''output''] =
     (if replicas model ns xs = [] then gauge_get (sc_gauges s) TokensTotal [model, ns, ''output'']
      else Some (PredictedTokensTotal (last (replicas model ns xs))))"
proof (induction xs rule: rev_induct)
  case (snoc x xs)
  obtain now pod im where x: "x = (now, pod, im)" by (cases x) auto
  show ?case using snoc by (simp add: x scrapeOne_tokens replicas_def)
qed (simp add: replicas_def)

text \<open>C13 A scrape publishes one model row per pod that answered, in the order of the pods, and its totals are the sums of their counters
  on wrapping 64-bit integers; a pod that fails or is not selected contributes nothing and stops nothing.  The counters
  of a model are not summed over its replicas: the gauges of the model hold the reading of the last one.\<close>

theorem scrape_rows_and_counters:
  assumes "s' = podLoop fetch profile hourlyCost clk 0 pods \<lparr>sc_gauges = g, sc_snapshots = sn, sc_input = 0, sc_output = 0, sc_models = []\<rparr>"
    and "xs = scrapedPods fetch profile clk 0 pods"
  shows "sc_models s' = map (\<lambda>(now, pod, im). modelData pod im) xs
    \<and> sc_input s' = (\<Sum>(now, pod, im)\<leftarrow>xs. int64_of_f (PromptTokensTotal im))
    \<and> sc_output s' = (\<Sum>(now, pod, im)\<leftarrow>xs. int64_of_f (PredictedTokensTotal im))
    \<and> gauge_get (sc_gauges s') TokensTotal [model, ns, ''input''] = (if replicas model ns xs = []
         then gauge_get g TokensTotal [model, ns, ''input''] else Some (PromptTokensTotal (last (replicas model ns xs))))
    \<and> gauge_get (sc_gauges s') TokensTotal [model, ns, ''output''] = (if replicas model ns xs = []
         then gauge_get g TokensTotal [model, ns, ''output''] else Some (PredictedTokensTotal (last (replicas model ns xs))))"
  using tokens_last [of hourlyCost "\<lparr>sc_gauges = g, sc_snapshots = sn, sc_input = 0, sc_output = 0, sc_models = []\<rparr>" xs model ns]
    scrape_totals_foldl [of hourlyCost "\<lparr>sc_gauges = g, sc_snapshots = sn, sc_input = 0, sc_output = 0, sc_models = []\<rparr>" xs]
  unfolding assms podLoop_foldl by simp

subsection \<open>Debounced snapshots\<close>

lemma young_iff: "time_Sub t u < minSnapshotInterval \<longleftrightarrow> t - u < minSnapshotInterval"
  by (auto simp: time_Sub_def minSnapshotInterval_def nsSecond_def min_def max_def)

text \<open>The snapshot of a scraped pod after the scrape, from the one before.\<close>

definition nextSnapshot :: "TokenSnapshot option \<Rightarrow> gotime \<Rightarrow> InferenceMetrics \<Rightarrow> TokenSnapshot" where
  "nextSnapshot prev now im = (case prev of None \<Rightarrow> snapshotOf now im
     | Some p \<Rightarrow> if now - ts_Timestamp p < minSnapshotInterval then p else snapshotOf now im)"

text \<open>The rates a scrape computes: a pod with a snapshot at least ten seconds old.\<close>

definition rateEvent :: "(gostring, TokenSnapshot) gomap \<Rightarrow> gotime \<times> Pod \<times> InferenceMetrics \<Rightarrow> (Pod \<times> TokenSnapshot \<times> TokenSnapshot) list" where
  "rateEvent sn x = (case x of (now, pod, im) \<Rightarrow> (case map_of sn (snapshotKey pod) of
      None \<Rightarrow> [] | Some prev \<Rightarrow> if now - ts_Timestamp prev < minSnapshotInterval then [] else [(pod, prev, snapshotOf now im)]))"

definition rateEvents :: "(gostring, TokenSnapshot) gomap \<Rightarrow> (gotime \<times> Pod \<times> InferenceMetrics) list \<Rightarrow> (Pod \<times> TokenSnapshot \<times> TokenSnapshot) list" where
  "rateEvents sn xs = concat (map (rateEvent sn) xs)"

lemma scrapeOne_snapshots: "map_of (sc_snapshots (scrapeOne h s (now, pod, im))) =
    (map_of (sc_snapshots s))(snapshotKey pod \<mapsto> nextSnapshot (map_of (sc_snapshots s) (snapshotKey pod)) now im)"
  by (auto simp: scrapeOne_def updateRates_def recordTokens_def nextSnapshot_def Let_def young_iff fun_eq_iff split: option.split)

lemma snapshots_foldl:
  assumes "distinct (map podKey xs)"
  shows "map_of (sc_snapshots (foldl (scrapeOne h) s xs)) k = (case List.find (\<lambda>x. podKey x = k) xs of
      None \<Rightarrow> map_of (sc_snapshots s) k
    | Some (now, pod, im) \<Rightarrow> Some (nextSnapshot (map_of (sc_snapshots s) k) now im))"
  using assms
proof (induction xs arbitrary: s)
  case (Cons x xs)
  obtain now pod im where x: "x = (now, pod, im)" by (cases x) auto
  have f: "podKey x = k \<Longrightarrow> List.find (\<lambda>x. podKey x = k) xs = None" using Cons.prems by (auto simp: find_None_iff image_iff)
  show ?case using Cons.IH [of "scrapeOne h s (now, pod, im)"] Cons.prems f
    by (cases "List.find (\<lambda>x. podKey x = k) xs") (auto simp: x scrapeOne_snapshots)
qed simp

text \<open>The three rate gauges of a model hold the figures of one event.\<close>

definition rateShown :: "f64 \<Rightarrow> gauges \<Rightarrow> gostring list \<Rightarrow> Pod \<times> TokenSnapshot \<times> TokenSnapshot \<Rightarrow> bool" where
  "rateShown hourlyCost g labels ev = (case ev of (pod, prev, cur) \<Rightarrow>
     let rate = snd (snd (ComputeTokenRate prev cur)); cost = ComputeCostPerToken hourlyCost rate
     in labels = [modelOf pod, pod_Namespace pod] \<and> gauge_get g TokensPerHour labels = Some rate
        \<and> gauge_get g CostPerTokenUSD labels = Some cost \<and> gauge_get g CostPerMillionTokensUSD labels = Some (cost * lit 1000000))"

definition rateGaugesSame :: "gauges \<Rightarrow> gauges \<Rightarrow> gostring list \<Rightarrow> bool" where
  "rateGaugesSame g g' labels = (\<forall>n \<in> {TokensPerHour, CostPerTokenUSD, CostPerMillionTokensUSD}. gauge_get g' n labels = gauge_get g n labels)"

lemma scrapeOne_rates:
  "(\<exists>ev \<in> set (rateEvent (sc_snapshots s) x). rateShown h (sc_gauges (scrapeOne h s x)) labels ev)
   \<or> (\<forall>(pod, prev, cur) \<in> set (rateEvent (sc_snapshots s) x). labels \<noteq> [modelOf pod, pod_Namespace pod])
     \<and> rateGaugesSame (sc_gauges s) (sc_gauges (scrapeOne h s x)) labels"
proof -
  obtain now pod im where x: "x = (now, pod, im)" by (cases x) auto
  show ?thesis
  proof (cases "rateEvent (sc_snapshots s) x")
    case Nil
    then have "\<forall>prev. map_of (sc_snapshots s) (snapshotKey pod) = Some prev \<longrightarrow> now - ts_Timestamp prev < minSnapshotInterval"
      by (auto simp: x rateEvent_def split: if_splits)
    then show ?thesis using Nil
      by (auto simp: x scrapeOne_def updateRates_def recordTokens_def rateGaugesSame_def Let_def young_iff split: option.split)
  next
    case (Cons ev evs)
    then obtain prev where p: "map_of (sc_snapshots s) (snapshotKey pod) = Some prev" "\<not> now - ts_Timestamp prev < minSnapshotInterval"
        "rateEvent (sc_snapshots s) x = [(pod, prev, snapshotOf now im)]"
      by (auto simp: x rateEvent_def split: option.splits if_splits)
    obtain a b tot where r: "ComputeTokenRate prev (snapshotOf now im) = (a, b, tot)" by (metis surj_pair)
    show ?thesis using p
      by (auto simp: x scrapeOne_def updateRates_def recordTokens_def rateShown_def rateGaugesSame_def rateGauges_def Let_def young_iff r)
  qed
qed

lemma rateEvent_cong: "podKey x \<noteq> k \<Longrightarrow> map_of sn' = (map_of sn)(k \<mapsto> v) \<Longrightarrow> rateEvent sn' x = rateEvent sn x"
  by (auto simp: rateEvent_def podKey_def split: prod.split)

lemma rates_foldl:
  assumes "distinct (map podKey xs)"
  shows "(\<exists>ev \<in> set (rateEvents (sc_snapshots s) xs). rateShown h (sc_gauges (foldl (scrapeOne h) s xs)) labels ev)
   \<or> (\<forall>(pod, prev, cur) \<in> set (rateEvents (sc_snapshots s) xs). labels \<noteq> [modelOf pod, pod_Namespace pod])
     \<and> rateGaugesSame (sc_gauges s) (sc_gauges (foldl (scrapeOne h) s xs)) labels"
  using assms
proof (induction xs arbitrary: s)
  case (Cons x xs)
  obtain now pod im where x: "x = (now, pod, im)" by (cases x) auto
  have "rateEvent (sc_snapshots (scrapeOne h s x)) y = rateEvent (sc_snapshots s) y" if "y \<in> set xs" for y
  proof (rule rateEvent_cong [OF _ scrapeOne_snapshots [of h s now pod im, folded x]])
    have "podKey y \<in> podKey ` set xs" using that by simp
    moreover have "snapshotKey pod \<notin> podKey ` set xs" using Cons.prems by (simp add: x)
    ultimately show "podKey y \<noteq> snapshotKey pod" by metis
  qed
  then have e: "rateEvents (sc_snapshots (scrapeOne h s x)) xs = rateEvents (sc_snapshots s) xs"
    by (simp add: rateEvents_def cong: map_cong)
  have c: "rateEvents (sc_snapshots s) (x # xs) = rateEvent (sc_snapshots s) x @ rateEvents (sc_snapshots s) xs"
    by (simp add: rateEvents_def)
  have same: "rateShown h g' labels ev" if "rateShown h g labels ev" "rateGaugesSame g g' labels" for g g' ev
    using that by (auto simp: rateShown_def rateGaugesSame_def Let_def split: prod.splits)
  have trans: "rateGaugesSame g g'' labels" if "rateGaugesSame g g' labels" "rateGaugesSame g' g'' labels" for g g' g''
    using that by (simp add: rateGaugesSame_def)
  have d: "distinct (map podKey xs)" using Cons.prems by simp
  show ?case using Cons.IH [OF d, of "scrapeOne h s x"] scrapeOne_rates [of s x h labels] same trans
    unfolding e c by (simp only: foldl_Cons set_append ball_Un bex_Un) blast
qed (simp add: rateEvents_def rateGaugesSame_def)

text \<open>C12 Token rates are debounced.  With distinct pods, a scrape replaces the snapshot of a pod only when it is at least ten seconds old (a pod
  seen for the first time gets one), so a reconcile triggered by its own status write changes no rate; and the rate
  gauges of a model show the rate between a pod's stored snapshot and its new one, taken at least ten seconds later,
  with the cost per token that follows from it, or are as before when no pod of the model had such a pair.\<close>

theorem rates_debounced:
  assumes "distinct (map snapshotKey pods)"
    and "s' = podLoop fetch profile hourlyCost clk 0 pods s" and "xs = scrapedPods fetch profile clk 0 pods"
  shows "map_of (sc_snapshots s') k = (case List.find (\<lambda>(now, pod, im). snapshotKey pod = k) xs of
        None \<Rightarrow> map_of (sc_snapshots s) k
      | Some (now, pod, im) \<Rightarrow> Some (case map_of (sc_snapshots s) k of
          Some prev \<Rightarrow> if now - ts_Timestamp prev < minSnapshotInterval then prev else snapshotOf now im
        | None \<Rightarrow> snapshotOf now im))
    \<and> ((\<exists>ev \<in> set (rateEvents (sc_snapshots s) xs). rateShown hourlyCost (sc_gauges s') labels ev)
       \<or> (\<forall>(pod, prev, cur) \<in> set (rateEvents (sc_snapshots s) xs). labels \<noteq> [modelOf pod, pod_Namespace pod])
         \<and> rateGaugesSame (sc_gauges s) (sc_gauges s') labels)"
proof -
  have d: "distinct (map podKey xs)" unfolding assms(3) using scrapedPods_keys [OF assms(1)] by blast
  have "(\<lambda>x. podKey x = k) = (\<lambda>(now, pod, im). snapshotKey pod = k)" by (auto simp: podKey_def fun_eq_iff)
  then show ?thesis
    using snapshots_foldl [OF d, of hourlyCost s k] rates_foldl [OF d, of s hourlyCost labels]
    unfolding assms(2) podLoop_foldl assms(3) [symmetric] nextSnapshot_def by simp
qed

subsection \<open>A scrape of two replicas\<close>

definition demo_pods :: "Pod list" where
  "demo_pods = [demo_pod, demo_pod\<lparr>pod_Name := ''llama-1''\<rparr>]"

definition demo_im :: InferenceMetrics where
  "demo_im = zeroMetrics\<lparr>PromptTokensTotal := lit 30, PredictedTokensTotal := lit 12\<rparr>"

lemma demo_scraped_pod: "scrapePod demo_scrape demo_pod = Inr demo_im"
  by code_simp

lemma demo_scraped_pods: "scrapedPods demo_scrape demo_gpu_profile clk 0 demo_pods =
    [(clk 0, demo_pod, demo_im), (clk 1, demo_pod\<lparr>pod_Name := ''llama-1''\<rparr>, demo_im)]"
proof -
  have s: "scrapePod demo_scrape (demo_pod\<lparr>pod_Name := ''llama-1''\<rparr>) = Inr demo_im"
    using demo_scraped_pod by (simp add: scrapePod_def podEndpoint_def)
  have p: "podSelected demo_gpu_profile demo_pod" "podSelected demo_gpu_profile (demo_pod\<lparr>pod_Name := ''llama-1''\<rparr>)"
    by (simp_all add: podSelected_def modelOf_def gm_get_def demo_pod_def demo_gpu_profile_def)
  show ?thesis using s p demo_scraped_pod by (simp add: demo_pods_def scrapedPod_def)
qed

theorem scrape_rows_and_counters_witness:
  "\<exists>s'. s' = podLoop demo_scrape demo_gpu_profile (lit 1) (\<lambda>i. 0) 0 demo_pods \<lparr>sc_gauges = [], sc_snapshots = [], sc_input = 0, sc_output = 0, sc_models = []\<rparr>
    \<and> sc_input s' = 60 \<and> length (sc_models s') = 2
    \<and> gauge_get (sc_gauges s') TokensTotal [''llama'', ''ml'', ''input''] = Some (lit 30)"
proof -
  have n: "int64_of_f (lit 30) = 30" by code_simp
  have r: "replicas ''llama'' ''ml'' [(0, demo_pod, demo_im), (0, demo_pod\<lparr>pod_Name := ''llama-1''\<rparr>, demo_im)] = [demo_im, demo_im]"
    by (simp add: replicas_def modelOf_def gm_get_def demo_pod_def)
  have i: "PromptTokensTotal demo_im = lit 30" by (simp add: demo_im_def)
  show ?thesis
    using scrape_rows_and_counters [OF refl refl, of demo_scrape demo_gpu_profile "lit 1" "\<lambda>i. 0" demo_pods "[]" "[]" "''llama''" "''ml''"]
    by (simp add: demo_scraped_pods n r i)
qed

theorem rates_debounced_witness:
  "map_of (sc_snapshots (podLoop demo_scrape demo_gpu_profile (lit 1) (\<lambda>i. 20 * nsSecond) 0 demo_pods
      \<lparr>sc_gauges = [], sc_snapshots = [(''ml/llama-0'', snapshotOf 0 zeroMetrics)], sc_input = 0, sc_output = 0, sc_models = []\<rparr>)) ''ml/llama-0''
   = Some (snapshotOf (20 * nsSecond) demo_im)"
proof -
  have d: "distinct (map snapshotKey demo_pods)" by (simp add: demo_pods_def snapshotKey_def demo_pod_def)
  have k: "snapshotKey demo_pod = ''ml/llama-0''" by (simp add: snapshotKey_def demo_pod_def)
  show ?thesis
    using rates_debounced [OF d refl refl, of demo_scrape demo_gpu_profile "lit 1" "\<lambda>i. 20 * nsSecond"
        "\<lparr>sc_gauges = [], sc_snapshots = [(''ml/llama-0'', snapshotOf 0 zeroMetrics)], sc_input = 0, sc_output = 0, sc_models = []\<rparr>" "''ml/llama-0''" "[]"]
    by (simp add: demo_scraped_pods k snapshotOf_def minSnapshotInterval_def nsSecond_def)
qed

end
