(* ===== verification/CostProfileFacts.thy ===== *)
theory CostProfileFacts
  imports CostProfileCtl CostScrapeFacts
begin

text \<open>What a reconcile of a CostProfile publishes, and what it leaves alone.\<close>

subsection \<open>What the scrape leaves alone\<close>

text \<open>The slots of the store that belong to other steps.\<close>

definition keepsSlots :: "Store \<Rightarrow> Store \<Rightarrow> bool" where
  "keepsSlots s s' = (GetCostData s' = GetCostData s \<and> GetNamespaceCosts s' = GetNamespaceCosts s
     \<and> GetBudgets s' = GetBudgets s \<and> GetBreakEven s' = GetBreakEven s)"

definition costGaugeNames :: "gostring set" where
  "costGaugeNames = {HourlyCostUSD, mAmortizationPerHour, mElectricityPerHour}"

lemma keepsSlots_intros [intro!, simp]: "keepsSlots s s" "keepsSlots s (SetComparisons rows s)" "keepsSlots s (SetModels ms s)"
  by (simp_all add: keepsSlots_def store_defs)

lemma keepsSlots_trans: "keepsSlots s s' \<Longrightarrow> keepsSlots s' s'' \<Longrightarrow> keepsSlots s s''"
  by (simp add: keepsSlots_def)

lemma cost_gauges_differ: "n \<in> costGaugeNames \<Longrightarrow> n \<noteq> GPUPowerWatts \<and> n \<noteq> TokensTotal \<and> n \<noteq> TokensPerHour \<and> n \<noteq> CostPerTokenUSD
    \<and> n \<noteq> CostPerMillionTokensUSD \<and> n \<noteq> CloudEquivalentCostUSD \<and> n \<noteq> SavingsVsCloudUSD \<and> n \<noteq> SavingsVsCloudPercent"
  by (auto simp: costGaugeNames_def gauge_defs gauge_name_def)

lemma cost_gauges_distinct [simp]: "HourlyCostUSD \<noteq> mAmortizationPerHour" "HourlyCostUSD \<noteq> mElectricityPerHour"
  "mAmortizationPerHour \<noteq> mElectricityPerHour" "mAmortizationPerHour \<noteq> HourlyCostUSD" "mElectricityPerHour \<noteq> HourlyCostUSD"
  "mElectricityPerHour \<noteq> mAmortizationPerHour"
  by (simp_all add: gauge_defs gauge_name_def)

lemma podLoop_cost_gauges:
  assumes "n \<in> costGaugeNames"
  shows "gauge_get (sc_gauges (podLoop fetch profile h clk i pods s)) n ls = gauge_get (sc_gauges s) n ls"
proof -
  have "gauge_get (sc_gauges (scrapeOne h s x)) n ls = gauge_get (sc_gauges s) n ls" for s x
    using cost_gauges_differ [OF assms] by (cases x) (simp add: scrapeOne_def updateRates_other recordTokens_def)
  then have "gauge_get (sc_gauges (foldl (scrapeOne h) s xs)) n ls = gauge_get (sc_gauges s) n ls" for xs
    by (induction xs arbitrary: s) simp_all
  then show ?thesis by (simp add: podLoop_foldl)
qed

lemma comparisonGauges_other:
  "n \<noteq> CloudEquivalentCostUSD \<Longrightarrow> n \<noteq> SavingsVsCloudUSD \<Longrightarrow> n \<noteq> SavingsVsCloudPercent \<Longrightarrow>
    gauge_get (comparisonGauges cs g) n ls = gauge_get g n ls"
  unfolding comparisonGauges_def by (induction cs arbitrary: g) simp_all

lemma pricing_stable: "DefaultCloudPricing embedded st = (Inr rates, st') \<Longrightarrow> fst (DefaultCloudPricing embedded st') = Inr rates"
  by (auto simp: DefaultCloudPricing_def DefaultCloudPricingCatalog_def split: option.splits sum.splits)

lemma compareCloud_frame:
  assumes "compareCloud embedded now profile h input output w = (ok, w')"
  shows "w_kube w' = w_kube w \<and> w_sampler w' = w_sampler w \<and> w_snapshots w' = w_snapshots w
    \<and> (\<forall>n \<in> costGaugeNames. \<forall>ls. gauge_get (w_gauges w') n ls = gauge_get (w_gauges w) n ls)
    \<and> (\<not> ok \<longrightarrow> (\<exists>e. fst (DefaultCloudPricing embedded (w_pricing w)) = Inl e))
    \<and> rel_option keepsSlots (w_api w) (w_api w')"
proof (cases "0 <s input + output")
  case True
  obtain pricing pst where P: "DefaultCloudPricing embedded (w_pricing w) = (pricing, pst)" by (metis surj_pair)
  show ?thesis
  proof (cases pricing)
    case (Inl e)
    then show ?thesis using True assms P by (auto simp: compareCloud_def Let_def option.rel_refl)
  next
    case (Inr rates)
    have s: "fst (DefaultCloudPricing embedded pst) = Inr rates" using pricing_stable P Inr by blast
    have g: "\<forall>n \<in> costGaugeNames. \<forall>ls. gauge_get (comparisonGauges cs g) n ls = gauge_get g n ls" for cs g
      using comparisonGauges_other cost_gauges_differ by blast
    show ?thesis using True assms g
      unfolding compareCloud_def P Inr Let_def prod.case sum.case BuildComparisons_def
      by (cases "w_api w") (auto simp: s)
  qed
qed (use assms in \<open>auto simp: compareCloud_def option.rel_refl\<close>)

lemma scrape_frame:
  assumes "scrapeInferencePods listPods fetch embedded clk now profile h w = ((ok, e), w')"
  shows "w_kube w' = w_kube w \<and> w_sampler w' = w_sampler w
    \<and> (\<forall>n \<in> costGaugeNames. \<forall>ls. gauge_get (w_gauges w') n ls = gauge_get (w_gauges w) n ls)
    \<and> (\<not> ok \<longrightarrow> (\<exists>e. fst (DefaultCloudPricing embedded (w_pricing w)) = Inl e))
    \<and> rel_option keepsSlots (w_api w) (w_api w')"
proof (cases "listPods (w_kube w)")
  case (Inl err)
  then show ?thesis using assms by (auto simp: scrapeInferencePods_def option.rel_refl)
next
  case (Inr pods)
  define s where "s = podLoop fetch profile h clk 0 pods
    \<lparr>sc_gauges = w_gauges w, sc_snapshots = w_snapshots w, sc_input = 0, sc_output = 0, sc_models = []\<rparr>"
  obtain ok' w1 where c: "compareCloud embedded now profile h (sc_input s) (sc_output s)
      (w\<lparr>w_gauges := sc_gauges s, w_snapshots := sc_snapshots s\<rparr>) = (ok', w1)" by (metis surj_pair)
  have r: "ok' = ok" "w' = (if ok then w1\<lparr>w_api := map_option (SetModels (sc_models s)) (w_api w1)\<rparr> else w1)"
    using assms unfolding scrapeInferencePods_def Inr sum.case Let_def s_def [symmetric] c by auto
  have g: "\<forall>n \<in> costGaugeNames. \<forall>ls. gauge_get (sc_gauges s) n ls = gauge_get (w_gauges w) n ls"
    by (simp add: s_def podLoop_cost_gauges)
  have "rel_option keepsSlots a (map_option (SetModels ms) b)" if "rel_option keepsSlots a b" for a b ms
    using that by (cases a; cases b) (auto intro: keepsSlots_trans)
  then show ?thesis using compareCloud_frame [OF c] g r by auto
qed

subsection \<open>A whole reconcile\<close>

definition costLabels :: "CostProfile \<Rightarrow> gostring list" where
  "costLabels profile = [om_Name (prof_Meta profile), if nodeOf profile = [] then ''unknown'' else nodeOf profile]"

lemma costGauges_get: "gauge_get (costGauges profile (amort, elec, tot) g) n ls =
    (if n = mElectricityPerHour \<and> ls = costLabels profile then Some elec
     else if n = mAmortizationPerHour \<and> ls = costLabels profile then Some amort
     else if n = HourlyCostUSD \<and> ls = costLabels profile @ [hs_GPUModel (cps_Hardware (prof_Spec profile))] then Some tot
     else gauge_get g n ls)"
  by (auto simp: costGauges_def Let_def costLabels_def)

lemma cost_names [simp]: "HourlyCostUSD \<in> costGaugeNames" "mAmortizationPerHour \<in> costGaugeNames" "mElectricityPerHour \<in> costGaugeNames"
  by (simp_all add: costGaugeNames_def)

text \<open>What a reconcile of a known profile writes, in terms of the power it read.\<close>

definition writtenProfile :: "condition_ops \<Rightarrow> CostProfile \<Rightarrow> f64 \<Rightarrow> Condition \<Rightarrow> gotime \<Rightarrow> CostProfile" where
  "writtenProfile C profile w powerCondition now = profile\<lparr>prof_Status :=
     costStatus C (ComputeHourlyCost (hardwareOf profile) w) w powerCondition now (prof_Status profile)\<rparr>"

lemma cost_Reconcile_found:
  assumes "kc_getProfile K (w_kube w) rns rname = Inr profile" and "readPower fetch cfg profile (w_gauges w) = (pw, c, g)"
  obtains ok e w3 where "scrapeInferencePods (kc_listPods K) fetch embedded (k_pods clk) (k_compare clk) profile
      (snd (snd (ComputeHourlyCost (hardwareOf profile) pw)))
      (w\<lparr>w_sampler := map_option (recordPower St (k_sample clk) profile pw) (w_sampler w),
         w_gauges := costGauges profile (ComputeHourlyCost (hardwareOf profile) pw) g\<rparr>) = ((ok, e), w3)"
    and "CostProfile_Reconcile C K St cfg fetch embedded clk rns rname w = (if \<not> ok then (Panicked, w3)
      else (case kc_updateStatus K (writtenProfile C profile pw c (k_status clk)) (w_kube w3) of
        Inl err \<Rightarrow> (Failed err, w3)
      | Inr k \<Rightarrow> (Done \<lparr>RequeueAfter = reconcileInterval\<rparr>, w3\<lparr>w_kube := k,
          w_api := map_option (SetCostData (costData profile (ComputeHourlyCost (hardwareOf profile) pw) pw (k_uptime clk) (k_updated clk))) (w_api w3)\<rparr>)))"
proof -
  obtain ok e w3 where s: "scrapeInferencePods (kc_listPods K) fetch embedded (k_pods clk) (k_compare clk) profile
      (snd (snd (ComputeHourlyCost (hardwareOf profile) pw)))
      (w\<lparr>w_sampler := map_option (recordPower St (k_sample clk) profile pw) (w_sampler w),
         w_gauges := costGauges profile (ComputeHourlyCost (hardwareOf profile) pw) g\<rparr>) = ((ok, e), w3)" by (metis surj_pair)
  have d: "costData (writtenProfile C profile pw c (k_status clk)) cost pw u v = costData profile cost pw u v" for cost u v
    by (simp add: costData_def writtenProfile_def hoursSince_def)
  show thesis
    by (rule that [OF s]) (simp add: CostProfile_Reconcile_def assms Let_def s d [unfolded writtenProfile_def] writtenProfile_def
        split: sum.split)
qed

lemma cost_reconcile_effect:
  assumes "kc_getProfile K (w_kube w) rns rname = Inr profile" and "readPower fetch cfg profile (w_gauges w) = (pw, c, g)"
    and "ComputeHourlyCost (hardwareOf profile) pw = (amort, elec, tot)"
    and "CostProfile_Reconcile C K St cfg fetch embedded clk rns rname w = (res, w')"
  shows "gauge_get (w_gauges w') mAmortizationPerHour (costLabels profile) = Some amort
    \<and> gauge_get (w_gauges w') mElectricityPerHour (costLabels profile) = Some elec
    \<and> gauge_get (w_gauges w') HourlyCostUSD (costLabels profile @ [hs_GPUModel (cps_Hardware (prof_Spec profile))]) = Some tot
    \<and> w_sampler w' = map_option (recordPower St (k_sample clk) profile pw) (w_sampler w)
    \<and> (case res of
         Done r \<Rightarrow> RequeueAfter r = 30 * nsSecond
           \<and> kc_updateStatus K (writtenProfile C profile pw c (k_status clk)) (w_kube w) = Inr (w_kube w')
           \<and> rel_option (\<lambda>s s'. keepsSlots (SetCostData (costData profile (amort, elec, tot) pw (k_uptime clk) (k_updated clk)) s) s') (w_api w) (w_api w')
       | Failed err \<Rightarrow> kc_updateStatus K (writtenProfile C profile pw c (k_status clk)) (w_kube w) = Inl err
           \<and> w_kube w' = w_kube w \<and> rel_option keepsSlots (w_api w) (w_api w')
       | Panicked \<Rightarrow> (\<exists>e. fst (DefaultCloudPricing embedded (w_pricing w)) = Inl e)
           \<and> w_kube w' = w_kube w \<and> rel_option keepsSlots (w_api w) (w_api w'))"
proof (rule cost_Reconcile_found [OF assms(1,2), where C = C and St = St and embedded = embedded and clk = clk])
  let ?cost = "ComputeHourlyCost (hardwareOf profile) pw"
  fix ok e w3
  assume s: "scrapeInferencePods (kc_listPods K) fetch embedded (k_pods clk) (k_compare clk) profile (snd (snd ?cost))
      (w\<lparr>w_sampler := map_option (recordPower St (k_sample clk) profile pw) (w_sampler w), w_gauges := costGauges profile ?cost g\<rparr>) = ((ok, e), w3)"
    and R: "CostProfile_Reconcile C K St cfg fetch embedded clk rns rname w = (if \<not> ok then (Panicked, w3)
      else (case kc_updateStatus K (writtenProfile C profile pw c (k_status clk)) (w_kube w3) of
        Inl err \<Rightarrow> (Failed err, w3)
      | Inr k \<Rightarrow> (Done \<lparr>RequeueAfter = reconcileInterval\<rparr>, w3\<lparr>w_kube := k,
          w_api := map_option (SetCostData (costData profile ?cost pw (k_uptime clk) (k_updated clk))) (w_api w3)\<rparr>)))"
  note f = scrape_frame [OF s, simplified]
  have g: "gauge_get (w_gauges w3) n ls = gauge_get (costGauges profile ?cost g) n ls" if "n \<in> costGaugeNames" for n ls
    using f that by blast
  have m: "rel_option (\<lambda>s s'. keepsSlots (SetCostData d s) s') (w_api w) (map_option (SetCostData d) (w_api w3))" for d
    using f by (cases "w_api w"; cases "w_api w3") (auto simp: keepsSlots_def store_defs)
  have w': "w_gauges w' = w_gauges w3" "w_sampler w' = w_sampler w3"
    using assms(4) unfolding R by (auto split: if_splits sum.splits)
  have G: "gauge_get (w_gauges w') mAmortizationPerHour (costLabels profile) = Some amort
    \<and> gauge_get (w_gauges w') mElectricityPerHour (costLabels profile) = Some elec
    \<and> gauge_get (w_gauges w') HourlyCostUSD (costLabels profile @ [hs_GPUModel (cps_Hardware (prof_Spec profile))]) = Some tot"
    by (simp add: w' g costGauges_get assms(3))
  show ?thesis using assms(4) G f m unfolding R w'(2)
    by (auto simp: assms(3) reconcileInterval_def split: if_splits sum.splits)
qed

text \<open>C2 A reconcile of a CostProfile publishes one cost.  Whatever its outcome, the amortization, electricity and total gauges carry
  the figures \<open>ComputeHourlyCost\<close> gives for the economics of the spec and the power that was read, and the shared sampler has been given that power and
  the idle threshold, under the key of namespace and name.  When it succeeds, the status written to the cluster carries the same three figures, the same power and the time,
  its metadata and spec unchanged; the cost slot of the API store carries them too, with the projections computed from the total and the economics of the spec; and it comes
  back in thirty seconds.  When the status write fails, or the pricing catalog is malformed (the only panic), the cost
  slot is untouched; the namespace, budget and break-even slots are never touched.\<close>

theorem cost_reconcile_consistent:
  assumes "kc_getProfile K (w_kube w) rns rname = Inr profile" and "readPower fetch cfg profile (w_gauges w) = (pw, c, g)"
    and "meta = prof_Meta profile" and "hw = cps_Hardware (prof_Spec profile)" and "el = cps_Electricity (prof_Spec profile)"
    and "ComputeHourlyCost \<lparr>PurchasePriceUSD = hs_PurchasePriceUSD hw, AmortizationYears = hs_AmortizationYears hw,
        MaintenancePercentPerYear = hs_MaintenancePercentPerYear hw, RatePerKWh = es_RatePerKWh el, PUEFactor = es_PUEFactor el\<rparr> pw = (amort, elec, tot)"
    and "labels = [om_Name meta, if nodeOf profile = [] then ''unknown'' else nodeOf profile]"
    and "CostProfile_Reconcile C K St cfg fetch embedded clk rns rname w = (res, w')"
  shows "gauge_get (w_gauges w') mAmortizationPerHour labels = Some amort
    \<and> gauge_get (w_gauges w') mElectricityPerHour labels = Some elec
    \<and> gauge_get (w_gauges w') HourlyCostUSD (labels @ [hs_GPUModel hw]) = Some tot
    \<and> w_sampler w' = map_option (\<lambda>s. snd (Record St (k_sample clk) (om_Namespace meta @ ''/'' @ om_Name meta) pw (resolveIdleThreshold profile) s)) (w_sampler w)
    \<and> (\<exists>p st. prof_Meta p = meta \<and> prof_Spec p = prof_Spec profile \<and> prof_Status p = st
        \<and> cpt_HourlyCostUSD st = tot \<and> cpt_AmortizationRatePerHour st = amort \<and> cpt_ElectricityCostPerHour st = elec
        \<and> cpt_CurrentPowerDrawWatts st = pw \<and> cpt_LastUpdated st = Some (k_status clk)
        \<and> (case res of
         Done r \<Rightarrow> RequeueAfter r = 30 * nsSecond \<and> kc_updateStatus K p (w_kube w) = Inr (w_kube w')
           \<and> rel_option (\<lambda>s s'. GetCostData s' = Some
                \<lparr>cd_ProfileName = om_Name meta, cd_GPUModel = hs_GPUModel hw, cd_GPUCount = hs_GPUCount hw,
                 cd_HourlyCostUSD = tot, cd_AmortizationPerHr = amort, cd_ElectricityPerHr = elec, cd_PowerDrawWatts = pw,
                 cd_MonthlyProjected = tot * lit 24 * lit 30, cd_YearlyProjected = tot * lit 8760,
                 cd_PurchasePriceUSD = hs_PurchasePriceUSD hw, cd_AmortizationYears = hs_AmortizationYears hw,
                 cd_RatePerKWh = es_RatePerKWh el, cd_PUEFactor = es_PUEFactor el,
                 cd_UptimeHours = Hours (time_Sub (k_uptime clk) (om_CreationTimestamp meta)), cd_LastUpdated = k_updated clk\<rparr>
               \<and> GetNamespaceCosts s' = GetNamespaceCosts s \<and> GetBudgets s' = GetBudgets s \<and> GetBreakEven s' = GetBreakEven s) (w_api w) (w_api w')
       | Failed err \<Rightarrow> kc_updateStatus K p (w_kube w) = Inl err \<and> w_kube w' = w_kube w
           \<and> rel_option (\<lambda>s s'. GetCostData s' = GetCostData s \<and> GetNamespaceCosts s' = GetNamespaceCosts s
               \<and> GetBudgets s' = GetBudgets s \<and> GetBreakEven s' = GetBreakEven s) (w_api w) (w_api w')
       | Panicked \<Rightarrow> (\<exists>e. fst (DefaultCloudPricing embedded (w_pricing w)) = Inl e) \<and> w_kube w' = w_kube w
           \<and> rel_option (\<lambda>s s'. GetCostData s' = GetCostData s \<and> GetNamespaceCosts s' = GetNamespaceCosts s
               \<and> GetBudgets s' = GetBudgets s \<and> GetBreakEven s' = GetBreakEven s) (w_api w) (w_api w')))"
proof -
  let ?p = "writtenProfile C profile pw c (k_status clk)"
  have h: "ComputeHourlyCost (hardwareOf profile) pw = (amort, elec, tot)" using assms(6) by (simp add: hardwareOf_def assms(4,5) Let_def)
  have l: "costLabels profile = labels" by (simp add: costLabels_def assms(3,7))
  have m: "recordPower St t profile pw s = snd (Record St t (om_Namespace meta @ ''/'' @ om_Name meta) pw (resolveIdleThreshold profile) s)" for t s
    by (simp add: recordPower_def sampleKeyFor_def assms(3) case_prod_unfold)
  have p: "prof_Meta ?p = meta" "prof_Spec ?p = prof_Spec profile" "cpt_HourlyCostUSD (prof_Status ?p) = tot" "cpt_AmortizationRatePerHour (prof_Status ?p) = amort"
    "cpt_ElectricityCostPerHour (prof_Status ?p) = elec" "cpt_CurrentPowerDrawWatts (prof_Status ?p) = pw" "cpt_LastUpdated (prof_Status ?p) = Some (k_status clk)"
    by (simp_all add: writtenProfile_def costStatus_def h assms(3))
  note E = cost_reconcile_effect [OF assms(1,2) h assms(8), unfolded l m]
  have d: "GetCostData (SetCostData x s) = Some x" "GetNamespaceCosts (SetCostData x s) = GetNamespaceCosts s"
    "GetBudgets (SetCostData x s) = GetBudgets s" "GetBreakEven (SetCostData x s) = GetBreakEven s" for x s
    by (simp_all add: store_defs)
  show ?thesis
    using E by (intro conjI exI [of _ ?p] exI [of _ "prof_Status ?p"] p refl)
      (auto simp: keepsSlots_def d costData_def hoursSince_def Let_def assms(3-5) split: outcome.splits elim!: option.rel_mono_strong)
qed

definition demo_cost_client :: "unit cost_client" where
  "demo_cost_client = \<lparr>kc_getProfile = \<lambda>_ _ _. Inr demo_gpu_profile, kc_listPods = \<lambda>_. Inr demo_pods, kc_updateStatus = \<lambda>_ k. Inr k\<rparr>"

definition demo_config :: powerConfig where
  "demo_config = \<lparr>DCGMEndpoint = ''http://dcgm:9400/metrics'', MetalEndpoint = []\<rparr>"

definition demo_clock :: "gotime \<Rightarrow> costClock" where
  "demo_clock t = \<lparr>k_sample = t, k_pods = \<lambda>i. t, k_compare = t, k_status = t, k_uptime = t, k_updated = t\<rparr>"

text \<open>A cluster of one profile and no pods, which takes every status write.\<close>

definition one_profile :: "CostProfile cost_client" where
  "one_profile = \<lparr>kc_getProfile = \<lambda>p _ _. Inr p, kc_listPods = \<lambda>_. Inr [], kc_updateStatus = \<lambda>q _. Inr q\<rparr>"

lemma demo_power: "fst (readPower demo_dcgm demo_config demo_gpu_profile g) = lit 95"
proof -
  obtain pw c g' where p: "readPower demo_dcgm demo_config demo_gpu_profile g = (pw, c, g')" by (metis surj_pair)
  have "0 + lit 95 = lit 95" "\<not> feq (0 + lit 95) 0" by code_simp+
  then have "pw = lit 95" using readPower_honest(2) [OF p] demo_measured by (simp add: demo_config_def)
  then show ?thesis by (simp add: p)
qed

theorem cost_reconcile_consistent_witness:
  "case CostProfile_Reconcile std_conditions one_profile (bolt_store mem_bbolt) demo_config demo_dcgm (Inr emptyCatalog)
      (demo_clock (unixEpoch + nsHour)) ''finops'' ''gpu'' ((demo_world demo_gpu_profile)\<lparr>w_sampler := Some demo_sampler\<rparr>) of (res, w') \<Rightarrow>
    (\<exists>d amort elec tot. ComputeHourlyCost \<lparr>PurchasePriceUSD = lit 960, AmortizationYears = 3, MaintenancePercentPerYear = 0,
        RatePerKWh = lit (8/100), PUEFactor = lit 1\<rparr> (lit 95) = (amort, elec, tot)
      \<and> res = Done \<lparr>RequeueAfter = 30 * nsSecond\<rparr>
      \<and> gauge_get (w_gauges w') HourlyCostUSD [''gpu'', ''gpu-1'', ''RTX 5060 Ti''] = Some tot
      \<and> cpt_HourlyCostUSD (prof_Status (w_kube w')) = tot \<and> cpt_CurrentPowerDrawWatts (prof_Status (w_kube w')) = lit 95
      \<and> map_option GetCostData (w_api w') = Some (Some d) \<and> cd_HourlyCostUSD d = tot \<and> cd_AmortizationPerHr d = amort
      \<and> cd_ElectricityPerHr d = elec \<and> cd_PowerDrawWatts d = lit 95 \<and> cd_MonthlyProjected d = tot * lit 24 * lit 30
      \<and> map_option (\<lambda>s. samples_of s ''finops/gpu'') (w_sampler w')
          = Some [newSample (unixEpoch + nsHour) (lit 95) (resolveIdleThreshold demo_gpu_profile)])"
proof -
  let ?w = "(demo_world demo_gpu_profile)\<lparr>w_sampler := Some demo_sampler\<rparr>" and ?now = "unixEpoch + nsHour"
  obtain res w' where r: "CostProfile_Reconcile std_conditions one_profile (bolt_store mem_bbolt) demo_config demo_dcgm (Inr emptyCatalog)
      (demo_clock ?now) ''finops'' ''gpu'' ?w = (res, w')" by (metis surj_pair)
  obtain c g where p: "readPower demo_dcgm demo_config demo_gpu_profile (w_gauges ?w) = (lit 95, c, g)" using demo_power by (metis prod.collapse)
  obtain a e t where h: "ComputeHourlyCost \<lparr>PurchasePriceUSD = lit 960, AmortizationYears = 3, MaintenancePercentPerYear = 0,
        RatePerKWh = lit (8/100), PUEFactor = lit 1\<rparr> (lit 95) = (a, e, t)" by (metis surj_pair)
  let ?hw = "cps_Hardware (prof_Spec demo_gpu_profile)" and ?el = "cps_Electricity (prof_Spec demo_gpu_profile)"
  have h': "ComputeHourlyCost \<lparr>PurchasePriceUSD = hs_PurchasePriceUSD ?hw, AmortizationYears = hs_AmortizationYears ?hw,
        MaintenancePercentPerYear = hs_MaintenancePercentPerYear ?hw, RatePerKWh = es_RatePerKWh ?el, PUEFactor = es_PUEFactor ?el\<rparr> (lit 95) = (a, e, t)"
    using h by (simp add: demo_gpu_profile_def)
  have k: "kc_getProfile one_profile (w_kube ?w) ''finops'' ''gpu'' = Inr demo_gpu_profile"
    and u: "kc_updateStatus one_profile q k = Inr q" for q k by (simp_all add: one_profile_def demo_world_def)
  have n: "fst (DefaultCloudPricing (Inr emptyCatalog) (w_pricing (demo_world demo_gpu_profile))) = Inr (Flatten emptyCatalog)"
    by (simp add: DefaultCloudPricing_def DefaultCloudPricingCatalog_def demo_world_def)
  obtain err s' where R: "Record (bolt_store mem_bbolt) ?now ''finops/gpu'' (lit 95) (resolveIdleThreshold demo_gpu_profile) demo_sampler = (err, s')"
    by (metis surj_pair)
  have none: "err = None" using Record_persists [OF R] by (simp add: persists_def demo_sampler_def NewSampler_def)
  have "0 \<le> sm_retention demo_sampler" by (simp add: demo_sampler_def NewSampler_def DefaultRetention_def nsHour_def)
  then have s: "samples_of s' ''finops/gpu'' = [newSample ?now (lit 95) (resolveIdleThreshold demo_gpu_profile)]"
    using Record_effect [OF window_ok_demo order_refl _ R] none by (simp add: samples_of_demo)
  have m: "prof_Meta demo_gpu_profile = \<lparr>om_Name = ''gpu'', om_Namespace = ''finops'', om_CreationTimestamp = 0\<rparr>"
    "nodeOf demo_gpu_profile = ''gpu-1''" "hs_GPUModel ?hw = ''RTX 5060 Ti''"
    by (simp_all add: demo_gpu_profile_def nodeOf_def gm_get_def)
  note T = cost_reconcile_consistent [OF k p refl refl refl h' refl r]
  have dn: "\<exists>x. res = Done x" using T by (cases res) (auto simp: u n)
  then obtain x where x: "res = Done x" by blast
  have rd: "RequeueAfter x = 30 * nsSecond" and G: "gauge_get (w_gauges w') HourlyCostUSD [''gpu'', ''gpu-1'', ''RTX 5060 Ti''] = Some t"
    and S: "w_sampler w' = Some s'"
    using T by (auto simp: x m demo_clock_def R)
  have st: "cpt_HourlyCostUSD (prof_Status (w_kube w')) = t" "cpt_CurrentPowerDrawWatts (prof_Status (w_kube w')) = lit 95"
    using T by (auto simp: x u)
  have "w_api ?w = Some NewStore" by (simp add: demo_world_def)
  then obtain s2 d where "w_api w' = Some s2" "GetCostData s2 = Some d" "cd_HourlyCostUSD d = t" "cd_AmortizationPerHr d = a"
    "cd_ElectricityPerHr d = e" "cd_PowerDrawWatts d = lit 95" "cd_MonthlyProjected d = t * lit 24 * lit 30"
    using T by (cases "w_api w'") (auto simp: x)
  moreover have "x = \<lparr>RequeueAfter = 30 * nsSecond\<rparr>" using rd by (cases x) simp
  ultimately show ?thesis using r h x G st S s by auto
qed

text \<open>C11 No silent fallback.  The status a reconcile writes says how its power figure was obtained: the condition of the backend that applies is True
  exactly when the backend answered with a draw that is not zero, which is then the power the costs are computed from;
  it is Unknown exactly when it answered zero and False when it is not configured or could not be asked, and then the power is
  the TDP of the spec.  The profile is Ready, and its other conditions are as before.\<close>

theorem written_status_honest:
  assumes "status_conditions C" and "readPower fetch cfg profile g = (pw, c, g')"
    and "st = prof_Status (writtenProfile C profile pw c now)"
    and "ty = (if usesMetal cfg profile then ConditionMetalReachable else ConditionDCGMReachable)"
  shows "(\<exists>x. cs_find C (cpt_Conditions st) ty = Some x \<and> c_Status x = (case measured fetch cfg profile of
        None \<Rightarrow> ConditionFalse | Some w \<Rightarrow> if feq w 0 then ConditionUnknown else ConditionTrue))
    \<and> cpt_CurrentPowerDrawWatts st = (case measured fetch cfg profile of
        None \<Rightarrow> fallbackPowerDraw profile | Some w \<Rightarrow> if feq w 0 then fallbackPowerDraw profile else w)
    \<and> (cpt_AmortizationRatePerHour st, cpt_ElectricityCostPerHour st, cpt_HourlyCostUSD st)
        = ComputeHourlyCost (hardwareOf profile) (cpt_CurrentPowerDrawWatts st)
    \<and> (\<exists>x. cs_find C (cpt_Conditions st) ''Ready'' = Some x \<and> c_Status x = ConditionTrue)
    \<and> (\<forall>t. t \<noteq> ''Ready'' \<and> t \<noteq> ty \<longrightarrow> cs_find C (cpt_Conditions st) t = cs_find C (cpt_Conditions (prof_Status profile)) t)"
proof -
  obtain a e tot where h: "ComputeHourlyCost (hardwareOf profile) pw = (a, e, tot)" by (metis surj_pair)
  let ?ready = "readyCondition (a, e, tot) now" and ?c = "c\<lparr>c_LastTransitionTime := now\<rparr>"
  have st: "cpt_Conditions st = cs_set C (cs_set C (cpt_Conditions (prof_Status profile)) ?ready) ?c"
    "cpt_CurrentPowerDrawWatts st = pw" "cpt_AmortizationRatePerHour st = a" "cpt_ElectricityCostPerHour st = e" "cpt_HourlyCostUSD st = tot"
    by (simp_all add: assms(3) writtenProfile_def costStatus_def h)
  note honest = readPower_honest [OF assms(2)]
  have ty: "c_Type ?c = ty" using honest(1) by (simp add: assms(4))
  have ready: "c_Type ?ready = ''Ready''" "c_Status ?ready = ConditionTrue" by (simp_all add: readyCondition_def)
  have ne: "ty \<noteq> ''Ready''" by (simp add: assms(4) ConditionMetalReachable_def ConditionDCGMReachable_def)
  note same = status_conditions.set_same [OF assms(1)] and other = status_conditions.set_other [OF assms(1)]
  have 1: "\<exists>x. cs_find C (cpt_Conditions st) ty = Some x \<and> c_Status x = c_Status c"
    using same [of "cs_set C (cpt_Conditions (prof_Status profile)) ?ready" ?c] ty by (auto simp: st)
  have 2: "\<exists>x. cs_find C (cpt_Conditions st) ''Ready'' = Some x \<and> c_Status x = ConditionTrue"
    using same [of "cpt_Conditions (prof_Status profile)" ?ready]
      other [of "''Ready''" ?c "cs_set C (cpt_Conditions (prof_Status profile)) ?ready"] ty ne ready by (auto simp: st)
  have 3: "cs_find C (cpt_Conditions st) t = cs_find C (cpt_Conditions (prof_Status profile)) t" if "t \<noteq> ''Ready''" "t \<noteq> ty" for t
    using other [of t ?c "cs_set C (cpt_Conditions (prof_Status profile)) ?ready"]
      other [of t ?ready "cpt_Conditions (prof_Status profile)"] that ty ready by (simp add: st)
  show ?thesis using 1 2 3 honest(2) unfolding st(2-5) h by (auto split: option.splits if_splits)
qed

theorem written_status_honest_witness:
  "\<exists>x. cs_find std_conditions (cpt_Conditions (prof_Status (writtenProfile std_conditions demo_gpu_profile
      (fst (readPower demo_dcgm demo_config demo_gpu_profile [])) (fst (snd (readPower demo_dcgm demo_config demo_gpu_profile []))) 0)))
      ConditionDCGMReachable = Some x \<and> c_Status x = ConditionTrue"
proof -
  have "\<not> feq (0 + lit 95) 0" by code_simp
  moreover have "\<not> usesMetal demo_config demo_gpu_profile" by (simp add: usesMetal_def demo_config_def)
  ultimately show ?thesis
    using written_status_honest [OF std.status_conditions_axioms _ refl refl, where fetch = demo_dcgm and cfg = demo_config
        and profile = demo_gpu_profile and g = "[]" and now = 0] demo_measured
    by (auto simp: demo_config_def prod_eq_iff)
qed

end
