(* ===== verification/ReportCompute.thy ===== *)
theory ReportCompute
  imports CtlCommon
begin

text \<open>
  \<open>internal/controller/usagereport_controller.go\<close>, what a report is computed from: the period, the token
  counts scraped from the pods, their cost breakdown and the break-even analysis.  The scraped endpoints, the
  clock and the order in which each \<open>range\<close> over a map visits it are arguments.
\<close>

definition usageReportReconcileInterval :: duration where
  "usageReportReconcileInterval = 5 * nsMinute"

record modelKey =
  mk_model :: gostring
  mk_namespace :: gostring

record tokenCounts =
  tc_input :: int64
  tc_output :: int64

type_synonym modelTokens = "(modelKey, tokenCounts) gomap"
type_synonym nsTokens = "(gostring, tokenCounts) gomap"

record 'k report_client =
  rc_getReport :: "'k \<Rightarrow> gostring \<Rightarrow> gostring \<Rightarrow> kerror + UsageReport"
  rc_getProfile :: "'k \<Rightarrow> gostring \<Rightarrow> gostring \<Rightarrow> kerror + CostProfile"
  rc_listPods :: "'k \<Rightarrow> kerror + Pod list"
  rc_updateStatus :: "UsageReport \<Rightarrow> 'k \<Rightarrow> kerror + 'k"

subsection \<open>Periods\<close>

definition computePeriodStart :: "ReportSchedule \<Rightarrow> gotime \<Rightarrow> gotime" where
  "computePeriodStart schedule now =
    (if schedule = ReportScheduleWeekly then
       let weekday = Weekday now; weekday = (if weekday = 0 then 7 else weekday); daysSinceMonday = weekday - 1
       in time_Date (time_Year now) (time_Month now) (time_Day now - daysSinceMonday)
     else if schedule = ReportScheduleMonthly then time_Date (time_Year now) (time_Month now) 1
     else time_Date (time_Year now) (time_Month now) (time_Day now))"

text \<open>A field of \<open>Time.Format\<close>: the sign in front of \<open>w\<close> digits.\<close>

definition formatField :: "nat \<Rightarrow> int \<Rightarrow> gostring" where
  "formatField w n = (if n < 0 then ''-'' @ zpad w (udec (- n)) else zpad w (udec n))"

definition formatPeriod :: "ReportSchedule \<Rightarrow> gotime \<Rightarrow> gostring" where
  "formatPeriod schedule start =
    (if schedule = ReportScheduleWeekly then
       let (year, week) = ISOWeek start in show_int year @ ''-W'' @ zpad_int 2 week
     else if schedule = ReportScheduleMonthly then formatField 4 (time_Year start) @ ''-'' @ formatField 2 (time_Month start)
     else formatField 4 (time_Year start) @ ''-'' @ formatField 2 (time_Month start) @ ''-'' @ formatField 2 (time_Day start))"

definition periodBounds :: "ReportSchedule \<Rightarrow> gotime \<Rightarrow> gotime \<times> gotime \<times> f64" where
  "periodBounds schedule now =
    (let start = computePeriodStart schedule now; hours = Hours (time_Sub now start);
         hours = (if hours < lit (1/1000) then lit (1/1000) else hours)
     in (start, now, hours))"

subsection \<open>Scraping\<close>

definition nsFilterOf :: "gostring list \<Rightarrow> (gostring, bool) gomap" where
  "nsFilterOf namespaces = fold (\<lambda>ns m. gm_put ns True m) namespaces []"

definition podIsScrapeable :: "Pod \<Rightarrow> (gostring, bool) gomap \<Rightarrow> bool" where
  "podIsScrapeable pod nsFilter =
    (if gm_get [] (pod_Labels pod) modelLabel = [] then False
     else if pod_Phase pod \<noteq> ''Running'' \<or> pod_IP pod = [] then False
     else if 0 < length nsFilter \<and> \<not> gm_get False nsFilter (pod_Namespace pod) then False
     else True)"

definition zeroCounts :: tokenCounts where
  "zeroCounts = \<lparr>tc_input = 0, tc_output = 0\<rparr>"

definition addTokens :: "'a \<Rightarrow> int64 \<Rightarrow> int64 \<Rightarrow> ('a, tokenCounts) gomap \<Rightarrow> ('a, tokenCounts) gomap" where
  "addTokens key input output m =
    (let existing = gm_get zeroCounts m key
     in gm_put key \<lparr>tc_input = tc_input existing + input, tc_output = tc_output existing + output\<rparr> m)"

text \<open>What the body of the loop reads off one pod, \<open>None\<close> on its two \<open>continue\<close>s.\<close>

definition podTokens :: "fetcher \<Rightarrow> (gostring, bool) gomap \<Rightarrow> Pod \<Rightarrow> (modelKey \<times> int64 \<times> int64) option" where
  "podTokens fetch nsFilter pod =
    (if \<not> podIsScrapeable pod nsFilter then None
     else (case scrapePod fetch pod of Inl err \<Rightarrow> None
      | Inr im \<Rightarrow> Some (\<lparr>mk_model = gm_get [] (pod_Labels pod) modelLabel, mk_namespace = pod_Namespace pod\<rparr>,
          int64_of_f (PromptTokensTotal im), int64_of_f (PredictedTokensTotal im))))"

fun scrapeLoop :: "fetcher \<Rightarrow> (gostring, bool) gomap \<Rightarrow> Pod list \<Rightarrow> modelTokens \<Rightarrow> nsTokens \<Rightarrow> modelTokens \<times> nsTokens" where
  "scrapeLoop fetch nsFilter [] modelT nsT = (modelT, nsT)"
| "scrapeLoop fetch nsFilter (pod # pods) modelT nsT = (case podTokens fetch nsFilter pod of
      None \<Rightarrow> scrapeLoop fetch nsFilter pods modelT nsT
    | Some (mk, input, output) \<Rightarrow>
        scrapeLoop fetch nsFilter pods (addTokens mk input output modelT) (addTokens (mk_namespace mk) input output nsT))"

definition scrapeTokens :: "'k report_client \<Rightarrow> fetcher \<Rightarrow> 'k \<Rightarrow> UsageReport \<Rightarrow> kerror + modelTokens \<times> nsTokens" where
  "scrapeTokens K fetch k report = (case rc_listPods K k of Inl err \<Rightarrow> Inl err
     | Inr pods \<Rightarrow> Inr (scrapeLoop fetch (nsFilterOf (urs_Namespaces (ur_Spec report))) pods [] []))"

subsection \<open>Breakdowns\<close>

text \<open>The orders of the four ranges of \<open>buildBreakdowns\<close>; the inner one runs once per namespace.\<close>

record visits =
  v_sum :: "modelTokens \<Rightarrow> modelTokens"
  v_model :: "modelTokens \<Rightarrow> modelTokens"
  v_ns :: "nsTokens \<Rightarrow> nsTokens"
  v_inner :: "gostring \<Rightarrow> modelTokens \<Rightarrow> modelTokens"

fun sumTokens :: "('a \<times> tokenCounts) list \<Rightarrow> int64 \<Rightarrow> int64 \<Rightarrow> int64 \<times> int64" where
  "sumTokens [] totalIn totalOut = (totalIn, totalOut)"
| "sumTokens ((k, t) # rest) totalIn totalOut = sumTokens rest (totalIn + tc_input t) (totalOut + tc_output t)"

definition shareOfCost :: "f64 \<Rightarrow> int64 \<Rightarrow> int64 \<Rightarrow> f64" where
  "shareOfCost totalCost part totalTokens =
    (if 0 <s totalTokens then totalCost * (f_of_int64 part / f_of_int64 totalTokens) else 0)"

definition modelRow :: "f64 \<Rightarrow> int64 \<Rightarrow> modelKey \<times> tokenCounts \<Rightarrow> ModelCostBreakdown" where
  "modelRow totalCost totalTokens = (\<lambda>(mk, t).
    (let modelTotal = tc_input t + tc_output t; modelCost = shareOfCost totalCost modelTotal totalTokens;
         costPerMillion = (if 0 <s modelTotal then modelCost / (f_of_int64 modelTotal / lit 1000000) else 0)
     in \<lparr>mb_Model = mk_model mk, mb_Namespace = mk_namespace mk, mb_InputTokens = tc_input t, mb_OutputTokens = tc_output t,
         mb_EstimatedCostUSD = modelCost, mb_CostPerMillionTokens = costPerMillion\<rparr>))"

definition namespaceRow :: "f64 \<Rightarrow> int64 \<Rightarrow> gostring \<times> tokenCounts \<Rightarrow> NamespaceCostBreakdown" where
  "namespaceRow totalCost totalTokens = (\<lambda>(ns, t). let nsTotal = tc_input t + tc_output t in
    \<lparr>nb_Namespace = ns, nb_EstimatedCostUSD = shareOfCost totalCost nsTotal totalTokens, nb_TokenCount = nsTotal\<rparr>)"

fun modelsOf :: "gostring \<Rightarrow> modelTokens \<Rightarrow> gostring list" where
  "modelsOf ns [] = []"
| "modelsOf ns ((mk, t) # rest) = (if mk_namespace mk = ns then mk_model mk # modelsOf ns rest else modelsOf ns rest)"

definition namespaceData :: "f64 \<Rightarrow> int64 \<Rightarrow> (gostring \<Rightarrow> gostring list) \<Rightarrow> gostring \<times> tokenCounts \<Rightarrow> NamespaceCostData" where
  "namespaceData totalCost totalTokens models = (\<lambda>(ns, t). let nsTotal = tc_input t + tc_output t in
    \<lparr>nc_Namespace = ns, nc_EstimatedCostUSD = shareOfCost totalCost nsTotal totalTokens, nc_TokenCount = nsTotal,
     nc_Models = models ns\<rparr>)"

definition buildBreakdowns :: "visits \<Rightarrow> modelTokens \<Rightarrow> nsTokens \<Rightarrow> f64
    \<Rightarrow> ModelCostBreakdown list \<times> NamespaceCostBreakdown list \<times> NamespaceCostData list \<times> int64 \<times> int64" where
  "buildBreakdowns V modelT nsT totalCost =
    (let (totalIn, totalOut) = sumTokens (v_sum V modelT) 0 0; totalTokens = totalIn + totalOut;
         visited = v_ns V nsT
     in (map (modelRow totalCost totalTokens) (v_model V modelT),
         map (namespaceRow totalCost totalTokens) visited,
         map (namespaceData totalCost totalTokens (\<lambda>ns. modelsOf ns (v_inner V ns modelT))) visited,
         totalIn, totalOut))"

subsection \<open>Break-even\<close>

definition defaultBreakEvenTargets :: "CloudTarget list" where
  "defaultBreakEvenTargets =
    [\<lparr>ct_Provider = ''OpenAI'', ct_Model = ''gpt-5.4-mini''\<rparr>,
     \<lparr>ct_Provider = ''Anthropic'', ct_Model = ''claude-sonnet-4-6''\<rparr>,
     \<lparr>ct_Provider = ''Google'', ct_Model = ''gemini-2.5-flash''\<rparr>]"

definition targetKey :: "gostring \<Rightarrow> gostring \<Rightarrow> gostring" where
  "targetKey provider model = to_lower provider @ ''/'' @ to_lower model"

definition pricingByKey :: "CloudPricing list \<Rightarrow> (gostring, CloudPricing) gomap" where
  "pricingByKey pricing = fold (\<lambda>p m. gm_put (targetKey (cp_Provider p) (cp_Model p)) p m) pricing []"

definition breakEvenEntry :: "f64 \<Rightarrow> f64 \<Rightarrow> int64 \<Rightarrow> int64 \<Rightarrow> CloudPricing \<Rightarrow> BreakEvenEntry" where
  "breakEvenEntry dailyHardwareCost currentTokensPerDay totalIn totalOut p =
    (let cpt = CloudCostPerToken p totalIn totalOut;
         breakEven = BreakEvenTokensPerDay dailyHardwareCost cpt;
         percent = PercentOfBreakEven currentTokensPerDay breakEven;
         verdict = (if 0 < breakEven \<and> breakEven \<le> currentTokensPerDay then ''on-prem-cheaper-at-current-utilization''
                    else ''cloud-cheaper-at-current-utilization'')
     in \<lparr>be_Provider = cp_Provider p, be_Model = cp_Model p,
         be_BreakEvenTokensPerDay = int64_of_f (math_Round breakEven),
         be_CurrentUtilizationTokensPerDay = int64_of_f (math_Round currentTokensPerDay),
         be_PercentOfBreakEven = percent, be_Verdict = verdict\<rparr>)"

fun breakEvenLoop :: "(gostring, CloudPricing) gomap \<Rightarrow> (CloudPricing \<Rightarrow> BreakEvenEntry) \<Rightarrow> CloudTarget list
    \<Rightarrow> BreakEvenEntry list \<times> gostring list" where
  "breakEvenLoop byKey entryOf [] = ([], [])"
| "breakEvenLoop byKey entryOf (t # ts) = (let (entries, unknown) = breakEvenLoop byKey entryOf ts in
    (case map_of byKey (targetKey (ct_Provider t) (ct_Model t)) of
       None \<Rightarrow> (entries, (ct_Provider t @ ''/'' @ ct_Model t) # unknown)
     | Some p \<Rightarrow> (entryOf p # entries, unknown)))"

definition breakEvenTargets :: "CostProfile \<Rightarrow> CloudTarget list" where
  "breakEvenTargets profile = (case cps_CloudComparison (prof_Spec profile) of
     Some cc \<Rightarrow> if 0 < length (ccs_Targets cc) then ccs_Targets cc else defaultBreakEvenTargets
   | None \<Rightarrow> defaultBreakEvenTargets)"

definition dailyCostOf :: "CostProfile \<Rightarrow> f64" where
  "dailyCostOf profile = DailyHardwareCost (cpt_AmortizationRatePerHour (prof_Status profile)) (resolveIdleThreshold profile)
     (es_RatePerKWh (cps_Electricity (prof_Spec profile))) (es_PUEFactor (cps_Electricity (prof_Spec profile)))"

definition tokensPerDay :: "int64 \<Rightarrow> int64 \<Rightarrow> f64 \<Rightarrow> f64" where
  "tokensPerDay totalIn totalOut hoursInPeriod =
    (if 0 < hoursInPeriod then (f_of_int64 (totalIn + totalOut) / hoursInPeriod) * lit 24 else 0)"

definition computeBreakEven :: "CloudPricing list \<Rightarrow> CostProfile \<Rightarrow> int64 \<Rightarrow> int64 \<Rightarrow> f64 \<Rightarrow> BreakEvenEntry list \<times> gostring list" where
  "computeBreakEven pricing profile totalIn totalOut hoursInPeriod =
    breakEvenLoop (pricingByKey pricing)
      (breakEvenEntry (dailyCostOf profile) (tokensPerDay totalIn totalOut hoursInPeriod) totalIn totalOut)
      (breakEvenTargets profile)"

definition breakEvenToAPI :: "BreakEvenEntry list \<Rightarrow> BreakEvenData list" where
  "breakEvenToAPI = map (\<lambda>e. \<lparr>bd_Provider = be_Provider e, bd_Model = be_Model e,
     bd_BreakEvenTokensPerDay = be_BreakEvenTokensPerDay e,
     bd_CurrentUtilizationTokensPerDay = be_CurrentUtilizationTokensPerDay e,
     bd_PercentOfBreakEven = be_PercentOfBreakEven e, bd_Verdict = be_Verdict e\<rparr>)"

definition emitBreakEvenMetrics :: "gostring \<Rightarrow> BreakEvenEntry list \<Rightarrow> gauges \<Rightarrow> gauges" where
  "emitBreakEvenMetrics costProfile = fold (\<lambda>e g.
     gauge_set mPercentOfBreakEven [costProfile, be_Provider e, be_Model e] (be_PercentOfBreakEven e)
      (gauge_set mBreakEvenTokensPerDay [costProfile, be_Provider e, be_Model e] (f_of_int64 (be_BreakEvenTokensPerDay e)) g))"

end
