(* ===== verification/Report.thy ===== *)
theory Report
  imports ApiTypes GoFmt
begin

text \<open>\<open>internal/report/message.go\<close>: the text of the Ready condition of a UsageReport.\<close>

abbreviation (input) nl :: gostring where
  "nl \<equiv> [CHR 0x0A]"

text \<open>The loop of \<open>withCommas\<close>: a comma goes before a digit when the number of digits left, that
  digit included, is a multiple of three, except at the very front.\<close>

fun commaLoop :: "bool \<Rightarrow> gostring \<Rightarrow> gostring" where
  "commaLoop front [] = []"
| "commaLoop front (c # cs) =
    (if \<not> front \<and> (length cs + 1) mod 3 = 0 then '','' @ [c] else [c]) @ commaLoop False cs"

definition withCommas :: "int64 \<Rightarrow> gostring" where
  "withCommas n =
    (let s = show_int64 n; neg = has_prefix s ''-''; s = (if neg then drop 1 s else s); out = commaLoop True s
     in if neg then ''-'' @ out else out)"

definition humanizeTokens :: "int64 \<Rightarrow> gostring" where
  "humanizeTokens n =
    (if 1000000 \<le>s n then trim_suffix (fmt_f 1 (f_of_int64 n / lit 1000000)) ''.0'' @ ''M''
     else if 1000 \<le>s n then trim_suffix (fmt_f 1 (f_of_int64 n / lit 1000)) ''.0'' @ ''K''
     else show_int64 n)"

definition StatusMessage :: "UsageReportStatus \<Rightarrow> gostring" where
  "StatusMessage s =
    (let totalTokens = ut_InputTokens s + ut_OutputTokens s in
     ''Period '' @ ut_Period s @ '': $'' @ fmt_f 4 (ut_EstimatedCostUSD s) @ '' across '' @ withCommas totalTokens @ '' tokens.''
     @ nl @ ''Amortized: $'' @ fmt_f 2 (ut_CostPerMillionTokens s) @ ''/MTok at '' @ fmt_f 0 (ut_UtilizationPercent s) @ ''% utilization.''
     @ (if 0 < ut_MarginalCostPerMillionTokens s
        then nl @ ''Marginal: $'' @ fmt_f 4 (ut_MarginalCostPerMillionTokens s) @ ''/MTok.'' else [])
     @ (case ut_BreakEvenAnalysis s of [] \<Rightarrow> []
        | be # _ \<Rightarrow> nl @ ''Break-even with '' @ be_Provider be @ ''/'' @ be_Model be @ '': ''
            @ humanizeTokens (be_BreakEvenTokensPerDay be) @ '' tokens/day (you served ''
            @ humanizeTokens (be_CurrentUtilizationTokensPerDay be) @ '').''))"

subsection \<open>Properties\<close>

lemma commaLoop_filter: "CHR '','' \<notin> set cs \<Longrightarrow> filter (\<lambda>c. c \<noteq> CHR '','') (commaLoop front cs) = cs"
  by (induction front cs rule: commaLoop.induct) auto

lemma show_int_no_comma: "CHR '','' \<notin> set (show_int n)"
  using show_int_chars [of n] by auto

text \<open>Removing the commas gives the decimal number back.\<close>

lemma withCommas_filter: "filter (\<lambda>c. c \<noteq> CHR '','') (withCommas n) = show_int64 n"
proof (cases "has_prefix (show_int64 n) ''-''")
  case True
  then obtain cs where s: "show_int64 n = CHR ''-'' # cs"
    by (cases "show_int64 n") (auto simp: has_prefix_def)
  then have "CHR '','' \<notin> set cs" using show_int_no_comma [of "sint n"] by (simp add: show_int64_def)
  then show ?thesis using s by (simp add: withCommas_def Let_def has_prefix_def commaLoop_filter)
next
  case False
  then show ?thesis using show_int_no_comma [of "sint n"]
    by (simp add: withCommas_def Let_def commaLoop_filter show_int64_def)
qed

text \<open>The groups after the first have exactly three digits.\<close>

fun grouped :: "gostring \<Rightarrow> bool" where
  "grouped [] = True"
| "grouped (c # cs) = (if c = CHR '','' then length (takeWhile (\<lambda>d. d \<noteq> CHR '','') cs) = 3 \<and> grouped cs else grouped cs)"

lemma commaLoop_head:
  "CHR '','' \<notin> set cs \<Longrightarrow> length (takeWhile (\<lambda>d. d \<noteq> CHR '','') (commaLoop False cs)) =
    (if length cs mod 3 = 0 then 0 else length cs mod 3)"
proof (induction cs)
  case (Cons c cs)
  show ?case
  proof (cases "(length cs + 1) mod 3 = 0")
    case False
    then have "length cs mod 3 = 0 \<or> length cs mod 3 = 1" by presburger
    then show ?thesis using Cons False by (auto simp: mod_Suc)
  qed simp
qed simp

lemma commaLoop_grouped: "CHR '','' \<notin> set cs \<Longrightarrow> grouped (commaLoop front cs)"
proof (induction front cs rule: commaLoop.induct)
  case (2 front c cs)
  then show ?case using commaLoop_head [of cs] by (auto simp: mod_Suc split: if_splits)
qed simp

text \<open>Thousands separators are lossless and well placed: for every int64, dropping the commas of
  \<open>withCommas\<close> gives back its decimal form (so different numbers print differently), and every
  comma is followed by a group of exactly three digits.\<close>

theorem with_commas_lossless:
  "filter (\<lambda>c. c \<noteq> CHR '','') (withCommas n) = show_int64 n \<and> (withCommas m = withCommas n \<longleftrightarrow> m = n)
    \<and> grouped (withCommas n)"
proof -
  have "withCommas m = withCommas n \<longleftrightarrow> m = n" by (metis withCommas_filter show_int64_inj)
  moreover have "grouped (withCommas n)"
  proof -
    have "CHR '','' \<notin> set (drop 1 (show_int64 n))" "CHR '','' \<notin> set (show_int64 n)"
      using show_int_no_comma [of "sint n"] by (auto simp: show_int64_def dest: in_set_dropD)
    then show ?thesis by (simp add: withCommas_def Let_def commaLoop_grouped)
  qed
  ultimately show ?thesis using withCommas_filter by blast
qed

text \<open>The compact form jumps at the thousands: a count just below a million is printed as "1000K",
  not "1M", because the rounding to one place happens after the unit is chosen.\<close>

theorem humanize_rounds_up_in_unit:
  "humanizeTokens 999999 = ''1000K'' \<and> humanizeTokens 1000000 = ''1M'' \<and> humanizeTokens 142300 = ''142.3K''
    \<and> humanizeTokens 950 = ''950''"
  by code_simp

end
