(* ===== verification/UsageReportCtl.thy ===== *)
theory UsageReportCtl
  imports ReportCompute Report
begin

text \<open>
  \<open>internal/controller/usagereport_controller.go\<close>, the reconcile: the status it computes, the comparison that
  decides whether the status is written, and the whole of \<open>Reconcile\<close>.  The cluster is reached through a
  client, an argument of the definitions.
\<close>

subsection \<open>Comparing statuses\<close>

definition conditionTransitioned :: "condition_ops \<Rightarrow> Condition list \<Rightarrow> Condition list \<Rightarrow> gostring \<Rightarrow> bool" where
  "conditionTransitioned C previous current conditionType =
    (case (cs_find C previous conditionType, cs_find C current conditionType) of
       (None, None) \<Rightarrow> False
     | (None, Some b) \<Rightarrow> True
     | (Some a, None) \<Rightarrow> True
     | (Some a, Some b) \<Rightarrow> c_Status a \<noteq> c_Status b \<or> c_Reason a \<noteq> c_Reason b)"

text \<open>\<open>for i := range as\<close> with \<open>bs[i]\<close>: \<open>None\<close> is the panic of an index past the end of \<open>bs\<close>.\<close>

fun sameStrings :: "gostring list \<Rightarrow> gostring list \<Rightarrow> bool option" where
  "sameStrings [] bs = Some True"
| "sameStrings (a # as) [] = None"
| "sameStrings (a # as) (b # bs) = (if a \<noteq> b then Some False else sameStrings as bs)"

definition modelLine :: "ModelCostBreakdown \<Rightarrow> gostring" where
  "modelLine m = mb_Namespace m @ ''/'' @ mb_Model m @ '':'' @ show_int64 (mb_InputTokens m) @ ''+'' @ show_int64 (mb_OutputTokens m)"

definition modelBreakdownsEqual :: "ModelCostBreakdown list \<Rightarrow> ModelCostBreakdown list \<Rightarrow> bool option" where
  "modelBreakdownsEqual a b = sameStrings (sort (map modelLine a)) (sort (map modelLine b))"

definition namespaceLine :: "NamespaceCostBreakdown \<Rightarrow> gostring" where
  "namespaceLine n = nb_Namespace n @ '':'' @ show_int64 (nb_TokenCount n)"

definition namespaceBreakdownsEqual :: "NamespaceCostBreakdown list \<Rightarrow> NamespaceCostBreakdown list \<Rightarrow> bool option" where
  "namespaceBreakdownsEqual a b = sameStrings (sort (map namespaceLine a)) (sort (map namespaceLine b))"

definition usageReportStatusContentEqual :: "UsageReportStatus \<Rightarrow> UsageReportStatus \<Rightarrow> bool option" where
  "usageReportStatusContentEqual a b =
    (if ut_Period a \<noteq> ut_Period b then Some False
     else if ut_InputTokens a \<noteq> ut_InputTokens b \<or> ut_OutputTokens a \<noteq> ut_OutputTokens b then Some False
     else if length (ut_ByModel a) \<noteq> length (ut_ByModel b) \<or> length (ut_ByNamespace a) \<noteq> length (ut_ByNamespace b) then Some False
     else (case modelBreakdownsEqual (ut_ByModel a) (ut_ByModel b) of
        None \<Rightarrow> None
      | Some False \<Rightarrow> Some False
      | Some True \<Rightarrow> namespaceBreakdownsEqual (ut_ByNamespace a) (ut_ByNamespace b)))"

subsection \<open>Writing the status\<close>

record computedStatus =
  k_period :: gostring
  k_periodStart :: gotime
  k_periodEnd :: gotime
  k_inputTokens :: int64
  k_outputTokens :: int64
  k_totalCost :: f64
  k_costPerMillionTokens :: f64
  k_marginalCostPerMillionTokens :: f64
  k_activeHoursCostPerMillionTokens :: f64
  k_activeEnergyKWh :: f64
  k_breakEvenAnalysis :: "BreakEvenEntry list"
  k_byModel :: "ModelCostBreakdown list"
  k_byNamespace :: "NamespaceCostBreakdown list"
  k_utilizationPercent :: f64
  k_gpuEfficiencyRatio :: f64
  k_activeHoursInPeriod :: f64
  k_totalHoursInPeriod :: f64

text \<open>The assignments to \<open>report.Status\<close> and the Ready condition.\<close>

definition filledStatus :: "computedStatus \<Rightarrow> gotime \<Rightarrow> UsageReportStatus \<Rightarrow> UsageReportStatus" where
  "filledStatus c metaNow s = s\<lparr>ut_Period := k_period c, ut_PeriodStart := Some (k_periodStart c),
     ut_PeriodEnd := Some (k_periodEnd c), ut_InputTokens := k_inputTokens c, ut_OutputTokens := k_outputTokens c,
     ut_EstimatedCostUSD := k_totalCost c, ut_CostPerMillionTokens := k_costPerMillionTokens c,
     ut_MarginalCostPerMillionTokens := k_marginalCostPerMillionTokens c,
     ut_ActiveHoursCostPerMillionTokens := k_activeHoursCostPerMillionTokens c,
     ut_ActiveEnergyKWh := k_activeEnergyKWh c, ut_ByModel := k_byModel c, ut_ByNamespace := k_byNamespace c,
     ut_BreakEvenAnalysis := k_breakEvenAnalysis c, ut_UtilizationPercent := k_utilizationPercent c,
     ut_GPUEfficiencyRatio := k_gpuEfficiencyRatio c, ut_ActiveHoursInPeriod := k_activeHoursInPeriod c,
     ut_TotalHoursInPeriod := k_totalHoursInPeriod c, ut_LastUpdated := Some metaNow\<rparr>"

definition newStatus :: "condition_ops \<Rightarrow> computedStatus \<Rightarrow> gotime \<Rightarrow> UsageReportStatus \<Rightarrow> UsageReportStatus" where
  "newStatus C c metaNow s = (let s' = filledStatus c metaNow s in
     s'\<lparr>ut_Conditions := cs_set C (ut_Conditions s') \<lparr>c_Type = ''Ready'', c_Status = ConditionTrue, c_Reason = ''ReportComputed'',
        c_Message = StatusMessage s', c_LastTransitionTime = metaNow\<rparr>\<rparr>)"

text \<open>\<open>None\<close> is a panic; \<open>Some (Inl e)\<close> the error of the update; the second part says whether an update was sent.\<close>

definition applyStatusIfChanged :: "condition_ops \<Rightarrow> 'k report_client \<Rightarrow> UsageReport \<Rightarrow> computedStatus \<Rightarrow> gotime \<Rightarrow> 'k
    \<Rightarrow> (kerror + 'k) option \<times> bool" where
  "applyStatusIfChanged C K report c metaNow k =
    (let previous = ur_Status report; status = newStatus C c metaNow previous;
         readyTransitioned = conditionTransitioned C (ut_Conditions previous) (ut_Conditions status) ''Ready'';
         write = (Some (rc_updateStatus K (report\<lparr>ur_Status := status\<rparr>) k), True)
     in if readyTransitioned then write
        else (case usageReportStatusContentEqual previous status of
           None \<Rightarrow> (None, False)
         | Some True \<Rightarrow> (Some (Inr k), False)
         | Some False \<Rightarrow> write))"

definition missingCondition :: "UsageReport \<Rightarrow> kerror \<Rightarrow> gotime \<Rightarrow> Condition" where
  "missingCondition report getErr now = \<lparr>c_Type = ''Ready'', c_Status = ConditionFalse, c_Reason = ''CostProfileNotFound'',
     c_Message = ''CostProfile '' @ go_quote (urs_CostProfileRef (ur_Spec report)) @ '' not found: '' @ kerror_text getErr,
     c_LastTransitionTime = now\<rparr>"

definition handleMissingCostProfile :: "condition_ops \<Rightarrow> 'k report_client \<Rightarrow> UsageReport \<Rightarrow> kerror \<Rightarrow> gotime \<Rightarrow> 'k \<Rightarrow> Result \<times> 'k" where
  "handleMissingCostProfile C K report getErr now k =
    (\<lparr>RequeueAfter = usageReportReconcileInterval\<rparr>,
     let conditions = ut_Conditions (ur_Status report);
         send = (let report' = report\<lparr>ur_Status := (ur_Status report)\<lparr>ut_Conditions :=
                     cs_set C conditions (missingCondition report getErr now)\<rparr>\<rparr>
                 in case rc_updateStatus K report' k of Inl statusErr \<Rightarrow> k | Inr k' \<Rightarrow> k')
     in case cs_find C conditions ''Ready'' of
          Some existing \<Rightarrow>
            if c_Status existing = ConditionFalse \<and> c_Reason existing = ''CostProfileNotFound'' then k else send
        | None \<Rightarrow> send)"

subsection \<open>Reconcile\<close>

text \<open>The fields that come from the sampler, all zero without one.\<close>

record utilizationFields =
  uv_activeHours :: f64
  uv_utilizationPercent :: f64
  uv_gpuEfficiency :: f64
  uv_activeEnergyKWh :: f64
  uv_marginalCostPerMillion :: f64

definition utilizationView :: "'db Sampler option \<Rightarrow> CostProfile \<Rightarrow> gotime \<Rightarrow> gotime \<Rightarrow> f64 \<Rightarrow> int64 \<Rightarrow> utilizationFields" where
  "utilizationView sampler profile periodStart periodEnd hoursInPeriod totalTokens = (case sampler of
     None \<Rightarrow> \<lparr>uv_activeHours = 0, uv_utilizationPercent = 0, uv_gpuEfficiency = 0, uv_activeEnergyKWh = 0, uv_marginalCostPerMillion = 0\<rparr>
   | Some s \<Rightarrow>
       let w = Summarize s (sampleKeyFor profile) periodStart periodEnd;
           activeHours = ActiveHours w; activeEnergyKWh = ActiveEnergyKWh w;
           electricity = cps_Electricity (prof_Spec profile);
           pue = (if es_PUEFactor electricity \<le> 0 then lit 1 else es_PUEFactor electricity);
           marginalCostUSD = activeEnergyKWh * es_RatePerKWh electricity * pue
       in \<lparr>uv_activeHours = activeHours,
           uv_utilizationPercent = (if 0 < hoursInPeriod then (activeHours / hoursInPeriod) * lit 100 else 0),
           uv_gpuEfficiency = (if 0 < hoursInPeriod then activeHours / hoursInPeriod else 0),
           uv_activeEnergyKWh = activeEnergyKWh,
           uv_marginalCostPerMillion = (if 0 <s totalTokens \<and> 0 < activeEnergyKWh
              then marginalCostUSD / (f_of_int64 totalTokens / lit 1000000) else 0)\<rparr>)"

text \<open>Everything a report shows, from the profile, the tokens and the catalog; the second part is for the API store.\<close>

definition computeReport :: "visits \<Rightarrow> CloudPricing list \<Rightarrow> 'db Sampler option \<Rightarrow> UsageReport \<Rightarrow> CostProfile \<Rightarrow> gotime
    \<Rightarrow> modelTokens \<Rightarrow> nsTokens \<Rightarrow> computedStatus \<times> NamespaceCostData list" where
  "computeReport V pricing sampler report profile now modelT nsT =
    (let schedule = urs_Schedule (ur_Spec report);
         (periodStart, periodEnd, hoursInPeriod) = periodBounds schedule now;
         totalCost = cpt_HourlyCostUSD (prof_Status profile) * hoursInPeriod;
         (byModel, byNamespace, nsCostData, totalIn, totalOut) = buildBreakdowns V modelT nsT totalCost;
         totalTokens = totalIn + totalOut;
         u = utilizationView sampler profile periodStart periodEnd hoursInPeriod totalTokens
     in (\<lparr>k_period = formatPeriod schedule periodStart, k_periodStart = periodStart, k_periodEnd = periodEnd,
          k_inputTokens = totalIn, k_outputTokens = totalOut, k_totalCost = totalCost,
          k_costPerMillionTokens = (if 0 <s totalTokens then totalCost / (f_of_int64 totalTokens / lit 1000000) else 0),
          k_marginalCostPerMillionTokens = uv_marginalCostPerMillion u,
          k_activeHoursCostPerMillionTokens = ActiveHoursCostPerMillionTokens (cpt_HourlyCostUSD (prof_Status profile))
             (uv_activeHours u) hoursInPeriod totalTokens,
          k_activeEnergyKWh = uv_activeEnergyKWh u,
          k_breakEvenAnalysis = fst (computeBreakEven pricing profile totalIn totalOut hoursInPeriod),
          k_byModel = byModel, k_byNamespace = byNamespace,
          k_utilizationPercent = uv_utilizationPercent u, k_gpuEfficiencyRatio = uv_gpuEfficiency u,
          k_activeHoursInPeriod = uv_activeHours u, k_totalHoursInPeriod = hoursInPeriod\<rparr>, nsCostData))"

definition publishReport :: "computedStatus \<Rightarrow> NamespaceCostData list \<Rightarrow> Store \<Rightarrow> Store" where
  "publishReport c nsCostData s = SetBreakEven (breakEvenToAPI (k_breakEvenAnalysis c)) (SetNamespaceCosts nsCostData s)"

text \<open>\<open>now\<close> is the clock of \<open>periodBounds\<close>, \<open>metaNow\<close> that of the status; \<open>embedded\<close> the parsed embedded catalog.\<close>

definition UsageReport_Reconcile :: "condition_ops \<Rightarrow> 'k report_client \<Rightarrow> fetcher \<Rightarrow> (gostring + PricingCatalog) \<Rightarrow> visits
    \<Rightarrow> gotime \<Rightarrow> gotime \<Rightarrow> gostring \<Rightarrow> gostring \<Rightarrow> ('k, 'db) world \<Rightarrow> outcome \<times> ('k, 'db) world" where
  "UsageReport_Reconcile C K fetch embedded V now metaNow rns rname w =
    (case rc_getReport K (w_kube w) rns rname of
       Inl (NotFound _) \<Rightarrow> (Done \<lparr>RequeueAfter = 0\<rparr>, w)
     | Inl err \<Rightarrow> (Failed err, w)
     | Inr report \<Rightarrow>
       (case rc_getProfile K (w_kube w) rns (urs_CostProfileRef (ur_Spec report)) of
          Inl err \<Rightarrow> let (r, k) = handleMissingCostProfile C K report err metaNow (w_kube w) in (Done r, w\<lparr>w_kube := k\<rparr>)
        | Inr profile \<Rightarrow>
          (case scrapeTokens K fetch (w_kube w) report of
             Inl err \<Rightarrow> (Done \<lparr>RequeueAfter = usageReportReconcileInterval\<rparr>, w)
           | Inr (modelT, nsT) \<Rightarrow>
             let (pricing, pst) = DefaultCloudPricing embedded (w_pricing w); w1 = w\<lparr>w_pricing := pst\<rparr> in
             (case pricing of
                Inl panic \<Rightarrow> (Panicked, w1)
              | Inr rates \<Rightarrow>
                let (c, nsCostData) = computeReport V rates (w_sampler w) report profile now modelT nsT;
                    w2 = w1\<lparr>w_gauges := emitBreakEvenMetrics (om_Name (prof_Meta profile)) (k_breakEvenAnalysis c) (w_gauges w)\<rparr>
                in (case applyStatusIfChanged C K report c metaNow (w_kube w) of
                      (None, _) \<Rightarrow> (Panicked, w2)
                    | (Some (Inl err), _) \<Rightarrow> (Failed err, w2)
                    | (Some (Inr k), _) \<Rightarrow>
                        (Done \<lparr>RequeueAfter = usageReportReconcileInterval\<rparr>,
                         w2\<lparr>w_kube := k, w_api := map_option (publishReport c nsCostData) (w_api w)\<rparr>))))))"

end
