(* ===== verification/ReportPeriods.thy ===== *)
theory ReportPeriods
  imports ReportCompute
begin

text \<open>The reporting periods: each contains the present, and its label identifies it.\<close>

subsection \<open>Starts\<close>

lemma date_back: "time_Date (time_Year t) (time_Month t) (time_Day t - k) = (day_of t - k) * nsDay"
proof -
  have "day_number (time_Year t) (time_Month t) (time_Day t) = day_of t"
    by (simp add: time_Year_def time_Month_def time_Day_def day_number_fields)
  then show ?thesis
    using day_number_mday [OF time_Month_range(1) [of t] time_Month_range(2) [of t], of "time_Year t" "time_Day t - k"]
      day_number_mday [OF time_Month_range(1) [of t] time_Month_range(2) [of t], of "time_Year t" "time_Day t"]
    by (simp add: time_Date_def)
qed

lemma days_since_monday: "(if Weekday t = 0 then 7 else Weekday t) - 1 = day_of t mod 7"
proof -
  have "(day_of t + 1) mod 7 = (day_of t mod 7 + 1) mod 7" by (simp add: mod_add_left_eq)
  moreover have "0 \<le> day_of t mod 7" "day_of t mod 7 < 7" by simp_all
  ultimately show ?thesis by (cases "day_of t mod 7 = 6") (simp_all add: Weekday_def)
qed

lemma schedules [simp]: "ReportScheduleMonthly \<noteq> ReportScheduleWeekly" "ReportScheduleWeekly \<noteq> ReportScheduleMonthly"
  by (simp_all add: ReportScheduleMonthly_def ReportScheduleWeekly_def)

lemma start_weekly: "computePeriodStart ReportScheduleWeekly now = (7 * (day_of now div 7)) * nsDay"
  using days_since_monday [of now] by (simp add: computePeriodStart_def Let_def date_back minus_mod_eq_mult_div)

lemma start_monthly: "computePeriodStart ReportScheduleMonthly now = month_start (month_index now)"
  by (simp add: computePeriodStart_def month_start_of)

lemma start_daily: "s \<noteq> ReportScheduleWeekly \<Longrightarrow> s \<noteq> ReportScheduleMonthly \<Longrightarrow> computePeriodStart s now = day_of now * nsDay"
  using date_back [of now 0] by (simp add: computePeriodStart_def)

lemma schedule_cases:
  obtains (weekly) "s = ReportScheduleWeekly" | (monthly) "s = ReportScheduleMonthly"
    | (daily) "s \<noteq> ReportScheduleWeekly" "s \<noteq> ReportScheduleMonthly"
  by blast

lemma day_of_mult [simp]: "day_of (d * nsDay) = d"
  by (simp add: day_of_def nsDay_def)









subsection \<open>Labels\<close>

lemma zpad_inj: "0 \<le> m \<Longrightarrow> 0 \<le> n \<Longrightarrow> zpad w (udec m) = zpad w (udec n) \<Longrightarrow> m = n"
  using undec_zeros [of _ "udec m"] undec_zeros [of _ "udec n"] undec_udec [of m] undec_udec [of n]
  unfolding zpad_def by metis

lemma zpad_chars: "0 \<le> n \<Longrightarrow> set (zpad w (udec n)) \<subseteq> set ''0123456789''"
  using udec_digits [of n] by (auto simp: zpad_def)

lemma zpad_no_minus: "0 \<le> n \<Longrightarrow> zpad w (udec n) \<noteq> CHR ''-'' # s"
  using zpad_chars [of n w] by auto

lemma formatField_inj: "formatField w m = formatField w n \<Longrightarrow> m = n"
  using zpad_no_minus [of m w "zpad w (udec (- n))"] zpad_no_minus [of n w "zpad w (udec (- m))"]
    zpad_inj [of m n w] zpad_inj [of "- m" "- n" w]
  by (auto simp: formatField_def split: if_splits)

lemma div_less_mono: "n < 100 \<Longrightarrow> n div 10 < (10 :: int)"
  by presburger

lemma length_udec: "0 \<le> n \<Longrightarrow> n < 100 \<Longrightarrow> length (udec n) = (if n < 10 then 1 else 2)"
  using div_less_mono [of n] by (simp add: udec.simps [of n] udec.simps [of "n div 10"])

lemma length_formatField2: "0 \<le> n \<Longrightarrow> n < 100 \<Longrightarrow> length (formatField 2 n) = 2"
  by (simp add: formatField_def zpad_def length_udec)

lemma show_int_no_W: "CHR ''W'' \<notin> set (show_int n)"
  using show_int_chars [of n] by auto

lemma week_label_inj:
  assumes "0 \<le> v" "0 \<le> w" and "show_int x @ ''-W'' @ zpad_int 2 v = show_int y @ ''-W'' @ zpad_int 2 w"
  shows "x = y \<and> v = w"
proof -
  have tw: "takeWhile (\<lambda>c. c \<noteq> CHR ''W'') (show_int n @ ''-W'' @ s) = show_int n @ ''-''" for n s
    using show_int_no_W [of n] by (subst takeWhile_append2) auto
  have "show_int x @ ''-'' = show_int y @ ''-''" using tw [of x] tw [of y] assms(3) by metis
  then have "x = y" by (simp add: show_int_inj)
  then show ?thesis using assms zpad_inj [of v w 2] by (simp add: zpad_int_def)
qed

lemma mday_upper: "mday_of_day d < 100"
proof -
  have "days_before_month l (m + 1) - days_before_month l m \<le> 31" if "m \<in> {1, 2, 3, 4, 5, 6, 7, 8, 9, 10, 11, 12}" for l m
    using that by (auto simp: days_before_month_def)
  from this [OF twelve [OF month_range(1) month_range(2)], of "is_leap (year_of_day d)" d] month_range(4) [of d]
  show ?thesis by (simp add: mday_of_day_def)
qed

lemma field_ranges: "0 \<le> time_Month t" "time_Month t < 100" "0 \<le> time_Day t" "time_Day t < 100"
  using time_Month_range [of t] mday_pos [of "day_of t"] mday_upper [of "day_of t"] by (simp_all add: time_Day_def)

lemma split_suffix: "length u = length v \<Longrightarrow> a @ CHR ''-'' # u = b @ CHR ''-'' # v \<Longrightarrow> a = b \<and> u = v"
  using append_eq_append_conv [of "a @ ''-''" "b @ ''-''" u v] by simp

lemma month_label_inj:
  assumes "formatField 4 (time_Year a) @ ''-'' @ formatField 2 (time_Month a)
    = formatField 4 (time_Year b) @ ''-'' @ formatField 2 (time_Month b)"
  shows "month_index a = month_index b"
proof -
  have l: "length (formatField 2 (time_Month a)) = length (formatField 2 (time_Month b))"
    using length_formatField2 [OF field_ranges(1,2)] by simp
  from split_suffix [OF l assms [unfolded append_Cons append_Nil]]
  have "time_Year a = time_Year b" "time_Month a = time_Month b" by (blast dest: formatField_inj)+
  then show ?thesis by (simp add: month_index_def)
qed

lemma day_label_inj:
  assumes "formatField 4 (time_Year a) @ ''-'' @ formatField 2 (time_Month a) @ ''-'' @ formatField 2 (time_Day a)
    = formatField 4 (time_Year b) @ ''-'' @ formatField 2 (time_Month b) @ ''-'' @ formatField 2 (time_Day b)"
  shows "day_of a = day_of b"
proof -
  have l: "length (formatField 2 (time_Day a)) = length (formatField 2 (time_Day b))"
    using length_formatField2 [OF field_ranges(3,4)] by simp
  from split_suffix [OF l, of "formatField 4 (time_Year a) @ ''-'' @ formatField 2 (time_Month a)"
      "formatField 4 (time_Year b) @ ''-'' @ formatField 2 (time_Month b)"] assms
  have s: "formatField 4 (time_Year a) @ ''-'' @ formatField 2 (time_Month a) = formatField 4 (time_Year b) @ ''-'' @ formatField 2 (time_Month b)"
    and d: "formatField 2 (time_Day a) = formatField 2 (time_Day b)" by simp_all
  have n: "day_number (time_Year t) (time_Month t) (time_Day t) = day_of t" for t
    by (simp add: time_Year_def time_Month_def time_Day_def day_number_fields)
  have "day_of t * nsDay = month_start (month_index t) + (time_Day t - 1) * nsDay" for t
    using day_number_mday [OF time_Month_range(1) [of t] time_Month_range(2) [of t], of "time_Year t" "time_Day t"]
    unfolding month_start_of [symmetric] time_Date_def n by (simp add: distrib_right)
  from this [of a] this [of b] month_label_inj [OF s] formatField_inj [OF d]
  have "day_of a * nsDay = day_of b * nsDay" by simp
  then show ?thesis by (simp add: nsDay_def)
qed

lemma div7_close: "x div 7 = y div 7 \<Longrightarrow> x - y < 7 \<and> y - x < (7 :: int)"
  by presburger

lemma iso_week_inj:
  assumes "year_of_day (7 * p + 3) = year_of_day (7 * q + 3)" "yday_of_day (7 * p + 3) div 7 = yday_of_day (7 * q + 3) div 7"
  shows "p = (q :: int)"
  using div7_close [OF assms(2)] assms(1) by (simp add: yday_of_day_def)

lemma weekly_label: "formatPeriod ReportScheduleWeekly (computePeriodStart ReportScheduleWeekly t) =
  (let m = 7 * (day_of t div 7) in show_int (year_of_day (m + 3)) @ ''-W'' @ zpad_int 2 (yday_of_day (m + 3) div 7 + 1))"
  unfolding formatPeriod_def start_weekly ISOWeek_def day_of_mult Let_def by simp

lemma label_inj:
  assumes "formatPeriod s (computePeriodStart s a) = formatPeriod s (computePeriodStart s b)"
  shows "computePeriodStart s a = computePeriodStart s b"
proof (cases s rule: schedule_cases)
  case weekly
  have pos: "0 \<le> yday_of_day d div 7 + 1" for d using yday_bounds(1) [of d] by simp
  from week_label_inj [OF pos pos, OF assms [unfolded weekly weekly_label Let_def]]
  have "day_of a div 7 = day_of b div 7" by (elim conjE) (rule iso_week_inj, assumption, simp only: add_right_cancel)
  then show ?thesis by (simp only: weekly start_weekly)
next
  case monthly
  have "month_index (computePeriodStart s a) = month_index (computePeriodStart s b)"
    by (rule month_label_inj) (use assms in \<open>simp add: monthly formatPeriod_def\<close>)
  then show ?thesis by (simp add: monthly start_monthly month_index_start)
next
  case daily
  have "day_of (computePeriodStart s a) = day_of (computePeriodStart s b)"
    by (rule day_label_inj) (use assms daily in \<open>simp add: formatPeriod_def\<close>)
  then show ?thesis by (simp add: start_daily [OF daily])
qed

text \<open>The label of a period identifies it: two reports of the same schedule carry the same period text exactly when
  their periods start at the same instant, so comparing the texts detects every roll-over.\<close>

theorem period_label_identifies:
  "formatPeriod s (computePeriodStart s a) = formatPeriod s (computePeriodStart s b)
    \<longleftrightarrow> computePeriodStart s a = computePeriodStart s b"
  using label_inj [of s a b] by auto

end
