(* ===== verification/ReportTokens.thy ===== *)
theory ReportTokens
  imports ReportCompute
begin

text \<open>Token counts and their cost: what the scrape loop adds up and how the cost is shared out.\<close>

subsection \<open>Sums of words\<close>

lemma sint_add64: "- (2 ^ 63) \<le> sint a + sint b \<Longrightarrow> sint a + sint b < 2 ^ 63 \<Longrightarrow> sint (a + b :: int64) = sint a + sint b"
  by (simp add: sint_word_ariths signed_take_bit_int_eq_self)

lemma sint_sum_list:
  assumes "\<forall>w \<in> set ws. 0 \<le> sint w" and "(\<Sum>w\<leftarrow>ws. sint w) < 2 ^ 63"
  shows "sint (sum_list ws :: int64) = (\<Sum>w\<leftarrow>ws. sint w) \<and> 0 \<le> (\<Sum>w\<leftarrow>ws. sint w)"
  using assms
proof (induction ws)
  case (Cons w ws)
  then have "sint (sum_list ws) = (\<Sum>w\<leftarrow>ws. sint w)" "0 \<le> (\<Sum>w\<leftarrow>ws. sint w)" "0 \<le> sint w" by auto
  then show ?case using Cons.prems(2) sint_add64 [of w "sum_list ws"] by simp
qed simp

lemma sum_list_if_le: "\<forall>x \<in> set xs. 0 \<le> f x \<Longrightarrow> (\<Sum>x\<leftarrow>xs. if P x then f x else 0) \<le> (\<Sum>x\<leftarrow>xs. (f x :: int))"
  by (induction xs) auto

lemma member_le_sum: "\<forall>x \<in> set xs. 0 \<le> (f x :: int) \<Longrightarrow> y \<in> set xs \<Longrightarrow> f y \<le> (\<Sum>x\<leftarrow>xs. f x)"
proof (induction xs)
  case (Cons x xs)
  have "0 \<le> (\<Sum>x\<leftarrow>xs. f x)" using Cons.prems(1) by (induction xs) auto
  then show ?case using Cons by auto
qed simp

subsection \<open>The scrape loop\<close>

text \<open>The readings of a list of pods.\<close>

definition readings :: "fetcher \<Rightarrow> (gostring, bool) gomap \<Rightarrow> Pod list \<Rightarrow> (modelKey \<times> int64 \<times> int64) list" where
  "readings fetch F pods = List.map_filter (podTokens fetch F) pods"

lemma readings_simps [simp]:
  "readings fetch F [] = []"
  "readings fetch F (p # ps) = (case podTokens fetch F p of None \<Rightarrow> readings fetch F ps | Some r \<Rightarrow> r # readings fetch F ps)"
  by (simp_all add: readings_def map_filter_simps split: option.split)

lemma get_addTokens:
  "gm_get zeroCounts (addTokens k i out m) k' = (if k' = k
     then \<lparr>tc_input = tc_input (gm_get zeroCounts m k) + i, tc_output = tc_output (gm_get zeroCounts m k) + out\<rparr>
     else gm_get zeroCounts m k')"
  by (simp add: addTokens_def Let_def)

lemma zero_counts [simp]: "gm_get zeroCounts [] k = zeroCounts" "tc_input zeroCounts = 0" "tc_output zeroCounts = 0"
  by (simp_all add: gm_get_def zeroCounts_def)

lemma wf_addTokens [simp]: "gm_wf m \<Longrightarrow> gm_wf (addTokens k i out m)"
  by (simp add: addTokens_def Let_def)

lemma has_addTokens [simp]: "gm_has (addTokens k i out m) k' \<longleftrightarrow> k' = k \<or> gm_has m k'"
  by (simp add: addTokens_def gm_has_def Let_def)

lemma sum_update: "(\<Sum>(k, t)\<leftarrow>AList.update k v m. f k t) =
    (\<Sum>(k, t)\<leftarrow>m. f k t) - (case map_of m k of None \<Rightarrow> 0 | Some t \<Rightarrow> f k t) + (f k v :: 'a :: ab_group_add)"
  by (induction m) (auto simp: algebra_simps)

lemma sum_addTokens:
  "(\<Sum>(k, t)\<leftarrow>addTokens k i out m. if P k then tc_input t else 0) = (\<Sum>(k, t)\<leftarrow>m. if P k then tc_input t else 0) + (if P k then i else 0)"
  "(\<Sum>(k, t)\<leftarrow>addTokens k i out m. if P k then tc_output t else 0) = (\<Sum>(k, t)\<leftarrow>m. if P k then tc_output t else 0) + (if P k then out else 0)"
  by (simp_all add: addTokens_def gm_put_def Let_def sum_update [where f = "\<lambda>k t. if P k then tc_input t else 0"]
      sum_update [where f = "\<lambda>k t. if P k then tc_output t else 0"] gm_get_def split: option.split)

lemma scrapeLoop_get:
  assumes "scrapeLoop fetch F pods m n = (m', n')"
  shows "tc_input (gm_get zeroCounts m' mk) = tc_input (gm_get zeroCounts m mk) + (\<Sum>(mk', i, out)\<leftarrow>readings fetch F pods. if mk' = mk then i else 0)"
    and "tc_output (gm_get zeroCounts m' mk) = tc_output (gm_get zeroCounts m mk) + (\<Sum>(mk', i, out)\<leftarrow>readings fetch F pods. if mk' = mk then out else 0)"
    and "tc_input (gm_get zeroCounts n' ns) = tc_input (gm_get zeroCounts n ns) + (\<Sum>(mk', i, out)\<leftarrow>readings fetch F pods. if mk_namespace mk' = ns then i else 0)"
    and "tc_output (gm_get zeroCounts n' ns) = tc_output (gm_get zeroCounts n ns) + (\<Sum>(mk', i, out)\<leftarrow>readings fetch F pods. if mk_namespace mk' = ns then out else 0)"
  using assms by (induction pods arbitrary: m n) (auto simp: get_addTokens split: option.splits)

lemma scrapeLoop_sum:
  assumes "scrapeLoop fetch F pods m n = (m', n')"
  shows "(\<Sum>(k, t)\<leftarrow>m'. if P k then tc_input t else 0) = (\<Sum>(k, t)\<leftarrow>m. if P k then tc_input t else 0) + (\<Sum>(k, i, out)\<leftarrow>readings fetch F pods. if P k then i else 0)"
    and "(\<Sum>(k, t)\<leftarrow>m'. if P k then tc_output t else 0) = (\<Sum>(k, t)\<leftarrow>m. if P k then tc_output t else 0) + (\<Sum>(k, i, out)\<leftarrow>readings fetch F pods. if P k then out else 0)"
  using assms by (induction pods arbitrary: m n) (auto simp: sum_addTokens split: option.splits)

lemma scrapeLoop_inv:
  assumes "scrapeLoop fetch F pods m n = (m', n')"
  shows "(gm_wf m \<longrightarrow> gm_wf m') \<and> (gm_wf n \<longrightarrow> gm_wf n')
    \<and> (gm_has m' mk \<longleftrightarrow> gm_has m mk \<or> (\<exists>r \<in> set (readings fetch F pods). fst r = mk))
    \<and> (gm_has n' ns \<longleftrightarrow> gm_has n ns \<or> (\<exists>r \<in> set (readings fetch F pods). mk_namespace (fst r) = ns))"
  using assms
proof (induction pods arbitrary: m n)
  case (Cons p ps)
  show ?case
  proof (cases "podTokens fetch F p")
    case None
    then show ?thesis using Cons.IH [of m n] Cons.prems by simp
  next
    case (Some r)
    obtain x i out where r: "r = (x, i, out)" by (cases r) auto
    have "scrapeLoop fetch F ps (addTokens x i out m) (addTokens (mk_namespace x) i out n) = (m', n')"
      using Cons.prems Some r by simp
    from Cons.IH [OF this] show ?thesis by (auto simp add: Some r)
  qed
qed simp

text \<open>C29 The scrape loop loses and invents nothing: each model entry is the sum (on wrapping 64-bit integers) of the
  readings of its pods, the entry of a namespace is the sum of the entries of its models, a namespace has an
  entry exactly when one of its models has, and no key appears twice.\<close>

theorem scrape_totals:
  assumes "scrapeTokens K fetch k report = Inr (modelT, nsT)" and "rc_listPods K k = Inr pods"
  shows "gm_wf modelT \<and> gm_wf nsT
    \<and> (gm_has nsT ns \<longleftrightarrow> (\<exists>mk. gm_has modelT mk \<and> mk_namespace mk = ns))
    \<and> tc_input (gm_get zeroCounts modelT mk) = (\<Sum>(mk', i, out)\<leftarrow>readings fetch (nsFilterOf (urs_Namespaces (ur_Spec report))) pods. if mk' = mk then i else 0)
    \<and> tc_output (gm_get zeroCounts modelT mk) = (\<Sum>(mk', i, out)\<leftarrow>readings fetch (nsFilterOf (urs_Namespaces (ur_Spec report))) pods. if mk' = mk then out else 0)
    \<and> tc_input (gm_get zeroCounts nsT ns) = (\<Sum>(mk', t)\<leftarrow>modelT. if mk_namespace mk' = ns then tc_input t else 0)
    \<and> tc_output (gm_get zeroCounts nsT ns) = (\<Sum>(mk', t)\<leftarrow>modelT. if mk_namespace mk' = ns then tc_output t else 0)"
proof -
  let ?F = "nsFilterOf (urs_Namespaces (ur_Spec report))"
  have l: "scrapeLoop fetch ?F pods [] [] = (modelT, nsT)" using assms by (simp add: scrapeTokens_def)
  have "gm_has nsT ns \<longleftrightarrow> (\<exists>mk. gm_has modelT mk \<and> mk_namespace mk = ns)"
    using scrapeLoop_inv [OF l, of _ ns] by (auto simp: gm_has_def)
  then show ?thesis
    using scrapeLoop_inv [OF l, of mk ns] scrapeLoop_get(1,2) [OF l, of mk] scrapeLoop_get(3,4) [OF l, of ns]
      scrapeLoop_sum [OF l, of "\<lambda>k. mk_namespace k = ns"]
    by simp
qed

definition demo_report :: UsageReport where
  "demo_report = \<lparr>ur_Meta = \<lparr>om_Name = ''daily'', om_Namespace = ''finops'', om_CreationTimestamp = 0\<rparr>,
     ur_Spec = \<lparr>urs_CostProfileRef = ''gpu'', urs_Schedule = ReportScheduleDaily, urs_Namespaces = [''ml'']\<rparr>,
     ur_Status = \<lparr>ut_Period = [], ut_PeriodStart = None, ut_PeriodEnd = None, ut_InputTokens = 0, ut_OutputTokens = 0,
       ut_EstimatedCostUSD = 0, ut_CostPerMillionTokens = 0, ut_MarginalCostPerMillionTokens = 0,
       ut_ActiveHoursCostPerMillionTokens = 0, ut_ActiveEnergyKWh = 0, ut_GPUEfficiencyRatio = 0, ut_UtilizationPercent = 0,
       ut_ActiveHoursInPeriod = 0, ut_TotalHoursInPeriod = 0, ut_ByModel = [], ut_ByNamespace = [], ut_CloudComparison = [],
       ut_BreakEvenAnalysis = [], ut_LastUpdated = None, ut_Conditions = []\<rparr>\<rparr>"

definition demo_pods_client :: "unit report_client" where
  "demo_pods_client = \<lparr>rc_getReport = \<lambda>_ _ _. Inr demo_report, rc_getProfile = \<lambda>_ _ _. Inl (NotFound ''gone''),
     rc_listPods = \<lambda>_. Inr [demo_pod, demo_pod], rc_updateStatus = \<lambda>_ k. Inr k\<rparr>"

lemma demo_readings: "readings demo_scrape (nsFilterOf [''ml'']) [demo_pod, demo_pod] =
    [(\<lparr>mk_model = ''llama'', mk_namespace = ''ml''\<rparr>, 30, 12), (\<lparr>mk_model = ''llama'', mk_namespace = ''ml''\<rparr>, 30, 12)]"
  by code_simp

lemma demo_scraped:
  obtains modelT nsT where "scrapeTokens demo_pods_client demo_scrape () demo_report = Inr (modelT, nsT)"
    and "rc_listPods demo_pods_client () = Inr [demo_pod, demo_pod]"
    and "readings demo_scrape (nsFilterOf (urs_Namespaces (ur_Spec demo_report))) [demo_pod, demo_pod] =
      [(\<lparr>mk_model = ''llama'', mk_namespace = ''ml''\<rparr>, 30, 12), (\<lparr>mk_model = ''llama'', mk_namespace = ''ml''\<rparr>, 30, 12)]"
proof -
  have pods: "rc_listPods demo_pods_client () = Inr [demo_pod, demo_pod]" by (simp add: demo_pods_client_def)
  obtain modelT nsT where "scrapeTokens demo_pods_client demo_scrape () demo_report = Inr (modelT, nsT)"
    unfolding scrapeTokens_def pods sum.case by (metis surj_pair)
  then show thesis using that pods demo_readings by (simp add: demo_report_def)
qed

theorem scrape_totals_witness:
  "\<exists>modelT nsT. scrapeTokens demo_pods_client demo_scrape () demo_report = Inr (modelT, nsT)
    \<and> tc_input (gm_get zeroCounts modelT \<lparr>mk_model = ''llama'', mk_namespace = ''ml''\<rparr>) = 60
    \<and> tc_output (gm_get zeroCounts modelT \<lparr>mk_model = ''llama'', mk_namespace = ''ml''\<rparr>) = 24"
proof (rule demo_scraped)
  fix modelT nsT
  assume s: "scrapeTokens demo_pods_client demo_scrape () demo_report = Inr (modelT, nsT)"
    and pods: "rc_listPods demo_pods_client () = Inr [demo_pod, demo_pod]"
    and rs: "readings demo_scrape (nsFilterOf (urs_Namespaces (ur_Spec demo_report))) [demo_pod, demo_pod] =
      [(\<lparr>mk_model = ''llama'', mk_namespace = ''ml''\<rparr>, 30, 12), (\<lparr>mk_model = ''llama'', mk_namespace = ''ml''\<rparr>, 30, 12)]"
  show ?thesis
    using s scrape_totals [OF s pods, of "''ml''" "\<lparr>mk_model = ''llama'', mk_namespace = ''ml''\<rparr>"] unfolding rs by simp
qed

end
