(* ===== verification/ReportCosts.thy ===== *)
theory ReportCosts
  imports ReportTokens
begin

text \<open>The breakdown of the cost: bounds, consistency of the two views, independence of the map order.\<close>

subsection \<open>One share\<close>

lemma fraction_mono:
  assumes "0 \<le> sint a" "sint a \<le> sint b" "sint b \<le> sint t" "0 < sint (t :: int64)"
  shows "nn_fin (f_of_int64 a / f_of_int64 t)" "f_of_int64 a / f_of_int64 t \<le> f_of_int64 b / f_of_int64 t"
    and "f_of_int64 b / f_of_int64 t \<le> lit 1"
proof -
  have t: "0 < f_of_int64 t" using f_of_int64_pos [of t] assms(4) by (simp add: word_sless_alt)
  have a: "0 \<le> f_of_int64 a" using f_of_int64_mono [of 0 a] assms(1) by (simp add: word_sle_eq)
  have ab: "f_of_int64 a \<le> f_of_int64 b" "f_of_int64 b \<le> f_of_int64 t"
    using f_of_int64_mono [of a b] f_of_int64_mono [of b t] assms by (simp_all add: word_sle_eq)
  have b: "0 \<le> f_of_int64 b" using a ab(1) f_le_trans by blast
  show m: "f_of_int64 a / f_of_int64 t \<le> f_of_int64 b / f_of_int64 t" by (rule f_div_mono [OF a ab(1) t f_of_int64_fin(1)])
  show l: "f_of_int64 b / f_of_int64 t \<le> lit 1" by (rule f_div_le1 [OF b ab(2) t f_of_int64_fin(1)])
  have "0 \<le> f_of_int64 a / f_of_int64 t" by (rule div_nn [OF a t f_of_int64_fin(1)])
  moreover have "is_fin (f_of_int64 a / f_of_int64 t)"
    by (rule f_le_fin [OF calculation f_le_trans [OF m l] lit_1(2)])
  ultimately show "nn_fin (f_of_int64 a / f_of_int64 t)" by (simp add: nn_fin_def)
qed

lemma mul_nn_mono: "nn_fin c \<Longrightarrow> nn_fin x \<Longrightarrow> nn_fin y \<Longrightarrow> x \<le> y \<Longrightarrow> c * x \<le> c * y"
  by (intro f_mul_mono fin_mul(1)) (auto simp: nn_fin_def f_le_refl)

lemma mul_one: "nn_fin c \<Longrightarrow> c * lit 1 \<le> c"
  using fin_mul [of c "lit 1"] lit_1 by (simp add: nn_fin_def less_eq_f64_def del: fval_mkf)

lemma share_mono:
  assumes "nn_fin c" and "0 \<le> sint a" "sint a \<le> sint b" "sint b \<le> sint t"
  shows "0 \<le> shareOfCost c a t" and "shareOfCost c a t \<le> shareOfCost c b t" and "shareOfCost c b t \<le> c"
proof -
  show "0 \<le> shareOfCost c a t"
    using fraction_mono(1) [OF assms(2,3,4)] assms(1) mul_nn by (auto simp: shareOfCost_def word_sless_alt f_le_refl)
  have b: "0 \<le> sint b" using assms by simp
  show "shareOfCost c a t \<le> shareOfCost c b t"
    using fraction_mono [OF assms(2,3,4)] fraction_mono(1) [OF b order_refl assms(4)] assms(1) mul_nn_mono
    by (auto simp: shareOfCost_def word_sless_alt f_le_refl)
  have "nn_fin (lit 1)" using lit_1 by (simp add: nn_fin_def f_nonneg_iff del: fval_mkf)
  then show "shareOfCost c b t \<le> c"
    using fraction_mono [OF b order_refl assms(4)] assms(1) mul_nn_mono [OF assms(1) _ \<open>nn_fin (lit 1)\<close>] mul_one [OF assms(1)] f_le_trans
    unfolding shareOfCost_def word_sless_alt by (auto simp: nn_fin_def)
qed

subsection \<open>Sums of readings\<close>

text \<open>Readings that are non-negative and whose grand total fits an int64.\<close>

definition readings_ok :: "(modelKey \<times> int64 \<times> int64) list \<Rightarrow> bool" where
  "readings_ok rs = ((\<forall>(mk, i, out) \<in> set rs. 0 \<le> sint i \<and> 0 \<le> sint out) \<and> (\<Sum>(mk, i, out)\<leftarrow>rs. sint i + sint out) < 2 ^ 63)"

lemma readings_sum:
  assumes "readings_ok rs"
  shows "sint ((\<Sum>(mk, i, out)\<leftarrow>rs. if P mk then i else 0) + (\<Sum>(mk, i, out)\<leftarrow>rs. if P mk then out else 0))
      = (\<Sum>(mk, i, out)\<leftarrow>rs. if P mk then sint i + sint out else 0)"
    and "0 \<le> (\<Sum>(mk, i, out)\<leftarrow>rs. if P mk then sint i + sint out else 0)"
proof -
  let ?f = "\<lambda>(mk, i, out). sint i + sint (out :: int64)" and ?w = "\<lambda>(mk, i, out). if P mk then i + out else (0 :: int64)"
  have nn: "\<forall>r \<in> set rs. 0 \<le> ?f r" using assms by (auto simp: readings_ok_def)
  have small: "?f r < 2 ^ 63" if "r \<in> set rs" for r
    using member_le_sum [OF nn that] assms by (simp add: readings_ok_def)
  have w: "sint (?w r) = (if P (fst r) then ?f r else 0)" if "r \<in> set rs" for r
    using small [OF that] nn that sint_add64 [of "fst (snd r)" "snd (snd r)"] by (auto split: prod.split)
  have pairs: "(\<Sum>(mk, i, out)\<leftarrow>rs. if P mk then sint i + sint out else 0) = (\<Sum>r\<leftarrow>rs. if P (fst r) then ?f r else 0)"
    by (intro arg_cong [of _ _ sum_list] map_cong) auto
  have eq: "(\<Sum>x\<leftarrow>map ?w rs. sint x) = (\<Sum>r\<leftarrow>rs. if P (fst r) then ?f r else 0)"
    unfolding map_map by (intro arg_cong [of _ _ sum_list] map_cong) (simp_all only: o_apply w)
  have le: "(\<Sum>r\<leftarrow>rs. if P (fst r) then ?f r else 0) \<le> (\<Sum>r\<leftarrow>rs. ?f r)" by (rule sum_list_if_le [OF nn])
  have s: "(\<Sum>(mk, i, out)\<leftarrow>rs. if P mk then i else 0) + (\<Sum>(mk, i, out)\<leftarrow>rs. if P mk then out else 0) = sum_list (map ?w rs)"
    by (induction rs) auto
  have c1: "\<forall>w \<in> set (map ?w rs). 0 \<le> sint w"
  proof
    fix x assume "x \<in> set (map ?w rs)"
    then obtain r where "r \<in> set rs" "x = ?w r" by auto
    with w [of r] nn show "0 \<le> sint x" by auto
  qed
  have c2: "(\<Sum>x\<leftarrow>map ?w rs. sint x) < 2 ^ 63"
    using le assms unfolding eq readings_ok_def by linarith
  show "sint ((\<Sum>(mk, i, out)\<leftarrow>rs. if P mk then i else 0) + (\<Sum>(mk, i, out)\<leftarrow>rs. if P mk then out else 0))
      = (\<Sum>(mk, i, out)\<leftarrow>rs. if P mk then sint i + sint out else 0)"
    and "0 \<le> (\<Sum>(mk, i, out)\<leftarrow>rs. if P mk then sint i + sint out else 0)"
    using sint_sum_list [OF c1 c2] unfolding s pairs eq by simp_all
qed

lemma readings_sum_mono:
  assumes "readings_ok rs" and "\<And>mk. P mk \<Longrightarrow> Q mk"
  shows "(\<Sum>(mk, i, out)\<leftarrow>rs. if P mk then sint i + sint out else 0) \<le> (\<Sum>(mk, i, out)\<leftarrow>rs. if Q mk then sint i + sint out else 0)"
  using assms by (intro sum_list_mono) (auto simp: readings_ok_def)

subsection \<open>The rows\<close>

definition fair_visits :: "visits \<Rightarrow> bool" where
  "fair_visits V = (map_range (v_sum V) \<and> map_range (v_model V) \<and> map_range (v_ns V) \<and> (\<forall>ns. map_range (v_inner V ns)))"

definition in_order :: visits where
  "in_order = \<lparr>v_sum = \<lambda>m. m, v_model = \<lambda>m. m, v_ns = \<lambda>m. m, v_inner = \<lambda>ns m. m\<rparr>"

definition in_reverse :: visits where
  "in_reverse = \<lparr>v_sum = rev, v_model = rev, v_ns = rev, v_inner = \<lambda>ns. rev\<rparr>"

lemma fair_demo: "fair_visits in_order" "fair_visits in_reverse"
  by (simp_all add: fair_visits_def in_order_def in_reverse_def in_order.map_range_axioms in_reverse.map_range_axioms)

lemma sumTokens_sum: "sumTokens m a b = (a + (\<Sum>(k, t)\<leftarrow>m. tc_input t), b + (\<Sum>(k, t)\<leftarrow>m. tc_output t))"
  by (induction m a b rule: sumTokens.induct) (auto simp: add.assoc)

lemma fair_sum:
  assumes "fair_visits V"
  shows "sumTokens (v_sum V m) 0 0 = ((\<Sum>(k, t)\<leftarrow>m. tc_input t), (\<Sum>(k, t)\<leftarrow>m. tc_output t))"
  using assms by (simp add: fair_visits_def sumTokens_sum map_range.visit_sum)

lemma wf_get: "gm_wf m \<Longrightarrow> (k, t) \<in> set m \<Longrightarrow> gm_get z m k = t"
  by (simp add: gm_wf_def gm_get_def)

text \<open>The token count of a row, and of the whole report, as the sum of the readings behind it.\<close>

lemma row_tokens:
  assumes l: "scrapeLoop fetch F pods [] [] = (modelT, nsT)" and ok: "readings_ok (readings fetch F pods)"
  shows "(mk, t) \<in> set modelT \<Longrightarrow> sint (tc_input t + tc_output t) = (\<Sum>(mk', i, out)\<leftarrow>readings fetch F pods. if mk' = mk then sint i + sint out else 0)"
    and "(ns, t') \<in> set nsT \<Longrightarrow> sint (tc_input t' + tc_output t') = (\<Sum>(mk', i, out)\<leftarrow>readings fetch F pods. if mk_namespace mk' = ns then sint i + sint out else 0)"
    and "sint ((\<Sum>(k, t)\<leftarrow>modelT. tc_input t) + (\<Sum>(k, t)\<leftarrow>modelT. tc_output t)) = (\<Sum>(mk', i, out)\<leftarrow>readings fetch F pods. sint i + sint out)"
proof -
  have wf: "gm_wf modelT" "gm_wf nsT" using scrapeLoop_inv [OF l] by simp_all
  show "sint (tc_input t + tc_output t) = (\<Sum>(mk', i, out)\<leftarrow>readings fetch F pods. if mk' = mk then sint i + sint out else 0)"
    if "(mk, t) \<in> set modelT"
    using scrapeLoop_get(1,2) [OF l, of mk] wf_get [OF wf(1) that, of zeroCounts] readings_sum(1) [OF ok, of "\<lambda>k. k = mk"]
    by simp
  show "sint (tc_input t' + tc_output t') = (\<Sum>(mk', i, out)\<leftarrow>readings fetch F pods. if mk_namespace mk' = ns then sint i + sint out else 0)"
    if "(ns, t') \<in> set nsT"
    using scrapeLoop_get(3,4) [OF l, of ns] wf_get [OF wf(2) that, of zeroCounts] readings_sum(1) [OF ok, of "\<lambda>k. mk_namespace k = ns"]
    by simp
  show "sint ((\<Sum>(k, t)\<leftarrow>modelT. tc_input t) + (\<Sum>(k, t)\<leftarrow>modelT. tc_output t)) = (\<Sum>(mk', i, out)\<leftarrow>readings fetch F pods. sint i + sint out)"
    using scrapeLoop_sum [OF l, of "\<lambda>_. True"] readings_sum(1) [OF ok, of "\<lambda>_. True"] by simp
qed

text \<open>C30 The shares of the cost are sane for any order in which Go visits the maps: with a finite non-negative cost,
  and readings that are non-negative and fit an int64 together, the total is the exact sum of the readings,
  every row costs between nothing and the whole, and a namespace never costs less than one of its models; the
  rows of the API store repeat those of the status.\<close>

theorem cost_shares:
  assumes "scrapeTokens K fetch k report = Inr (modelT, nsT)" and "rc_listPods K k = Inr pods"
    and "readings_ok (readings fetch (nsFilterOf (urs_Namespaces (ur_Spec report))) pods)"
    and "fair_visits V" and "0 \<le> totalCost" and "is_fin totalCost"
    and "buildBreakdowns V modelT nsT totalCost = (byModel, byNamespace, nsCostData, totalIn, totalOut)"
  shows "sint (totalIn + totalOut) = (\<Sum>(mk, i, out)\<leftarrow>readings fetch (nsFilterOf (urs_Namespaces (ur_Spec report))) pods. sint i + sint out)
    \<and> (\<forall>m \<in> set byModel. 0 \<le> mb_EstimatedCostUSD m \<and> mb_EstimatedCostUSD m \<le> totalCost)
    \<and> (\<forall>n \<in> set byNamespace. 0 \<le> nb_EstimatedCostUSD n \<and> nb_EstimatedCostUSD n \<le> totalCost)
    \<and> (\<forall>m \<in> set byModel. \<forall>n \<in> set byNamespace. mb_Namespace m = nb_Namespace n \<longrightarrow> mb_EstimatedCostUSD m \<le> nb_EstimatedCostUSD n)
    \<and> map (\<lambda>d. (nc_Namespace d, nc_EstimatedCostUSD d, nc_TokenCount d)) nsCostData
      = map (\<lambda>n. (nb_Namespace n, nb_EstimatedCostUSD n, nb_TokenCount n)) byNamespace"
proof -
  let ?rs = "readings fetch (nsFilterOf (urs_Namespaces (ur_Spec report))) pods"
  have l: "scrapeLoop fetch (nsFilterOf (urs_Namespaces (ur_Spec report))) pods [] [] = (modelT, nsT)"
    using assms(1,2) by (simp add: scrapeTokens_def)
  note R = row_tokens [OF l assms(3)] and M = readings_sum_mono [OF assms(3)] and P = readings_sum(2) [OF assms(3)]
  have c: "nn_fin totalCost" using assms(5,6) by (simp add: nn_fin_def)
  have b: "totalIn = (\<Sum>(k, t)\<leftarrow>modelT. tc_input t)" "totalOut = (\<Sum>(k, t)\<leftarrow>modelT. tc_output t)"
    "byModel = map (modelRow totalCost (totalIn + totalOut)) (v_model V modelT)"
    "byNamespace = map (namespaceRow totalCost (totalIn + totalOut)) (v_ns V nsT)"
    "\<exists>f. nsCostData = map (namespaceData totalCost (totalIn + totalOut) f) (v_ns V nsT)"
    using assms(7) unfolding buildBreakdowns_def fair_sum [OF assms(4)] Let_def by auto
  have sets: "set (v_model V modelT) = set modelT" "set (v_ns V nsT) = set nsT"
    using assms(4) by (simp_all add: fair_visits_def map_range.visit_set)
  have T: "sint (totalIn + totalOut) = (\<Sum>(mk, i, out)\<leftarrow>?rs. sint i + sint out)" using R(3) by (simp add: b(1,2))
  have m: "0 \<le> sint (tc_input t + tc_output t) \<and> sint (tc_input t + tc_output t) \<le> sint (totalIn + totalOut)" if "(mk, t) \<in> set modelT" for mk t
    using M [of "\<lambda>k. k = mk" "\<lambda>_. True"] P [of "\<lambda>k. k = mk"] by (simp add: R(1) [OF that] T)
  have n: "0 \<le> sint (tc_input t + tc_output t) \<and> sint (tc_input t + tc_output t) \<le> sint (totalIn + totalOut)" if "(ns, t) \<in> set nsT" for ns t
    using M [of "\<lambda>k. mk_namespace k = ns" "\<lambda>_. True"] P [of "\<lambda>k. mk_namespace k = ns"] by (simp add: R(2) [OF that] T)
  have mn: "sint (tc_input t + tc_output t) \<le> sint (tc_input t' + tc_output t')"
    if "(mk, t) \<in> set modelT" "(mk_namespace mk, t') \<in> set nsT" for mk t t'
    using M [of "\<lambda>k. k = mk" "\<lambda>k. mk_namespace k = mk_namespace mk"] by (simp add: R(1) [OF that(1)] R(2) [OF that(2)])
  show ?thesis
  proof (intro conjI ballI impI)
    fix r assume "r \<in> set byModel"
    then obtain mk t where t: "(mk, t) \<in> set modelT" and r: "r = modelRow totalCost (totalIn + totalOut) (mk, t)"
      by (auto simp: b(3) sets)
    show "0 \<le> mb_EstimatedCostUSD r" "mb_EstimatedCostUSD r \<le> totalCost"
      using share_mono(1,3) [OF c _ order_refl] m [OF t] by (simp_all add: r modelRow_def Let_def)
    fix q assume "q \<in> set byNamespace" and same: "mb_Namespace r = nb_Namespace q"
    then obtain ns t' where t': "(ns, t') \<in> set nsT" and q: "q = namespaceRow totalCost (totalIn + totalOut) (ns, t')"
      by (auto simp: b(4) sets)
    have "ns = mk_namespace mk" using same by (simp add: r q modelRow_def namespaceRow_def Let_def)
    then show "mb_EstimatedCostUSD r \<le> nb_EstimatedCostUSD q"
      using share_mono(2) [OF c _ mn [OF t]] m [OF t] n [OF t'] t' by (simp add: r q modelRow_def namespaceRow_def Let_def)
  next
    fix q assume "q \<in> set byNamespace"
    then obtain ns t' where t': "(ns, t') \<in> set nsT" and q: "q = namespaceRow totalCost (totalIn + totalOut) (ns, t')"
      by (auto simp: b(4) sets)
    show "0 \<le> nb_EstimatedCostUSD q" "nb_EstimatedCostUSD q \<le> totalCost"
      using share_mono(1,3) [OF c _ order_refl] n [OF t'] by (simp_all add: q namespaceRow_def Let_def)
  qed (use b(4,5) T in \<open>auto simp: namespaceData_def namespaceRow_def Let_def split: prod.split\<close>)
qed

theorem cost_shares_witness:
  "\<exists>modelT nsT byModel byNamespace nsCostData totalIn totalOut.
    buildBreakdowns in_reverse modelT nsT (lit 10) = (byModel, byNamespace, nsCostData, totalIn, totalOut)
    \<and> scrapeTokens demo_pods_client demo_scrape () demo_report = Inr (modelT, nsT) \<and> sint (totalIn + totalOut) = 84"
proof (rule demo_scraped)
  fix modelT nsT
  assume s: "scrapeTokens demo_pods_client demo_scrape () demo_report = Inr (modelT, nsT)"
    and pods: "rc_listPods demo_pods_client () = Inr [demo_pod, demo_pod]"
    and rs: "readings demo_scrape (nsFilterOf (urs_Namespaces (ur_Spec demo_report))) [demo_pod, demo_pod] =
      [(\<lparr>mk_model = ''llama'', mk_namespace = ''ml''\<rparr>, 30, 12), (\<lparr>mk_model = ''llama'', mk_namespace = ''ml''\<rparr>, 30, 12)]"
  obtain byModel byNamespace nsCostData totalIn totalOut
    where b: "buildBreakdowns in_reverse modelT nsT (lit 10) = (byModel, byNamespace, nsCostData, totalIn, totalOut)"
    by (metis surj_pair)
  have ok: "readings_ok (readings demo_scrape (nsFilterOf (urs_Namespaces (ur_Spec demo_report))) [demo_pod, demo_pod])"
    unfolding rs by (simp add: readings_ok_def)
  have c: "0 \<le> lit 10" "is_fin (lit 10)" by (simp_all add: lits f_less_imp_le)
  show ?thesis using cost_shares [OF s pods ok fair_demo(2) c b] s b unfolding rs by auto
qed

subsection \<open>The order of the maps\<close>

text \<open>The model names of a namespace come in the order of the map: compare rows up to that order.\<close>

definition sortedModels :: "NamespaceCostData \<Rightarrow> NamespaceCostData" where
  "sortedModels d = d\<lparr>nc_Models := sort (nc_Models d)\<rparr>"

lemma modelsOf_filter: "modelsOf ns m = map (\<lambda>(mk, t). mk_model mk) (filter (\<lambda>(mk, t). mk_namespace mk = ns) m)"
  by (induction ns m rule: modelsOf.induct) auto

lemma fair_models:
  assumes "fair_visits V" "fair_visits W"
  shows "sort (modelsOf ns (v_inner V ns m)) = sort (modelsOf ns (v_inner W ns m))"
  using assms by (simp add: sort_eq_iff_mset modelsOf_filter mset_filter fair_visits_def map_range.visit_mset)

lemma sorted_namespaceData:
  assumes "fair_visits V" "fair_visits W"
  shows "sortedModels (namespaceData c t (\<lambda>ns. modelsOf ns (v_inner V ns m)) r) = sortedModels (namespaceData c t (\<lambda>ns. modelsOf ns (v_inner W ns m)) r)"
  by (cases r) (simp add: sortedModels_def namespaceData_def Let_def fair_models [OF assms])

text \<open>C31 Go's random map order never changes what a report says: for any two orders the totals are the same, and the
  model rows, the namespace rows and the API rows are the same up to their order in the list.\<close>

theorem map_order_irrelevant:
  assumes "fair_visits V" and "fair_visits W"
    and "buildBreakdowns V modelT nsT totalCost = (byModel, byNamespace, nsCostData, totalIn, totalOut)"
    and "buildBreakdowns W modelT nsT totalCost = (byModel', byNamespace', nsCostData', totalIn', totalOut')"
  shows "totalIn = totalIn' \<and> totalOut = totalOut' \<and> mset byModel = mset byModel' \<and> mset byNamespace = mset byNamespace'
    \<and> mset (map sortedModels nsCostData) = mset (map sortedModels nsCostData')"
proof -
  have v: "mset (v_model V m) = mset (v_model W m)" "mset (v_ns V n) = mset (v_ns W n)" for m n
    using assms(1,2) by (simp_all add: fair_visits_def map_range.visit_mset)
  have d: "mset (map sortedModels (map (namespaceData totalCost t (\<lambda>ns. modelsOf ns (v_inner V ns modelT))) (v_ns V nsT)))
      = mset (map sortedModels (map (namespaceData totalCost t (\<lambda>ns. modelsOf ns (v_inner W ns modelT))) (v_ns W nsT)))" for t
    by (simp add: o_def sorted_namespaceData [OF assms(1,2)] v(2))
  note B = assms(3,4) [unfolded buildBreakdowns_def fair_sum [OF assms(1)] fair_sum [OF assms(2)] Let_def prod.case, THEN sym, unfolded prod.inject]
  show ?thesis using B v d by simp
qed

theorem map_order_irrelevant_witness:
  "\<exists>a b c d. buildBreakdowns in_order [(\<lparr>mk_model = ''m'', mk_namespace = ''x''\<rparr>, \<lparr>tc_input = 1, tc_output = 2\<rparr>),
      (\<lparr>mk_model = ''n'', mk_namespace = ''x''\<rparr>, \<lparr>tc_input = 3, tc_output = 4\<rparr>)] [(''x'', \<lparr>tc_input = 4, tc_output = 6\<rparr>)] (lit 10) = a
    \<and> buildBreakdowns in_reverse [(\<lparr>mk_model = ''m'', mk_namespace = ''x''\<rparr>, \<lparr>tc_input = 1, tc_output = 2\<rparr>),
      (\<lparr>mk_model = ''n'', mk_namespace = ''x''\<rparr>, \<lparr>tc_input = 3, tc_output = 4\<rparr>)] [(''x'', \<lparr>tc_input = 4, tc_output = 6\<rparr>)] (lit 10) = b
    \<and> mset (fst a) = mset (fst b)"
proof -
  let ?m = "[(\<lparr>mk_model = ''m'', mk_namespace = ''x''\<rparr>, \<lparr>tc_input = 1, tc_output = 2\<rparr>),
      (\<lparr>mk_model = ''n'', mk_namespace = ''x''\<rparr>, \<lparr>tc_input = 3, tc_output = 4\<rparr>)]" and ?n = "[(''x'', \<lparr>tc_input = 4, tc_output = 6\<rparr>)]"
  obtain a1 a2 a3 a4 a5 where a: "buildBreakdowns in_order ?m ?n (lit 10) = (a1, a2, a3, a4, a5)" by (metis surj_pair)
  obtain b1 b2 b3 b4 b5 where b: "buildBreakdowns in_reverse ?m ?n (lit 10) = (b1, b2, b3, b4, b5)" by (metis surj_pair)
  show ?thesis using map_order_irrelevant [OF fair_demo a b] unfolding a b by simp
qed

end
