(* ===== verification/ReportConservation.thy ===== *)
theory ReportConservation
  imports ReportCosts
begin

text \<open>
  The shares of a report add up to its cost: a bound on the rounding of one share, and the exact sum of all shares
  against the total.
\<close>

subsection \<open>Relative error\<close>

text \<open>Half a unit in the last place of a normal number, and the least positive number.\<close>

definition uround :: rat where
  "uround = 1 / 2 ^ 53"

definition tiny :: rat where
  "tiny = 2 powi (- 1075)"

lemma uround_simps: "0 \<le> uround" "uround \<le> 1/16"
  by (simp_all add: uround_def)

lemma bound_simps: "r * (8 * uround) = r / 2 ^ 50" "2 * tiny = 2 powi (- 1074)"
  using powi2_add [of 1 "- 1075"] by (simp_all add: uround_def tiny_def)

lemma tiny_nonneg: "0 \<le> tiny"
  by (simp add: tiny_def)

lemma rnd_relative: "r \<noteq> 0 \<Longrightarrow> 2 powi (- 1022) \<le> \<bar>r\<bar> \<Longrightarrow> \<bar>rnd r - r\<bar> \<le> \<bar>r\<bar> * uround"
proof -
  assume r: "r \<noteq> 0" "2 powi (- 1022) \<le> \<bar>r\<bar>"
  have "qexp r = expo r - 52" using expo_geI [OF r] by (simp add: qexp_def)
  then have "\<bar>rnd r - r\<bar> \<le> 2 powi (expo r - 53)" using rnd_error [of r] by simp
  also have "(2::rat) powi (expo r - 53) = 2 powi expo r * uround"
    using powi2_add [of "expo r" "- 53"] by (simp add: uround_def power_int_minus inverse_eq_divide)
  also have "\<dots> \<le> \<bar>r\<bar> * uround" using expo_bounds(1) [OF r(1)] uround_simps by (intro mult_right_mono) auto
  finally show ?thesis .
qed

lemma rnd_normal:
  assumes "2 powi (- 1022) \<le> r"
  shows "\<bar>rnd r - r\<bar> \<le> r * uround"
proof -
  have "(0::rat) < 2 powi (- 1022)" by (intro zero_less_power_int) simp
  then have r: "0 < r" using assms by (rule less_le_trans)
  have "2 powi (- 1022) \<le> \<bar>r\<bar>" using assms r by (simp only: abs_of_pos)
  then show ?thesis using rnd_relative [of r] r by (simp only: abs_of_pos less_imp_neq not_sym simp_thms)
qed

lemma rnd_any: "\<bar>rnd r - r\<bar> \<le> \<bar>r\<bar> * uround + tiny"
proof (cases "r = 0")
  case nz: False
  show ?thesis
  proof (cases "2 powi (- 1022) \<le> \<bar>r\<bar>")
    case True
    show ?thesis using rnd_relative [OF nz True] tiny_nonneg by linarith
  next
    case False
    have e: "(- 1023 :: int) + 1 = - 1022" by simp
    have "expo r \<le> - 1023" by (rule expo_leI [OF nz], unfold e) (use False in \<open>simp only: not_le\<close>)
    then have "qexp r = - 1074" by (simp add: qexp_def)
    then have "\<bar>rnd r - r\<bar> \<le> tiny" using rnd_error [of r] by (simp add: tiny_def)
    moreover have "0 \<le> \<bar>r\<bar> * uround" using uround_simps by simp
    ultimately show ?thesis by linarith
  qed
qed (use tiny_nonneg in simp)

subsection \<open>One share\<close>

text \<open>A quotient of two rounded numbers, rounded.\<close>

lemma quotient_error:
  fixes a t A T Q u :: rat
  assumes "0 \<le> a" and "0 < t" and "\<bar>A - a\<bar> \<le> a * u" and "\<bar>T - t\<bar> \<le> t * u" and "\<bar>Q - A / T\<bar> \<le> A / T * u"
    and "0 \<le> u" and "u \<le> 1/16"
  shows "a / t * (1 - 3 * u) \<le> Q" and "Q \<le> a / t * (1 + 5 * u)"
proof -
  have uu: "u * u \<le> u * (1/16)" using assms(6,7) by (intro mult_left_mono) auto
  define x where "x = a / t"
  have x: "0 \<le> x" "a = x * t" using assms(1,2) by (simp_all add: x_def)
  have A: "a * (1 - u) \<le> A" "A \<le> a * (1 + u)" using assms(3) by (simp_all add: abs_le_iff algebra_simps)
  have T: "t * (1 - u) \<le> T" "T \<le> t * (1 + u)" using assms(4) by (simp_all add: abs_le_iff algebra_simps)
  have Tp: "0 < T" using T(1) mult_pos_pos [OF assms(2), of "1 - u"] assms(7) by linarith
  have "A \<le> x * (1 + 3 * u) * T"
  proof -
    have "x * (1 + u) \<le> x * ((1 + 3 * u) * (1 - u))" using x(1) uu assms(6) by (intro mult_left_mono) (auto simp: algebra_simps)
    then have "x * (1 + u) * t \<le> x * (1 + 3 * u) * (t * (1 - u))" using assms(2) by (simp add: mult_ac)
    also have "\<dots> \<le> x * (1 + 3 * u) * T" using T(1) x(1) assms(6) by (intro mult_left_mono) auto
    finally show ?thesis using A(2) by (simp add: x(2) mult_ac)
  qed
  then have Y: "A / T \<le> x * (1 + 3 * u)" using Tp by (simp add: divide_le_eq)
  have "x * (1 - 2 * u) * T \<le> A"
  proof -
    have "x * ((1 - 2 * u) * (1 + u)) \<le> x * (1 - u)" using x(1) assms(6) by (intro mult_left_mono) (auto simp: algebra_simps)
    then have "x * (1 - 2 * u) * (t * (1 + u)) \<le> x * (1 - u) * t" using assms(2) by (simp add: mult_ac)
    moreover have "x * (1 - 2 * u) * T \<le> x * (1 - 2 * u) * (t * (1 + u))" using T(2) x(1) assms(7) by (intro mult_left_mono) auto
    ultimately show ?thesis using A(1) by (simp add: x(2) mult_ac)
  qed
  then have Y': "x * (1 - 2 * u) \<le> A / T" using Tp by (simp add: le_divide_eq)
  have q: "\<bar>Q - y\<bar> \<le> y * u \<Longrightarrow> y * (1 - u) \<le> Q \<and> Q \<le> y * (1 + u)" for y by (auto simp: abs_le_iff algebra_simps)
  have Q: "A / T * (1 - u) \<le> Q" "Q \<le> A / T * (1 + u)" using q [OF assms(5)] by blast+
  have "x * (1 - 3 * u) \<le> x * ((1 - 2 * u) * (1 - u))" using x(1) assms(6) by (intro mult_left_mono) (auto simp: algebra_simps)
  also have "\<dots> = x * (1 - 2 * u) * (1 - u)" by (simp add: mult_ac)
  also have "\<dots> \<le> A / T * (1 - u)" using Y' assms(7) by (intro mult_right_mono) auto
  finally show "a / t * (1 - 3 * u) \<le> Q" using Q(1) by (simp add: x_def)
  have "A / T * (1 + u) \<le> x * (1 + 3 * u) * (1 + u)" using Y assms(6) by (intro mult_right_mono) auto
  also have "\<dots> = x * ((1 + 3 * u) * (1 + u))" by (simp add: mult_ac)
  also have "\<dots> \<le> x * (1 + 5 * u)" using x(1) uu assms(6) by (intro mult_left_mono) (auto simp: algebra_simps)
  finally show "Q \<le> a / t * (1 + 5 * u)" using Q(2) by (simp add: x_def)
qed

lemma product_error:
  fixes c x Q P u e :: rat
  assumes "0 \<le> c" and "0 \<le> x" and "x * (1 - 3 * u) \<le> Q" and "Q \<le> x * (1 + 5 * u)" and "\<bar>P - c * Q\<bar> \<le> c * Q * u + e"
    and "0 \<le> u" and "u \<le> 1/16"
  shows "\<bar>P - c * x\<bar> \<le> c * x * (8 * u) + e"
proof -
  have uu: "u * u \<le> u * (1/16)" using assms(6,7) by (intro mult_left_mono) auto
  have cx: "0 \<le> c * x" using assms(1,2) by simp
  have Q: "c * x * (1 - 3 * u) \<le> c * Q" "c * Q \<le> c * x * (1 + 5 * u)"
    using mult_left_mono [OF assms(3) assms(1)] mult_left_mono [OF assms(4) assms(1)] by (simp_all add: mult_ac)
  have "P \<le> c * Q * (1 + u) + e" "c * Q * (1 - u) - e \<le> P" using assms(5) by (simp_all add: abs_le_iff algebra_simps)
  moreover have "c * Q * (1 + u) \<le> c * x * ((1 + 5 * u) * (1 + u))"
    using mult_right_mono [OF Q(2), of "1 + u"] assms(6) by (simp add: mult_ac)
  moreover have "c * x * ((1 + 5 * u) * (1 + u)) \<le> c * x * (1 + 8 * u)" using cx uu assms(6) by (intro mult_left_mono) (auto simp: algebra_simps)
  moreover have "c * x * ((1 - 3 * u) * (1 - u)) \<le> c * Q * (1 - u)"
    using mult_right_mono [OF Q(1), of "1 - u"] assms(7) by (simp add: mult_ac)
  moreover have "c * x * (1 - 8 * u) \<le> c * x * ((1 - 3 * u) * (1 - u))" using cx assms(6) by (intro mult_left_mono) (auto simp: algebra_simps)
  ultimately show ?thesis by (simp add: abs_le_iff algebra_simps)
qed

lemma rnd_int_relative:
  assumes "0 \<le> n"
  shows "\<bar>rnd (of_int n) - of_int n\<bar> \<le> of_int n * uround"
proof (cases "n = 0")
  case False
  with assms have n: "(1::rat) \<le> of_int n" by simp
  have "(2::rat) powi (- 1022) \<le> 2 powi 0" unfolding powi2_le_iff by simp
  then have "2 powi (- 1022) \<le> (of_int n :: rat)" using n by (simp only: power_int_0_right)
  then show ?thesis by (rule rnd_normal)
qed simp

text \<open>A share is the exact one up to a relative \<open>2 ^ (-50)\<close> and half of the least positive number.\<close>

definition exact_share :: "f64 \<Rightarrow> int64 \<Rightarrow> int64 \<Rightarrow> rat" where
  "exact_share c a t = fval c * (of_int (sint a) / of_int (sint t))"

lemma share_error:
  assumes "nn_fin c" and "0 \<le> sint a" and "sint a \<le> sint t" and "0 < sint t"
  shows "\<bar>fval (shareOfCost c a t) - exact_share c a t\<bar> \<le> exact_share c a t * (8 * uround) + tiny"
proof -
  define A where "A = fval (f_of_int64 a)"
  define T where "T = fval (f_of_int64 t)"
  define q where "q = f_of_int64 a / f_of_int64 t"
  have A: "A = rnd (of_int (sint a))" and T: "T = rnd (of_int (sint t))" by (simp_all add: A_def T_def fval_f_of_int64)
  have T1: "1 \<le> T" unfolding T using assms(4) by (intro rnd_of_int_ge1) simp
  have A0: "0 \<le> A" unfolding A by (intro rnd_nonneg) (simp only: of_int_0_le_iff assms(2))
  have AT: "A \<le> T" unfolding A T by (intro rnd_mono) (simp only: of_int_le_iff assms(3))
  have Tmax: "T \<le> 2 ^ 63" unfolding T using rnd_int_bound [of "sint t"] assms(4) sint64_range [of t] by (simp add: abs_le_iff)
  have y: "0 \<le> A / T" "A / T \<le> 1" using A0 AT T1 by (simp_all add: divide_le_eq)
  have nq: "nn_fin q" unfolding q_def by (rule fraction_mono(1) [OF assms(2) order_refl assms(3,4)])
  have r1: "rnd (A / T) \<le> 1" using rnd.le_repr [of 1 "A / T"] y(2) by simp
  have "fval q = xrnd (A / T)" using T1 unfolding q_def A_def T_def by (intro fin_div(2) f_of_int64_fin) auto
  moreover have "\<bar>rnd (A / T)\<bar> < topval" using r1 rnd_nonneg [OF y(1)] big_topval by simp
  ultimately have Q: "fval q = rnd (A / T)" using xrnd_rnd_small by simp
  have QE: "\<bar>fval q - A / T\<bar> \<le> A / T * uround"
  proof (cases "A = 0")
    case False
    then have "sint a \<noteq> 0" unfolding A by (metis of_int_0 rnd_0)
    then have A1: "1 \<le> A" unfolding A using assms(2) by (intro rnd_of_int_ge1) simp
    have "(2::rat) powi (- 1022) \<le> 2 powi (- 63)" unfolding powi2_le_iff by simp
    also have "(2::rat) powi (- 63) = 1 / 2 ^ 63" by (simp add: power_int_minus inverse_eq_divide)
    also have "\<dots> \<le> A / T" using A1 Tmax T1 by (intro frac_le) auto
    finally show ?thesis unfolding Q by (rule rnd_normal)
  qed (simp add: Q)
  have C0: "0 \<le> fval c" using assms(1) by (auto simp: nn_fin_def f_nonneg_iff)
  have cf: "is_fin c" "is_fin q" "0 \<le> fval q" using assms(1) nq by (auto simp: nn_fin_def f_nonneg_iff)
  have CQ: "0 \<le> fval c * fval q" "fval c * fval q \<le> fval c * 1" using C0 cf(3) r1 Q by (auto intro: mult_left_mono simp del: mult_1_right)
  have "rnd (fval c * fval q) \<le> fval c" using rnd.le_repr [of "fval c"] CQ(2) by simp
  moreover have "\<bar>fval c\<bar> < topval" using assms(1) is_fin_iff nn_finD by blast
  ultimately have "\<bar>rnd (fval c * fval q)\<bar> < topval" using rnd_nonneg [OF CQ(1)] by linarith
  then have P: "fval (c * q) = rnd (fval c * fval q)" unfolding fin_mul(2) [OF cf(1,2)] by (rule xrnd_rnd_small)
  have PE: "\<bar>fval (c * q) - fval c * fval q\<bar> \<le> fval c * fval q * uround + tiny"
    using rnd_any [of "fval c * fval q"] CQ(1) unfolding P by (simp only: abs_of_nonneg)
  have sh: "shareOfCost c a t = c * q" using assms(4) by (simp add: shareOfCost_def q_def word_sless_alt)
  have e: "\<bar>A - of_int (sint a)\<bar> \<le> of_int (sint a) * uround" "\<bar>T - of_int (sint t)\<bar> \<le> of_int (sint t) * uround"
    unfolding A T using rnd_int_relative [OF assms(2)] rnd_int_relative [of "sint t"] assms(4) by (simp_all only: less_imp_le)
  have p: "(0::rat) \<le> of_int (sint a)" "(0::rat) < of_int (sint t)"
    using assms(2,4) by (simp_all only: of_int_0_le_iff of_int_0_less_iff)
  note q = quotient_error [OF p e QE uround_simps]
  show ?thesis unfolding sh exact_share_def
    by (rule product_error [OF C0 _ q PE uround_simps]) (use p in simp)
qed

subsection \<open>All shares\<close>

text \<open>A sum over the rows of a map, each the readings of its key, is the sum of all readings.\<close>

lemma sum_partition:
  fixes f :: "'r \<Rightarrow> int"
  assumes "distinct ks" and "\<forall>r \<in> set rs. key r \<in> set ks"
  shows "(\<Sum>k\<leftarrow>ks. \<Sum>r\<leftarrow>rs. if key r = k then f r else 0) = (\<Sum>r\<leftarrow>rs. f r)"
proof -
  have one: "(\<Sum>k\<leftarrow>ks. if key r = k then f r else 0) = f r" if "r \<in> set rs" for r
    using assms that by (simp add: sum_list_distinct_conv_sum_set)
  have "(\<Sum>k\<leftarrow>ks. \<Sum>r\<leftarrow>rs. if key r = k then f r else 0) = (\<Sum>r\<leftarrow>rs. \<Sum>k\<leftarrow>ks. if key r = k then f r else 0)"
    by (induction rs) (simp_all add: sum_list_addf)
  also have "\<dots> = (\<Sum>r\<leftarrow>rs. f r)" using one by (intro arg_cong [of _ _ sum_list] map_cong) auto
  finally show ?thesis .
qed

text \<open>Errors add up.\<close>

lemma sum_errors:
  fixes F E :: "'r \<Rightarrow> rat"
  assumes "\<forall>r \<in> set rs. \<bar>F r - E r\<bar> \<le> E r * d + e"
  shows "\<bar>(\<Sum>r\<leftarrow>rs. F r) - (\<Sum>r\<leftarrow>rs. E r)\<bar> \<le> (\<Sum>r\<leftarrow>rs. E r) * d + of_nat (length rs) * e"
  using assms
proof (induction rs)
  case (Cons r rs)
  then have "\<bar>F r - E r\<bar> \<le> E r * d + e" by simp
  moreover have "\<bar>(\<Sum>r\<leftarrow>rs. F r) - (\<Sum>r\<leftarrow>rs. E r)\<bar> \<le> (\<Sum>r\<leftarrow>rs. E r) * d + of_nat (length rs) * e"
    using Cons by simp
  ultimately show ?case by (simp add: algebra_simps abs_le_iff)
qed simp

text \<open>The rows over the keys of a map whose entries are the sums of the readings of their key.\<close>

lemma rows_conserve:
  fixes key :: "modelKey \<Rightarrow> 'k" and rs :: "(modelKey \<times> int64 \<times> int64) list"
  assumes c: "nn_fin c" and ok: "readings_ok rs" and wf: "gm_wf m"
    and toks: "\<And>k t. (k, t) \<in> set m \<Longrightarrow> sint (tc_input t + tc_output t) = (\<Sum>(mk, i, out)\<leftarrow>rs. if key mk = k then sint i + sint out else 0)"
    and cover: "\<forall>r \<in> set rs. key (fst r) \<in> set (map fst m)"
    and tot: "sint tot = (\<Sum>(mk, i, out)\<leftarrow>rs. sint i + sint out)" and pos: "0 < sint tot"
  shows "\<bar>(\<Sum>(k, t)\<leftarrow>m. fval (shareOfCost c (tc_input t + tc_output t) tot)) - fval c\<bar> \<le> fval c * (8 * uround) + of_nat (length m) * tiny"
proof -
  let ?s = "\<lambda>(k, t). sint (tc_input t + tc_output t)" and ?E = "\<lambda>(k, t). exact_share c (tc_input t + tc_output t) tot"
  let ?F = "\<lambda>(k, t). fval (shareOfCost c (tc_input t + tc_output t) tot)"
  let ?f = "\<lambda>r. sint (fst (snd r)) + sint (snd (snd r))"
  have S: "?s x = (\<Sum>r\<leftarrow>rs. if key (fst r) = fst x then ?f r else 0)" if "x \<in> set m" for x
    using toks [of "fst x" "snd x"] that by (simp add: case_prod_unfold)
  have P: "0 \<le> ?s x" "?s x \<le> sint tot" if "x \<in> set m" for x
    using S [OF that] readings_sum(2) [OF ok, of "\<lambda>mk. key mk = fst x"] readings_sum_mono [OF ok, of "\<lambda>mk. key mk = fst x" "\<lambda>_. True"] tot
    by (simp_all add: case_prod_unfold)
  have "(\<Sum>x\<leftarrow>m. ?s x) = (\<Sum>x\<leftarrow>m. \<Sum>r\<leftarrow>rs. if key (fst r) = fst x then ?f r else 0)" using S by (intro arg_cong [of _ _ sum_list] map_cong) auto
  also have "\<dots> = (\<Sum>k\<leftarrow>map fst m. \<Sum>r\<leftarrow>rs. if key (fst r) = k then ?f r else 0)" by (simp add: o_def)
  also have "\<dots> = sint tot" using sum_partition [of "map fst m" rs "\<lambda>r. key (fst r)" ?f] wf cover tot by (simp add: gm_wf_def case_prod_unfold)
  finally have tokens: "(\<Sum>x\<leftarrow>m. ?s x) = sint tot" .
  have "(\<Sum>x\<leftarrow>m. ?E x) = fval c * (of_int (\<Sum>x\<leftarrow>m. ?s x) / of_int (sint tot))"
    by (induction m) (simp_all add: exact_share_def algebra_simps add_divide_distrib split: prod.split)
  then have exact: "(\<Sum>x\<leftarrow>m. ?E x) = fval c"
    using divide_self [of "of_int (sint tot) :: rat"] pos unfolding tokens by (simp only: of_int_eq_0_iff simp_thms)
  have "\<forall>x \<in> set m. \<bar>?F x - ?E x\<bar> \<le> ?E x * (8 * uround) + tiny"
    using share_error [OF c _ _ pos] P by (auto split: prod.split)
  from sum_errors [OF this] show ?thesis unfolding exact by simp
qed

lemma has_keys: "gm_has m k \<longleftrightarrow> k \<in> set (map fst m)"
  by (simp add: gm_has_def map_of_eq_None_iff)

text \<open>C5 The cost of a report is conserved up to rounding: with a finite non-negative cost and at least one token, the costs of
  the namespaces add up to the cost of the report within a relative error of \<open>2 ^ (-50)\<close> and half the least positive
  number per row, and so do the costs of the models: no share is charged twice and none is lost.\<close>

theorem cost_conservation:
  assumes "scrapeTokens K fetch k report = Inr (modelT, nsT)" and "rc_listPods K k = Inr pods"
    and "readings_ok (readings fetch (nsFilterOf (urs_Namespaces (ur_Spec report))) pods)"
    and "fair_visits V" and "0 \<le> totalCost" and "is_fin totalCost"
    and "buildBreakdowns V modelT nsT totalCost = (byModel, byNamespace, nsCostData, totalIn, totalOut)" and "0 < sint (totalIn + totalOut)"
  shows "\<bar>(\<Sum>n\<leftarrow>byNamespace. fval (nb_EstimatedCostUSD n)) - fval totalCost\<bar>
      \<le> fval totalCost / 2 ^ 50 + of_nat (length byNamespace) * tiny
    \<and> \<bar>(\<Sum>m\<leftarrow>byModel. fval (mb_EstimatedCostUSD m)) - fval totalCost\<bar>
      \<le> fval totalCost / 2 ^ 50 + of_nat (length byModel) * tiny"
proof -
  let ?rs = "readings fetch (nsFilterOf (urs_Namespaces (ur_Spec report))) pods"
  have l: "scrapeLoop fetch (nsFilterOf (urs_Namespaces (ur_Spec report))) pods [] [] = (modelT, nsT)"
    using assms(1,2) by (simp add: scrapeTokens_def)
  note R = row_tokens [OF l assms(3)] and inv = scrapeLoop_inv [OF l]
  have cover: "\<forall>r \<in> set ?rs. fst r \<in> set (map fst modelT) \<and> mk_namespace (fst r) \<in> set (map fst nsT)"
    using inv unfolding has_keys by blast
  have c: "nn_fin totalCost" using assms(5,6) by (simp add: nn_fin_def)
  have b: "totalIn = (\<Sum>(k, t)\<leftarrow>modelT. tc_input t)" "totalOut = (\<Sum>(k, t)\<leftarrow>modelT. tc_output t)"
    "byModel = map (modelRow totalCost (totalIn + totalOut)) (v_model V modelT)"
    "byNamespace = map (namespaceRow totalCost (totalIn + totalOut)) (v_ns V nsT)"
    using assms(7) unfolding buildBreakdowns_def fair_sum [OF assms(4)] Let_def by auto
  have T: "sint (totalIn + totalOut) = (\<Sum>(mk, i, out)\<leftarrow>?rs. sint i + sint out)" using R(3) by (simp add: b(1,2))
  have V: "map_range (v_model V)" "map_range (v_ns V)" using assms(4) by (simp_all add: fair_visits_def)
  note wf = visit_wf [OF V(1)] visit_wf [OF V(2)] and sets = map_range.visit_set [OF V(1)] map_range.visit_set [OF V(2)]
  have m: "\<bar>(\<Sum>(k, t)\<leftarrow>v_model V modelT. fval (shareOfCost totalCost (tc_input t + tc_output t) (totalIn + totalOut))) - fval totalCost\<bar>
      \<le> fval totalCost * (8 * uround) + of_nat (length (v_model V modelT)) * tiny"
    by (rule rows_conserve [where key = "\<lambda>mk. mk", OF c assms(3) _ _ _ T assms(8)])
      (use inv cover R(1) wf(1) in \<open>simp_all add: sets\<close>)
  have n: "\<bar>(\<Sum>(k, t)\<leftarrow>v_ns V nsT. fval (shareOfCost totalCost (tc_input t + tc_output t) (totalIn + totalOut))) - fval totalCost\<bar>
      \<le> fval totalCost * (8 * uround) + of_nat (length (v_ns V nsT)) * tiny"
    by (rule rows_conserve [where key = mk_namespace, OF c assms(3) _ _ _ T assms(8)])
      (use inv cover R(2) wf(2) in \<open>simp_all add: sets\<close>)
  show ?thesis using m n bound_simps by (simp add: b(3,4) o_def case_prod_unfold modelRow_def namespaceRow_def Let_def)
qed

theorem cost_conservation_witness:
  "\<exists>modelT nsT byModel byNamespace nsCostData totalIn totalOut.
    buildBreakdowns in_reverse modelT nsT (lit 10) = (byModel, byNamespace, nsCostData, totalIn, totalOut)
    \<and> scrapeTokens demo_pods_client demo_scrape () demo_report = Inr (modelT, nsT)
    \<and> \<bar>(\<Sum>n\<leftarrow>byNamespace. fval (nb_EstimatedCostUSD n)) - fval (lit 10)\<bar> \<le> fval (lit 10) / 2 ^ 50 + of_nat (length byNamespace) * tiny"
proof (rule demo_scraped)
  fix modelT nsT
  assume s: "scrapeTokens demo_pods_client demo_scrape () demo_report = Inr (modelT, nsT)"
    and pods: "rc_listPods demo_pods_client () = Inr [demo_pod, demo_pod]"
    and rs: "readings demo_scrape (nsFilterOf (urs_Namespaces (ur_Spec demo_report))) [demo_pod, demo_pod] =
      [(\<lparr>mk_model = ''llama'', mk_namespace = ''ml''\<rparr>, 30, 12), (\<lparr>mk_model = ''llama'', mk_namespace = ''ml''\<rparr>, 30, 12)]"
  obtain byModel byNamespace nsCostData totalIn totalOut
    where b: "buildBreakdowns in_reverse modelT nsT (lit 10) = (byModel, byNamespace, nsCostData, totalIn, totalOut)"
    by (metis surj_pair)
  let ?rs = "readings demo_scrape (nsFilterOf (urs_Namespaces (ur_Spec demo_report))) [demo_pod, demo_pod]"
  have ok: "readings_ok ?rs" unfolding rs by (simp add: readings_ok_def)
  have l: "scrapeLoop demo_scrape (nsFilterOf (urs_Namespaces (ur_Spec demo_report))) [demo_pod, demo_pod] [] [] = (modelT, nsT)"
    using s pods by (simp add: scrapeTokens_def)
  have "sint (totalIn + totalOut) = 84"
    using row_tokens(3) [OF l ok] b unfolding rs buildBreakdowns_def fair_sum [OF fair_demo(2)] Let_def by auto
  then have pos: "0 < sint (totalIn + totalOut)" by simp
  have c: "0 \<le> lit 10" "is_fin (lit 10)" by (simp_all add: lits f_less_imp_le)
  show ?thesis using cost_conservation [OF s pods ok fair_demo(2) c b pos] s b by auto
qed

end
