(* ===== verification/ReportBreakEven.thy ===== *)
theory ReportBreakEven
  imports ReportCompute
begin

text \<open>The break-even analysis: which targets get an entry, and when the verdict is in favour of the hardware.\<close>

subsection \<open>Sizes\<close>

lemma xrnd_pow2_bound:
  assumes "\<bar>r\<bar> \<le> 2 ^ k" and "k < 1024"
  shows "\<bar>xrnd r\<bar> \<le> 2 ^ k" and "\<bar>xrnd r\<bar> < topval"
proof -
  have e: "rnd (2 ^ k) = (2 ^ k :: rat)" using rnd_exact [of 1 "int k"] by simp
  have t: "(2 ^ k :: rat) < topval" using assms(2) unfolding topval_def by (intro power_strict_increasing) simp_all
  have b: "\<bar>rnd r\<bar> \<le> 2 ^ k" using rnd.abs_le_repr [of "2 ^ k" r] e assms(1) by simp
  then have "xrnd r = rnd r" using t by (intro xrnd_rnd_small) simp
  then show "\<bar>xrnd r\<bar> \<le> 2 ^ k" "\<bar>xrnd r\<bar> < topval" using b t by simp_all
qed

lemma fin_of_bound:
  assumes "\<not> is_nan x" and "fval x = xrnd r" and "\<bar>r\<bar> \<le> 2 ^ k" and "k < 1024"
  shows "is_fin x"
proof -
  have "\<bar>fval x\<bar> < topval" unfolding assms(2) by (rule xrnd_pow2_bound(2) [OF assms(3,4)])
  with is_fin_iff [OF assms(1)] show ?thesis by blast
qed

lemma is_fin_Hours:
  assumes "\<bar>d\<bar> \<le> 2 ^ 63"
  shows "is_fin (Hours d)"
proof -
  let ?q = "tdiv d nsHour" and ?r = "tmod d nsHour" and ?c = "lit 3600000000000"
  have qb: "\<bar>?q\<bar> \<le> 2 ^ 53" and rb: "\<bar>?r\<bar> \<le> 2 ^ 53"
    using assms by (auto simp: tdiv_def tmod_def nsHour_def nsMinute_def nsSecond_def abs_if div_le_mono split: if_splits)
  have c: "fval ?c = 3600000000000" "is_fin ?c" by (simp_all add: lits del: fval_mkf)
  note Q = lit_small_int [OF qb] and R = lit_small_int [OF rb]
  have D: "\<not> is_nan (lit (of_int ?r) / ?c)" "fval (lit (of_int ?r) / ?c) = xrnd (of_int ?r / 3600000000000)"
    using fin_div [of "lit (of_int ?r)" ?c] R c by (simp_all del: fval_mkf)
  have rr: "\<bar>of_int ?r / 3600000000000 :: rat\<bar> \<le> 2 ^ 53"
  proof -
    have "\<bar>of_int ?r :: rat\<bar> \<le> of_int (2 ^ 53)" using rb by (simp only: of_int_abs [symmetric] of_int_le_iff)
    then show ?thesis by (simp add: abs_divide)
  qed
  have F: "is_fin (lit (of_int ?r) / ?c)" by (rule fin_of_bound [OF D rr]) simp
  have S: "\<not> is_nan (lit (of_int ?q) + lit (of_int ?r) / ?c)"
    "fval (lit (of_int ?q) + lit (of_int ?r) / ?c) = xrnd (of_int ?q + xrnd (of_int ?r / 3600000000000))"
    using fin_add [of "lit (of_int ?q)" "lit (of_int ?r) / ?c"] Q F D(2) by (simp_all del: fval_mkf)
  have "\<bar>of_int ?q :: rat\<bar> \<le> of_int (2 ^ 53)" using qb by (simp only: of_int_abs [symmetric] of_int_le_iff)
  then have "\<bar>of_int ?q + xrnd (of_int ?r / 3600000000000)\<bar> \<le> (2 ^ 54 :: rat)"
    using xrnd_pow2_bound(1) [OF rr] by simp
  from fin_of_bound [OF S this] show ?thesis by (simp add: Hours_def)
qed

lemma time_Sub_range: "\<bar>time_Sub t u\<bar> \<le> 2 ^ 63"
  by (simp add: time_Sub_def)

text \<open>The length of a period is a finite number of hours, at least a thousandth.\<close>

lemma periodBounds_hours:
  assumes "periodBounds s now = (start, endt, hours)"
  shows "lit (1/1000) \<le> hours" "is_fin hours" "start = computePeriodStart s now" "endt = now"
proof -
  have l: "is_fin (lit (1/1000))" by code_simp
  have h: "is_fin (Hours (time_Sub now (computePeriodStart s now)))" by (rule is_fin_Hours [OF time_Sub_range])
  show "lit (1/1000) \<le> hours" "is_fin hours" "start = computePeriodStart s now" "endt = now"
    using assms h l f_not_less [of "Hours (time_Sub now (computePeriodStart s now))" "lit (1/1000)"]
    by (auto simp: periodBounds_def Let_def f_le_refl simp del: fval_mkf split: if_splits)
qed

lemma tokensPerDay_ok:
  assumes "0 \<le> sint (totalIn + totalOut)" and "lit (1/1000) \<le> h" and "is_fin h"
  shows "nn_fin (tokensPerDay totalIn totalOut h)"
proof -
  let ?x = "f_of_int64 (totalIn + totalOut)"
  have m: "0 < lit (1/1000)" "1 / 2048 \<le> fval (lit (1/1000))" by code_simp+
  have h: "0 < h" "1 / 2048 \<le> fval h" using m assms(2) f_less_le_trans f_leD [OF assms(2)] by (auto simp del: fval_mkf)
  have x: "0 \<le> ?x" "is_fin ?x" using f_of_int64_mono [of 0 "totalIn + totalOut"] assms(1) by (simp_all add: word_sle_eq)
  have xb: "fval ?x \<le> 2 ^ 63" "0 \<le> fval ?x"
    using rnd_int_bound [of "sint (totalIn + totalOut)"] sint64_range [of "totalIn + totalOut"] x(1)
    by (simp_all add: fval_f_of_int64 f_nonneg_iff abs_le_iff)
  have n: "0 \<le> ?x / h" by (rule div_nn [OF x(1) h(1) assms(3)])
  have nz: "fval h \<noteq> 0" using h(2) by auto
  have q: "\<not> is_nan (?x / h)" "fval (?x / h) = xrnd (fval ?x / fval h)" using fin_div [OF x(2) assms(3) nz] by simp_all
  have "fval ?x / fval h \<le> fval ?x / (1 / 2048)" using h xb by (intro divide_left_mono) auto
  then have qb: "\<bar>fval ?x / fval h\<bar> \<le> 2 ^ 74" using xb h by simp
  have qf: "is_fin (?x / h)" by (rule fin_of_bound [OF q qb]) simp
  have l: "nn_fin (lit 24)" by (rule nn_lit) simp
  have p: "\<not> is_nan (?x / h * lit 24)" "fval (?x / h * lit 24) = xrnd (xrnd (fval ?x / fval h) * 24)"
    using fin_mul [OF qf nn_finD(2) [OF l]] q(2) by (simp_all add: lits del: fval_mkf)
  have "\<bar>xrnd (fval ?x / fval h) * 24\<bar> \<le> 2 ^ 79" using xrnd_pow2_bound(1) [OF qb] by (simp add: abs_mult)
  then have "is_fin (?x / h * lit 24)" by (rule fin_of_bound [OF p]) simp
  moreover have "0 \<le> ?x / h * lit 24" using mul_nn [of "?x / h" "lit 24"] n qf l by (simp add: nn_fin_def)
  ultimately show ?thesis using h(1) by (simp add: tokensPerDay_def nn_fin_def)
qed

subsection \<open>Verdicts\<close>

lemma nan_div [simp]: "is_nan y \<Longrightarrow> is_nan (x / y)" for x y :: f64
  by (simp add: divide_f64_def fdiv_def Let_def)

lemma nan_mul [simp]: "is_nan x \<Longrightarrow> is_nan (x * y)" for x y :: f64
  by (simp add: times_f64_def fmul_def Let_def)

lemma verdict_percent:
  assumes "nn_fin cur"
  shows "lit 100 \<le> PercentOfBreakEven cur b \<longleftrightarrow> 0 < b \<and> b \<le> cur"
proof -
  note c = nn_finD [OF assms]
  have l: "nn_fin (lit 100)" "fval (lit 100) = 100" by (rule nn_lit, simp) (simp add: lits del: fval_mkf)
  consider "b \<le> 0" | "is_nan b" | "0 < b" "is_fin b" | "0 < b" "is_inf b"
    using fin_cases [of b] f_not_le [of b 0] by auto
  then show ?thesis
  proof cases
    case 1
    then have "\<not> 0 < b" by (simp add: less_f64_def less_eq_f64_def)
    moreover have "\<not> lit 100 \<le> 0" using l(2) by (simp add: less_eq_f64_def del: fval_mkf)
    ultimately show ?thesis using 1 by (simp add: PercentOfBreakEven_def)
  next
    case 2
    then have "\<not> b \<le> 0" "\<not> 0 < b" by (simp_all add: less_f64_def less_eq_f64_def)
    moreover have "\<not> lit 100 \<le> cur / b * lit 100" using 2 by (simp add: less_eq_f64_def)
    ultimately show ?thesis by (simp add: PercentOfBreakEven_def)
  next
    case 3
    then have "\<not> b \<le> 0" by (simp add: less_f64_def less_eq_f64_def)
    then show ?thesis using f_percent_100 [OF c(1) 3] 3(1) by (simp add: PercentOfBreakEven_def)
  next
    case 4
    then have b: "\<not> b \<le> 0" by (simp add: less_f64_def less_eq_f64_def)
    have n: "\<not> is_nan (cur / b)" by (rule f_div_not_nan [OF c(1) 4(1)]) (simp add: c(2))
    have q: "fval (cur / b) = 0" using f_div_fin_iff [OF c(1) 4(1) n] 4(2) c(2) by auto
    have f: "is_fin (cur / b)" using is_fin_iff [OF n] q topval_pos by simp
    have "fval (cur / b * lit 100) = xrnd 0" using fin_mul(2) [OF f nn_finD(2) [OF l(1)]] q by simp
    then have "fval (cur / b * lit 100) = 0" using xrnd_fval [of 0] by simp
    then have "\<not> lit 100 \<le> cur / b * lit 100" using l(2) by (simp add: less_eq_f64_def del: fval_mkf)
    moreover have "\<not> b \<le> cur"
    proof
      assume "b \<le> cur"
      from f_le_fin [OF f_less_imp_le [OF 4(1)] this c(2)] show False using 4(2) by simp
    qed
    ultimately show ?thesis using b by (simp add: PercentOfBreakEven_def)
  qed
qed

lemma breakEvenLoop_form:
  "breakEvenLoop byKey entryOf ts =
    (map (\<lambda>t. entryOf (the (map_of byKey (targetKey (ct_Provider t) (ct_Model t)))))
       (filter (\<lambda>t. gm_has byKey (targetKey (ct_Provider t) (ct_Model t))) ts),
     map (\<lambda>t. ct_Provider t @ ''/'' @ ct_Model t) (filter (\<lambda>t. \<not> gm_has byKey (targetKey (ct_Provider t) (ct_Model t))) ts))"
  by (induction ts) (auto simp: gm_has_def split: option.split)

text \<open>C32 The verdict and the percentage of a break-even entry never contradict each other: for every report with a
  non-negative token total, an entry says on-premises is cheaper exactly when its percentage is at least 100,
  whatever rounding, an infinite or a NaN break-even volume do; otherwise it says the cloud is cheaper.\<close>

theorem break_even_verdicts:
  assumes "0 \<le> sint (totalIn + totalOut)" and "periodBounds s now = (start, endt, hours)"
    and "e \<in> set (fst (computeBreakEven pricing profile totalIn totalOut hours))"
  shows "be_Verdict e = (if lit 100 \<le> be_PercentOfBreakEven e then ''on-prem-cheaper-at-current-utilization''
    else ''cloud-cheaper-at-current-utilization'')"
proof -
  have cur: "nn_fin (tokensPerDay totalIn totalOut hours)"
    by (rule tokensPerDay_ok [OF assms(1) periodBounds_hours(1,2) [OF assms(2)]])
  obtain p where "e = breakEvenEntry (dailyCostOf profile) (tokensPerDay totalIn totalOut hours) totalIn totalOut p"
    using assms(3) by (auto simp: computeBreakEven_def breakEvenLoop_form)
  then show ?thesis using verdict_percent [OF cur] by (simp add: breakEvenEntry_def Let_def)
qed

definition demo_rates :: "CloudPricing list" where
  "demo_rates = [\<lparr>cp_Provider = ''a'', cp_Model = ''b'', cp_InputPerMillion = lit 1, cp_OutputPerMillion = lit 4\<rparr>]"

definition demo_profile :: CostProfile where
  "demo_profile = \<lparr>prof_Meta = \<lparr>om_Name = ''gpu'', om_Namespace = ''finops'', om_CreationTimestamp = 0\<rparr>,
     prof_Spec = \<lparr>cps_Hardware = \<lparr>hs_GPUModel = ''NVIDIA H100'', hs_GPUCount = 1, hs_PurchasePriceUSD = lit 30000, hs_AmortizationYears = 4,
         hs_MaintenancePercentPerYear = 0, hs_TDPWatts = Some 700\<rparr>,
       cps_Electricity = \<lparr>es_RatePerKWh = lit 1, es_PUEFactor = lit 1, es_IdleWattsThreshold = None\<rparr>,
       cps_NodeSelector = [], cps_NamespaceSelector = [],
       cps_CloudComparison = Some \<lparr>ccs_Targets = [\<lparr>ct_Provider = ''A'', ct_Model = ''b''\<rparr>]\<rparr>\<rparr>,
     prof_Status = \<lparr>cpt_HourlyCostUSD = lit 2, cpt_AmortizationRatePerHour = lit 1, cpt_ElectricityCostPerHour = lit 1,
       cpt_CurrentPowerDrawWatts = lit 500, cpt_LastUpdated = None, cpt_Conditions = []\<rparr>\<rparr>"

theorem break_even_verdicts_witness:
  "\<exists>e. fst (computeBreakEven demo_rates demo_profile 1000 200 (snd (snd (periodBounds ReportScheduleDaily (time_Date 2025 1 3))))) = [e]
    \<and> (be_Verdict e = ''on-prem-cheaper-at-current-utilization'' \<longleftrightarrow> lit 100 \<le> be_PercentOfBreakEven e)"
proof -
  let ?h = "snd (snd (periodBounds ReportScheduleDaily (time_Date 2025 1 3)))" and ?p = "hd demo_rates"
  have k: "targetKey ''A'' ''b'' = targetKey ''a'' ''b''" by code_simp
  have t: "breakEvenTargets demo_profile = [\<lparr>ct_Provider = ''A'', ct_Model = ''b''\<rparr>]"
    by (simp add: breakEvenTargets_def demo_profile_def)
  have e: "fst (computeBreakEven demo_rates demo_profile 1000 200 ?h)
    = [breakEvenEntry (dailyCostOf demo_profile) (tokensPerDay 1000 200 ?h) 1000 200 ?p]"
    by (simp add: computeBreakEven_def t k pricingByKey_def demo_rates_def)
  obtain st en where period: "periodBounds ReportScheduleDaily (time_Date 2025 1 3) = (st, en, ?h)" by (metis prod.collapse)
  have pos: "0 \<le> sint (1000 + 200 :: int64)" by simp
  show ?thesis using break_even_verdicts [OF pos period, of _ demo_rates demo_profile] unfolding e by simp
qed

subsection \<open>Targets\<close>

lemma map_of_pricingByKey:
  "map_of (pricingByKey pricing) = map_of (rev (map (\<lambda>p. (targetKey (cp_Provider p) (cp_Model p), p)) pricing))"
proof (induction pricing rule: rev_induct)
  case (snoc p ps)
  have "pricingByKey (ps @ [p]) = gm_put (targetKey (cp_Provider p) (cp_Model p)) p (pricingByKey ps)"
    by (simp add: pricingByKey_def)
  then show ?case using snoc by simp
qed (simp add: pricingByKey_def)

lemma pricingByKey_has: "gm_has (pricingByKey pricing) k \<longleftrightarrow> (\<exists>p \<in> set pricing. targetKey (cp_Provider p) (cp_Model p) = k)"
  unfolding gm_has_def map_of_pricingByKey map_of_eq_None_iff by (simp add: image_image) blast

lemma pricingByKey_key:
  assumes "gm_has (pricingByKey pricing) k"
  shows "targetKey (cp_Provider (the (map_of (pricingByKey pricing) k))) (cp_Model (the (map_of (pricingByKey pricing) k))) = k"
proof -
  obtain p where p: "map_of (pricingByKey pricing) k = Some p" using assms by (auto simp: gm_has_def)
  then have "(k, p) \<in> set (rev (map (\<lambda>p. (targetKey (cp_Provider p) (cp_Model p), p)) pricing))"
    unfolding map_of_pricingByKey by (rule map_of_SomeD)
  then show ?thesis by (auto simp: p)
qed

text \<open>Every configured target is answered once and in order: the entries are those of the targets some catalog entry
  matches up to letter case, each under the catalog's spelling, and the unknown ones are returned as written.\<close>

theorem break_even_targets:
  "map (\<lambda>e. targetKey (be_Provider e) (be_Model e)) (fst (computeBreakEven pricing profile totalIn totalOut hours))
    = map (\<lambda>t. targetKey (ct_Provider t) (ct_Model t))
        (filter (\<lambda>t. \<exists>p \<in> set pricing. targetKey (cp_Provider p) (cp_Model p) = targetKey (ct_Provider t) (ct_Model t)) (breakEvenTargets profile))
   \<and> snd (computeBreakEven pricing profile totalIn totalOut hours) = map (\<lambda>t. ct_Provider t @ ''/'' @ ct_Model t)
        (filter (\<lambda>t. \<not> (\<exists>p \<in> set pricing. targetKey (cp_Provider p) (cp_Model p) = targetKey (ct_Provider t) (ct_Model t))) (breakEvenTargets profile))"
  unfolding computeBreakEven_def breakEvenLoop_form pricingByKey_has [symmetric]
  by (simp add: breakEvenEntry_def Let_def pricingByKey_key cong: map_cong)

end
