(* ===== verification/UsageReportFacts.thy ===== *)
theory UsageReportFacts
  imports UsageReportCtl ReportPeriods ReportConservation ReportBreakEven
begin

text \<open>What the reconcile of a UsageReport guarantees: when it writes the status, and what it publishes.\<close>

subsection \<open>Lines\<close>

lemma split_at_first: "c \<notin> set x \<Longrightarrow> c \<notin> set y \<Longrightarrow> x @ c # a = y @ c # b \<Longrightarrow> x = y \<and> a = b"
proof (induction x arbitrary: y)
  case Nil
  then show ?case by (cases y) auto
next
  case (Cons d x)
  then show ?case by (cases y) auto
qed

lemma split_at_last:
  assumes "c \<notin> set x" "c \<notin> set y" "a @ c # x = b @ c # y"
  shows "a = b \<and> x = y"
proof -
  have "rev x @ c # rev a = rev y @ c # rev b" using arg_cong [OF assms(3), of rev] by simp
  with split_at_first [of c "rev x" "rev y" "rev a" "rev b"] assms(1,2) show ?thesis by simp
qed

lemma show_int64_chars: "c \<notin> insert (CHR ''-'') (set ''0123456789'') \<Longrightarrow> c \<notin> set (show_int64 w)"
  using show_int_chars [of "sint w"] by (auto simp: show_int64_def)

definition modelContent :: "ModelCostBreakdown \<Rightarrow> gostring \<times> gostring \<times> int64 \<times> int64" where
  "modelContent m = (mb_Namespace m, mb_Model m, mb_InputTokens m, mb_OutputTokens m)"

definition namespaceContent :: "NamespaceCostBreakdown \<Rightarrow> gostring \<times> int64" where
  "namespaceContent n = (nb_Namespace n, nb_TokenCount n)"

lemma modelLine_inj:
  assumes "CHR ''/'' \<notin> set (mb_Namespace m)" "CHR ''/'' \<notin> set (mb_Namespace n)" and eq: "modelLine m = modelLine n"
  shows "modelContent m = modelContent n"
proof -
  note c = show_int64_chars [of "CHR '':''"] show_int64_chars [of "CHR ''+''"]
  have "mb_Namespace m = mb_Namespace n"
    and r: "mb_Model m @ CHR '':'' # (show_int64 (mb_InputTokens m) @ CHR ''+'' # show_int64 (mb_OutputTokens m))
      = mb_Model n @ CHR '':'' # (show_int64 (mb_InputTokens n) @ CHR ''+'' # show_int64 (mb_OutputTokens n))"
    using split_at_first [OF assms(1,2) eq [unfolded modelLine_def append_Cons append_Nil]] by simp_all
  moreover have "mb_Model m = mb_Model n"
    and s: "show_int64 (mb_InputTokens m) @ CHR ''+'' # show_int64 (mb_OutputTokens m) = show_int64 (mb_InputTokens n) @ CHR ''+'' # show_int64 (mb_OutputTokens n)"
    using split_at_last [OF _ _ r] c by simp_all
  moreover have "show_int64 (mb_InputTokens m) = show_int64 (mb_InputTokens n)" "show_int64 (mb_OutputTokens m) = show_int64 (mb_OutputTokens n)"
    using split_at_last [OF _ _ s] c by simp_all
  ultimately show ?thesis using show_int64_inj by (auto simp: modelContent_def)
qed

lemma namespaceLine_inj: "namespaceLine m = namespaceLine n \<Longrightarrow> namespaceContent m = namespaceContent n"
  using split_at_last [of "CHR '':''" "show_int64 (nb_TokenCount m)" "show_int64 (nb_TokenCount n)" "nb_Namespace m" "nb_Namespace n"]
    show_int64_chars [of "CHR '':''"] show_int64_inj
  by (simp add: namespaceLine_def namespaceContent_def)

text \<open>Lines are equal as multisets exactly when the contents are.\<close>

lemma lines_mset:
  assumes "\<And>x y. x \<in> set xs \<union> set ys \<Longrightarrow> y \<in> set xs \<union> set ys \<Longrightarrow> line x = line y \<Longrightarrow> key x = key y"
    and "\<And>x y. key x = key y \<Longrightarrow> line x = line y"
  shows "mset (map line xs) = mset (map line ys) \<longleftrightarrow> mset (map key xs) = mset (map key ys)"
proof -
  have "\<exists>l. \<forall>x. key x = k \<longrightarrow> line x = l" for k using assms(2) by blast
  then obtain g where "\<And>k x. key x = k \<longrightarrow> line x = g k" by metis
  then have g: "line x = g (key x)" for x by blast
  have "inj_on g (set (map key xs) \<union> set (map key ys))"
    using assms(1) by (auto simp: inj_on_def g)
  moreover have "map line zs = map g (map key zs)" for zs by (simp add: g)
  ultimately show ?thesis using map_eq_mset_inj by metis
qed

lemma sameStrings_eq: "length as = length bs \<Longrightarrow> sameStrings as bs = Some (as = bs)"
  by (induction as bs rule: sameStrings.induct) auto

lemma modelBreakdownsEqual_mset: "length a = length b \<Longrightarrow> modelBreakdownsEqual a b = Some (mset (map modelLine a) = mset (map modelLine b))"
  by (simp add: modelBreakdownsEqual_def sameStrings_eq sort_eq_iff_mset)

lemma namespaceBreakdownsEqual_mset: "length a = length b \<Longrightarrow>
    namespaceBreakdownsEqual a b = Some (mset (map namespaceLine a) = mset (map namespaceLine b))"
  by (simp add: namespaceBreakdownsEqual_def sameStrings_eq sort_eq_iff_mset)

lemma mset_map_length: "mset (map f a) = mset (map g b) \<Longrightarrow> length a = length b"
  by (metis length_map size_mset)

definition sameContent :: "UsageReportStatus \<Rightarrow> UsageReportStatus \<Rightarrow> bool" where
  "sameContent a b = (ut_Period a = ut_Period b \<and> ut_InputTokens a = ut_InputTokens b \<and> ut_OutputTokens a = ut_OutputTokens b
     \<and> mset (map modelContent (ut_ByModel a)) = mset (map modelContent (ut_ByModel b))
     \<and> mset (map namespaceContent (ut_ByNamespace a)) = mset (map namespaceContent (ut_ByNamespace b)))"

definition clean_namespaces :: "UsageReportStatus \<Rightarrow> bool" where
  "clean_namespaces s = (\<forall>m \<in> set (ut_ByModel s). CHR ''/'' \<notin> set (mb_Namespace m))"

lemma contentEqual_sound:
  assumes "clean_namespaces a" "clean_namespaces b"
  shows "usageReportStatusContentEqual a b = Some (sameContent a b)"
proof -
  have m: "mset (map modelLine (ut_ByModel a)) = mset (map modelLine (ut_ByModel b)) \<longleftrightarrow>
      mset (map modelContent (ut_ByModel a)) = mset (map modelContent (ut_ByModel b))"
  proof (rule lines_mset)
    have c: "CHR ''/'' \<notin> set (mb_Namespace x)" if "x \<in> set (ut_ByModel a) \<union> set (ut_ByModel b)" for x
      using assms that unfolding clean_namespaces_def by blast
    show "modelContent x = modelContent y"
      if "x \<in> set (ut_ByModel a) \<union> set (ut_ByModel b)" "y \<in> set (ut_ByModel a) \<union> set (ut_ByModel b)" "modelLine x = modelLine y" for x y
      by (rule modelLine_inj [OF c [OF that(1)] c [OF that(2)] that(3)])
  qed (simp add: modelContent_def modelLine_def)
  have n: "mset (map namespaceLine (ut_ByNamespace a)) = mset (map namespaceLine (ut_ByNamespace b)) \<longleftrightarrow>
      mset (map namespaceContent (ut_ByNamespace a)) = mset (map namespaceContent (ut_ByNamespace b))"
    by (rule lines_mset) (rule namespaceLine_inj, assumption, simp add: namespaceContent_def namespaceLine_def)
  show ?thesis
  proof (cases "length (ut_ByModel a) = length (ut_ByModel b) \<and> length (ut_ByNamespace a) = length (ut_ByNamespace b)")
    case True
    then show ?thesis
      by (simp add: usageReportStatusContentEqual_def sameContent_def modelBreakdownsEqual_mset namespaceBreakdownsEqual_mset
          m n del: mset_map split: bool.split) blast
  next
    case False
    then have "\<not> sameContent a b" using mset_map_length [of modelContent "ut_ByModel a" modelContent "ut_ByModel b"]
        mset_map_length [of namespaceContent "ut_ByNamespace a" namespaceContent "ut_ByNamespace b"]
      unfolding sameContent_def by argo
    moreover have "usageReportStatusContentEqual a b = Some False" using False by (simp add: usageReportStatusContentEqual_def)
    ultimately show ?thesis by simp
  qed
qed

lemma contentEqual_total: "usageReportStatusContentEqual a b \<noteq> None"
  by (auto simp: usageReportStatusContentEqual_def modelBreakdownsEqual_mset namespaceBreakdownsEqual_mset split: bool.split)

text \<open>C33 The comparison that decides whether to write a status never panics, and for namespaces without a slash (as
  Kubernetes names are) it is exact: it holds if and only if the period, the token totals and, as multisets, the
  tokens per model and per namespace are the same.  Sorting the formatted lines is a faithful comparison.\<close>

theorem content_equal_exact:
  assumes "\<forall>m \<in> set (ut_ByModel a) \<union> set (ut_ByModel b). CHR ''/'' \<notin> set (mb_Namespace m)"
  shows "usageReportStatusContentEqual a b = Some (ut_Period a = ut_Period b
    \<and> ut_InputTokens a = ut_InputTokens b \<and> ut_OutputTokens a = ut_OutputTokens b
    \<and> mset (map (\<lambda>m. (mb_Namespace m, mb_Model m, mb_InputTokens m, mb_OutputTokens m)) (ut_ByModel a))
      = mset (map (\<lambda>m. (mb_Namespace m, mb_Model m, mb_InputTokens m, mb_OutputTokens m)) (ut_ByModel b))
    \<and> mset (map (\<lambda>n. (nb_Namespace n, nb_TokenCount n)) (ut_ByNamespace a))
      = mset (map (\<lambda>n. (nb_Namespace n, nb_TokenCount n)) (ut_ByNamespace b)))"
proof -
  have k: "(\<lambda>m. (mb_Namespace m, mb_Model m, mb_InputTokens m, mb_OutputTokens m)) = modelContent"
    "(\<lambda>n. (nb_Namespace n, nb_TokenCount n)) = namespaceContent"
    by (simp_all add: fun_eq_iff modelContent_def namespaceContent_def)
  have c: "clean_namespaces a" "clean_namespaces b" using assms by (simp_all add: clean_namespaces_def)
  show ?thesis unfolding k contentEqual_sound [OF c] sameContent_def ..
qed

definition demo_row :: "gostring \<Rightarrow> f64 \<Rightarrow> ModelCostBreakdown" where
  "demo_row model cost = \<lparr>mb_Model = model, mb_Namespace = ''ml'', mb_InputTokens = 5, mb_OutputTokens = 7,
     mb_EstimatedCostUSD = cost, mb_CostPerMillionTokens = cost\<rparr>"

theorem content_equal_exact_witness:
  "usageReportStatusContentEqual (ur_Status demo_report\<lparr>ut_ByModel := [demo_row ''x'' (lit 1), demo_row ''y'' (lit 2)]\<rparr>)
     (ur_Status demo_report\<lparr>ut_ByModel := [demo_row ''y'' (lit 4), demo_row ''x'' (lit 3)]\<rparr>) = Some True"
  by (subst content_equal_exact) (simp_all add: demo_row_def)

subsection \<open>Writing\<close>

definition ready :: "condition_ops \<Rightarrow> UsageReportStatus \<Rightarrow> bool" where
  "ready C s = (\<exists>c. cs_find C (ut_Conditions s) ''Ready'' = Some c \<and> c_Status c = ConditionTrue \<and> c_Reason c = ''ReportComputed'')"

lemma newStatus_content:
  "ut_Period (newStatus C c t s) = k_period c" "ut_InputTokens (newStatus C c t s) = k_inputTokens c"
  "ut_OutputTokens (newStatus C c t s) = k_outputTokens c" "ut_ByModel (newStatus C c t s) = k_byModel c"
  "ut_ByNamespace (newStatus C c t s) = k_byNamespace c"
  by (simp_all add: newStatus_def filledStatus_def Let_def)

context status_conditions
begin

lemma newStatus_ready: "ready C (newStatus C c t s)"
  unfolding newStatus_def Let_def
  using set_same [of "ut_Conditions (filledStatus c t s)" "\<lparr>c_Type = ''Ready'', c_Status = ConditionTrue, c_Reason = ''ReportComputed'',
        c_Message = StatusMessage (filledStatus c t s), c_LastTransitionTime = t\<rparr>"]
  by (auto simp: ready_def)

lemma transitioned_iff: "conditionTransitioned C (ut_Conditions s) (ut_Conditions (newStatus C c t s)) ''Ready'' \<longleftrightarrow> \<not> ready C s"
  using newStatus_ready [of c t s] unfolding ready_def
  by (auto simp: conditionTransitioned_def split: option.split)

lemma apply_form:
  "applyStatusIfChanged C K report c t k =
    (let st = newStatus C c t (ur_Status report) in
     if ready C (ur_Status report) \<and> usageReportStatusContentEqual (ur_Status report) st = Some True then (Some (Inr k), False)
     else (Some (rc_updateStatus K (report\<lparr>ur_Status := st\<rparr>) k), True))"
  using contentEqual_total [of "ur_Status report" "newStatus C c t (ur_Status report)"]
  by (auto simp: applyStatusIfChanged_def Let_def transitioned_iff split: option.splits bool.splits)

end

lemma write_guard:
  assumes "status_conditions C"
    and "\<forall>m \<in> set (ut_ByModel (ur_Status report)) \<union> set (k_byModel c). CHR ''/'' \<notin> set (mb_Namespace m)"
  shows "applyStatusIfChanged C K report c t k =
    (if ready C (ur_Status report) \<and> ut_Period (ur_Status report) = k_period c
       \<and> ut_InputTokens (ur_Status report) = k_inputTokens c \<and> ut_OutputTokens (ur_Status report) = k_outputTokens c
       \<and> mset (map modelContent (ut_ByModel (ur_Status report))) = mset (map modelContent (k_byModel c))
       \<and> mset (map namespaceContent (ut_ByNamespace (ur_Status report))) = mset (map namespaceContent (k_byNamespace c))
     then (Some (Inr k), False)
     else (Some (rc_updateStatus K (report\<lparr>ur_Status := newStatus C c t (ur_Status report)\<rparr>) k), True))"
proof -
  have c: "clean_namespaces (ur_Status report)" "clean_namespaces (newStatus C c t (ur_Status report))"
    using assms(2) by (simp_all add: clean_namespaces_def newStatus_content)
  show ?thesis
    unfolding status_conditions.apply_form [OF assms(1)] contentEqual_sound [OF c] sameContent_def newStatus_content Let_def by simp
qed

text \<open>The write guard: a computed report is sent to the cluster exactly when the stored one was not Ready as computed or its
  period, totals or token breakdown differ; otherwise the cluster is left as it is, and the guard itself never panics.\<close>

theorem status_write_guard:
  assumes "status_conditions C"
    and "\<forall>m \<in> set (ut_ByModel (ur_Status report)) \<union> set (k_byModel c). CHR ''/'' \<notin> set (mb_Namespace m)"
  shows "applyStatusIfChanged C K report c t k =
    (if ready C (ur_Status report) \<and> ut_Period (ur_Status report) = k_period c
       \<and> ut_InputTokens (ur_Status report) = k_inputTokens c \<and> ut_OutputTokens (ur_Status report) = k_outputTokens c
       \<and> mset (map modelContent (ut_ByModel (ur_Status report))) = mset (map modelContent (k_byModel c))
       \<and> mset (map namespaceContent (ut_ByNamespace (ur_Status report))) = mset (map namespaceContent (k_byNamespace c))
     then (Some (Inr k), False)
     else (Some (rc_updateStatus K (report\<lparr>ur_Status := newStatus C c t (ur_Status report)\<rparr>) k), True))"
  by (rule write_guard [OF assms])

definition demo_computed :: computedStatus where
  "demo_computed = \<lparr>k_period = ''2025-01-03'', k_periodStart = 0, k_periodEnd = 0, k_inputTokens = 5, k_outputTokens = 7,
     k_totalCost = 0, k_costPerMillionTokens = 0, k_marginalCostPerMillionTokens = 0, k_activeHoursCostPerMillionTokens = 0,
     k_activeEnergyKWh = 0, k_breakEvenAnalysis = [], k_byModel = [demo_row ''x'' (lit 1)],
     k_byNamespace = [\<lparr>nb_Namespace = ''ml'', nb_EstimatedCostUSD = lit 1, nb_TokenCount = 12\<rparr>],
     k_utilizationPercent = 0, k_gpuEfficiencyRatio = 0, k_activeHoursInPeriod = 0, k_totalHoursInPeriod = 0\<rparr>"

theorem status_write_guard_witness:
  "applyStatusIfChanged std_conditions demo_pods_client demo_report demo_computed 0 ()
    = (Some (rc_updateStatus demo_pods_client (demo_report\<lparr>ur_Status := newStatus std_conditions demo_computed 0 (ur_Status demo_report)\<rparr>) ()), True)"
proof -
  have c: "\<forall>m \<in> set (ut_ByModel (ur_Status demo_report)) \<union> set (k_byModel demo_computed). CHR ''/'' \<notin> set (mb_Namespace m)"
    by (simp add: demo_report_def demo_computed_def demo_row_def)
  have "ut_Period (ur_Status demo_report) \<noteq> k_period demo_computed" by (simp add: demo_report_def demo_computed_def)
  with status_write_guard [OF std.status_conditions_axioms c] show ?thesis by simp
qed

subsection \<open>An idle cluster\<close>

lemma computeReport_content:
  assumes "fair_visits V" and "computeReport V pricing sampler report profile now modelT nsT = (c, d)"
  shows "k_period c = formatPeriod (urs_Schedule (ur_Spec report)) (computePeriodStart (urs_Schedule (ur_Spec report)) now)"
    and "k_inputTokens c = (\<Sum>(k, t)\<leftarrow>modelT. tc_input t)" and "k_outputTokens c = (\<Sum>(k, t)\<leftarrow>modelT. tc_output t)"
    and "mset (map modelContent (k_byModel c)) = mset (map (\<lambda>(mk, t). (mk_namespace mk, mk_model mk, tc_input t, tc_output t)) modelT)"
    and "mset (map namespaceContent (k_byNamespace c)) = mset (map (\<lambda>(ns, t). (ns, tc_input t + tc_output t)) nsT)"
    and "\<forall>m \<in> set (k_byModel c). \<exists>r \<in> set modelT. mb_Namespace m = mk_namespace (fst r)"
proof -
  obtain st en h where p: "periodBounds (urs_Schedule (ur_Spec report)) now = (st, en, h)" by (metis surj_pair)
  have st: "st = computePeriodStart (urs_Schedule (ur_Spec report)) now" using p by (auto simp: periodBounds_def Let_def)
  have content: "modelContent (modelRow x y r) = (\<lambda>(mk, t). (mk_namespace mk, mk_model mk, tc_input t, tc_output t)) r"
    "namespaceContent (namespaceRow x y q) = (\<lambda>(ns, t). (ns, tc_input t + tc_output t)) q" for x y r q
    by (simp_all add: modelContent_def modelRow_def namespaceContent_def namespaceRow_def Let_def split: prod.split)
  have v: "mset (v_model V modelT) = mset modelT" "mset (v_ns V nsT) = mset nsT" "set (v_model V modelT) = set modelT"
    using assms(1) by (simp_all add: fair_visits_def map_range.visit_mset map_range.visit_set)
  have row: "mb_Namespace (modelRow x y r) = mk_namespace (fst r)" for x y r by (simp add: modelRow_def Let_def split: prod.split)
  let ?x = "cpt_HourlyCostUSD (prof_Status profile) * h" and ?y = "(\<Sum>(k, t)\<leftarrow>modelT. tc_input t) + (\<Sum>(k, t)\<leftarrow>modelT. tc_output t)"
  have b: "k_byModel c = map (modelRow ?x ?y) (v_model V modelT)" "k_byNamespace c = map (namespaceRow ?x ?y) (v_ns V nsT)"
    and r: "k_period c = formatPeriod (urs_Schedule (ur_Spec report)) st" "k_inputTokens c = (\<Sum>(k, t)\<leftarrow>modelT. tc_input t)"
      "k_outputTokens c = (\<Sum>(k, t)\<leftarrow>modelT. tc_output t)"
    using assms(2) unfolding computeReport_def p buildBreakdowns_def fair_sum [OF assms(1)] Let_def prod.case by auto
  show "k_period c = formatPeriod (urs_Schedule (ur_Spec report)) (computePeriodStart (urs_Schedule (ur_Spec report)) now)"
    "k_inputTokens c = (\<Sum>(k, t)\<leftarrow>modelT. tc_input t)" "k_outputTokens c = (\<Sum>(k, t)\<leftarrow>modelT. tc_output t)"
    by (simp_all add: r st)
  show "mset (map modelContent (k_byModel c)) = mset (map (\<lambda>(mk, t). (mk_namespace mk, mk_model mk, tc_input t, tc_output t)) modelT)"
    "mset (map namespaceContent (k_byNamespace c)) = mset (map (\<lambda>(ns, t). (ns, tc_input t + tc_output t)) nsT)"
    by (simp_all add: b o_def content v)
  show "\<forall>m \<in> set (k_byModel c). \<exists>r \<in> set modelT. mb_Namespace m = mk_namespace (fst r)" by (auto simp: b(1) v(3) row)
qed

text \<open>C34 An idle cluster is not written to: once a report has been stored, later reconciles of the same period with the same
  token counts send no update, however the cost, the prices, the power samples and the order of the maps have
  changed meanwhile.  This is what stops the loop of status writes and watch events.\<close>

theorem idle_report_not_written:
  assumes "status_conditions C" and "fair_visits V" and "fair_visits V'"
    and "computeReport V pricing sampler report profile now modelT nsT = (c, d)"
    and "computeReport V' pricing' sampler' report profile' now' modelT nsT = (c', d')"
    and "computePeriodStart (urs_Schedule (ur_Spec report)) now' = computePeriodStart (urs_Schedule (ur_Spec report)) now"
    and "\<forall>r \<in> set modelT. CHR ''/'' \<notin> set (mk_namespace (fst r))"
    and "ur_Status stored = newStatus C c t s0"
  shows "applyStatusIfChanged C K stored c' t' k = (Some (Inr k), False)"
proof -
  note A = computeReport_content [OF assms(2,4)] and B = computeReport_content [OF assms(3,5)]
  have n: "\<forall>m \<in> set (ut_ByModel (ur_Status stored)) \<union> set (k_byModel c'). CHR ''/'' \<notin> set (mb_Namespace m)"
    using A(6) B(6) assms(7) by (auto simp: assms(8) newStatus_content) metis+
  show ?thesis
    unfolding write_guard [OF assms(1) n] assms(8) newStatus_content
    using status_conditions.newStatus_ready [OF assms(1)] by (simp only: A(1-5) B(1-5) assms(6) simp_thms if_True)
qed

lemma demo_same_period: "computePeriodStart (urs_Schedule (ur_Spec demo_report)) nsHour = computePeriodStart (urs_Schedule (ur_Spec demo_report)) 0"
  by (simp add: demo_report_def start_daily ReportScheduleDaily_def ReportScheduleWeekly_def ReportScheduleMonthly_def
      day_of_def nsHour_def nsDay_def nsMinute_def nsSecond_def)

theorem idle_report_not_written_witness:
  "\<exists>c c'. fst (computeReport in_order demo_rates (None :: memdb Sampler option) demo_report demo_profile 0
        [(\<lparr>mk_model = ''m'', mk_namespace = ''ml''\<rparr>, \<lparr>tc_input = 1, tc_output = 2\<rparr>)] [(''ml'', \<lparr>tc_input = 1, tc_output = 2\<rparr>)]) = c
    \<and> fst (computeReport in_reverse [] (None :: memdb Sampler option) demo_report demo_profile nsHour
        [(\<lparr>mk_model = ''m'', mk_namespace = ''ml''\<rparr>, \<lparr>tc_input = 1, tc_output = 2\<rparr>)] [(''ml'', \<lparr>tc_input = 1, tc_output = 2\<rparr>)]) = c'
    \<and> applyStatusIfChanged std_conditions demo_pods_client (demo_report\<lparr>ur_Status := newStatus std_conditions c 0 (ur_Status demo_report)\<rparr>) c' nsHour ()
      = (Some (Inr ()), False)"
proof -
  let ?m = "[(\<lparr>mk_model = ''m'', mk_namespace = ''ml''\<rparr>, \<lparr>tc_input = 1, tc_output = 2\<rparr>)]" and ?n = "[(''ml'', \<lparr>tc_input = 1, tc_output = 2\<rparr>)]"
  obtain c d where c: "computeReport in_order demo_rates (None :: memdb Sampler option) demo_report demo_profile 0 ?m ?n = (c, d)" by (metis surj_pair)
  obtain c' d' where c': "computeReport in_reverse [] (None :: memdb Sampler option) demo_report demo_profile nsHour ?m ?n = (c', d')" by (metis surj_pair)
  have clean: "\<forall>r \<in> set ?m. CHR ''/'' \<notin> set (mk_namespace (fst r))" by simp
  show ?thesis
    using idle_report_not_written [OF std.status_conditions_axioms fair_demo c c' demo_same_period clean,
        of "demo_report\<lparr>ur_Status := newStatus std_conditions c 0 (ur_Status demo_report)\<rparr>" 0 "ur_Status demo_report" demo_pods_client nsHour "()"]
    unfolding c c' by simp
qed

subsection \<open>A missing profile\<close>

text \<open>A report whose CostProfile is missing is told so once: after the condition has been stored, every later reconcile
  leaves the cluster alone, whatever error the lookup gives, until the condition changes; and a condition of
  another type is never touched.\<close>

theorem missing_profile_reported_once:
  assumes "status_conditions C"
    and "reported = report\<lparr>ur_Status := (ur_Status report)\<lparr>ut_Conditions :=
           cs_set C (ut_Conditions (ur_Status report)) (missingCondition report err now)\<rparr>\<rparr>"
  shows "handleMissingCostProfile C K reported err' now' k = (\<lparr>RequeueAfter = 5 * nsMinute\<rparr>, k)
    \<and> (ty \<noteq> ''Ready'' \<longrightarrow> cs_find C (ut_Conditions (ur_Status reported)) ty = cs_find C (ut_Conditions (ur_Status report)) ty)
    \<and> (snd (handleMissingCostProfile C K report err now k) = k \<or> rc_updateStatus K reported k = Inr (snd (handleMissingCostProfile C K report err now k)))"
proof -
  obtain c where c: "cs_find C (ut_Conditions (ur_Status reported)) ''Ready'' = Some c" "c_Status c = ConditionFalse" "c_Reason c = ''CostProfileNotFound''"
    using status_conditions.set_same [OF assms(1), of "ut_Conditions (ur_Status report)" "missingCondition report err now"]
    by (auto simp: assms(2) missingCondition_def)
  have o: "ty \<noteq> ''Ready'' \<Longrightarrow> cs_find C (ut_Conditions (ur_Status reported)) ty = cs_find C (ut_Conditions (ur_Status report)) ty"
    using status_conditions.set_other [OF assms(1), of ty "missingCondition report err now"] by (simp add: assms(2) missingCondition_def)
  have "snd (handleMissingCostProfile C K report err now k) = k \<or> rc_updateStatus K reported k = Inr (snd (handleMissingCostProfile C K report err now k))"
    unfolding assms(2) by (auto simp: handleMissingCostProfile_def Let_def split: option.split sum.split)
  then show ?thesis using c o by (simp add: handleMissingCostProfile_def usageReportReconcileInterval_def)
qed

theorem missing_profile_reported_once_witness:
  "handleMissingCostProfile std_conditions demo_pods_client
     (demo_report\<lparr>ur_Status := (ur_Status demo_report)\<lparr>ut_Conditions :=
        cs_set std_conditions (ut_Conditions (ur_Status demo_report)) (missingCondition demo_report (NotFound ''gone'') 0)\<rparr>\<rparr>)
     (KError ''timeout'') 60 () = (\<lparr>RequeueAfter = 5 * nsMinute\<rparr>, ())"
  using missing_profile_reported_once [OF std.status_conditions_axioms refl, where report = demo_report and err = "NotFound ''gone''"
      and now = 0 and K = demo_pods_client and err' = "KError ''timeout''" and now' = 60 and k = "()"]
  by blast

subsection \<open>A whole reconcile\<close>

lemma emit_other:
  "n \<noteq> mPercentOfBreakEven \<Longrightarrow> n \<noteq> mBreakEvenTokensPerDay \<Longrightarrow> gauge_get (emitBreakEvenMetrics p es g) n ls = gauge_get g n ls"
  unfolding emitBreakEvenMetrics_def by (induction es arbitrary: g) simp_all

lemma apply_result:
  assumes "status_conditions C"
  shows "fst (applyStatusIfChanged C K report c t k) \<in> {Some (Inr k), Some (rc_updateStatus K (report\<lparr>ur_Status := newStatus C c t (ur_Status report)\<rparr>) k)}"
  by (simp add: status_conditions.apply_form [OF assms] Let_def)

lemma report_reconcile_effect:
  assumes "status_conditions C" and "rc_getReport K (w_kube w) rns rname = Inr report"
    and "rc_getProfile K (w_kube w) rns (urs_CostProfileRef (ur_Spec report)) = Inr profile"
    and "UsageReport_Reconcile C K fetch embedded V now metaNow rns rname w = (res, w')"
  shows "(case scrapeTokens K fetch (w_kube w) report of
      Inl err \<Rightarrow> res = Done \<lparr>RequeueAfter = 5 * nsMinute\<rparr> \<and> w' = w
    | Inr (modelT, nsT) \<Rightarrow> (case fst (DefaultCloudPricing embedded (w_pricing w)) of
        Inl e \<Rightarrow> res = Panicked \<and> w_api w' = w_api w \<and> w_kube w' = w_kube w \<and> w_gauges w' = w_gauges w
      | Inr rates \<Rightarrow> (case computeReport V rates (w_sampler w) report profile now modelT nsT of (c, d) \<Rightarrow>
          w_gauges w' = emitBreakEvenMetrics (om_Name (prof_Meta profile)) (k_breakEvenAnalysis c) (w_gauges w)
          \<and> (case res of
               Panicked \<Rightarrow> False
             | Failed e \<Rightarrow> w_api w' = w_api w \<and> w_kube w' = w_kube w
             | Done r \<Rightarrow> r = \<lparr>RequeueAfter = 5 * nsMinute\<rparr>
                 \<and> (w_kube w' = w_kube w \<or> rc_updateStatus K (report\<lparr>ur_Status := newStatus C c metaNow (ur_Status report)\<rparr>) (w_kube w) = Inr (w_kube w'))
                 \<and> (\<forall>s. w_api w = Some s \<longrightarrow> (\<exists>s'. w_api w' = Some s' \<and> GetNamespaceCosts s' = d \<and> GetBreakEven s' = breakEvenToAPI (k_breakEvenAnalysis c)
                      \<and> GetBudgets s' = GetBudgets s \<and> GetModels s' = GetModels s \<and> GetCostData s' = GetCostData s))))))"
proof (cases "scrapeTokens K fetch (w_kube w) report")
  case (Inl err)
  then show ?thesis using assms by (auto simp: UsageReport_Reconcile_def usageReportReconcileInterval_def)
next
  case (Inr mt)
  obtain modelT nsT where mt: "mt = (modelT, nsT)" by (cases mt)
  obtain pricing pst where P: "DefaultCloudPricing embedded (w_pricing w) = (pricing, pst)" by (metis surj_pair)
  show ?thesis
  proof (cases pricing)
    case Inl': (Inl e)
    then show ?thesis using assms Inr mt P by (auto simp: UsageReport_Reconcile_def)
  next
    case Inr': (Inr rates)
    obtain c d where cd: "computeReport V rates (w_sampler w) report profile now modelT nsT = (c, d)" by (metis surj_pair)
    obtain a b where ab: "applyStatusIfChanged C K report c metaNow (w_kube w) = (a, b)" by (metis surj_pair)
    note a = apply_result [OF assms(1), of K report c metaNow "w_kube w", unfolded ab fst_conv]
    show ?thesis using assms(4) a
      unfolding UsageReport_Reconcile_def assms(2,3) Inr mt P Inr' cd ab sum.case prod.case Let_def fst_conv
      by (auto simp: publishReport_def store_defs usageReportReconcileInterval_def split: sum.splits option.splits)
  qed
qed

lemma break_even_gauges: "mPercentOfBreakEven \<noteq> mBreakEvenTokensPerDay" "mBreakEvenTokensPerDay \<noteq> mPercentOfBreakEven"
  by (simp_all add: mBreakEvenTokensPerDay_def mPercentOfBreakEven_def gauge_name_def)

lemma emit_get:
  "gauge_get (emitBreakEvenMetrics p es g) mBreakEvenTokensPerDay ls =
    (case List.find (\<lambda>e. ls = [p, be_Provider e, be_Model e]) (rev es) of
       Some e \<Rightarrow> Some (f_of_int64 (be_BreakEvenTokensPerDay e)) | None \<Rightarrow> gauge_get g mBreakEvenTokensPerDay ls)"
  "gauge_get (emitBreakEvenMetrics p es g) mPercentOfBreakEven ls =
    (case List.find (\<lambda>e. ls = [p, be_Provider e, be_Model e]) (rev es) of
       Some e \<Rightarrow> Some (be_PercentOfBreakEven e) | None \<Rightarrow> gauge_get g mPercentOfBreakEven ls)"
  unfolding emitBreakEvenMetrics_def
  by (induction es rule: rev_induct; auto simp: mBreakEvenTokensPerDay_def mPercentOfBreakEven_def gauge_name_def)+

text \<open>The status a report is given, with the conditions it ends up with.\<close>

lemma newStatus_fields:
  assumes "status_conditions C" and "s = ur_Status report"
  obtains conds where "newStatus C c t s = \<lparr>ut_Period = k_period c, ut_PeriodStart = Some (k_periodStart c), ut_PeriodEnd = Some (k_periodEnd c),
      ut_InputTokens = k_inputTokens c, ut_OutputTokens = k_outputTokens c, ut_EstimatedCostUSD = k_totalCost c,
      ut_CostPerMillionTokens = k_costPerMillionTokens c, ut_MarginalCostPerMillionTokens = k_marginalCostPerMillionTokens c,
      ut_ActiveHoursCostPerMillionTokens = k_activeHoursCostPerMillionTokens c, ut_ActiveEnergyKWh = k_activeEnergyKWh c,
      ut_GPUEfficiencyRatio = k_gpuEfficiencyRatio c, ut_UtilizationPercent = k_utilizationPercent c,
      ut_ActiveHoursInPeriod = k_activeHoursInPeriod c, ut_TotalHoursInPeriod = k_totalHoursInPeriod c,
      ut_ByModel = k_byModel c, ut_ByNamespace = k_byNamespace c, ut_CloudComparison = ut_CloudComparison s,
      ut_BreakEvenAnalysis = k_breakEvenAnalysis c, ut_LastUpdated = Some t, ut_Conditions = conds\<rparr>"
    and "\<exists>x. cs_find C conds ''Ready'' = Some x \<and> c_Status x = ConditionTrue \<and> c_Reason x = ''ReportComputed''"
    and "\<forall>ty. ty \<noteq> ''Ready'' \<longrightarrow> cs_find C conds ty = cs_find C (ut_Conditions s) ty"
proof
  show "\<exists>x. cs_find C (ut_Conditions (newStatus C c t s)) ''Ready'' = Some x \<and> c_Status x = ConditionTrue \<and> c_Reason x = ''ReportComputed''"
    using status_conditions.newStatus_ready [OF assms(1)] by (simp add: ready_def)
  show "\<forall>ty. ty \<noteq> ''Ready'' \<longrightarrow> cs_find C (ut_Conditions (newStatus C c t s)) ty = cs_find C (ut_Conditions s) ty"
    unfolding newStatus_def Let_def by (auto simp: filledStatus_def status_conditions.set_other [OF assms(1)])
qed (cases s, simp add: newStatus_def filledStatus_def Let_def)

text \<open>C35 A reconcile of a UsageReport with a known profile either publishes one computed report or nothing.  When the pods cannot be listed
  nothing changes, and a malformed embedded catalog is the only panic.  Otherwise, from one computation: the two break-even gauges of
  each provider and model carry the figures of its (last) entry and no other gauge changes; the status is made of the computed figures, the time, the Ready condition
  and what else the report had, and it is written to the cluster except when the report is Ready already and its content
  (exactly the comparison of \<open>content_equal_exact\<close>) is the same; when that write succeeds or was not needed the API store has the computed namespace costs and a break-even
  row per entry with its figures, the other slots being as before; when it fails the API store and the cluster are as they were.
  And it is always repeated in five minutes.\<close>

theorem report_reconcile_publishes:
  assumes "status_conditions C" and "rc_getReport K (w_kube w) rns rname = Inr report"
    and "rc_getProfile K (w_kube w) rns (urs_CostProfileRef (ur_Spec report)) = Inr profile" and "old = ur_Status report"
    and "UsageReport_Reconcile C K fetch embedded V now metaNow rns rname w = (res, w')"
  shows "case scrapeTokens K fetch (w_kube w) report of
      Inl err \<Rightarrow> res = Done \<lparr>RequeueAfter = 5 * nsMinute\<rparr> \<and> w' = w
    | Inr (modelT, nsT) \<Rightarrow> (case fst (DefaultCloudPricing embedded (w_pricing w)) of
        Inl e \<Rightarrow> res = Panicked \<and> w_api w' = w_api w \<and> w_kube w' = w_kube w \<and> w_gauges w' = w_gauges w
      | Inr rates \<Rightarrow> (case computeReport V rates (w_sampler w) report profile now modelT nsT of (c, d) \<Rightarrow>
          (\<forall>n ls. gauge_get (w_gauges w') n ls = (case List.find (\<lambda>e. ls = [om_Name (prof_Meta profile), be_Provider e, be_Model e]) (rev (k_breakEvenAnalysis c)) of
              None \<Rightarrow> gauge_get (w_gauges w) n ls
            | Some e \<Rightarrow> if n = mBreakEvenTokensPerDay then Some (f_of_int64 (be_BreakEvenTokensPerDay e))
                else if n = mPercentOfBreakEven then Some (be_PercentOfBreakEven e) else gauge_get (w_gauges w) n ls))
          \<and> (\<exists>conds st. st = \<lparr>ut_Period = k_period c, ut_PeriodStart = Some (k_periodStart c), ut_PeriodEnd = Some (k_periodEnd c),
                ut_InputTokens = k_inputTokens c, ut_OutputTokens = k_outputTokens c, ut_EstimatedCostUSD = k_totalCost c,
                ut_CostPerMillionTokens = k_costPerMillionTokens c, ut_MarginalCostPerMillionTokens = k_marginalCostPerMillionTokens c,
                ut_ActiveHoursCostPerMillionTokens = k_activeHoursCostPerMillionTokens c, ut_ActiveEnergyKWh = k_activeEnergyKWh c,
                ut_GPUEfficiencyRatio = k_gpuEfficiencyRatio c, ut_UtilizationPercent = k_utilizationPercent c,
                ut_ActiveHoursInPeriod = k_activeHoursInPeriod c, ut_TotalHoursInPeriod = k_totalHoursInPeriod c,
                ut_ByModel = k_byModel c, ut_ByNamespace = k_byNamespace c, ut_CloudComparison = ut_CloudComparison old,
                ut_BreakEvenAnalysis = k_breakEvenAnalysis c, ut_LastUpdated = Some metaNow, ut_Conditions = conds\<rparr>
            \<and> (\<exists>x. cs_find C conds ''Ready'' = Some x \<and> c_Status x = ConditionTrue \<and> c_Reason x = ''ReportComputed'')
            \<and> (\<forall>ty. ty \<noteq> ''Ready'' \<longrightarrow> cs_find C conds ty = cs_find C (ut_Conditions old) ty)
            \<and> (let unchanged = usageReportStatusContentEqual old st = Some True
                   \<and> (\<exists>x. cs_find C (ut_Conditions old) ''Ready'' = Some x \<and> c_Status x = ConditionTrue \<and> c_Reason x = ''ReportComputed'');
                 written = rc_updateStatus K (report\<lparr>ur_Status := st\<rparr>) (w_kube w)
               in case res of
                 Panicked \<Rightarrow> False
               | Failed e \<Rightarrow> \<not> unchanged \<and> written = Inl e \<and> w_api w' = w_api w \<and> w_kube w' = w_kube w
               | Done r \<Rightarrow> r = \<lparr>RequeueAfter = 5 * nsMinute\<rparr>
                 \<and> (if unchanged then w_kube w' = w_kube w else written = Inr (w_kube w'))
                 \<and> rel_option (\<lambda>s s'. GetNamespaceCosts s' = d
                      \<and> GetBreakEven s' = map (\<lambda>e. \<lparr>bd_Provider = be_Provider e, bd_Model = be_Model e,
                          bd_BreakEvenTokensPerDay = be_BreakEvenTokensPerDay e, bd_CurrentUtilizationTokensPerDay = be_CurrentUtilizationTokensPerDay e,
                          bd_PercentOfBreakEven = be_PercentOfBreakEven e, bd_Verdict = be_Verdict e\<rparr>) (k_breakEvenAnalysis c)
                      \<and> GetBudgets s' = GetBudgets s \<and> GetModels s' = GetModels s \<and> GetComparisons s' = GetComparisons s
                      \<and> GetCostData s' = GetCostData s) (w_api w) (w_api w')))))"
proof (cases "scrapeTokens K fetch (w_kube w) report")
  case (Inl err)
  then show ?thesis using assms by (auto simp: UsageReport_Reconcile_def usageReportReconcileInterval_def)
next
  case (Inr mt)
  obtain modelT nsT where mt: "mt = (modelT, nsT)" by (cases mt)
  obtain pricing pst where P: "DefaultCloudPricing embedded (w_pricing w) = (pricing, pst)" by (metis surj_pair)
  show ?thesis
  proof (cases pricing)
    case Inl': (Inl e)
    then show ?thesis using assms Inr mt P by (auto simp: UsageReport_Reconcile_def)
  next
    case Inr': (Inr rates)
    let ?p = "om_Name (prof_Meta profile)"
    obtain c d where cd: "computeReport V rates (w_sampler w) report profile now modelT nsT = (c, d)" by (metis surj_pair)
    obtain conds where st: "newStatus C c metaNow old = \<lparr>ut_Period = k_period c, ut_PeriodStart = Some (k_periodStart c), ut_PeriodEnd = Some (k_periodEnd c),
        ut_InputTokens = k_inputTokens c, ut_OutputTokens = k_outputTokens c, ut_EstimatedCostUSD = k_totalCost c,
        ut_CostPerMillionTokens = k_costPerMillionTokens c, ut_MarginalCostPerMillionTokens = k_marginalCostPerMillionTokens c,
        ut_ActiveHoursCostPerMillionTokens = k_activeHoursCostPerMillionTokens c, ut_ActiveEnergyKWh = k_activeEnergyKWh c,
        ut_GPUEfficiencyRatio = k_gpuEfficiencyRatio c, ut_UtilizationPercent = k_utilizationPercent c,
        ut_ActiveHoursInPeriod = k_activeHoursInPeriod c, ut_TotalHoursInPeriod = k_totalHoursInPeriod c,
        ut_ByModel = k_byModel c, ut_ByNamespace = k_byNamespace c, ut_CloudComparison = ut_CloudComparison old,
        ut_BreakEvenAnalysis = k_breakEvenAnalysis c, ut_LastUpdated = Some metaNow, ut_Conditions = conds\<rparr>"
      and cs: "\<exists>x. cs_find C conds ''Ready'' = Some x \<and> c_Status x = ConditionTrue \<and> c_Reason x = ''ReportComputed''"
        "\<forall>ty. ty \<noteq> ''Ready'' \<longrightarrow> cs_find C conds ty = cs_find C (ut_Conditions old) ty"
      by (rule newStatus_fields [OF assms(1,4)])
    define unchanged where "unchanged \<longleftrightarrow> ready C old \<and> usageReportStatusContentEqual old (newStatus C c metaNow old) = Some True"
    have ap: "applyStatusIfChanged C K report c metaNow (w_kube w) = (if unchanged then (Some (Inr (w_kube w)), False)
        else (Some (rc_updateStatus K (report\<lparr>ur_Status := newStatus C c metaNow old\<rparr>) (w_kube w)), True))"
      by (simp add: status_conditions.apply_form [OF assms(1)] unchanged_def assms(4) Let_def)
    have R: "w_gauges w' = emitBreakEvenMetrics ?p (k_breakEvenAnalysis c) (w_gauges w)
      \<and> (case if unchanged then Inr (w_kube w) else rc_updateStatus K (report\<lparr>ur_Status := newStatus C c metaNow old\<rparr>) (w_kube w) of
           Inl e \<Rightarrow> res = Failed e \<and> w_api w' = w_api w \<and> w_kube w' = w_kube w
         | Inr k \<Rightarrow> res = Done \<lparr>RequeueAfter = 5 * nsMinute\<rparr> \<and> w_kube w' = k \<and> w_api w' = map_option (publishReport c d) (w_api w))"
      using assms(5) unfolding UsageReport_Reconcile_def assms(2,3) Inr mt P Inr' cd ap sum.case prod.case Let_def
      by (auto simp: usageReportReconcileInterval_def split: sum.splits if_splits)
    have api: "rel_option (\<lambda>s s'. GetNamespaceCosts s' = d
        \<and> GetBreakEven s' = map (\<lambda>e. \<lparr>bd_Provider = be_Provider e, bd_Model = be_Model e,
            bd_BreakEvenTokensPerDay = be_BreakEvenTokensPerDay e, bd_CurrentUtilizationTokensPerDay = be_CurrentUtilizationTokensPerDay e,
            bd_PercentOfBreakEven = be_PercentOfBreakEven e, bd_Verdict = be_Verdict e\<rparr>) (k_breakEvenAnalysis c)
        \<and> GetBudgets s' = GetBudgets s \<and> GetModels s' = GetModels s \<and> GetComparisons s' = GetComparisons s
        \<and> GetCostData s' = GetCostData s) (w_api w) (map_option (publishReport c d) (w_api w))"
      by (cases "w_api w") (simp_all add: publishReport_def store_defs breakEvenToAPI_def)
    have g: "gauge_get (w_gauges w') n ls = (case List.find (\<lambda>e. ls = [?p, be_Provider e, be_Model e]) (rev (k_breakEvenAnalysis c)) of
              None \<Rightarrow> gauge_get (w_gauges w) n ls
            | Some e \<Rightarrow> if n = mBreakEvenTokensPerDay then Some (f_of_int64 (be_BreakEvenTokensPerDay e))
                else if n = mPercentOfBreakEven then Some (be_PercentOfBreakEven e) else gauge_get (w_gauges w) n ls)" for n ls
      by (cases "n = mPercentOfBreakEven"; cases "n = mBreakEvenTokensPerDay")
        (use R in \<open>auto simp: emit_get emit_other break_even_gauges split: option.split\<close>)
    show ?thesis
      unfolding Inr mt sum.case prod.case P fst_conv Inr' cd
      by (intro conjI allI g exI [of _ conds] exI [of _ "newStatus C c metaNow old"] st cs, insert R api, unfold ready_def unchanged_def Let_def,
          auto split: sum.splits if_splits)
  qed
qed

definition demo_report_client :: "unit report_client" where
  "demo_report_client = demo_pods_client\<lparr>rc_getProfile := \<lambda>_ _ _. Inr demo_profile\<rparr>"

text \<open>A cluster of one report, which takes every status write, and a catalog with one model.\<close>

definition one_report :: "UsageReport report_client" where
  "one_report = \<lparr>rc_getReport = \<lambda>k _ _. Inr k, rc_getProfile = \<lambda>_ _ _. Inr demo_profile,
     rc_listPods = \<lambda>_. Inr [demo_pod, demo_pod], rc_updateStatus = \<lambda>q _. Inr q\<rparr>"

definition one_model :: PricingCatalog where
  "one_model = \<lparr>pc_LastVerified = [], pc_Sources = [], pc_Providers = [\<lparr>pp_Provider = ''a'',
     pp_Models = [\<lparr>mp_Model = ''b'', mp_Tier = [], mp_InputPerMillion = lit 1, mp_OutputPerMillion = lit 4, mp_Notes = []\<rparr>]\<rparr>]\<rparr>"

theorem report_reconcile_publishes_witness:
  "case UsageReport_Reconcile std_conditions one_report demo_scrape (Inr one_model) in_reverse 0 0 ''finops'' ''daily''
      (demo_world demo_report :: (UsageReport, memdb) world) of (res, w') \<Rightarrow>
    (\<exists>e. res = Done \<lparr>RequeueAfter = 5 * nsMinute\<rparr>
      \<and> ut_BreakEvenAnalysis (ur_Status (w_kube w')) = [e] \<and> ut_LastUpdated (ur_Status (w_kube w')) = Some 0
      \<and> gauge_get (w_gauges w') mBreakEvenTokensPerDay [''gpu'', ''a'', ''b''] = Some (f_of_int64 (be_BreakEvenTokensPerDay e))
      \<and> gauge_get (w_gauges w') mPercentOfBreakEven [''gpu'', ''a'', ''b''] = Some (be_PercentOfBreakEven e)
      \<and> map_option (\<lambda>s. map bd_PercentOfBreakEven (GetBreakEven s)) (w_api w') = Some [be_PercentOfBreakEven e])"
proof (rule demo_scraped)
  let ?w = "demo_world demo_report :: (UsageReport, memdb) world"
  fix modelT nsT
  assume "scrapeTokens demo_pods_client demo_scrape () demo_report = Inr (modelT, nsT)"
  then have s: "scrapeTokens one_report demo_scrape (w_kube ?w) demo_report = Inr (modelT, nsT)"
    by (simp add: scrapeTokens_def one_report_def demo_pods_client_def)
  have g: "rc_getReport one_report (w_kube ?w) ''finops'' ''daily'' = Inr demo_report"
    "rc_getProfile one_report (w_kube ?w) ''finops'' (urs_CostProfileRef (ur_Spec demo_report)) = Inr demo_profile"
    and u: "rc_updateStatus one_report q k = Inr q" for q k
    by (simp_all add: one_report_def demo_world_def)
  have f: "Flatten one_model = demo_rates" by (simp add: one_model_def demo_rates_def Flatten_concat entry_def)
  then have p: "fst (DefaultCloudPricing (Inr one_model) (w_pricing ?w)) = Inr demo_rates"
    by (simp add: DefaultCloudPricing_def DefaultCloudPricingCatalog_def demo_world_def)
  obtain c d where cd: "computeReport in_reverse demo_rates (w_sampler ?w) demo_report demo_profile 0 modelT nsT = (c, d)" by (metis surj_pair)
  have k: "targetKey ''A'' ''b'' = targetKey ''a'' ''b''" by code_simp
  have "fst (computeBreakEven demo_rates demo_profile x y h) = [breakEvenEntry (dailyCostOf demo_profile) (tokensPerDay x y h) x y (hd demo_rates)]" for x y h
  proof -
    have "breakEvenTargets demo_profile = [\<lparr>ct_Provider = ''A'', ct_Model = ''b''\<rparr>]" by (simp add: breakEvenTargets_def demo_profile_def)
    then show ?thesis by (simp add: computeBreakEven_def k pricingByKey_def demo_rates_def)
  qed
  moreover have "be_Provider (breakEvenEntry x y i j (hd demo_rates)) = ''a''" "be_Model (breakEvenEntry x y i j (hd demo_rates)) = ''b''" for x y i j
    by (simp_all add: breakEvenEntry_def demo_rates_def Let_def)
  ultimately have "\<exists>e. k_breakEvenAnalysis c = [e] \<and> be_Provider e = ''a'' \<and> be_Model e = ''b''"
    using cd by (auto simp: computeReport_def Let_def split: prod.splits)
  then obtain e where e: "k_breakEvenAnalysis c = [e]" "be_Provider e = ''a''" "be_Model e = ''b''" by blast
  obtain res w' where r: "UsageReport_Reconcile std_conditions one_report demo_scrape (Inr one_model) in_reverse 0 0 ''finops'' ''daily'' ?w = (res, w')"
    by (metis surj_pair)
  have "w_api ?w = Some NewStore" "om_Name (prof_Meta demo_profile) = ''gpu''" "cs_find std_conditions (ut_Conditions (ur_Status demo_report)) ''Ready'' = None"
    by (simp_all add: demo_world_def demo_profile_def demo_report_def std_conditions_def)
  moreover note T = report_reconcile_publishes [OF std.status_conditions_axioms g refl r, unfolded s sum.case prod.case p cd]
  ultimately show ?thesis using r
    by (cases res; cases "w_api w'") (auto simp: e u Let_def break_even_gauges eq_commute [of _ "w_kube w'"])
qed

end
