(* ===== verification/TokenBudgetCtl.thy ===== *)
theory TokenBudgetCtl
  imports CtlCommon
begin

text \<open>
  \<open>internal/controller/tokenbudget_controller.go\<close>: one reconcile of a TokenBudget.  The cluster is a
  state of an abstract type reached through the operations of a client, which is an argument; the
  two readings of the clock are arguments too.
\<close>

definition budgetReconcileInterval :: duration where
  "budgetReconcileInterval = nsMinute"

definition severityCritical :: gostring where "severityCritical = ''critical''"
definition severityWarning :: gostring where "severityWarning = ''warning''"

record AlertRule =
  ar_Alert :: gostring
  ar_Expr :: gostring
  ar_For :: gostring
  ar_Severity :: gostring
  ar_Summary :: gostring

record PromRule =
  pr_Name :: gostring
  pr_Namespace :: gostring
  pr_Labels :: "(gostring, gostring) gomap"
  pr_Owner :: "gostring option"
  pr_Groups :: "(gostring \<times> AlertRule list) list"

record 'k budget_client =
  bc_getBudget :: "'k \<Rightarrow> gostring \<Rightarrow> gostring \<Rightarrow> kerror + TokenBudget"
  bc_updateStatus :: "TokenBudget \<Rightarrow> 'k \<Rightarrow> kerror + 'k"
  bc_setOwner :: "TokenBudget \<Rightarrow> PromRule \<Rightarrow> kerror + PromRule"
  bc_getRule :: "'k \<Rightarrow> gostring \<Rightarrow> gostring \<Rightarrow> kerror + PromRule"
  bc_createRule :: "PromRule \<Rightarrow> 'k \<Rightarrow> kerror + 'k"
  bc_updateRule :: "PromRule \<Rightarrow> 'k \<Rightarrow> kerror + 'k"

subsection \<open>Conditions\<close>

fun highestSeverity :: "f64 \<Rightarrow> AlertThreshold list \<Rightarrow> gostring \<Rightarrow> gostring" where
  "highestSeverity utilization [] h = h"
| "highestSeverity utilization (threshold # ts) h = highestSeverity utilization ts
    (if f_of_int32 (at_Percent threshold) \<le> utilization then
       (if at_Severity threshold = severityCritical then severityCritical
        else if h \<noteq> severityCritical then severityWarning else h)
     else h)"

definition cond :: "gostring \<Rightarrow> ConditionStatus \<Rightarrow> gostring \<Rightarrow> gostring \<Rightarrow> gotime \<Rightarrow> Condition" where
  "cond ty st reason msg now =
    \<lparr>c_Type = ty, c_Status = st, c_Reason = reason, c_Message = msg, c_LastTransitionTime = now\<rparr>"

text \<open>Returns the budget status and the new conditions.\<close>

definition evaluateConditions :: "condition_ops \<Rightarrow> TokenBudget \<Rightarrow> f64 \<Rightarrow> gotime \<Rightarrow> gostring \<times> TokenBudget" where
  "evaluateConditions C budget utilization now =
    (let u = fmt_f 1 utilization;
         highest = highestSeverity utilization (tbs_AlertThresholds (tb_Spec budget)) [];
         set3 = (\<lambda>ok warn exc. let cs = tbt_Conditions (tb_Status budget)
                   in budget\<lparr>tb_Status := (tb_Status budget)\<lparr>tbt_Conditions := cs_set C (cs_set C (cs_set C cs ok) warn) exc\<rparr>\<rparr>)
     in if highest = severityCritical then (''exceeded'', set3
          (cond ''BudgetOK'' ConditionFalse ''BudgetExceeded'' (''Budget utilization at '' @ u @ ''% exceeds critical threshold'') now)
          (cond ''BudgetWarning'' ConditionTrue ''ThresholdCrossed'' (''Budget utilization at '' @ u @ ''%'') now)
          (cond ''BudgetExceeded'' ConditionTrue ''CriticalThresholdCrossed'' (''Budget utilization at '' @ u @ ''% exceeds critical threshold'') now))
        else if highest = severityWarning then (''warning'', set3
          (cond ''BudgetOK'' ConditionFalse ''BudgetWarning'' (''Budget utilization at '' @ u @ ''% exceeds warning threshold'') now)
          (cond ''BudgetWarning'' ConditionTrue ''ThresholdCrossed'' (''Budget utilization at '' @ u @ ''%'') now)
          (cond ''BudgetExceeded'' ConditionFalse ''WithinBudget'' ''Budget utilization is below critical threshold'' now))
        else (''ok'', set3
          (cond ''BudgetOK'' ConditionTrue ''WithinBudget'' (''Budget utilization at '' @ u @ ''% is within limits'') now)
          (cond ''BudgetWarning'' ConditionFalse ''WithinBudget'' ''Budget utilization is below warning threshold'' now)
          (cond ''BudgetExceeded'' ConditionFalse ''WithinBudget'' ''Budget utilization is below critical threshold'' now)))"

subsection \<open>Alert rules\<close>

text \<open>\<open>string(b)\<close> of a byte: its UTF-8 form.\<close>

definition utf8_byte :: "int \<Rightarrow> gostring" where
  "utf8_byte b = (if b < 128 then [char_of (nat b)] else [char_of (nat (192 + b div 64)), char_of (nat (128 + b mod 64))])"

text \<open>\<open>string(s[0]-32) + s[1:]\<close>; indexing an empty string panics.\<close>

definition severityTitle :: "gostring \<Rightarrow> gostring option" where
  "severityTitle s = (case s of [] \<Rightarrow> None | c # cs \<Rightarrow> Some (utf8_byte ((of_char c - 32) mod 256) @ cs))"

definition alertRule :: "TokenBudget \<Rightarrow> AlertThreshold \<Rightarrow> AlertRule option" where
  "alertRule budget threshold =
    (let ns = tsc_Namespace (tbs_Scope (tb_Spec budget)) in
     case severityTitle (at_Severity threshold) of None \<Rightarrow> None
     | Some title \<Rightarrow> Some
       \<lparr>ar_Alert = ''InferCostBudget'' @ title,
        ar_Expr = ''infercost_budget_utilization_percent{namespace=\"'' @ ns @ ''\",budget_name=\"''
          @ om_Name (tb_Meta budget) @ ''\"} >= '' @ show_int32 (at_Percent threshold),
        ar_For = (if at_Severity threshold = severityCritical then ''1m'' else ''5m''),
        ar_Severity = at_Severity threshold,
        ar_Summary = ''Inference budget at {{ $value }}% for namespace '' @ ns\<rparr>)"

fun alertRules :: "TokenBudget \<Rightarrow> AlertThreshold list \<Rightarrow> AlertRule list option" where
  "alertRules budget [] = Some []"
| "alertRules budget (t # ts) = (case alertRule budget t of None \<Rightarrow> None
     | Some r \<Rightarrow> (case alertRules budget ts of None \<Rightarrow> None | Some rs \<Rightarrow> Some (r # rs)))"

datatype ruleOutcome = RuleOk | RuleErr gostring | RulePanic

definition reconcilePrometheusRule :: "'k budget_client \<Rightarrow> TokenBudget \<Rightarrow> 'k \<Rightarrow> ruleOutcome \<times> 'k" where
  "reconcilePrometheusRule K budget k =
    (if length (tbs_AlertThresholds (tb_Spec budget)) = 0 then (RuleOk, k)
     else
       let name = om_Name (tb_Meta budget); ruleName = ''infercost-budget-'' @ name; ons = om_Namespace (tb_Meta budget) in
       case alertRules budget (tbs_AlertThresholds (tb_Spec budget)) of None \<Rightarrow> (RulePanic, k)
       | Some rules \<Rightarrow>
         let bare = \<lparr>pr_Name = ruleName, pr_Namespace = ons,
               pr_Labels = [(''app.kubernetes.io/name'', ''infercost''),
                 (''app.kubernetes.io/managed-by'', ''infercost''), (''infercost.ai/budget'', name)],
               pr_Owner = None, pr_Groups = []\<rparr> in
         case bc_setOwner K budget bare of Inl err \<Rightarrow> (RuleErr (''setting owner reference: '' @ kerror_text err), k)
         | Inr owned \<Rightarrow>
           let promRule = owned\<lparr>pr_Groups := [(''infercost-budget-'' @ name @ ''.rules'', rules)]\<rparr> in
           case bc_getRule K k ons ruleName of
             Inl err \<Rightarrow>
               (case err of
                  NotFound _ \<Rightarrow>
                    (case bc_createRule K promRule k of
                       Inl (NoMatch _) \<Rightarrow> (RuleOk, k)
                     | Inl createErr \<Rightarrow> (RuleErr (''creating PrometheusRule: '' @ kerror_text createErr), k)
                     | Inr k' \<Rightarrow> (RuleOk, k'))
                | NoMatch _ \<Rightarrow> (RuleOk, k)
                | _ \<Rightarrow> (RuleErr (''getting PrometheusRule: '' @ kerror_text err), k))
           | Inr existing \<Rightarrow>
               (case bc_updateRule K (existing\<lparr>pr_Groups := pr_Groups promRule, pr_Labels := pr_Labels promRule\<rparr>) k of
                  Inl updateErr \<Rightarrow> (RuleErr (''updating PrometheusRule: '' @ kerror_text updateErr), k)
                | Inr k' \<Rightarrow> (RuleOk, k')))"

subsection \<open>Publishing\<close>

definition budgetRow :: "TokenBudget \<Rightarrow> gostring \<Rightarrow> BudgetData" where
  "budgetRow budget status =
    \<lparr>gd_Name = om_Name (tb_Meta budget), gd_Namespace = tsc_Namespace (tbs_Scope (tb_Spec budget)),
     gd_MonthlyLimitUSD = tbs_MonthlyLimitUSD (tb_Spec budget), gd_CurrentSpendUSD = tbt_CurrentSpendUSD (tb_Status budget),
     gd_UtilizationPercent = tbt_UtilizationPercent (tb_Status budget), gd_Status = status\<rparr>"

text \<open>The loop replaces the first row with the budget's name and object namespace; \<open>found\<close> is the flag.\<close>

fun replaceBudget :: "TokenBudget \<Rightarrow> gostring \<Rightarrow> BudgetData list \<Rightarrow> BudgetData list \<times> bool" where
  "replaceBudget budget status [] = ([], False)"
| "replaceBudget budget status (b # bs) =
    (if gd_Name b = om_Name (tb_Meta budget) \<and> gd_Namespace b = om_Namespace (tb_Meta budget)
     then (budgetRow budget status # bs, True)
     else let (bs', found) = replaceBudget budget status bs in (b # bs', found))"

definition updateAPIStore :: "TokenBudget \<Rightarrow> gostring \<Rightarrow> Store \<Rightarrow> Store" where
  "updateAPIStore budget status store =
    (let existing = GetBudgets store; (rows, found) = replaceBudget budget status existing
     in SetBudgets (if found then rows else rows @ [budgetRow budget status]) store)"

subsection \<open>Reconcile\<close>

text \<open>The first cost row of a namespace, or zero.\<close>

fun spendOf :: "gostring \<Rightarrow> NamespaceCostData list \<Rightarrow> f64" where
  "spendOf ns [] = 0"
| "spendOf ns (c # cs) = (if nc_Namespace c = ns then nc_EstimatedCostUSD c else spendOf ns cs)"

definition budgetPeriodStart :: "gotime \<Rightarrow> gotime" where
  "budgetPeriodStart now = time_Date (time_Year now) (time_Month now) 1"

definition budgetPeriodEnd :: "gotime \<Rightarrow> gotime" where
  "budgetPeriodEnd now = add_months (budgetPeriodStart now) 1 - 1"

definition budgetUtilization :: "f64 \<Rightarrow> f64 \<Rightarrow> f64" where
  "budgetUtilization currentSpend limit = (if 0 < limit then (currentSpend / limit) * lit 100 else 0)"

definition currentSpend :: "Store option \<Rightarrow> TokenBudget \<Rightarrow> f64" where
  "currentSpend api b = (case api of None \<Rightarrow> 0
     | Some store \<Rightarrow> spendOf (tsc_Namespace (tbs_Scope (tb_Spec b))) (GetNamespaceCosts store))"

text \<open>Steps 2 to 6 of the reconcile: the period, the spend and its utilization, the new status.\<close>

definition computedBudget :: "condition_ops \<Rightarrow> gotime \<Rightarrow> gotime \<Rightarrow> Store option \<Rightarrow> TokenBudget \<Rightarrow> gostring \<times> TokenBudget" where
  "computedBudget C now metaNow api b0 =
    (let s = currentSpend api b0; u = budgetUtilization s (tbs_MonthlyLimitUSD (tb_Spec b0))
     in evaluateConditions C (b0\<lparr>tb_Status := (tb_Status b0)\<lparr>tbt_CurrentSpendUSD := s,
          tbt_UtilizationPercent := u, tbt_PeriodStart := Some (budgetPeriodStart now),
          tbt_PeriodEnd := Some (budgetPeriodEnd now), tbt_LastUpdated := Some metaNow\<rparr>\<rparr>) u metaNow)"

text \<open>Step 7.\<close>

definition budgetGauges :: "TokenBudget \<Rightarrow> gauges \<Rightarrow> gauges" where
  "budgetGauges budget g =
    (let ns = tsc_Namespace (tbs_Scope (tb_Spec budget)); name = om_Name (tb_Meta budget)
     in gauge_set BudgetUtilizationPercent [ns, name] (tbt_UtilizationPercent (tb_Status budget))
       (gauge_set BudgetCurrentSpendUSD [ns, name] (tbt_CurrentSpendUSD (tb_Status budget))
       (gauge_set BudgetLimitUSD [ns, name] (tbs_MonthlyLimitUSD (tb_Spec budget)) g)))"

definition Reconcile :: "condition_ops \<Rightarrow> 'k budget_client \<Rightarrow> gotime \<Rightarrow> gotime \<Rightarrow> gostring \<Rightarrow> gostring \<Rightarrow> ('k, 'db) world \<Rightarrow> outcome \<times> ('k, 'db) world" where
  "Reconcile C K now metaNow rns rname w =
    (case bc_getBudget K (w_kube w) rns rname of
       Inl (NotFound _) \<Rightarrow> (Done \<lparr>RequeueAfter = 0\<rparr>, w)
     | Inl err \<Rightarrow> (Failed err, w)
     | Inr budget0 \<Rightarrow>
       let (budgetStatus, budget) = computedBudget C now metaNow (w_api w) budget0;
           w1 = w\<lparr>w_gauges := budgetGauges budget (w_gauges w)\<rparr>;
           (ruleResult, k) = reconcilePrometheusRule K budget (w_kube w1);
           w2 = w1\<lparr>w_kube := k\<rparr>
       in if ruleResult = RulePanic then (Panicked, w2)
          else (case bc_updateStatus K budget k of
             Inl err \<Rightarrow> (Failed err, w2)
           | Inr k' \<Rightarrow>
             let w3 = w2\<lparr>w_kube := k'\<rparr>
             in (Done \<lparr>RequeueAfter = budgetReconcileInterval\<rparr>,
                 w3\<lparr>w_api := map_option (updateAPIStore budget budgetStatus) (w_api w3)\<rparr>)))"

subsection \<open>Severity\<close>

text \<open>A threshold is crossed when the utilization reaches its percentage.\<close>

definition crossed :: "f64 \<Rightarrow> AlertThreshold \<Rightarrow> bool" where
  "crossed u t = (f_of_int32 (at_Percent t) \<le> u)"

lemma severities [simp]: "severityCritical \<noteq> severityWarning" "severityWarning \<noteq> severityCritical"
  "severityCritical \<noteq> []" "severityWarning \<noteq> []" "[] \<noteq> severityCritical" "[] \<noteq> severityWarning"
  by (simp_all add: severityCritical_def severityWarning_def)

lemma highestSeverity_spec:
  "h \<in> {[], severityWarning, severityCritical} \<Longrightarrow> highestSeverity u ts h =
    (if h = severityCritical \<or> (\<exists>t \<in> set ts. crossed u t \<and> at_Severity t = severityCritical) then severityCritical
     else if h = severityWarning \<or> (\<exists>t \<in> set ts. crossed u t) then severityWarning else [])"
  by (induction u ts h rule: highestSeverity.induct) (auto simp: crossed_def)

text \<open>The budget status as a function of the crossed thresholds.\<close>

definition budgetLevel :: "f64 \<Rightarrow> AlertThreshold list \<Rightarrow> gostring" where
  "budgetLevel u ts = (if \<exists>t \<in> set ts. crossed u t \<and> at_Severity t = severityCritical then ''exceeded''
     else if \<exists>t \<in> set ts. crossed u t then ''warning'' else ''ok'')"

lemma evaluate_status: "fst (evaluateConditions C b u now) = budgetLevel u (tbs_AlertThresholds (tb_Spec b))"
  by (auto simp: evaluateConditions_def Let_def highestSeverity_spec budgetLevel_def)

lemma evaluate_frame:
  "evaluateConditions C b u now = (st, b') \<Longrightarrow> tb_Meta b' = tb_Meta b \<and> tb_Spec b' = tb_Spec b
    \<and> (\<exists>cs. tb_Status b' = (tb_Status b)\<lparr>tbt_Conditions := cs\<rparr>)"
  by (auto simp: evaluateConditions_def Let_def split: if_splits)

definition has_status :: "condition_ops \<Rightarrow> TokenBudget \<Rightarrow> gostring \<Rightarrow> ConditionStatus \<Rightarrow> bool" where
  "has_status C b ty v = (\<exists>c. cs_find C (tbt_Conditions (tb_Status b)) ty = Some c \<and> c_Status c = v)"

lemma evaluate_form:
  assumes "evaluateConditions C b u now = (st, b')"
  obtains ok warn exc where "tbt_Conditions (tb_Status b') = cs_set C (cs_set C (cs_set C (tbt_Conditions (tb_Status b)) ok) warn) exc"
    and "c_Type ok = ''BudgetOK''" "c_Type warn = ''BudgetWarning''" "c_Type exc = ''BudgetExceeded''"
    and "c_Status ok = truth (st = ''ok'')" "c_Status warn = truth (st \<noteq> ''ok'')" "c_Status exc = truth (st = ''exceeded'')"
proof -
  let ?h = "highestSeverity u (tbs_AlertThresholds (tb_Spec b)) []"
  consider "?h = severityCritical" | "?h \<noteq> severityCritical" "?h = severityWarning" | "?h \<noteq> severityCritical" "?h \<noteq> severityWarning" by blast
  then show thesis
  proof cases
    case 1
    from assms show thesis unfolding evaluateConditions_def Let_def if_P [OF 1]
      by (elim Pair_inject, hypsubst) (rule that, simp, simp_all add: cond_def truth_def)
  next
    case 2
    from assms show thesis unfolding evaluateConditions_def Let_def if_not_P [OF 2(1)] if_P [OF 2(2)]
      by (elim Pair_inject, hypsubst) (rule that, simp, simp_all add: cond_def truth_def)
  next
    case 3
    from assms show thesis unfolding evaluateConditions_def Let_def if_not_P [OF 3(1)] if_not_P [OF 3(2)]
      by (elim Pair_inject, hypsubst) (rule that, simp, simp_all add: cond_def truth_def)
  qed
qed

context status_conditions
begin

lemma has_status_view: "has_status C b ty v \<longleftrightarrow> (\<exists>r m. view (tbt_Conditions (tb_Status b)) ty = Some (v, r, m))"
  by (auto simp: has_status_def view_def)

lemma evaluate_conditions:
  assumes "evaluateConditions C b u now = (st, b')"
  shows "has_status C b' ''BudgetOK'' (truth (st = ''ok''))" and "has_status C b' ''BudgetWarning'' (truth (st \<noteq> ''ok''))"
    and "has_status C b' ''BudgetExceeded'' (truth (st = ''exceeded''))"
    and "ty \<notin> {''BudgetOK'', ''BudgetWarning'', ''BudgetExceeded''} \<Longrightarrow>
        cs_find C (tbt_Conditions (tb_Status b')) ty = cs_find C (tbt_Conditions (tb_Status b)) ty"
  by (rule evaluate_form [OF assms]; simp add: has_status_view view_set set_other)+

end

text \<open>C19 The budget status is exact: "exceeded" if and only if a critical threshold is reached, "warning"
  if and only if some threshold but no critical one is, "ok" otherwise; and the three conditions on
  the object say the same (BudgetOK, BudgetWarning and BudgetExceeded are never contradictory),
  while conditions of other types are left alone.\<close>

theorem budget_conditions_exact:
  assumes "status_conditions C" and "evaluateConditions C b u now = (st, b')"
  shows "(st = ''exceeded'' \<longleftrightarrow> (\<exists>t \<in> set (tbs_AlertThresholds (tb_Spec b)). f_of_int32 (at_Percent t) \<le> u \<and> at_Severity t = ''critical''))
    \<and> (st = ''ok'' \<longleftrightarrow> (\<forall>t \<in> set (tbs_AlertThresholds (tb_Spec b)). \<not> f_of_int32 (at_Percent t) \<le> u))
    \<and> (st = ''exceeded'' \<or> st = ''warning'' \<or> st = ''ok'')
    \<and> has_status C b' ''BudgetOK'' (truth (st = ''ok''))
    \<and> has_status C b' ''BudgetWarning'' (truth (st \<noteq> ''ok''))
    \<and> has_status C b' ''BudgetExceeded'' (truth (st = ''exceeded''))
    \<and> (ty \<notin> {''BudgetOK'', ''BudgetWarning'', ''BudgetExceeded''} \<longrightarrow>
        cs_find C (tbt_Conditions (tb_Status b')) ty = cs_find C (tbt_Conditions (tb_Status b)) ty)"
proof -
  have st: "st = budgetLevel u (tbs_AlertThresholds (tb_Spec b))" using evaluate_status [of C b u now] assms(2) by simp
  then have "(st = ''exceeded'' \<longleftrightarrow> (\<exists>t \<in> set (tbs_AlertThresholds (tb_Spec b)). f_of_int32 (at_Percent t) \<le> u \<and> at_Severity t = ''critical''))
    \<and> (st = ''ok'' \<longleftrightarrow> (\<forall>t \<in> set (tbs_AlertThresholds (tb_Spec b)). \<not> f_of_int32 (at_Percent t) \<le> u))
    \<and> (st = ''exceeded'' \<or> st = ''warning'' \<or> st = ''ok'')"
    by (auto simp: budgetLevel_def crossed_def severityCritical_def)
  moreover note status_conditions.evaluate_conditions(1-3) [OF assms]
  moreover have "ty \<notin> {''BudgetOK'', ''BudgetWarning'', ''BudgetExceeded''} \<longrightarrow>
        cs_find C (tbt_Conditions (tb_Status b')) ty = cs_find C (tbt_Conditions (tb_Status b)) ty"
    using status_conditions.evaluate_conditions(4) [OF assms] by (rule impI)
  ultimately show ?thesis by (elim conjE) (intro conjI; assumption)
qed

definition demo_budget :: TokenBudget where
  "demo_budget = \<lparr>tb_Meta = \<lparr>om_Name = ''team-a'', om_Namespace = ''finops'', om_CreationTimestamp = 0\<rparr>,
     tb_Spec = \<lparr>tbs_Scope = \<lparr>tsc_Namespace = ''ml''\<rparr>, tbs_MonthlyLimitUSD = lit 100,
       tbs_AlertThresholds = [\<lparr>at_Percent = 80, at_Severity = ''warning''\<rparr>, \<lparr>at_Percent = 100, at_Severity = ''critical''\<rparr>]\<rparr>,
     tb_Status = \<lparr>tbt_CurrentSpendUSD = 0, tbt_UtilizationPercent = 0, tbt_PeriodStart = None, tbt_PeriodEnd = None,
       tbt_LastUpdated = None, tbt_Conditions = []\<rparr>\<rparr>"

theorem budget_conditions_exact_witness:
  "\<exists>b'. evaluateConditions std_conditions demo_budget (lit 85) 0 = (''warning'', b')
    \<and> has_status std_conditions b' ''BudgetWarning'' ConditionTrue \<and> has_status std_conditions b' ''BudgetExceeded'' ConditionFalse"
proof -
  obtain st b' where e: "evaluateConditions std_conditions demo_budget (lit 85) 0 = (st, b')" by fastforce
  have "f_of_int32 80 \<le> lit 85" "\<not> f_of_int32 100 \<le> lit 85" by code_simp+
  then have no: "\<not> (\<exists>t \<in> set (tbs_AlertThresholds (tb_Spec demo_budget)). f_of_int32 (at_Percent t) \<le> lit 85 \<and> at_Severity t = ''critical'')"
    and some: "\<not> (\<forall>t \<in> set (tbs_AlertThresholds (tb_Spec demo_budget)). \<not> f_of_int32 (at_Percent t) \<le> lit 85)"
    by (simp_all add: demo_budget_def)
  note B = budget_conditions_exact [OF std.status_conditions_axioms e, of "[]"]
  from B no some have "st \<noteq> ''exceeded''" "st \<noteq> ''ok''" "st = ''exceeded'' \<or> st = ''warning'' \<or> st = ''ok''" by argo+
  then have st: "st = ''warning''" by blast
  from B have w: "has_status std_conditions b' ''BudgetWarning'' (truth (st \<noteq> ''ok''))" by (elim conjE)
  from B have x: "has_status std_conditions b' ''BudgetExceeded'' (truth (st = ''exceeded''))" by (elim conjE)
  from w x have "has_status std_conditions b' ''BudgetWarning'' ConditionTrue" "has_status std_conditions b' ''BudgetExceeded'' ConditionFalse"
    by (simp_all add: st truth_def)
  then show ?thesis using e st by blast
qed

subsection \<open>The billing period\<close>

lemma period_start_month: "budgetPeriodStart now = month_start (month_index now)"
  by (simp add: budgetPeriodStart_def month_start_of)

lemma period_end_month: "budgetPeriodEnd now = month_start (month_index now + 1) - 1"
  by (simp add: budgetPeriodEnd_def period_start_month add_month_start)

text \<open>The billing period of a reconcile contains the instant of the reconcile, starts on the first day of
  a month, and two instants have the same period exactly when one lies in the period of the other:
  the periods cover time without gap or overlap.\<close>

theorem billing_periods_tile:
  "budgetPeriodStart now \<le> now \<and> now \<le> budgetPeriodEnd now \<and> time_Day (budgetPeriodStart now) = 1
    \<and> budgetPeriodStart (budgetPeriodEnd now + 1) = budgetPeriodEnd now + 1
    \<and> (budgetPeriodStart t = budgetPeriodStart now \<longleftrightarrow> budgetPeriodStart now \<le> t \<and> t \<le> budgetPeriodEnd now)"
proof (intro conjI iffI)
  show 1: "budgetPeriodStart t \<le> t" for t unfolding budgetPeriodStart_def by (rule month_start_le)
  show 2: "t \<le> budgetPeriodEnd t" for t
    using month_end_gt [of t] by (simp add: period_end_month month_next_of)
  show "time_Day (budgetPeriodStart now) = 1"
    unfolding budgetPeriodStart_def by (rule time_Date_fields(3) [OF time_Month_range])
  show "budgetPeriodStart (budgetPeriodEnd now + 1) = budgetPeriodEnd now + 1"
    by (simp add: period_end_month period_start_month month_index_start)
  assume same: "budgetPeriodStart t = budgetPeriodStart now"
  show "budgetPeriodStart now \<le> t" using 1 [of t] same by simp
  show "t \<le> budgetPeriodEnd now" using 2 [of t] same by (simp add: budgetPeriodEnd_def)
next
  assume "budgetPeriodStart now \<le> t \<and> t \<le> budgetPeriodEnd now"
  then show "budgetPeriodStart t = budgetPeriodStart now"
    using month_index_unique [of "month_index now" t] by (simp add: period_end_month period_start_month)
qed

subsection \<open>The rows of the store\<close>

definition rowOf :: "TokenBudget \<Rightarrow> BudgetData \<Rightarrow> bool" where
  "rowOf b r = (gd_Name r = om_Name (tb_Meta b) \<and> gd_Namespace r = om_Namespace (tb_Meta b))"

lemma replace_absent: "\<not> (\<exists>r \<in> set rows. rowOf b r) \<Longrightarrow> replaceBudget b st rows = (rows, False)"
  by (induction rows) (auto simp: rowOf_def)

lemma replace_present:
  "\<not> (\<exists>r \<in> set pre. rowOf b r) \<Longrightarrow> rowOf b r \<Longrightarrow> replaceBudget b st (pre @ r # post) = (pre @ budgetRow b st # post, True)"
  by (induction pre) (auto simp: rowOf_def)

lemma update_absent: "\<not> (\<exists>r \<in> set (GetBudgets s). rowOf b r) \<Longrightarrow>
    updateAPIStore b st s = SetBudgets (GetBudgets s @ [budgetRow b st]) s"
  by (simp add: updateAPIStore_def replace_absent)

lemma update_present: "GetBudgets s = pre @ r # post \<Longrightarrow> \<not> (\<exists>r \<in> set pre. rowOf b r) \<Longrightarrow> rowOf b r \<Longrightarrow>
    updateAPIStore b st s = SetBudgets (pre @ budgetRow b st # post) s"
  by (simp add: updateAPIStore_def replace_present)

lemma update_form:
  obtains pre post mid where "GetBudgets s = pre @ mid @ post" and "\<not> (\<exists>r \<in> set pre. rowOf b r)"
    and "updateAPIStore b st s = SetBudgets (pre @ budgetRow b st # post) s"
    and "mid = [] \<and> post = [] \<or> (\<exists>r. mid = [r] \<and> rowOf b r)"
proof (cases "\<exists>r \<in> set (GetBudgets s). rowOf b r")
  case True
  then obtain pre r post where "GetBudgets s = pre @ r # post" "rowOf b r" "\<forall>y \<in> set pre. \<not> rowOf b y"
    by (rule split_list_first_propE)
  then show thesis using that [of pre "[r]" post] update_present [of s pre r post b st] by auto
next
  case False
  then show thesis using that [of "GetBudgets s" "[]" "[]"] update_absent [of s b st] by auto
qed

lemma rowOf_budgetRow [simp]: "tsc_Namespace (tbs_Scope (tb_Spec b)) = om_Namespace (tb_Meta b) \<Longrightarrow> rowOf b (budgetRow b st)"
  by (simp add: rowOf_def budgetRow_def)

text \<open>A budget that watches its own namespace has its row published once: after the update the first row of
  that budget is the new one, the rows of all other budgets are the same in the same order, a row
  is added only when there was none, and publishing again changes nothing.\<close>

theorem budget_row_published:
  assumes "tsc_Namespace (tbs_Scope (tb_Spec b)) = om_Namespace (tb_Meta b)"
  shows "List.find (rowOf b) (GetBudgets (updateAPIStore b st s)) = Some (budgetRow b st)
    \<and> filter (\<lambda>r. \<not> rowOf b r) (GetBudgets (updateAPIStore b st s)) = filter (\<lambda>r. \<not> rowOf b r) (GetBudgets s)
    \<and> length (filter (rowOf b) (GetBudgets (updateAPIStore b st s))) = max 1 (length (filter (rowOf b) (GetBudgets s)))
    \<and> updateAPIStore b st (updateAPIStore b st s) = updateAPIStore b st s"
proof (rule update_form [of s b st])
  fix pre mid post
  assume a: "GetBudgets s = pre @ mid @ post" "\<not> (\<exists>r \<in> set pre. rowOf b r)"
    "updateAPIStore b st s = SetBudgets (pre @ budgetRow b st # post) s"
    "mid = [] \<and> post = [] \<or> (\<exists>r. mid = [r] \<and> rowOf b r)"
  have row: "rowOf b (budgetRow b st)" using assms by simp
  have pre: "filter (rowOf b) pre = []" "List.find (rowOf b) (pre @ xs) = List.find (rowOf b) xs" for xs
    using a(2) by (simp_all add: filter_empty_conv) (induction pre, auto)
  have u: "GetBudgets (SetBudgets rows s') = rows" "SetBudgets r' (SetBudgets rows s') = SetBudgets r' s'" for rows r' s'
    by (simp_all add: budgets_slot.get_set budgets_slot.set_set)
  have "updateAPIStore b st (SetBudgets (pre @ budgetRow b st # post) s) = SetBudgets (pre @ budgetRow b st # post) s"
    using update_present [of "SetBudgets (pre @ budgetRow b st # post) s" pre "budgetRow b st" post b st] a(2) row by (simp add: u)
  then show ?thesis using a row pre by (auto simp: u)
qed

theorem budget_row_published_witness:
  "updateAPIStore (demo_budget\<lparr>tb_Spec := (tb_Spec demo_budget)\<lparr>tbs_Scope := \<lparr>tsc_Namespace = ''finops''\<rparr>\<rparr>\<rparr>) ''ok''
     (updateAPIStore (demo_budget\<lparr>tb_Spec := (tb_Spec demo_budget)\<lparr>tbs_Scope := \<lparr>tsc_Namespace = ''finops''\<rparr>\<rparr>\<rparr>) ''ok'' NewStore)
   = updateAPIStore (demo_budget\<lparr>tb_Spec := (tb_Spec demo_budget)\<lparr>tbs_Scope := \<lparr>tsc_Namespace = ''finops''\<rparr>\<rparr>\<rparr>) ''ok'' NewStore"
  using budget_row_published [of "demo_budget\<lparr>tb_Spec := (tb_Spec demo_budget)\<lparr>tbs_Scope := \<lparr>tsc_Namespace = ''finops''\<rparr>\<rparr>\<rparr>" "''ok''" NewStore]
  by (simp add: demo_budget_def)

text \<open>C25 A budget whose object lives in another namespace than the one it watches is never found again: the
  loop compares the stored row, which carries the scope's namespace, with the object's, so each of n
  reconciles appends one more row for the same budget.\<close>

theorem budget_rows_duplicate:
  assumes "tsc_Namespace (tbs_Scope (tb_Spec b)) \<noteq> om_Namespace (tb_Meta b)"
    and "\<not> (\<exists>r \<in> set (GetBudgets s). gd_Name r = om_Name (tb_Meta b) \<and> gd_Namespace r = om_Namespace (tb_Meta b))"
  shows "GetBudgets ((updateAPIStore b st ^^ n) s) = GetBudgets s @ replicate n (budgetRow b st)"
proof (induction n)
  case (Suc n)
  have "\<not> rowOf b (budgetRow b st)" using assms(1) by (simp add: rowOf_def budgetRow_def)
  then have "\<not> (\<exists>r \<in> set (GetBudgets ((updateAPIStore b st ^^ n) s)). rowOf b r)"
    using assms(2) unfolding Suc.IH by (auto simp: rowOf_def)
  from update_absent [OF this] show ?case
    by (simp add: Suc.IH budgets_slot.get_set replicate_append_same)
qed simp

theorem budget_rows_duplicate_witness:
  "length (GetBudgets ((updateAPIStore demo_budget ''ok'' ^^ 3) NewStore)) = 3"
  using budget_rows_duplicate [of demo_budget NewStore 3 "''ok''"] by (simp add: demo_budget_def NewStore_def GetBudgets_def)

subsection \<open>A whole reconcile\<close>

lemma alertRules_None: "alertRules b ts = None \<longleftrightarrow> (\<exists>t \<in> set ts. at_Severity t = [])"
  by (induction ts) (auto simp: alertRule_def severityTitle_def Let_def split: option.splits list.splits)

lemma rule_no_panic: "alertRules b (tbs_AlertThresholds (tb_Spec b)) = Some rules \<Longrightarrow> fst (reconcilePrometheusRule K b k) \<noteq> RulePanic"
  by (simp add: reconcilePrometheusRule_def Let_def split: sum.split kerror.split)

lemma rule_panic: "fst (reconcilePrometheusRule K b k) = RulePanic \<longleftrightarrow>
    (\<exists>t \<in> set (tbs_AlertThresholds (tb_Spec b)). at_Severity t = [])"
proof (cases "alertRules b (tbs_AlertThresholds (tb_Spec b))")
  case None
  then show ?thesis using alertRules_None [of b "tbs_AlertThresholds (tb_Spec b)"] by (auto simp: reconcilePrometheusRule_def)
next
  case (Some rules)
  then show ?thesis using rule_no_panic [OF Some] alertRules_None [of b "tbs_AlertThresholds (tb_Spec b)"] by simp
qed

definition budgetGauge :: "gauges \<Rightarrow> gostring \<Rightarrow> TokenBudget \<Rightarrow> f64 option" where
  "budgetGauge g name b = gauge_get g name [tsc_Namespace (tbs_Scope (tb_Spec b)), om_Name (tb_Meta b)]"

lemma computed_status:
  assumes "computedBudget C now metaNow api b0 = (st, b)"
  shows "tb_Spec b = tb_Spec b0" "tb_Meta b = tb_Meta b0" "tbt_CurrentSpendUSD (tb_Status b) = currentSpend api b0"
    "tbt_UtilizationPercent (tb_Status b) = budgetUtilization (currentSpend api b0) (tbs_MonthlyLimitUSD (tb_Spec b0))"
    "st = budgetLevel (tbt_UtilizationPercent (tb_Status b)) (tbs_AlertThresholds (tb_Spec b0))"
    "tbt_PeriodStart (tb_Status b) = Some (budgetPeriodStart now)" "tbt_PeriodEnd (tb_Status b) = Some (budgetPeriodEnd now)"
    "tbt_LastUpdated (tb_Status b) = Some metaNow"
  using evaluate_frame [OF assms [unfolded computedBudget_def Let_def]]
    evaluate_status [THEN trans [OF arg_cong [OF assms [unfolded computedBudget_def Let_def, symmetric], of fst]]]
  by auto

lemma Reconcile_found:
  assumes "bc_getBudget K (w_kube w) rns rname = Inr b0"
  obtains st b r k where "computedBudget C now metaNow (w_api w) b0 = (st, b)"
    and "reconcilePrometheusRule K b (w_kube w) = (r, k)"
    and "Reconcile C K now metaNow rns rname w = (let w2 = w\<lparr>w_gauges := budgetGauges b (w_gauges w), w_kube := k\<rparr> in
      if r = RulePanic then (Panicked, w2)
      else (case bc_updateStatus K b k of Inl err \<Rightarrow> (Failed err, w2)
       | Inr k' \<Rightarrow> (Done \<lparr>RequeueAfter = nsMinute\<rparr>, w2\<lparr>w_kube := k', w_api := map_option (updateAPIStore b st) (w_api w)\<rparr>)))"
proof -
  obtain st b where cb: "computedBudget C now metaNow (w_api w) b0 = (st, b)" by fastforce
  obtain r k where rk: "reconcilePrometheusRule K b (w_kube w) = (r, k)" by fastforce
  show thesis
    by (rule that [OF cb rk])
      (simp add: Reconcile_def assms Let_def cb rk budgetReconcileInterval_def split: sum.split)
qed

lemma budgetGauges_get:
  "budgetGauge (budgetGauges b g) BudgetLimitUSD b = Some (tbs_MonthlyLimitUSD (tb_Spec b))"
  "budgetGauge (budgetGauges b g) BudgetCurrentSpendUSD b = Some (tbt_CurrentSpendUSD (tb_Status b))"
  "budgetGauge (budgetGauges b g) BudgetUtilizationPercent b = Some (tbt_UtilizationPercent (tb_Status b))"
  by (simp_all add: budgetGauge_def budgetGauges_def Let_def BudgetLimitUSD_def BudgetCurrentSpendUSD_def
      BudgetUtilizationPercent_def gauge_name_def)

lemma spendOf_find: "spendOf ns rows = (case List.find (\<lambda>r. nc_Namespace r = ns) rows of None \<Rightarrow> 0 | Some r \<Rightarrow> nc_EstimatedCostUSD r)"
  by (induction rows) simp_all

lemma update_row:
  "\<exists>pre mid post. GetBudgets s = pre @ mid @ post \<and> GetBudgets (updateAPIStore b st s) = pre @ [budgetRow b st] @ post
    \<and> (\<forall>r \<in> set pre. \<not> rowOf b r) \<and> (mid = [] \<and> post = [] \<or> (\<exists>r. mid = [r] \<and> rowOf b r))"
  "GetCostData (updateAPIStore b st s) = GetCostData s" "GetModels (updateAPIStore b st s) = GetModels s"
  "GetComparisons (updateAPIStore b st s) = GetComparisons s" "GetBreakEven (updateAPIStore b st s) = GetBreakEven s"
  "GetNamespaceCosts (updateAPIStore b st s) = GetNamespaceCosts s"
proof -
  obtain pre post mid where f: "GetBudgets s = pre @ mid @ post" "\<not> (\<exists>r \<in> set pre. rowOf b r)"
    "updateAPIStore b st s = SetBudgets (pre @ budgetRow b st # post) s" "mid = [] \<and> post = [] \<or> (\<exists>r. mid = [r] \<and> rowOf b r)"
    by (rule update_form)
  show "\<exists>pre mid post. GetBudgets s = pre @ mid @ post \<and> GetBudgets (updateAPIStore b st s) = pre @ [budgetRow b st] @ post
    \<and> (\<forall>r \<in> set pre. \<not> rowOf b r) \<and> (mid = [] \<and> post = [] \<or> (\<exists>r. mid = [r] \<and> rowOf b r))"
    by (rule exI [of _ pre], rule exI [of _ mid], rule exI [of _ post]) (use f in \<open>simp add: budgets_slot.get_set\<close>)
qed (rule update_form [of s b st], simp add: store_defs)+

text \<open>C18 A reconcile of a TokenBudget publishes one consistent view: on an existing
  budget the limit, spend and utilization gauges carry the limit of the spec, the cost of the first row of the scope's namespace (zero without a row or a store) and its percentage of the
  limit.  When it succeeds, the status written to the cluster carries the same spend and utilization, the period and the time, and the API
  store has exactly one row written, with the same name, limit, spend, utilization and the level that follows from the thresholds:
  in place of the first row found for the object, or at the end; every other row and slot is as before.  When the status write fails, or the reconcile
  panics, the API store is untouched; and it panics exactly when some threshold has an empty
  severity, which the CRD's enum excludes.\<close>

theorem budget_reconcile_consistent:
  assumes "bc_getBudget K (w_kube w) rns rname = Inr b0" and "Reconcile C K now metaNow rns rname w = (res, w')"
    and "ns = tsc_Namespace (tbs_Scope (tb_Spec b0))" and "name = om_Name (tb_Meta b0)"
    and "limit = tbs_MonthlyLimitUSD (tb_Spec b0)" and "thresholds = set (tbs_AlertThresholds (tb_Spec b0))"
    and "spend = (case w_api w of None \<Rightarrow> 0 | Some s \<Rightarrow>
        (case List.find (\<lambda>r. nc_Namespace r = ns) (GetNamespaceCosts s) of None \<Rightarrow> 0 | Some r \<Rightarrow> nc_EstimatedCostUSD r))"
    and "u = (if 0 < limit then spend / limit * lit 100 else 0)"
    and "level = (if \<exists>t \<in> thresholds. f_of_int32 (at_Percent t) \<le> u \<and> at_Severity t = ''critical'' then ''exceeded''
        else if \<exists>t \<in> thresholds. f_of_int32 (at_Percent t) \<le> u then ''warning'' else ''ok'')"
    and "is_row = (\<lambda>r. gd_Name r = name \<and> gd_Namespace r = om_Namespace (tb_Meta b0))"
  shows "gauge_get (w_gauges w') BudgetLimitUSD [ns, name] = Some limit
    \<and> gauge_get (w_gauges w') BudgetCurrentSpendUSD [ns, name] = Some spend
    \<and> gauge_get (w_gauges w') BudgetUtilizationPercent [ns, name] = Some u
    \<and> (res = Panicked \<longleftrightarrow> (\<exists>t \<in> thresholds. at_Severity t = []))
    \<and> (\<exists>b. tb_Spec b = tb_Spec b0 \<and> tb_Meta b = tb_Meta b0
        \<and> tbt_CurrentSpendUSD (tb_Status b) = spend \<and> tbt_UtilizationPercent (tb_Status b) = u
        \<and> tbt_PeriodStart (tb_Status b) = Some (budgetPeriodStart now) \<and> tbt_PeriodEnd (tb_Status b) = Some (budgetPeriodEnd now)
        \<and> tbt_LastUpdated (tb_Status b) = Some metaNow
        \<and> (case res of
         Done r \<Rightarrow> RequeueAfter r = nsMinute \<and> (\<exists>k. bc_updateStatus K b k = Inr (w_kube w'))
           \<and> rel_option (\<lambda>s s'. (\<exists>pre mid post. GetBudgets s = pre @ mid @ post
                 \<and> GetBudgets s' = pre @ [\<lparr>gd_Name = name, gd_Namespace = ns, gd_MonthlyLimitUSD = limit,
                     gd_CurrentSpendUSD = spend, gd_UtilizationPercent = u, gd_Status = level\<rparr>] @ post
                 \<and> (\<forall>r \<in> set pre. \<not> is_row r) \<and> (mid = [] \<and> post = [] \<or> (\<exists>r. mid = [r] \<and> is_row r)))
               \<and> GetCostData s' = GetCostData s \<and> GetModels s' = GetModels s \<and> GetComparisons s' = GetComparisons s
               \<and> GetBreakEven s' = GetBreakEven s \<and> GetNamespaceCosts s' = GetNamespaceCosts s) (w_api w) (w_api w')
       | Failed e \<Rightarrow> w_api w' = w_api w \<and> bc_updateStatus K b (w_kube w') = Inl e
       | Panicked \<Rightarrow> w_api w' = w_api w))"
proof (rule Reconcile_found [OF assms(1), of C now metaNow])
  fix st b r k
  assume cb: "computedBudget C now metaNow (w_api w) b0 = (st, b)"
    and rk: "reconcilePrometheusRule K b (w_kube w) = (r, k)"
    and R: "Reconcile C K now metaNow rns rname w = (let w2 = w\<lparr>w_gauges := budgetGauges b (w_gauges w), w_kube := k\<rparr> in
      if r = RulePanic then (Panicked, w2)
      else (case bc_updateStatus K b k of Inl err \<Rightarrow> (Failed err, w2)
       | Inr k' \<Rightarrow> (Done \<lparr>RequeueAfter = nsMinute\<rparr>, w2\<lparr>w_kube := k', w_api := map_option (updateAPIStore b st) (w_api w)\<rparr>)))"
  have s: "currentSpend (w_api w) b0 = spend" by (cases "w_api w") (simp_all add: currentSpend_def spendOf_find assms(3,7))
  have v: "budgetUtilization spend (tbs_MonthlyLimitUSD (tb_Spec b0)) = u" by (simp add: budgetUtilization_def assms(5,8))
  note f = computed_status [OF cb, unfolded s v]
  have l: "st = level" unfolding f(5) f(4) by (simp add: budgetLevel_def crossed_def severityCritical_def assms(6,9))
  have g: "gauge_get (budgetGauges b x) n [ns, name] = budgetGauge (budgetGauges b x) n b" for x n
    by (simp add: budgetGauge_def f(1,2) assms(3,4))
  have p: "r = RulePanic \<longleftrightarrow> (\<exists>t \<in> thresholds. at_Severity t = [])"
    using rule_panic [of K b "w_kube w"] by (simp add: rk f(1) assms(6))
  have row: "budgetRow b st = \<lparr>gd_Name = name, gd_Namespace = ns, gd_MonthlyLimitUSD = limit,
      gd_CurrentSpendUSD = spend, gd_UtilizationPercent = u, gd_Status = level\<rparr>" "rowOf b = is_row"
    by (simp_all add: budgetRow_def rowOf_def fun_eq_iff f(1-4) l assms(3-5,10))
  have w': "w_gauges w' = budgetGauges b (w_gauges w)" "res = Panicked \<longleftrightarrow> r = RulePanic"
    and out: "case res of
         Done r \<Rightarrow> RequeueAfter r = nsMinute \<and> w_api w' = map_option (updateAPIStore b st) (w_api w)
           \<and> (\<exists>k. bc_updateStatus K b k = Inr (w_kube w'))
       | Failed e \<Rightarrow> w_api w' = w_api w \<and> bc_updateStatus K b (w_kube w') = Inl e
       | Panicked \<Rightarrow> w_api w' = w_api w"
    using assms(2) unfolding R Let_def by (auto split: if_splits sum.splits)
  note G = g [of "w_gauges w", unfolded budgetGauges_get f(1,3,4) assms(5) [symmetric]]
  have gs: "gauge_get (w_gauges w') BudgetLimitUSD [ns, name] = Some limit"
    "gauge_get (w_gauges w') BudgetCurrentSpendUSD [ns, name] = Some spend"
    "gauge_get (w_gauges w') BudgetUtilizationPercent [ns, name] = Some u"
    unfolding w' g budgetGauges_get by (simp_all add: f assms(5))
  note up = update_row(1) [of _ b st, unfolded row] update_row(2-6) [of b st]
  have P: "res = Panicked \<longleftrightarrow> (\<exists>t \<in> thresholds. at_Severity t = [])" by (simp only: w'(2) p)
  show ?thesis
  proof (intro conjI gs P exI [of _ b] f(1-4,6-8))
    show "case res of
         Done r \<Rightarrow> RequeueAfter r = nsMinute \<and> (\<exists>k. bc_updateStatus K b k = Inr (w_kube w'))
           \<and> rel_option (\<lambda>s s'. (\<exists>pre mid post. GetBudgets s = pre @ mid @ post
                 \<and> GetBudgets s' = pre @ [\<lparr>gd_Name = name, gd_Namespace = ns, gd_MonthlyLimitUSD = limit,
                     gd_CurrentSpendUSD = spend, gd_UtilizationPercent = u, gd_Status = level\<rparr>] @ post
                 \<and> (\<forall>r \<in> set pre. \<not> is_row r) \<and> (mid = [] \<and> post = [] \<or> (\<exists>r. mid = [r] \<and> is_row r)))
               \<and> GetCostData s' = GetCostData s \<and> GetModels s' = GetModels s \<and> GetComparisons s' = GetComparisons s
               \<and> GetBreakEven s' = GetBreakEven s \<and> GetNamespaceCosts s' = GetNamespaceCosts s) (w_api w) (w_api w')
       | Failed e \<Rightarrow> w_api w' = w_api w \<and> bc_updateStatus K b (w_kube w') = Inl e
       | Panicked \<Rightarrow> w_api w' = w_api w"
      using out up by (cases res; cases "w_api w") simp_all
  qed
qed

definition demo_client :: "unit budget_client" where
  "demo_client = \<lparr>bc_getBudget = \<lambda>_ _ _. Inr demo_budget, bc_updateStatus = \<lambda>_ k. Inr k, bc_setOwner = \<lambda>_ r. Inr r,
     bc_getRule = \<lambda>_ _ _. Inl (NoMatch ''no CRD''), bc_createRule = \<lambda>_ k. Inr k, bc_updateRule = \<lambda>_ k. Inr k\<rparr>"

text \<open>A cluster of one budget, which takes every status write, and a store with the cost of its namespace.\<close>

definition one_budget :: "TokenBudget budget_client" where
  "one_budget = \<lparr>bc_getBudget = \<lambda>k _ _. Inr k, bc_updateStatus = \<lambda>b _. Inr b, bc_setOwner = \<lambda>_ r. Inr r,
     bc_getRule = \<lambda>_ _ _. Inl (NoMatch ''no CRD''), bc_createRule = \<lambda>_ k. Inr k, bc_updateRule = \<lambda>_ k. Inr k\<rparr>"

definition demo_spent :: Store where
  "demo_spent = SetNamespaceCosts [\<lparr>nc_Namespace = ''ml'', nc_EstimatedCostUSD = lit 85, nc_TokenCount = 1000, nc_Models = [''llama'']\<rparr>] NewStore"

theorem budget_reconcile_consistent_witness:
  "case Reconcile std_conditions one_budget 0 0 ''finops'' ''team-a'' ((demo_world demo_budget :: (TokenBudget, memdb) world)\<lparr>w_api := Some demo_spent\<rparr>) of
    (res, w') \<Rightarrow> res = Done \<lparr>RequeueAfter = nsMinute\<rparr>
      \<and> gauge_get (w_gauges w') BudgetUtilizationPercent [''ml'', ''team-a''] = Some (lit 85)
      \<and> tbt_CurrentSpendUSD (tb_Status (w_kube w')) = lit 85 \<and> tbt_UtilizationPercent (tb_Status (w_kube w')) = lit 85
      \<and> map_option GetBudgets (w_api w') = Some [\<lparr>gd_Name = ''team-a'', gd_Namespace = ''ml'', gd_MonthlyLimitUSD = lit 100,
          gd_CurrentSpendUSD = lit 85, gd_UtilizationPercent = lit 85, gd_Status = ''warning''\<rparr>]"
proof -
  let ?w = "(demo_world demo_budget :: (TokenBudget, memdb) world)\<lparr>w_api := Some demo_spent\<rparr>"
  obtain res w' where r: "Reconcile std_conditions one_budget 0 0 ''finops'' ''team-a'' ?w = (res, w')" by (metis surj_pair)
  have found: "bc_getBudget one_budget (w_kube ?w) ''finops'' ''team-a'' = Inr demo_budget" and upd: "bc_updateStatus one_budget b k = Inr b" for b k
    by (simp_all add: one_budget_def demo_world_def)
  have b: "''ml'' = tsc_Namespace (tbs_Scope (tb_Spec demo_budget))" "''team-a'' = om_Name (tb_Meta demo_budget)" "lit 100 = tbs_MonthlyLimitUSD (tb_Spec demo_budget)"
    by (simp_all add: demo_budget_def)
  have spent: "lit 85 = (case w_api ?w of None \<Rightarrow> 0 | Some s \<Rightarrow>
      (case List.find (\<lambda>r. nc_Namespace r = ''ml'') (GetNamespaceCosts s) of None \<Rightarrow> 0 | Some r \<Rightarrow> nc_EstimatedCostUSD r))"
    by (simp add: demo_spent_def store_defs)
  have f: "0 < lit 100" "lit 85 / lit 100 * lit 100 = lit 85" "f_of_int32 80 \<le> lit 85" "\<not> f_of_int32 100 \<le> lit 85" by code_simp+
  then have used: "lit 85 = (if 0 < lit 100 then lit 85 / lit 100 * lit 100 else 0)" by simp
  have level: "''warning'' = (if \<exists>t \<in> set (tbs_AlertThresholds (tb_Spec demo_budget)). f_of_int32 (at_Percent t) \<le> lit 85 \<and> at_Severity t = ''critical'' then ''exceeded''
      else if \<exists>t \<in> set (tbs_AlertThresholds (tb_Spec demo_budget)). f_of_int32 (at_Percent t) \<le> lit 85 then ''warning'' else ''ok'')"
    using f by (simp add: demo_budget_def)
  note T = budget_reconcile_consistent [OF found r b refl spent used level refl]
  have "GetBudgets demo_spent = []" by (simp add: demo_spent_def store_defs NewStore_def)
  moreover have "res \<noteq> Panicked" using T by (simp add: demo_budget_def)
  moreover have "res = Done \<lparr>RequeueAfter = nsMinute\<rparr>" if "res = Done x" for x using T that by (cases x) auto
  moreover have "w_api ?w = Some demo_spent" by simp
  ultimately show ?thesis using T r by (cases res; cases "w_api w'") (auto simp: upd)
qed

end
