(* ===== verification/Process.thy ===== *)
theory Process
  imports CostProfileFacts UsageReportFacts TokenBudgetCtl
begin

text \<open>
  The running process: the three controllers of \<open>cmd/main.go\<close> over the sampler, the gauges, the pricing state and the
  API store they share, and a cluster that other clients change at any time.  One reconcile is one step; each
  controller runs one reconcile at a time.
\<close>

subsection \<open>Steps\<close>

text \<open>What is fixed when the process starts.\<close>

record ('k, 'db) env =
  e_conditions :: condition_ops
  e_cost :: "'k cost_client"
  e_report :: "'k report_client"
  e_budget :: "'k budget_client"
  e_store :: "'db store_ops"
  e_power :: powerConfig
  e_embedded :: "gostring + PricingCatalog"

inductive quiet_step :: "('k, 'db) env \<Rightarrow> ('k, 'db) world \<Rightarrow> ('k, 'db) world \<Rightarrow> bool" for E where
  cost: "CostProfile_Reconcile (e_conditions E) (e_cost E) (e_store E) (e_power E) fetch (e_embedded E) clk rns rname w = (res, w') \<Longrightarrow>
    quiet_step E w w'"
| budget: "Reconcile (e_conditions E) (e_budget E) now metaNow rns rname w = (res, w') \<Longrightarrow> quiet_step E w w'"
| cluster: "quiet_step E w (w\<lparr>w_kube := k\<rparr>)"

inductive process_step :: "('k, 'db) env \<Rightarrow> ('k, 'db) world \<Rightarrow> ('k, 'db) world \<Rightarrow> bool" for E where
  quiet: "quiet_step E w w' \<Longrightarrow> process_step E w w'"
| report: "fair_visits V \<Longrightarrow>
    UsageReport_Reconcile (e_conditions E) (e_report E) fetch (e_embedded E) V now metaNow rns rname w = (res, w') \<Longrightarrow> process_step E w w'"

text \<open>A start: an empty API store or none, no snapshots, no gauge set; the sampler may be hydrated, the cluster is arbitrary.\<close>

inductive reachable :: "('k, 'db) env \<Rightarrow> ('k, 'db) world \<Rightarrow> bool" for E where
  start: "w_api w \<in> {None, Some NewStore} \<Longrightarrow> w_snapshots w = [] \<Longrightarrow> w_gauges w = [] \<Longrightarrow> reachable E w"
| step: "reachable E w \<Longrightarrow> process_step E w w' \<Longrightarrow> reachable E w'"

inductive_cases quiet_stepE: "quiet_step E w w'"
inductive_cases process_stepE: "process_step E w w'"

subsection \<open>Coherent data\<close>

named_theorems coherent \<open>writes that keep the API store coherent\<close>

text \<open>The figures of each kind of row agree with one another.\<close>

definition coherent_cost :: "CostData \<Rightarrow> bool" where
  "coherent_cost d = ((\<exists>m. ComputeHourlyCost \<lparr>PurchasePriceUSD = cd_PurchasePriceUSD d, AmortizationYears = cd_AmortizationYears d,
        MaintenancePercentPerYear = m, RatePerKWh = cd_RatePerKWh d, PUEFactor = cd_PUEFactor d\<rparr> (cd_PowerDrawWatts d)
      = (cd_AmortizationPerHr d, cd_ElectricityPerHr d, cd_HourlyCostUSD d))
    \<and> cd_MonthlyProjected d = cd_HourlyCostUSD d * lit 24 * lit 30 \<and> cd_YearlyProjected d = cd_HourlyCostUSD d * lit 8760)"

definition coherent_comparisons :: "ComparisonData list \<Rightarrow> bool" where
  "coherent_comparisons rows = (\<exists>onPrem. \<forall>r \<in> set rows. xd_OnPremCostUSD r = onPrem
     \<and> xd_SavingsUSD r = xd_CloudCostUSD r - onPrem
     \<and> xd_SavingsPercent r = (if 0 < xd_CloudCostUSD r then xd_SavingsUSD r / xd_CloudCostUSD r * lit 100 else 0))"

definition coherent_namespaces :: "NamespaceCostData list \<Rightarrow> bool" where
  "coherent_namespaces rows = (distinct (map nc_Namespace rows) \<and> (\<forall>r \<in> set rows. distinct (nc_Models r)))"

definition coherent_budgets :: "BudgetData list \<Rightarrow> bool" where
  "coherent_budgets rows = (\<forall>r \<in> set rows. gd_UtilizationPercent r = budgetUtilization (gd_CurrentSpendUSD r) (gd_MonthlyLimitUSD r)
     \<and> gd_Status r \<in> {''ok'', ''warning'', ''exceeded''})"

definition coherent_breakEven :: "BreakEvenData list \<Rightarrow> bool" where
  "coherent_breakEven rows = (\<exists>n. \<forall>r \<in> set rows. bd_CurrentUtilizationTokensPerDay r = n
     \<and> bd_Verdict r \<in> {''on-prem-cheaper-at-current-utilization'', ''cloud-cheaper-at-current-utilization''})"

definition coherent_store :: "Store \<Rightarrow> bool" where
  "coherent_store s = ((\<forall>d. GetCostData s = Some d \<longrightarrow> coherent_cost d) \<and> coherent_comparisons (GetComparisons s)
     \<and> coherent_namespaces (GetNamespaceCosts s) \<and> coherent_budgets (GetBudgets s) \<and> coherent_breakEven (GetBreakEven s))"

definition coherent_world :: "('k, 'db) world \<Rightarrow> bool" where
  "coherent_world w = (gm_wf (w_snapshots w) \<and> pred_option coherent_store (w_api w))"

lemma coherent_writes [coherent]:
  "coherent_store s \<Longrightarrow> coherent_cost d \<Longrightarrow> coherent_store (SetCostData d s)"
  "coherent_store s \<Longrightarrow> coherent_comparisons rows \<Longrightarrow> coherent_store (SetComparisons rows s)"
  "coherent_store s \<Longrightarrow> coherent_namespaces ns \<Longrightarrow> coherent_store (SetNamespaceCosts ns s)"
  "coherent_store s \<Longrightarrow> coherent_budgets bs \<Longrightarrow> coherent_store (SetBudgets bs s)"
  "coherent_store s \<Longrightarrow> coherent_breakEven es \<Longrightarrow> coherent_store (SetBreakEven es s)"
  "coherent_store s \<Longrightarrow> coherent_store (SetModels ms s)"
  by (simp_all add: coherent_store_def store_defs)

lemma coherent_empty: "coherent_store NewStore"
  by (simp add: coherent_store_def store_defs NewStore_def coherent_comparisons_def coherent_namespaces_def coherent_budgets_def coherent_breakEven_def)

subsection \<open>The controllers write coherent data\<close>

lemma coherent_costData [coherent]:
  "coherent_cost (costData profile (ComputeHourlyCost (hardwareOf profile) pw) pw up upd)"
proof -
  obtain a e t where "ComputeHourlyCost (hardwareOf profile) pw = (a, e, t)" by (metis surj_pair)
  then show ?thesis unfolding coherent_cost_def
    by (intro conjI exI [of _ "hs_MaintenancePercentPerYear (cps_Hardware (prof_Spec profile))"])
      (simp_all add: costData_def hardwareOf_def Let_def)
qed

lemma coherent_buildRows: "coherent_comparisons (buildRows rates i (CompareToCloud input output onPrem ps))"
proof -
  have "\<forall>r \<in> set (buildRows rates i (CompareToCloud input output onPrem ps)). xd_OnPremCostUSD r = onPrem
     \<and> xd_SavingsUSD r = xd_CloudCostUSD r - onPrem
     \<and> xd_SavingsPercent r = (if 0 < xd_CloudCostUSD r then xd_SavingsUSD r / xd_CloudCostUSD r * lit 100 else 0)"
    by (induction ps arbitrary: i) (auto simp: compareOne_def Let_def)
  then show ?thesis unfolding coherent_comparisons_def by blast
qed

lemma coherent_BuildComparisons: "BuildComparisons embedded st i u x = Inr rows \<Longrightarrow> coherent_comparisons rows"
  by (auto simp: BuildComparisons_def coherent_buildRows split: sum.splits)

lemma podLoop_wf: "gm_wf (sc_snapshots s) \<Longrightarrow> gm_wf (sc_snapshots (podLoop fetch profile h clk i pods s))"
  by (induction pods arbitrary: i s)
    (simp_all add: podStep_def updateRates_def recordTokens_def Let_def split: sum.split option.split)

lemma compareCloud_coherent:
  assumes "compareCloud embedded now profile h input output w = (ok, w')" and "coherent_world w"
  shows "coherent_world w'"
proof -
  have "coherent_store (SetComparisons rows s)" if "BuildComparisons embedded st i u x = Inr rows" "coherent_store s" for rows s st i u x
    using that by (auto intro: coherent_writes dest: coherent_BuildComparisons)
  then show ?thesis using assms unfolding compareCloud_def Let_def
    by (auto simp: coherent_world_def split: if_splits prod.splits sum.splits option.splits)
qed

lemma scrape_coherent:
  assumes "scrapeInferencePods listPods fetch embedded clk now profile h w = (r, w')" and "coherent_world w"
  shows "coherent_world w'"
proof (cases "listPods (w_kube w)")
  case (Inl err)
  then show ?thesis using assms by (simp add: scrapeInferencePods_def)
next
  case (Inr pods)
  define s where "s = podLoop fetch profile h clk 0 pods
    \<lparr>sc_gauges = w_gauges w, sc_snapshots = w_snapshots w, sc_input = 0, sc_output = 0, sc_models = []\<rparr>"
  obtain ok w1 where c: "compareCloud embedded now profile h (sc_input s) (sc_output s)
      (w\<lparr>w_gauges := sc_gauges s, w_snapshots := sc_snapshots s\<rparr>) = (ok, w1)" by (metis surj_pair)
  have "coherent_world (w\<lparr>w_gauges := sc_gauges s, w_snapshots := sc_snapshots s\<rparr>)"
    using assms(2) by (simp add: coherent_world_def s_def podLoop_wf)
  then have w1: "coherent_world w1" by (rule compareCloud_coherent [OF c])
  have "w' = (if ok then w1\<lparr>w_api := map_option (SetModels (sc_models s)) (w_api w1)\<rparr> else w1)"
    using assms(1) unfolding scrapeInferencePods_def Inr sum.case Let_def s_def [symmetric] c by simp
  then show ?thesis using w1 by (cases "w_api w1") (auto simp: coherent_world_def intro: coherent)
qed

lemma cost_coherent:
  assumes "CostProfile_Reconcile C K St cfg fetch embedded clk rns rname w = (res, w')" and "coherent_world w"
  shows "coherent_world w'"
proof (cases "kc_getProfile K (w_kube w) rns rname")
  case (Inl err)
  then show ?thesis using assms by (auto simp: CostProfile_Reconcile_def split: kerror.splits)
next
  case (Inr profile)
  obtain pw c g where p: "readPower fetch cfg profile (w_gauges w) = (pw, c, g)" by (metis surj_pair)
  show ?thesis
  proof (rule cost_Reconcile_found [OF Inr p, where C = C and St = St and embedded = embedded and clk = clk])
    let ?cost = "ComputeHourlyCost (hardwareOf profile) pw"
    fix ok e w3
    assume s: "scrapeInferencePods (kc_listPods K) fetch embedded (k_pods clk) (k_compare clk) profile (snd (snd ?cost))
        (w\<lparr>w_sampler := map_option (recordPower St (k_sample clk) profile pw) (w_sampler w), w_gauges := costGauges profile ?cost g\<rparr>) = ((ok, e), w3)"
      and R: "CostProfile_Reconcile C K St cfg fetch embedded clk rns rname w = (if \<not> ok then (Panicked, w3)
        else (case kc_updateStatus K (writtenProfile C profile pw c (k_status clk)) (w_kube w3) of
          Inl err \<Rightarrow> (Failed err, w3)
        | Inr k \<Rightarrow> (Done \<lparr>RequeueAfter = reconcileInterval\<rparr>, w3\<lparr>w_kube := k,
            w_api := map_option (SetCostData (costData profile ?cost pw (k_uptime clk) (k_updated clk))) (w_api w3)\<rparr>)))"
    have "coherent_world w3" by (rule scrape_coherent [OF s]) (use assms(2) in \<open>simp add: coherent_world_def\<close>)
    moreover have "coherent_store (SetCostData (costData profile ?cost pw u v) s)" if "coherent_store s" for s u v
      using that by (intro coherent)
    ultimately show ?thesis using assms(1) unfolding R
      by (cases "w_api w3") (auto simp: coherent_world_def split: if_splits sum.splits)
  qed
qed

lemma coherent_updateAPIStore:
  assumes "computedBudget C now metaNow api b0 = (st, b)" and "coherent_store s"
  shows "coherent_store (updateAPIStore b st s)"
proof (rule update_form [of s b st])
  fix pre mid post
  assume a: "GetBudgets s = pre @ mid @ post" "updateAPIStore b st s = SetBudgets (pre @ budgetRow b st # post) s"
  note f = computed_status [OF assms(1)]
  have "coherent_budgets [budgetRow b st]"
    by (simp add: coherent_budgets_def budgetRow_def f(1,3,4,5) budgetLevel_def)
  moreover have "coherent_budgets (pre @ mid @ post)" using assms(2) a(1) by (simp add: coherent_store_def)
  ultimately have "coherent_budgets (pre @ budgetRow b st # post)" by (auto simp: coherent_budgets_def)
  then show ?thesis unfolding a(2) using assms(2) by (rule coherent_writes(4) [rotated])
qed

lemma budget_api:
  assumes "Reconcile C K now metaNow rns rname w = (res, w')"
  shows "w_snapshots w' = w_snapshots w \<and> (w_api w' = w_api w \<or>
    (\<exists>b0 st b. computedBudget C now metaNow (w_api w) b0 = (st, b) \<and> w_api w' = map_option (updateAPIStore b st) (w_api w)))"
proof (cases "bc_getBudget K (w_kube w) rns rname")
  case (Inl err)
  then show ?thesis using assms by (auto simp: Reconcile_def split: kerror.splits)
next
  case (Inr b0)
  obtain st b where cb: "computedBudget C now metaNow (w_api w) b0 = (st, b)" by (metis surj_pair)
  have "w_snapshots w' = w_snapshots w \<and> (w_api w' = w_api w \<or> w_api w' = map_option (updateAPIStore b st) (w_api w))"
    using assms unfolding Reconcile_def Inr sum.case cb Let_def prod.case
    by (auto split: prod.splits if_splits sum.splits)
  then show ?thesis using cb by blast
qed

lemma budget_coherent:
  assumes "Reconcile C K now metaNow rns rname w = (res, w')" and "coherent_world w"
  shows "coherent_world w'"
  using budget_api [OF assms(1)] assms(2) coherent_updateAPIStore
  by (auto simp: coherent_world_def option.pred_map pred_option_def) 

lemma distinct_modelsOf: "gm_wf m \<Longrightarrow> distinct (modelsOf ns m)"
proof (induction ns m rule: modelsOf.induct)
  case (2 ns mk t rest)
  have "mk_model mk \<notin> set (modelsOf ns rest)" if "mk_namespace mk = ns" "mk \<notin> fst ` set rest" for rest :: modelTokens
    using that by (induction rest) (auto split: if_splits)
  then show ?case using 2 by (auto simp: gm_wf_def)
qed simp

lemma coherent_rows:
  assumes "fair_visits V" and "gm_wf modelT" and "gm_wf nsT"
    and "computeReport V rates sampler report profile now modelT nsT = (c, d)"
  shows "coherent_namespaces d" and "coherent_breakEven (breakEvenToAPI (k_breakEvenAnalysis c))"
proof -
  obtain a b h where P: "periodBounds (urs_Schedule (ur_Spec report)) now = (a, b, h)" by (metis surj_pair)
  obtain bm bn nd i u where B: "buildBreakdowns V modelT nsT (cpt_HourlyCostUSD (prof_Status profile) * h) = (bm, bn, nd, i, u)" by (metis surj_pair)
  have c: "d = nd" "k_breakEvenAnalysis c = fst (computeBreakEven rates profile i u h)"
    using assms(4) by (auto simp: computeReport_def P B Let_def)
  obtain x y where nd: "nd = map (namespaceData x y (\<lambda>ns. modelsOf ns (v_inner V ns modelT))) (v_ns V nsT)"
    using B unfolding buildBreakdowns_def fair_sum [OF assms(1)] Let_def by auto
  have wf: "gm_wf (v_ns V nsT)" "gm_wf (v_inner V ns modelT)" for ns
    using assms(1-3) visit_wf by (auto simp: fair_visits_def)
  have "map nc_Namespace nd = map fst (v_ns V nsT)" "\<forall>r \<in> set nd. \<exists>ns. nc_Models r = modelsOf ns (v_inner V ns modelT)"
    unfolding nd by (auto simp: namespaceData_def Let_def)
  then show "coherent_namespaces d"
    using wf distinct_modelsOf unfolding c(1) coherent_namespaces_def gm_wf_def by metis
  show "coherent_breakEven (breakEvenToAPI (k_breakEvenAnalysis c))"
    unfolding coherent_breakEven_def c(2) computeBreakEven_def breakEvenLoop_form breakEvenToAPI_def
    by (intro exI [of _ "int64_of_f (math_Round (tokensPerDay i u h))"]) (auto simp: breakEvenEntry_def Let_def)
qed

lemma scrapeTokens_wf: "scrapeTokens K fetch k report = Inr (modelT, nsT) \<Longrightarrow> gm_wf modelT \<and> gm_wf nsT"
  by (auto simp: scrapeTokens_def split: sum.splits dest!: scrapeLoop_inv)

text \<open>A report reconcile writes the store only as a whole published report.\<close>

lemma report_api:
  assumes "UsageReport_Reconcile C K fetch embedded V now metaNow rns rname w = (res, w')"
  shows "w_snapshots w' = w_snapshots w \<and> (w_api w' = w_api w \<or>
    (\<exists>report profile modelT nsT rates c d. scrapeTokens K fetch (w_kube w) report = Inr (modelT, nsT)
      \<and> computeReport V rates (w_sampler w) report profile now modelT nsT = (c, d)
      \<and> w_api w' = map_option (publishReport c d) (w_api w)))"
proof (cases "rc_getReport K (w_kube w) rns rname")
  case (Inl err)
  then show ?thesis using assms by (auto simp: UsageReport_Reconcile_def split: kerror.splits)
next
  case report: (Inr report)
  show ?thesis
  proof (cases "rc_getProfile K (w_kube w) rns (urs_CostProfileRef (ur_Spec report))")
    case (Inl err)
    then show ?thesis using assms report by (auto simp: UsageReport_Reconcile_def Let_def split: prod.splits)
  next
    case profile: (Inr profile)
    show ?thesis
    proof (cases "scrapeTokens K fetch (w_kube w) report")
      case (Inl err)
      then show ?thesis using assms report profile by (auto simp: UsageReport_Reconcile_def)
    next
      case (Inr mt)
      obtain modelT nsT where mt: "mt = (modelT, nsT)" by (cases mt)
      obtain pricing pst where P: "DefaultCloudPricing embedded (w_pricing w) = (pricing, pst)" by (metis surj_pair)
      show ?thesis
      proof (cases pricing)
        case Inl': (Inl e)
        then show ?thesis using assms report profile Inr mt P by (auto simp: UsageReport_Reconcile_def)
      next
        case rates: (Inr rates)
        obtain c d where cd: "computeReport V rates (w_sampler w) report profile now modelT nsT = (c, d)" by (metis surj_pair)
        have "w_snapshots w' = w_snapshots w \<and> (w_api w' = w_api w \<or> w_api w' = map_option (publishReport c d) (w_api w))"
          using assms unfolding UsageReport_Reconcile_def report profile Inr mt P rates cd sum.case prod.case Let_def
          by (auto split: prod.splits option.splits sum.splits)
        then show ?thesis using Inr mt cd by blast
      qed
    qed
  qed
qed

lemma report_coherent:
  assumes "UsageReport_Reconcile C K fetch embedded V now metaNow rns rname w = (res, w')" and "fair_visits V" and "coherent_world w"
  shows "coherent_world w'"
proof -
  have "coherent_store (publishReport c d s)"
    if "scrapeTokens K fetch (w_kube w) report = Inr (modelT, nsT)" "computeReport V rates (w_sampler w) report profile now modelT nsT = (c, d)"
      "coherent_store s" for report profile modelT nsT rates c d s
    using coherent_rows [OF assms(2) _ _ that(2)] scrapeTokens_wf [OF that(1)] that(3)
    unfolding publishReport_def by (intro coherent) blast+
  then show ?thesis using report_api [OF assms(1)] assms(3)
    by (cases "w_api w") (auto simp: coherent_world_def)
qed

lemma step_coherent: "process_step E w w' \<Longrightarrow> coherent_world w \<Longrightarrow> coherent_world w'"
  by (auto elim!: process_stepE quiet_stepE dest: cost_coherent budget_coherent report_coherent)
    (simp add: coherent_world_def)

lemma reachable_coherent: "reachable E w \<Longrightarrow> coherent_world w"
proof (induction rule: reachable.induct)
  case (start w)
  then show ?case using coherent_empty by (auto simp: coherent_world_def)
next
  case (step w w')
  then show ?case using step_coherent by blast
qed

text \<open>What the API may answer.\<close>

definition coherent_body :: "body \<Rightarrow> bool" where
  "coherent_body b = (case b of
      BCost d \<Rightarrow> coherent_cost d
    | BBreakEven rows n \<Rightarrow> coherent_breakEven rows \<and> n = length rows \<and> rows \<noteq> []
    | BNamespaceCosts rows n \<Rightarrow> coherent_namespaces rows \<and> n = length rows
    | BModels rows n \<Rightarrow> n = length rows
    | BCompare r \<Rightarrow> coherent_comparisons (cr_comparisons r) \<and> (cr_onPremCostUSD r = None \<longleftrightarrow> cr_uptimeHours r = None)
    | BBudgets rows n \<Rightarrow> coherent_budgets rows \<and> n = length rows
    | BStatus cost models rows \<Rightarrow> pred_option coherent_cost cost \<and> coherent_comparisons rows
    | _ \<Rightarrow> True)"

lemma filter_coherent: "coherent_namespaces rows \<Longrightarrow> coherent_namespaces (filterNamespace ns rows)"
  by (auto simp: coherent_namespaces_def filterNamespace_filter intro: distinct_map_filter)

lemmas handler_defs = handleCostsCurrent_def handleBreakEven_def handleCostsByNamespace_def handleModels_def handleCompare_def
  handleBudgets_def handleStatus_def handleHealthz_def

text \<open>C1 In every state the process can reach, whatever the order of the reconciles, their failures and panics, and whatever the cluster, the exporters and
  the clock do, every answer of the REST API is coherent: an hourly cost is what \<open>ComputeHourlyCost\<close> gives for the
  power, price and tariff shown with it, and the projections follow from it; savings follow from the two costs compared;
  a budget's utilization follows from its spend and limit and its status is one of the three; no namespace appears twice,
  and break-even rows are about one volume; and the handlers answer 200, or 503 before the first data.\<close>

theorem served_data_coherent:
  assumes "reachable E w" and "w_api w = Some s" and "route meth path nsFilter s = Some (code, b)"
  shows "coherent_body b \<and> (code = 200 \<or> code = 503 \<and> (GetCostData s = None \<or> GetBreakEven s = []))"
proof -
  have c: "coherent_store s" using reachable_coherent [OF assms(1)] assms(2) by (simp add: coherent_world_def)
  then show ?thesis using assms(3) filter_coherent
    by (auto simp: route_def handler_defs Let_def coherent_store_def coherent_body_def pred_option_def split: if_splits option.splits)
qed

definition demo_env :: "(unit, memdb) env" where
  "demo_env = \<lparr>e_conditions = std_conditions, e_cost = demo_cost_client, e_report = demo_report_client, e_budget = demo_client,
     e_store = bolt_store mem_bbolt, e_power = demo_config, e_embedded = Inr emptyCatalog\<rparr>"

lemma demo_reached:
  obtains w s d where "reachable demo_env w" and "w_api w = Some s" and "GetCostData s = Some d"
proof -
  let ?w = "demo_world () :: (unit, memdb) world"
  obtain res w' where r: "CostProfile_Reconcile std_conditions demo_cost_client (bolt_store mem_bbolt) demo_config demo_dcgm (Inr emptyCatalog)
      (demo_clock nsHour) ''finops'' ''gpu'' ?w = (res, w')" by (metis surj_pair)
  obtain pw c g where p: "readPower demo_dcgm demo_config demo_gpu_profile (w_gauges ?w) = (pw, c, g)" by (metis surj_pair)
  obtain a e t where h: "ComputeHourlyCost (hardwareOf demo_gpu_profile) pw = (a, e, t)" by (metis surj_pair)
  have k: "kc_getProfile demo_cost_client (w_kube ?w) ''finops'' ''gpu'' = Inr demo_gpu_profile"
    and u: "kc_updateStatus demo_cost_client q k = Inr k" for q k by (simp_all add: demo_cost_client_def)
  have n: "fst (DefaultCloudPricing (Inr emptyCatalog) (w_pricing ?w)) = Inr (Flatten emptyCatalog)"
    by (simp add: DefaultCloudPricing_def DefaultCloudPricingCatalog_def demo_world_def)
  have "process_step demo_env ?w w'"
    by (rule process_step.quiet, rule quiet_step.cost [where fetch = demo_dcgm and clk = "demo_clock nsHour" and rns = "''finops''"
        and rname = "''gpu''" and res = res]) (simp add: demo_env_def r)
  moreover have "reachable demo_env ?w" by (rule reachable.start) (simp_all add: demo_world_def)
  ultimately have R: "reachable demo_env w'" by (rule reachable.step [rotated])
  obtain s where s: "w_api w' = Some s" "GetCostData s \<noteq> None"
    using cost_reconcile_effect [OF k p h r] n u
    by (cases res) (auto simp: demo_world_def keepsSlots_def store_defs option_rel_Some1)
  then show thesis using that [OF R] by auto
qed

theorem served_data_coherent_witness:
  "\<exists>w s d. reachable demo_env w \<and> w_api w = Some s \<and> route ''GET'' ''/api/v1/costs/current'' [] s = Some (200, BCost d) \<and> coherent_cost d"
proof (rule demo_reached)
  fix w s d
  assume a: "reachable demo_env w" "w_api w = Some s" "GetCostData s = Some d"
  have "route ''GET'' ''/api/v1/costs/current'' [] s = Some (200, BCost d)" using a(3) by (simp add: route_def handleCostsCurrent_def)
  then show ?thesis using served_data_coherent [OF a(1,2), of "''GET''" "''/api/v1/costs/current''" "[]" 200 "BCost d"] a
    by (auto simp: coherent_body_def)
qed

subsection \<open>Budgets read the last report\<close>

lemma update_namespaces [simp]: "GetNamespaceCosts (updateAPIStore b st s) = GetNamespaceCosts s"
  by (simp add: updateAPIStore_def Let_def store_defs split: prod.split)

lemma quiet_namespaces:
  assumes "quiet_step E w w'"
  shows "map_option GetNamespaceCosts (w_api w') = map_option GetNamespaceCosts (w_api w)"
  using assms
proof (rule quiet_stepE)
  fix fetch clk rns rname res
  assume r: "CostProfile_Reconcile (e_conditions E) (e_cost E) (e_store E) (e_power E) fetch (e_embedded E) clk rns rname w = (res, w')"
  show ?thesis
  proof (cases "kc_getProfile (e_cost E) (w_kube w) rns rname")
    case (Inl err)
    then show ?thesis using r by (auto simp: CostProfile_Reconcile_def split: kerror.splits)
  next
    case (Inr profile)
    obtain pw c g where p: "readPower fetch (e_power E) profile (w_gauges w) = (pw, c, g)" by (metis surj_pair)
    obtain a e t where h: "ComputeHourlyCost (hardwareOf profile) pw = (a, e, t)" by (metis surj_pair)
    show ?thesis using cost_reconcile_effect [OF Inr p h r]
      by (cases "w_api w"; cases "w_api w'"; cases res) (auto simp: keepsSlots_def store_defs)
  qed
next
  fix now metaNow rns rname res
  assume "Reconcile (e_conditions E) (e_budget E) now metaNow rns rname w = (res, w')"
  from budget_api [OF this] show ?thesis
    by (cases "w_api w") auto
qed simp

lemma quiet_run_namespaces:
  "rtranclp (quiet_step E) w w' \<Longrightarrow> map_option GetNamespaceCosts (w_api w') = map_option GetNamespaceCosts (w_api w)"
  by (induction rule: rtranclp_induct) (simp_all add: quiet_namespaces)

lemma spendOf_rows:
  assumes "gm_wf m"
  shows "spendOf ns (map (namespaceData x y f) m) = (case map_of m ns of None \<Rightarrow> 0 | Some t \<Rightarrow> shareOfCost x (tc_input t + tc_output t) y)"
  using assms by (induction m) (auto simp: namespaceData_def Let_def gm_wf_def)

lemma visit_get:
  assumes "map_range visit" and "gm_wf m"
  shows "map_of (visit m) k = map_of m k"
proof -
  have "distinct (map fst (visit m))" using visit_wf [OF assms] by (simp add: gm_wf_def)
  then show ?thesis
    using assms(2) map_range.visit_set [OF assms(1), of m] unfolding gm_wf_def by (metis map_of_eq_None_iff map_of_eq_Some_iff not_Some_eq image_set list.set_map)
qed

text \<open>C4 What a budget has spent is what the last report says of its namespace.  After a successful report, and whatever cost and budget
  reconciles follow, each budget reconcile finds as spend of a namespace its share of the cost of that report's period, or nothing
  when the report saw no pod there: a monthly limit is compared with a day when the last report is a daily one, and with
  nothing when its namespaces leave out the budget's.\<close>

theorem spend_is_last_report:
  assumes "rc_getReport (e_report E) (w_kube w) rns rname = Inr report"
    and "rc_getProfile (e_report E) (w_kube w) rns (urs_CostProfileRef (ur_Spec report)) = Inr profile"
    and "scrapeTokens (e_report E) fetch (w_kube w) report = Inr (modelT, nsT)"
    and "periodBounds (urs_Schedule (ur_Spec report)) now = (start, endt, hours)"
    and "status_conditions (e_conditions E)" and "fair_visits V" and "w_api w = Some s"
    and "UsageReport_Reconcile (e_conditions E) (e_report E) fetch (e_embedded E) V now metaNow rns rname w = (Done r, wr)"
    and "fst (DefaultCloudPricing (e_embedded E) (w_pricing w)) = Inr rates"
    and "rtranclp (quiet_step E) wr wb"
  shows "currentSpend (w_api wb) b = (case map_of nsT (tsc_Namespace (tbs_Scope (tb_Spec b))) of
      None \<Rightarrow> 0
    | Some t \<Rightarrow> shareOfCost (cpt_HourlyCostUSD (prof_Status profile) * hours) (tc_input t + tc_output t)
        ((\<Sum>(k, t)\<leftarrow>modelT. tc_input t) + (\<Sum>(k, t)\<leftarrow>modelT. tc_output t)))"
proof -
  let ?cost = "cpt_HourlyCostUSD (prof_Status profile) * hours"
  let ?tokens = "(\<Sum>(k, t)\<leftarrow>modelT. tc_input t) + (\<Sum>(k, t)\<leftarrow>modelT. tc_output t)"
  obtain c d where cd: "computeReport V rates (w_sampler w) report profile now modelT nsT = (c, d)" by (metis surj_pair)
  obtain bm bn nd i u where B: "buildBreakdowns V modelT nsT ?cost = (bm, bn, nd, i, u)" by (metis surj_pair)
  have d: "d = nd" using cd by (auto simp: computeReport_def assms(4) B Let_def)
  obtain f where nd: "nd = map (namespaceData ?cost ?tokens f) (v_ns V nsT)"
    using B unfolding buildBreakdowns_def fair_sum [OF assms(6)] Let_def by auto
  obtain s1 where s1: "w_api wr = Some s1" "GetNamespaceCosts s1 = nd"
    using report_reconcile_effect [OF assms(5,1,2,8)] unfolding assms(3,9) by (auto simp: cd assms(7) d)
  then obtain s2 where s2: "w_api wb = Some s2" "GetNamespaceCosts s2 = nd"
    using quiet_run_namespaces [OF assms(10)] by auto
  have wf: "gm_wf nsT" and v: "map_range (v_ns V)" using scrapeTokens_wf [OF assms(3)] assms(6) by (simp_all add: fair_visits_def)
  show ?thesis
    using spendOf_rows [OF visit_wf [OF v wf], of _ ?cost ?tokens f]
    by (simp add: currentSpend_def s2 nd visit_get [OF v wf])
qed

lemma report_done:
  assumes "status_conditions C" and "rc_getReport K (w_kube w) rns rname = Inr report"
    and "rc_getProfile K (w_kube w) rns (urs_CostProfileRef (ur_Spec report)) = Inr profile"
    and "scrapeTokens K fetch (w_kube w) report = Inr (modelT, nsT)"
    and "fst (DefaultCloudPricing embedded (w_pricing w)) = Inr rates" and "\<And>q k. rc_updateStatus K q k = Inr k"
  shows "\<exists>r w'. UsageReport_Reconcile C K fetch embedded V now metaNow rns rname w = (Done r, w')"
proof -
  obtain pst where P: "DefaultCloudPricing embedded (w_pricing w) = (Inr rates, pst)" using assms(5) by (metis prod.collapse)
  obtain c d where cd: "computeReport V rates (w_sampler w) report profile now modelT nsT = (c, d)" by (metis surj_pair)
  have "fst (applyStatusIfChanged C K report c metaNow (w_kube w)) = Some (Inr (w_kube w))"
    using apply_result [OF assms(1), of K report c metaNow "w_kube w"] by (simp add: assms(6))
  then obtain b where "applyStatusIfChanged C K report c metaNow (w_kube w) = (Some (Inr (w_kube w)), b)" by (metis prod.collapse)
  then show ?thesis by (simp add: UsageReport_Reconcile_def assms(2,3,4) P cd)
qed

theorem spend_is_last_report_witness:
  "\<exists>r w1 cost. UsageReport_Reconcile std_conditions demo_report_client demo_scrape (Inr emptyCatalog) in_reverse nsDay nsDay ''finops'' ''daily''
      (demo_world () :: (unit, memdb) world) = (Done r, w1)
    \<and> currentSpend (w_api w1) demo_budget = shareOfCost cost 84 84"
proof (rule demo_scraped)
  let ?w = "demo_world () :: (unit, memdb) world"
  fix modelT nsT
  assume sc: "scrapeTokens demo_pods_client demo_scrape () demo_report = Inr (modelT, nsT)"
    and pods: "rc_listPods demo_pods_client () = Inr [demo_pod, demo_pod]"
    and rs: "readings demo_scrape (nsFilterOf (urs_Namespaces (ur_Spec demo_report))) [demo_pod, demo_pod] =
      [(\<lparr>mk_model = ''llama'', mk_namespace = ''ml''\<rparr>, 30, 12), (\<lparr>mk_model = ''llama'', mk_namespace = ''ml''\<rparr>, 30, 12)]"
  have l: "scrapeLoop demo_scrape (nsFilterOf (urs_Namespaces (ur_Spec demo_report))) [demo_pod, demo_pod] [] [] = (modelT, nsT)"
    using sc pods by (simp add: scrapeTokens_def)
  obtain t where t: "map_of nsT ''ml'' = Some t"
    using scrapeLoop_inv [OF l, of undefined "''ml''"] unfolding rs by (auto simp: gm_has_def)
  have tok: "tc_input t = 60" "tc_output t = 24"
    using scrapeLoop_get(3,4) [OF l, of "''ml''"] unfolding rs by (simp_all add: gm_get_def t)
  have tot: "(\<Sum>(k, t)\<leftarrow>modelT. tc_input t) = 60" "(\<Sum>(k, t)\<leftarrow>modelT. tc_output t) = 24"
    using scrapeLoop_sum [OF l, of "\<lambda>_. True"] unfolding rs by simp_all
  have g: "rc_getReport demo_report_client (w_kube ?w) ''finops'' ''daily'' = Inr demo_report"
    "rc_getProfile demo_report_client (w_kube ?w) ''finops'' (urs_CostProfileRef (ur_Spec demo_report)) = Inr demo_profile"
    and u: "rc_updateStatus demo_report_client q k = Inr k" for q k
    by (simp_all add: demo_report_client_def demo_pods_client_def)
  have s: "scrapeTokens demo_report_client demo_scrape (w_kube ?w) demo_report = Inr (modelT, nsT)"
    using sc by (simp add: scrapeTokens_def demo_report_client_def)
  have p: "fst (DefaultCloudPricing (Inr emptyCatalog) (w_pricing ?w)) = Inr (Flatten emptyCatalog)"
    by (simp add: DefaultCloudPricing_def DefaultCloudPricingCatalog_def demo_world_def)
  obtain a b h where P: "periodBounds (urs_Schedule (ur_Spec demo_report)) nsDay = (a, b, h)" by (metis surj_pair)
  obtain r w1 where R: "UsageReport_Reconcile std_conditions demo_report_client demo_scrape (Inr emptyCatalog) in_reverse nsDay nsDay ''finops'' ''daily'' ?w = (Done r, w1)"
    using report_done [OF std.status_conditions_axioms g s p u] by blast
  have "currentSpend (w_api w1) demo_budget
      = shareOfCost (cpt_HourlyCostUSD (prof_Status demo_profile) * h) 84 84"
    using spend_is_last_report [where E = demo_env and w = ?w and report = demo_report and profile = demo_profile and fetch = demo_scrape
        and modelT = modelT and nsT = nsT and now = nsDay and metaNow = nsDay and rns = "''finops''" and rname = "''daily''" and start = a and endt = b and hours = h
        and V = in_reverse and s = NewStore and r = r and wr = w1 and wb = w1 and rates = "Flatten emptyCatalog"
        and b = demo_budget]
      g s P p R fair_demo t tok tot std.status_conditions_axioms
    by (simp add: demo_env_def demo_world_def demo_budget_def)
  then show ?thesis using R by blast
qed

subsection \<open>The sampler between the controllers\<close>

lemma summarize_cong: "samples_of s key = samples_of s' key \<Longrightarrow> Summarize s key a b = Summarize s' key a b"
  by (simp add: Summarize_def)

text \<open>C3 The power one controller measures is the power the other reports.  A cost reconcile under a clock that does not run backwards, whatever its outcome, keeps the
  shared windows sorted and inside the retention and appends exactly one sample, with the power it used for the cost, the time and the idle threshold of the profile, to
  the window of the key that reports of that profile read, dropping the samples older than the retention; only when a store is attached and refuses the sample
  does it leave the sampler as it was (the failure is only logged).  The windows of all other keys are unchanged, so what reports of any other profile say is not affected, even of one with the
  same name in another namespace; and a report of this profile reads its active hours from that window.\<close>

theorem cost_feeds_reports:
  assumes "kc_getProfile K (w_kube w) rns rname = Inr profile" and "readPower fetch cfg profile (w_gauges w) = (pw, c, g)"
    and "CostProfile_Reconcile C K St cfg fetch embedded clk rns rname w = (res, w')"
    and "w_sampler w = Some s" and "window_ok t s" and "t \<le> k_sample clk" and "0 \<le> sm_retention s"
    and "CHR ''/'' \<notin> set (om_Namespace (prof_Meta profile))" and "CHR ''/'' \<notin> set (om_Namespace (prof_Meta q))"
    and "(om_Namespace (prof_Meta q), om_Name (prof_Meta q)) \<noteq> (om_Namespace (prof_Meta profile), om_Name (prof_Meta profile))"
    and "key = om_Namespace (prof_Meta profile) @ ''/'' @ om_Name (prof_Meta profile)"
    and "sample = \<lparr>sAt = k_sample clk, sPowerW = pw, sActiveW = (case es_IdleWattsThreshold (cps_Electricity (prof_Spec profile)) of Some x \<Rightarrow> x
        | None \<Rightarrow> DefaultIdleThresholdWatts (hs_TDPWatts (cps_Hardware (prof_Spec profile))) (hs_GPUCount (cps_Hardware (prof_Spec profile))))\<rparr>"
    and "refused \<longleftrightarrow> (\<exists>db e. sm_store s = Some db \<and> st_append St key sample db = Inl e)"
  shows "\<exists>s'. w_sampler w' = Some s' \<and> window_ok (k_sample clk) s'
    \<and> (if refused then s' = s
       else samples_of s' key = filter (\<lambda>x. k_sample clk - sm_retention s \<le> sAt x) (samples_of s key) @ [sample]
         \<and> (\<forall>k. k \<noteq> key \<longrightarrow> samples_of s' k = samples_of s k))
    \<and> uv_activeHours (utilizationView (w_sampler w') profile start endt hours tokens) = ActiveHours (Summarize s' key start endt)
    \<and> utilizationView (w_sampler w') q start endt hours tokens = utilizationView (w_sampler w) q start endt hours tokens"
proof -
  obtain a e tot where h: "ComputeHourlyCost (hardwareOf profile) pw = (a, e, tot)" by (metis surj_pair)
  have k: "sampleKeyFor profile = key" by (simp add: sampleKeyFor_def assms(11))
  have x: "sample = newSample (k_sample clk) pw (resolveIdleThreshold profile)" by (simp add: assms(12) newSample_def resolveIdleThreshold_def)
  obtain err s' where r: "Record St (k_sample clk) key pw (resolveIdleThreshold profile) s = (err, s')" by (metis surj_pair)
  have w': "w_sampler w' = Some s'"
    using cost_reconcile_effect [OF assms(1,2) h assms(3)] by (simp add: assms(4) recordPower_def k r)
  note f = Record_effect [OF assms(5-7) r]
  have refused: "refused \<longleftrightarrow> err \<noteq> None"
    using Record_persists [OF r] by (auto simp: assms(13) x [symmetric] persists_def isl_def split: option.splits)
  have view: "uv_activeHours (utilizationView (w_sampler w') profile start endt hours tokens) = ActiveHours (Summarize s' key start endt)"
    by (simp add: w' utilizationView_def k Let_def)
  have "sampleKeyFor q \<noteq> key" using sampleKey_inj [OF assms(9,8)] assms(10) by (simp add: k [symmetric])
  then have "samples_of s' (sampleKeyFor q) = samples_of s (sampleKeyFor q)" using f by (cases err) auto
  then have "Summarize s' (sampleKeyFor q) start endt = Summarize s (sampleKeyFor q) start endt" by (rule summarize_cong)
  then have other: "utilizationView (w_sampler w') q start endt hours tokens = utilizationView (w_sampler w) q start endt hours tokens"
    by (simp add: w' assms(4) utilizationView_def)
  show ?thesis using f w' refused view other by (intro exI [of _ s']) (simp add: x)
qed

theorem cost_feeds_reports_witness:
  "\<exists>s'. w_sampler (snd (CostProfile_Reconcile std_conditions demo_cost_client (bolt_store mem_bbolt) demo_config demo_dcgm (Inr emptyCatalog)
      (demo_clock (unixEpoch + nsHour)) ''finops'' ''gpu'' ((demo_world ())\<lparr>w_sampler := Some demo_sampler\<rparr>))) = Some s'
    \<and> samples_of s' ''finops/gpu'' = [\<lparr>sAt = unixEpoch + nsHour, sPowerW = lit 95, sActiveW = f_of_int32 150 * lit (2/10) * f_of_int32 2\<rparr>]
    \<and> samples_of s' ''ns/a'' = samples_of demo_sampler ''ns/a''"
proof -
  let ?w = "(demo_world ())\<lparr>w_sampler := Some demo_sampler\<rparr> :: (unit, memdb) world"
  let ?q = "demo_gpu_profile\<lparr>prof_Meta := (prof_Meta demo_gpu_profile)\<lparr>om_Namespace := ''ml''\<rparr>\<rparr>"
  obtain c g where p: "readPower demo_dcgm demo_config demo_gpu_profile (w_gauges ?w) = (lit 95, c, g)" using demo_power by (metis prod.collapse)
  have k: "kc_getProfile demo_cost_client (w_kube ?w) ''finops'' ''gpu'' = Inr demo_gpu_profile" by (simp add: demo_cost_client_def)
  have s: "w_sampler ?w = Some demo_sampler" "unixEpoch + nsHour \<le> k_sample (demo_clock (unixEpoch + nsHour))" "0 \<le> sm_retention demo_sampler"
    by (simp_all add: demo_clock_def demo_sampler_def NewSampler_def DefaultRetention_def nsHour_def)
  have q: "CHR ''/'' \<notin> set (om_Namespace (prof_Meta demo_gpu_profile))" "CHR ''/'' \<notin> set (om_Namespace (prof_Meta ?q))"
    "(om_Namespace (prof_Meta ?q), om_Name (prof_Meta ?q)) \<noteq> (om_Namespace (prof_Meta demo_gpu_profile), om_Name (prof_Meta demo_gpu_profile))"
    and key: "om_Namespace (prof_Meta demo_gpu_profile) @ ''/'' @ om_Name (prof_Meta demo_gpu_profile) = ''finops/gpu''"
    by (simp_all add: demo_gpu_profile_def)
  have idle: "(case es_IdleWattsThreshold (cps_Electricity (prof_Spec demo_gpu_profile)) of Some x \<Rightarrow> x
      | None \<Rightarrow> DefaultIdleThresholdWatts (hs_TDPWatts (cps_Hardware (prof_Spec demo_gpu_profile))) (hs_GPUCount (cps_Hardware (prof_Spec demo_gpu_profile))))
      = f_of_int32 150 * lit (2/10) * f_of_int32 2"
  proof -
    have "\<not> f_of_int32 2 \<le> 0" "0 <s (150 :: int32)" by code_simp+
    then show ?thesis by (simp add: demo_gpu_profile_def DefaultIdleThresholdWatts_def Let_def)
  qed
  have store: "sm_store demo_sampler = None" by (simp add: demo_sampler_def NewSampler_def)
  have ks: "k_sample (demo_clock t) = t" for t by (simp add: demo_clock_def)
  show ?thesis
    using cost_feeds_reports [OF k p surjective_pairing s(1) window_ok_demo s(2,3) q refl refl refl, where C = std_conditions and St = "bolt_store mem_bbolt"
      and embedded = "Inr emptyCatalog" and start = 0 and endt = 0 and hours = 0 and tokens = 0]
    unfolding ks key idle store by (auto simp: samples_of_demo)
qed

end
