(* ===== verification/Manager.thy ===== *)
theory Manager
  imports Process
begin

text \<open>
  \<open>cmd/main.go\<close>: how the process starts.  The flags decide the pricing catalog, the serving options of the manager,
  the sampler and the three reconcilers; every failure on the way ends the process with status 1.  What the libraries
  answer (files, YAML, the manager, bbolt, the registrations) is an argument; a start that gets through is the first
  state of \<open>Process\<close>.
\<close>

subsection \<open>Flags\<close>

record flagValues =
  fl_apiAddr :: gostring
  fl_dataDir :: gostring
  fl_sampleRetention :: duration
  fl_dcgmEndpoint :: gostring
  fl_metalEndpoint :: gostring
  fl_pricingFile :: gostring
  fl_metricsAddr :: gostring
  fl_probeAddr :: gostring
  fl_enableLeaderElection :: bool
  fl_secureMetrics :: bool
  fl_webhookCertPath :: gostring
  fl_webhookCertName :: gostring
  fl_webhookCertKey :: gostring
  fl_metricsCertPath :: gostring
  fl_metricsCertName :: gostring
  fl_metricsCertKey :: gostring
  fl_enableHTTP2 :: bool

definition defaultFlags :: flagValues where
  "defaultFlags = \<lparr>fl_apiAddr = [], fl_dataDir = [], fl_sampleRetention = 0, fl_dcgmEndpoint = [], fl_metalEndpoint = [],
     fl_pricingFile = [], fl_metricsAddr = ''0'', fl_probeAddr = '':8081'', fl_enableLeaderElection = False,
     fl_secureMetrics = True, fl_webhookCertPath = [], fl_webhookCertName = ''tls.crt'', fl_webhookCertKey = ''tls.key'',
     fl_metricsCertPath = [], fl_metricsCertName = ''tls.crt'', fl_metricsCertKey = ''tls.key'', fl_enableHTTP2 = False\<rparr>"

subsection \<open>Serving options\<close>

text \<open>The field of \<open>tls.Config\<close> the options change, and an option as the function it is.\<close>

record tlsConfig =
  NextProtos :: "gostring list"

type_synonym tlsOpt = "tlsConfig \<Rightarrow> tlsConfig"

definition disableHTTP2 :: tlsOpt where
  "disableHTTP2 c = c\<lparr>NextProtos := [''http/1.1'']\<rparr>"

definition tlsOptions :: "flagValues \<Rightarrow> tlsOpt list" where
  "tlsOptions fl = (if \<not> fl_enableHTTP2 fl then [disableHTTP2] else [])"

record webhookOptions =
  wo_TLSOpts :: "tlsOpt list"
  wo_CertDir :: gostring
  wo_CertName :: gostring
  wo_KeyName :: gostring

definition webhookServerOptions :: "flagValues \<Rightarrow> webhookOptions" where
  "webhookServerOptions fl =
    (let opts = \<lparr>wo_TLSOpts = tlsOptions fl, wo_CertDir = [], wo_CertName = [], wo_KeyName = []\<rparr>
     in if 0 < length (fl_webhookCertPath fl)
        then opts\<lparr>wo_CertDir := fl_webhookCertPath fl, wo_CertName := fl_webhookCertName fl, wo_KeyName := fl_webhookCertKey fl\<rparr>
        else opts)"

text \<open>The filter of the metrics endpoint: none, or authentication and authorization against the API server.\<close>

datatype filterProvider = NoFilter | WithAuthenticationAndAuthorization

record metricsOptions =
  mo_BindAddress :: gostring
  mo_SecureServing :: bool
  mo_TLSOpts :: "tlsOpt list"
  mo_FilterProvider :: filterProvider
  mo_CertDir :: gostring
  mo_CertName :: gostring
  mo_KeyName :: gostring

definition metricsServerOptions :: "flagValues \<Rightarrow> metricsOptions" where
  "metricsServerOptions fl =
    (let opts = \<lparr>mo_BindAddress = fl_metricsAddr fl, mo_SecureServing = fl_secureMetrics fl, mo_TLSOpts = tlsOptions fl,
           mo_FilterProvider = NoFilter, mo_CertDir = [], mo_CertName = [], mo_KeyName = []\<rparr>;
         opts = (if fl_secureMetrics fl then opts\<lparr>mo_FilterProvider := WithAuthenticationAndAuthorization\<rparr> else opts)
     in if 0 < length (fl_metricsCertPath fl)
        then opts\<lparr>mo_CertDir := fl_metricsCertPath fl, mo_CertName := fl_metricsCertName fl, mo_KeyName := fl_metricsCertKey fl\<rparr>
        else opts)"

record managerOptions =
  mn_Metrics :: metricsOptions
  mn_WebhookServer :: webhookOptions
  mn_HealthProbeBindAddress :: gostring
  mn_LeaderElection :: bool
  mn_LeaderElectionID :: gostring

definition managerOptionsOf :: "flagValues \<Rightarrow> managerOptions" where
  "managerOptionsOf fl = \<lparr>mn_Metrics = metricsServerOptions fl, mn_WebhookServer = webhookServerOptions fl,
     mn_HealthProbeBindAddress = fl_probeAddr fl, mn_LeaderElection = fl_enableLeaderElection fl,
     mn_LeaderElectionID = ''f02aaa31.infercost.ai''\<rparr>"

subsection \<open>What the libraries answer\<close>

record ('k, 'db) libraries =
  li_readFile :: "gostring \<Rightarrow> gostring + gostring"
  li_unmarshal :: "gostring \<Rightarrow> gostring + PricingCatalog"
  li_newManager :: "managerOptions \<Rightarrow> gostring + 'k"
  li_abs :: "gostring \<Rightarrow> gostring + gostring"
  li_boltOpen :: "gostring \<Rightarrow> gostring + 'db"
  li_setupController :: "gostring \<Rightarrow> gostring option"
  li_addHealthz :: "gostring option"
  li_addReadyz :: "gostring option"

subsection \<open>Pricing and sampler\<close>

text \<open>The error of a bad file, or the pricing state the first reconcile sees.\<close>

definition installPricing :: "('k, 'db) libraries \<Rightarrow> (gostring + PricingCatalog) \<Rightarrow> flagValues \<Rightarrow> pricingState \<Rightarrow> gostring + pricingState" where
  "installPricing X embedded fl st =
    (if fl_pricingFile fl \<noteq> [] then
       (case LoadCloudPricingFile (li_readFile X) (li_unmarshal X) (fl_pricingFile fl) of
          Inl err \<Rightarrow> Inl err
        | Inr catalog \<Rightarrow> Inr (SetOverrideCloudPricing (Some catalog) st))
     else Inr (snd (DefaultCloudPricingCatalog embedded st)))"

definition OpenStore :: "(gostring \<Rightarrow> gostring + 'db) \<Rightarrow> gostring \<Rightarrow> gerror + 'db" where
  "OpenStore boltOpen path = (case boltOpen path of Inl err \<Rightarrow> Inl (''opening sample store: '' @ err) | Inr db \<Rightarrow> Inr db)"

text \<open>\<open>filepath.Join(dir, "samples.db")\<close> of a clean absolute path, which is what \<open>filepath.Abs\<close> gives.\<close>

definition samplesFile :: "gostring \<Rightarrow> gostring" where
  "samplesFile storeDir = (if storeDir = ''/'' then ''/samples.db'' else storeDir @ ''/samples.db'')"

definition newPowerSampler :: "('k, 'db) libraries \<Rightarrow> 'db store_ops \<Rightarrow> gotime \<Rightarrow> gostring \<Rightarrow> duration \<Rightarrow> gerror + 'db Sampler" where
  "newPowerSampler X St now dataDir retention =
    (if dataDir = [] then Inr NewSampler
     else (case li_abs X dataDir of Inl err \<Rightarrow> Inl (''resolving data dir: '' @ err)
       | Inr storeDir \<Rightarrow> (case OpenStore (li_boltOpen X) (samplesFile storeDir) of Inl err \<Rightarrow> Inl err
         | Inr store \<Rightarrow>
             let effectiveRetention = (if 0 < retention then retention else DefaultStoreRetention)
             in (case newSamplerWithStore St effectiveRetention (Some store) now of
                   Inl err \<Rightarrow> Inl (''hydrating sample store: '' @ err)
                 | Inr sampler \<Rightarrow> Inr sampler))))"

subsection \<open>The start\<close>

text \<open>
  Status 1 with the logged message and error, or the running process: the environment of its reconciles, its first
  state, and the address of the REST API when that is served.
\<close>

datatype ('k, 'db) started = Exit1 gostring gostring | Running "('k, 'db) env" "('k, 'db) world" "gostring option"

text \<open>The first registration that fails, in the order of the code.\<close>

definition registrationError :: "('k, 'db) libraries \<Rightarrow> (gostring \<times> gostring) option" where
  "registrationError X =
    (case li_setupController X ''CostProfile'' of Some err \<Rightarrow> Some (''Failed to create controller'', err)
     | None \<Rightarrow> (case li_setupController X ''UsageReport'' of Some err \<Rightarrow> Some (''Failed to create controller'', err)
     | None \<Rightarrow> (case li_setupController X ''TokenBudget'' of Some err \<Rightarrow> Some (''Failed to create controller'', err)
     | None \<Rightarrow> (case li_addHealthz X of Some err \<Rightarrow> Some (''Failed to set up health check'', err)
     | None \<Rightarrow> (case li_addReadyz X of Some err \<Rightarrow> Some (''Failed to set up ready check'', err)
     | None \<Rightarrow> None)))))"

definition main :: "('k, 'db) env \<Rightarrow> ('k, 'db) libraries \<Rightarrow> gotime \<Rightarrow> flagValues \<Rightarrow> ('k, 'db) started" where
  "main E X now fl =
    (case installPricing X (e_embedded E) fl \<lparr>overrideCatalog = None, defaultCatalog = None\<rparr> of
       Inl err \<Rightarrow> Exit1 ''Failed to load pricing file'' err
     | Inr st \<Rightarrow> (case li_newManager X (managerOptionsOf fl) of
         Inl err \<Rightarrow> Exit1 ''Failed to start manager'' err
       | Inr cluster \<Rightarrow> (case newPowerSampler X (e_store E) now (fl_dataDir fl) (fl_sampleRetention fl) of
           Inl err \<Rightarrow> Exit1 ''Failed to configure power sample store'' err
         | Inr sampler \<Rightarrow> (case registrationError X of
             Some (msg, err) \<Rightarrow> Exit1 msg err
           | None \<Rightarrow> Running (E\<lparr>e_power := \<lparr>DCGMEndpoint = fl_dcgmEndpoint fl, MetalEndpoint = fl_metalEndpoint fl\<rparr>\<rparr>)
               \<lparr>w_kube = cluster, w_api = Some NewStore, w_gauges = [], w_pricing = st, w_sampler = Some sampler, w_snapshots = []\<rparr>
               (if fl_apiAddr fl \<noteq> [] then Some (fl_apiAddr fl) else None)))))"

subsection \<open>Serving and closing\<close>

text \<open>The HTTP server of the REST API; its handler is \<open>route\<close>.\<close>

record httpServer =
  hs_Addr :: gostring
  hs_ReadHeaderTimeout :: duration
  hs_ReadTimeout :: duration
  hs_WriteTimeout :: duration
  hs_IdleTimeout :: duration

definition NewServer :: "gostring \<Rightarrow> httpServer" where
  "NewServer addr = \<lparr>hs_Addr = addr, hs_ReadHeaderTimeout = 10 * nsSecond, hs_ReadTimeout = 30 * nsSecond,
     hs_WriteTimeout = 30 * nsSecond, hs_IdleTimeout = 60 * nsSecond\<rparr>"

text \<open>\<open>Start\<close> ends when \<open>ListenAndServe\<close> does; the argument is its error, and the end of a shutdown is none.\<close>

datatype serveError = ErrServerClosed | ServeError gostring

definition Server_Start :: "serveError option \<Rightarrow> gostring option" where
  "Server_Start served = (case served of
     Some (ServeError err) \<Rightarrow> Some (''API server: '' @ err)
   | Some ErrServerClosed \<Rightarrow> None
   | None \<Rightarrow> None)"

text \<open>The error of a close; \<open>close\<close> is that of the database.\<close>

definition Store_Close :: "('db \<Rightarrow> gostring option) \<Rightarrow> 'db option \<Rightarrow> gostring option" where
  "Store_Close close db = (case db of None \<Rightarrow> None | Some d \<Rightarrow> close d)"

definition Sampler_Close :: "('db \<Rightarrow> gostring option) \<Rightarrow> 'db Sampler option \<Rightarrow> gostring option" where
  "Sampler_Close close s = (case s of None \<Rightarrow> None
     | Some sampler \<Rightarrow> if sm_store sampler = None then None else Store_Close close (sm_store sampler))"

text \<open>
  How the process ends once the manager's \<open>Start\<close> returns: its exit status, and what the deferred close of the sampler
  answers, \<open>None\<close> when it does not run (\<open>os.Exit\<close> runs no deferred call).
\<close>

definition main_end :: "('db \<Rightarrow> gostring option) \<Rightarrow> 'db Sampler \<Rightarrow> gostring option \<Rightarrow> int \<times> gostring option option" where
  "main_end close sampler started = (case started of
     Some err \<Rightarrow> (1, None)
   | None \<Rightarrow> (0, Some (Sampler_Close close (Some sampler))))"

subsection \<open>Lemmas\<close>

lemma hydrateKeys_frame: "hydrateKeys St c now ks db s = Inr s' \<Longrightarrow> sm_store s' = sm_store s \<and> sm_retention s' = sm_retention s"
  by (induction ks arbitrary: s) (auto split: sum.splits dest!: meta_spec)

lemma newSamplerWithStore_frame:
  "newSamplerWithStore St ret (Some db) now = Inr s \<Longrightarrow> sm_store s = Some db \<and> sm_retention s = ret"
  by (auto simp: newSamplerWithStore_def hydrate_def split: sum.splits dest: hydrateKeys_frame)

text \<open>The flag of the retention is read only when there is a data directory.\<close>

lemma newPowerSampler_effect:
  assumes "newPowerSampler X St now dir ret = Inr s"
  shows "dir = [] \<Longrightarrow> s = NewSampler"
    and "dir \<noteq> [] \<Longrightarrow> \<exists>path db. li_abs X dir = Inr path \<and> li_boltOpen X (samplesFile path) = Inr db
      \<and> newSamplerWithStore St (if 0 < ret then ret else DefaultStoreRetention) (Some db) now = Inr s"
  using assms by (auto simp: newPowerSampler_def OpenStore_def Let_def split: sum.splits if_splits)

lemma Validate_entries:
  "Validate c = None \<Longrightarrow> pc_Providers c \<noteq> [] \<and> (\<forall>e \<in> set (Flatten c). entry_ok e) \<and> distinct (map flatKey (Flatten c))"
  by (auto simp: Validate_def validateProviders_iff Flatten_def [symmetric] split: if_splits)

lemma installPricing_effect:
  assumes "installPricing X embedded fl \<lparr>overrideCatalog = None, defaultCatalog = None\<rparr> = Inr st"
  shows "fl_pricingFile fl = [] \<Longrightarrow> overrideCatalog st = None \<and> defaultCatalog st = Some embedded"
    and "fl_pricingFile fl \<noteq> [] \<Longrightarrow> \<exists>c. overrideCatalog st = Some c \<and> Validate c = None"
  using assms
  by (auto simp: installPricing_def DefaultCloudPricingCatalog_def SetOverrideCloudPricing_def LoadCloudPricingFile_def
      split: sum.splits option.splits if_splits)

text \<open>Without HTTP/2 every server negotiates HTTP/1.1 only, whatever the configuration it starts from.\<close>

lemma http2_off:
  assumes "\<not> fl_enableHTTP2 fl" and "opts = mo_TLSOpts (metricsServerOptions fl) \<or> opts = wo_TLSOpts (webhookServerOptions fl)"
  shows "NextProtos (fold (\<lambda>opt. opt) opts c) = [''http/1.1'']"
  using assms by (auto simp: metricsServerOptions_def webhookServerOptions_def tlsOptions_def disableHTTP2_def Let_def split: if_splits)

text \<open>The database is closed exactly on the way out without an error, when there is one.\<close>

lemma closed_on_success:
  assumes "main E X now fl = Running E' w api" and "w_sampler w = Some s"
  shows "main_end close s started = (case started of
      Some err \<Rightarrow> (1, None)
    | None \<Rightarrow> (0, Some (if fl_dataDir fl = [] then None else close (the (sm_store s)))))"
proof -
  have S: "newPowerSampler X (e_store E) now (fl_dataDir fl) (fl_sampleRetention fl) = Inr s"
    using assms by (auto simp: main_def split: sum.splits option.splits prod.splits)
  show ?thesis using newPowerSampler_effect [OF S] newSamplerWithStore_frame
    by (cases "fl_dataDir fl = []") (fastforce simp: main_end_def Sampler_Close_def Store_Close_def NewSampler_def NewSamplerWithRetention_def split: option.splits)+
qed

subsection \<open>Properties\<close>

text \<open>C36 A start that gets through hands \<open>Process\<close> a first state with an empty API store and no snapshots, power endpoints
  as the flags give them, and a sampler: without a data directory the in-memory window of 48 hours whatever the
  retention flag says, with one the hydrated store under the flag's retention, or 45 days.  A pricing file is in force
  only when it validated, so every entry of the override is named, not negative and not repeated; without a
  file there is no override.\<close>

theorem start_is_reachable:
  assumes "main E X now fl = Running E' w api"
  shows "reachable E' w \<and> w_api w = Some NewStore \<and> e_power E' = \<lparr>DCGMEndpoint = fl_dcgmEndpoint fl, MetalEndpoint = fl_metalEndpoint fl\<rparr>
    \<and> (api = None \<longleftrightarrow> fl_apiAddr fl = [])
    \<and> (\<exists>s. w_sampler w = Some s
        \<and> (fl_dataDir fl = [] \<longrightarrow> s = NewSampler \<and> sm_retention s = 48 * nsHour)
        \<and> (fl_dataDir fl \<noteq> [] \<longrightarrow> sm_store s \<noteq> None
            \<and> sm_retention s = (if 0 < fl_sampleRetention fl then fl_sampleRetention fl else 45 * 24 * nsHour)))
    \<and> (if fl_pricingFile fl = [] then overrideCatalog (w_pricing w) = None
       else \<exists>c. overrideCatalog (w_pricing w) = Some c \<and> pc_Providers c \<noteq> []
         \<and> (\<forall>e \<in> set (Flatten c). entry_ok e) \<and> distinct (map flatKey (Flatten c)))"
proof -
  obtain st cluster s where P: "installPricing X (e_embedded E) fl \<lparr>overrideCatalog = None, defaultCatalog = None\<rparr> = Inr st"
    and S: "newPowerSampler X (e_store E) now (fl_dataDir fl) (fl_sampleRetention fl) = Inr s"
    and E': "E' = E\<lparr>e_power := \<lparr>DCGMEndpoint = fl_dcgmEndpoint fl, MetalEndpoint = fl_metalEndpoint fl\<rparr>\<rparr>"
    and w: "w = \<lparr>w_kube = cluster, w_api = Some NewStore, w_gauges = [], w_pricing = st, w_sampler = Some s, w_snapshots = []\<rparr>"
    and api: "api = (if fl_apiAddr fl \<noteq> [] then Some (fl_apiAddr fl) else None)"
    using assms by (auto simp: main_def split: sum.splits option.splits prod.splits)
  have R: "reachable E' w" by (rule reachable.start) (simp_all add: w)
  have M: "fl_dataDir fl = [] \<longrightarrow> s = NewSampler \<and> sm_retention s = 48 * nsHour"
    using newPowerSampler_effect(1) [OF S] by (auto simp: NewSampler_def DefaultRetention_def)
  have D: "fl_dataDir fl \<noteq> [] \<longrightarrow> sm_store s \<noteq> None
      \<and> sm_retention s = (if 0 < fl_sampleRetention fl then fl_sampleRetention fl else 45 * 24 * nsHour)"
    using newPowerSampler_effect(2) [OF S] newSamplerWithStore_frame by (fastforce simp: DefaultStoreRetention_def)
  show ?thesis using R M D installPricing_effect [OF P] Validate_entries
    by (auto simp: E' w api)
qed

definition demo_libraries :: "(unit, memdb) libraries" where
  "demo_libraries = \<lparr>li_readFile = Inr, li_unmarshal = (\<lambda>d. Inr (demo_catalog [d])), li_newManager = (\<lambda>_. Inr ()),
     li_abs = (\<lambda>d. Inr (''/'' @ d)), li_boltOpen = (\<lambda>_. Inr []), li_setupController = (\<lambda>_. None),
     li_addHealthz = None, li_addReadyz = None\<rparr>"

definition demo_flags :: flagValues where
  "demo_flags = defaultFlags\<lparr>fl_dataDir := ''data'', fl_sampleRetention := nsHour, fl_apiAddr := '':8092'', fl_pricingFile := ''m''\<rparr>"

theorem start_is_reachable_witness:
  "\<exists>E w s c. main demo_env demo_libraries (unixEpoch + nsDay) demo_flags = Running E w (Some '':8092'') \<and> reachable E w
    \<and> w_sampler w = Some s \<and> sm_retention s = nsHour \<and> overrideCatalog (w_pricing w) = Some c \<and> distinct (map flatKey (Flatten c))"
proof -
  have v: "Validate (demo_catalog [''m'']) = None" by code_simp
  have h: "\<not> isl (newSamplerWithStore (bolt_store mem_bbolt) nsHour (Some []) (unixEpoch + nsDay))" by code_simp
  have p: "0 < nsHour" by (simp add: nsHour_def)
  obtain s where n: "newSamplerWithStore (bolt_store mem_bbolt) nsHour (Some []) (unixEpoch + nsDay) = Inr s"
    using h by (cases "newSamplerWithStore (bolt_store mem_bbolt) nsHour (Some []) (unixEpoch + nsDay)") auto
  obtain E w where m: "main demo_env demo_libraries (unixEpoch + nsDay) demo_flags = Running E w (Some '':8092'')"
    by (simp add: main_def installPricing_def LoadCloudPricingFile_def v newPowerSampler_def OpenStore_def n registrationError_def
        demo_env_def demo_libraries_def demo_flags_def defaultFlags_def p)
  show ?thesis using start_is_reachable [OF m] m by (auto simp: demo_flags_def defaultFlags_def nsHour_def)
qed

end
