(* ===== verification/GaugeFacts.thy ===== *)
theory GaugeFacts
  imports Process
begin

text \<open>
  No reconcile ever sets a gauge with the wrong number of label values, at which \<open>WithLabelValues\<close> would panic: every
  write of the controllers keeps the gauges well labelled, and so does every step of the process.
\<close>

named_theorems labelled \<open>writes that keep the gauges well labelled\<close>

declare well_labelled_set [labelled]

subsection \<open>CostProfile\<close>

lemma readings_labelled: "well_labelled g \<Longrightarrow> well_labelled (foldl (\<lambda>g r. gauge_set GPUPowerWatts [name, f r, h r] (v r) g) g rs)"
  by (induction rs arbitrary: g) (simp_all add: labelled)

lemma readPower_labelled: "readPower fetch cfg profile g = (pw, c, g') \<Longrightarrow> well_labelled g \<Longrightarrow> well_labelled g'"
  by (auto simp: readPower_def readMetalPower_def readDCGMPower_def dcgmLoop_eq Let_def readings_labelled labelled
      split: if_splits sum.splits)

lemma costGauges_labelled [labelled]: "well_labelled g \<Longrightarrow> well_labelled (costGauges profile cost g)"
  by (simp add: costGauges_def labelled Let_def split: prod.split)

lemma recordTokens_labelled: "well_labelled (sc_gauges s) \<Longrightarrow> well_labelled (sc_gauges (recordTokens pod im s))"
  by (simp add: recordTokens_def labelled)

lemma rateGauges_labelled [labelled]: "well_labelled g \<Longrightarrow> well_labelled (rateGauges h pod prev cur g)"
  by (simp add: rateGauges_def labelled Let_def split: prod.split)

lemma updateRates_labelled: "well_labelled (sc_gauges s) \<Longrightarrow> well_labelled (sc_gauges (updateRates h now pod im s))"
  by (simp add: updateRates_def Let_def labelled split: option.split)

lemma podLoop_labelled: "well_labelled (sc_gauges s) \<Longrightarrow> well_labelled (sc_gauges (podLoop fetch profile h clk i pods s))"
  by (induction pods arbitrary: i s)
    (simp_all add: podStep_def recordTokens_labelled updateRates_labelled split: sum.split)

lemma comparisonGauges_labelled [labelled]: "well_labelled g \<Longrightarrow> well_labelled (comparisonGauges cs g)"
  unfolding comparisonGauges_def by (induction cs arbitrary: g) (simp_all add: labelled)

lemma compareCloud_labelled:
  "compareCloud embedded now profile h i u w = (ok, w') \<Longrightarrow> well_labelled (w_gauges w) \<Longrightarrow> well_labelled (w_gauges w')"
  by (auto simp: compareCloud_def Let_def labelled split: if_splits prod.splits sum.splits option.splits)

lemma scrape_labelled:
  assumes "scrapeInferencePods listPods fetch embedded clk now profile h w = (r, w')" and "well_labelled (w_gauges w)"
  shows "well_labelled (w_gauges w')"
proof (cases "listPods (w_kube w)")
  case (Inl err)
  then show ?thesis using assms by (simp add: scrapeInferencePods_def)
next
  case (Inr pods)
  define s where "s = podLoop fetch profile h clk 0 pods
    \<lparr>sc_gauges = w_gauges w, sc_snapshots = w_snapshots w, sc_input = 0, sc_output = 0, sc_models = []\<rparr>"
  have s: "well_labelled (sc_gauges s)" unfolding s_def by (rule podLoop_labelled) (simp add: assms(2))
  obtain ok w1 where c: "compareCloud embedded now profile h (sc_input s) (sc_output s)
      (w\<lparr>w_gauges := sc_gauges s, w_snapshots := sc_snapshots s\<rparr>) = (ok, w1)" by (metis surj_pair)
  have "well_labelled (w_gauges w1)" by (rule compareCloud_labelled [OF c]) (simp add: s)
  then show ?thesis using assms(1) unfolding scrapeInferencePods_def Inr sum.case Let_def s_def [symmetric] c
    by (auto split: if_splits)
qed

lemma cost_labelled:
  assumes "CostProfile_Reconcile C K St cfg fetch embedded clk rns rname w = (res, w')" and "well_labelled (w_gauges w)"
  shows "well_labelled (w_gauges w')"
proof (cases "kc_getProfile K (w_kube w) rns rname")
  case (Inl err)
  then show ?thesis using assms by (auto simp: CostProfile_Reconcile_def split: kerror.splits)
next
  case (Inr profile)
  obtain pw c g where p: "readPower fetch cfg profile (w_gauges w) = (pw, c, g)" by (metis surj_pair)
  have g: "well_labelled g" by (rule readPower_labelled [OF p assms(2)])
  show ?thesis
  proof (rule cost_Reconcile_found [OF Inr p, where C = C and St = St and embedded = embedded and clk = clk])
    let ?cost = "ComputeHourlyCost (hardwareOf profile) pw"
    fix ok e w3
    assume s: "scrapeInferencePods (kc_listPods K) fetch embedded (k_pods clk) (k_compare clk) profile (snd (snd ?cost))
        (w\<lparr>w_sampler := map_option (recordPower St (k_sample clk) profile pw) (w_sampler w), w_gauges := costGauges profile ?cost g\<rparr>) = ((ok, e), w3)"
      and R: "CostProfile_Reconcile C K St cfg fetch embedded clk rns rname w = (if \<not> ok then (Panicked, w3)
        else (case kc_updateStatus K (writtenProfile C profile pw c (k_status clk)) (w_kube w3) of
          Inl err \<Rightarrow> (Failed err, w3)
        | Inr k \<Rightarrow> (Done \<lparr>RequeueAfter = reconcileInterval\<rparr>, w3\<lparr>w_kube := k,
            w_api := map_option (SetCostData (costData profile ?cost pw (k_uptime clk) (k_updated clk))) (w_api w3)\<rparr>)))"
    have "well_labelled (w_gauges w3)" by (rule scrape_labelled [OF s]) (simp add: g labelled)
    then show ?thesis using assms(1) unfolding R by (auto split: if_splits sum.splits)
  qed
qed

subsection \<open>UsageReport and TokenBudget\<close>

lemma breakEven_labelled [labelled]: "well_labelled g \<Longrightarrow> well_labelled (emitBreakEvenMetrics name es g)"
  unfolding emitBreakEvenMetrics_def by (induction es arbitrary: g) (simp_all add: labelled)

lemma report_labelled:
  assumes "UsageReport_Reconcile C K fetch embedded V now metaNow rns rname w = (res, w')" and "well_labelled (w_gauges w)"
  shows "well_labelled (w_gauges w')"
  using assms unfolding UsageReport_Reconcile_def Let_def
  by (auto simp: labelled split: sum.splits kerror.splits prod.splits option.splits)

lemma budgetGauges_labelled [labelled]: "well_labelled g \<Longrightarrow> well_labelled (budgetGauges b g)"
  by (simp add: budgetGauges_def labelled Let_def)

lemma budget_labelled:
  assumes "Reconcile C K now metaNow rns rname w = (res, w')" and "well_labelled (w_gauges w)"
  shows "well_labelled (w_gauges w')"
  using assms unfolding Reconcile_def Let_def
  by (auto simp: labelled split: sum.splits kerror.splits prod.splits if_splits)

subsection \<open>Properties\<close>

lemma step_labelled: "process_step E w w' \<Longrightarrow> well_labelled (w_gauges w) \<Longrightarrow> well_labelled (w_gauges w')"
  by (auto elim!: process_stepE quiet_stepE dest: cost_labelled budget_labelled report_labelled)

text \<open>C40 In every reachable state of the process each gauge that carries a value is one of the registered ones and has as
  many label values as it declares labels, so no reconcile panics in \<open>WithLabelValues\<close>.\<close>

theorem gauges_well_labelled:
  assumes "reachable E w" and "gauge_get (w_gauges w) n ls = Some v"
  shows "\<exists>vec \<in> set gaugeVecs. gv_Name vec = n \<and> length (gv_Labels vec) = length ls \<and> n \<in> set all_gauges"
proof -
  have "well_labelled (w_gauges w)" using assms(1)
    by (induction rule: reachable.induct) (auto dest: step_labelled)
  then have "gauge_arity n = Some (length ls)" using assms(2) by (simp add: well_labelled_def)
  then obtain vec where "List.find (\<lambda>v. gv_Name v = n) gaugeVecs = Some vec" and "length (gv_Labels vec) = length ls"
    by (auto simp: gauge_arity_def)
  then show ?thesis unfolding gaugeVecs_registered [symmetric] by (auto simp: find_Some_iff)
qed

theorem gauges_well_labelled_witness:
  "\<exists>w. reachable demo_env w \<and> gauge_get (w_gauges w) BudgetLimitUSD [''ml'', ''team-a''] = Some (lit 100) \<and> BudgetLimitUSD \<in> set all_gauges"
proof -
  let ?w = "demo_world () :: (unit, memdb) world"
  obtain res w' where r: "Reconcile std_conditions demo_client 0 0 ''finops'' ''team-a'' ?w = (res, w')" by (metis surj_pair)
  obtain st b where c: "computedBudget std_conditions 0 0 (w_api ?w) demo_budget = (st, b)" by (metis surj_pair)
  have g: "w_gauges w' = budgetGauges b (w_gauges ?w)"
    using r unfolding Reconcile_def by (auto simp: demo_client_def c Let_def split: prod.splits if_splits)
  have v: "gauge_get (w_gauges w') BudgetLimitUSD [''ml'', ''team-a''] = Some (lit 100)"
    unfolding g using computed_status(1,2) [OF c]
    by (simp add: budgetGauges_def demo_budget_def Let_def gauge_defs gauge_name_def)
  have "reachable demo_env ?w" by (rule reachable.start) (simp_all add: demo_world_def)
  moreover have "process_step demo_env ?w w'"
    by (rule process_step.quiet, rule quiet_step.budget [where now = 0 and metaNow = 0 and rns = "''finops''" and rname = "''team-a''" and res = res])
      (simp add: demo_env_def r)
  ultimately have R: "reachable demo_env w'" by (rule reachable.step)
  show ?thesis using gauges_well_labelled [OF R v] R v by blast
qed

end
