(* ===== verification/CliDiscovery.thy ===== *)
theory CliDiscovery
  imports CtlCommon
begin

text \<open>
  \<open>pkg/cli/client.go\<close> and \<open>pkg/cli/discovery.go\<close>: how the command line finds the models of a cluster, first from the
  labels of pods and then from the InferenceService objects that no labelled pod stands for.
\<close>

subsection \<open>Unstructured objects\<close>

text \<open>
  The content of an object the dynamic client returns is read through the accessors of \<open>unstructured\<close>: value, found
  flag and error of a path.  They are not in the repository; an object is given by their answers.
\<close>

type_synonym 'a nested = "'a \<times> bool \<times> gostring option"

datatype any = AString gostring | AMap "(gostring \<times> any) list" | AOther

record Unstructured =
  u_Name :: gostring
  u_Namespace :: gostring
  NestedString :: "gostring list \<Rightarrow> gostring nested"
  NestedFloat64 :: "gostring list \<Rightarrow> f64 nested"
  NestedSlice :: "gostring list \<Rightarrow> any list nested"

text \<open>An error of the API machinery, by the questions the code asks of it; the code of a \<open>StatusError\<close>.\<close>

record apiError =
  ae_text :: gostring
  ae_IsNotFound :: bool
  ae_IsForbidden :: bool
  ae_IsServiceUnavailable :: bool
  ae_StatusCode :: "int option"

text \<open>The fields of \<open>url.URL\<close> the code reads and writes, with the rest of it; parser and printer of \<open>net/url\<close>.\<close>

record 'u url_value =
  u_Host :: gostring
  u_Path :: gostring
  u_RawQuery :: gostring
  u_Fragment :: gostring
  u_rest :: 'u

record 'u url_ops =
  url_Parse :: "gostring \<Rightarrow> gostring + 'u url_value"
  url_String :: "'u url_value \<Rightarrow> gostring"

record EndpointPort =
  ep_Name :: gostring
  ep_Port :: int32

record EndpointSubset =
  es_Addresses :: "gostring list"
  es_Ports :: "EndpointPort list"

subsection \<open>Pods\<close>

record DiscoveredModel =
  dm_Name :: gostring
  dm_Namespace :: gostring
  dm_Source :: gostring
  dm_SourceName :: gostring
  dm_MetricsURL :: gostring
  dm_Phase :: gostring
  dm_IsScrapable :: bool

definition podProxyURL :: "gostring \<Rightarrow> gostring \<Rightarrow> gostring \<Rightarrow> int \<Rightarrow> gostring \<Rightarrow> gostring" where
  "podProxyURL host namespace podName port path = host @ ''/api/v1/namespaces/'' @ namespace @ ''/pods/'' @ podName
     @ '':'' @ show_int port @ ''/proxy/'' @ path"

definition deduplicationKey :: "gostring \<Rightarrow> gostring \<Rightarrow> gostring" where
  "deduplicationKey namespace modelName = namespace @ ''/'' @ modelName"

definition podModel :: "gostring \<Rightarrow> Pod \<Rightarrow> DiscoveredModel" where
  "podModel host pod =
    (let m = \<lparr>dm_Name = gm_get [] (pod_Labels pod) ''inference.llmkube.dev/model'', dm_Namespace = pod_Namespace pod,
           dm_Source = ''pod'', dm_SourceName = pod_Name pod, dm_MetricsURL = [], dm_Phase = pod_Phase pod, dm_IsScrapable = False\<rparr>
     in if pod_Phase pod = ''Running'' \<and> pod_IP pod \<noteq> []
        then m\<lparr>dm_MetricsURL := podProxyURL host (pod_Namespace pod) (pod_Name pod) 8080 ''metrics'', dm_IsScrapable := True\<rparr>
        else m)"

fun podModels :: "gostring \<Rightarrow> Pod list \<Rightarrow> DiscoveredModel list \<Rightarrow> (gostring, bool) gomap \<Rightarrow> DiscoveredModel list \<times> (gostring, bool) gomap" where
  "podModels host [] models known = (models, known)"
| "podModels host (pod # pods) models known =
    (let modelName = gm_get [] (pod_Labels pod) ''inference.llmkube.dev/model'' in
     if modelName = [] then podModels host pods models known
     else podModels host pods (models @ [podModel host pod]) (gm_put (deduplicationKey (pod_Namespace pod) modelName) True known))"

definition discoverModelsFromPods :: "gostring \<Rightarrow> Pod list \<Rightarrow> DiscoveredModel list \<times> (gostring, bool) gomap" where
  "discoverModelsFromPods host pods = podModels host pods [] []"

subsection \<open>InferenceServices\<close>

definition sourceInferenceService :: gostring where
  "sourceInferenceService = ''inferenceservice''"

definition metricsURLFromEndpoint :: "'u url_ops \<Rightarrow> gostring \<Rightarrow> gostring + gostring" where
  "metricsURLFromEndpoint U endpoint =
    (if endpoint = [] then Inl ''empty endpoint''
     else (case url_Parse U endpoint of Inl err \<Rightarrow> Inl (''parsing endpoint URL: '' @ err)
       | Inr u \<Rightarrow> if u_Host u = [] then Inl (''endpoint has no host: '' @ endpoint)
                  else Inr (url_String U (u\<lparr>u_Path := ''/metrics'', u_RawQuery := [], u_Fragment := []\<rparr>))))"

definition inferenceServiceToModel :: "'u url_ops \<Rightarrow> Unstructured \<Rightarrow> (gostring, bool) gomap \<Rightarrow> DiscoveredModel option" where
  "inferenceServiceToModel U obj knownModels =
    (let (modelRef, _, _) = NestedString obj [''spec'', ''modelRef''] in
     if modelRef = [] then None
     else if gm_get False knownModels (deduplicationKey (u_Namespace obj) modelRef) then None
     else let (phase, _, _) = NestedString obj [''status'', ''phase''] in
       if phase \<noteq> ''Ready'' then None
       else let (endpoint, _, _) = NestedString obj [''status'', ''endpoint''] in
         (case metricsURLFromEndpoint U endpoint of Inl err \<Rightarrow> None
          | Inr metricsURL \<Rightarrow> Some \<lparr>dm_Name = modelRef, dm_Namespace = u_Namespace obj, dm_Source = sourceInferenceService,
              dm_SourceName = ''isvc/'' @ u_Name obj, dm_MetricsURL = metricsURL, dm_Phase = phase, dm_IsScrapable = True\<rparr>))"

text \<open>The port named http in any letter case, otherwise the last port, otherwise 8080.\<close>

fun endpointPort :: "int \<Rightarrow> EndpointPort list \<Rightarrow> int" where
  "endpointPort port [] = port"
| "endpointPort port (p # ps) =
    (if ep_Name p = ''http'' \<or> to_lower (ep_Name p) = ''http'' then sint (ep_Port p) else endpointPort (sint (ep_Port p)) ps)"

fun firstAddress :: "EndpointSubset list \<Rightarrow> gostring option" where
  "firstAddress [] = None"
| "firstAddress (sub # subsets) =
    (case es_Addresses sub of [] \<Rightarrow> firstAddress subsets
     | ip # _ \<Rightarrow> Some (''http://'' @ ip @ '':'' @ show_int (endpointPort 8080 (es_Ports sub)) @ ''/metrics''))"

type_synonym endpoints_get = "gostring \<Rightarrow> gostring \<Rightarrow> gostring + EndpointSubset list"

definition resolveEndpointIP :: "endpoints_get \<Rightarrow> gostring \<Rightarrow> gostring \<Rightarrow> gostring + gostring" where
  "resolveEndpointIP getEndpoints svcName namespace = (case getEndpoints svcName namespace of Inl err \<Rightarrow> Inl err
     | Inr subsets \<Rightarrow> (case firstAddress subsets of Some url \<Rightarrow> Inr url
         | None \<Rightarrow> Inl (''no ready addresses in endpoints for '' @ namespace @ ''/'' @ svcName)))"

text \<open>The object's model, its address resolved when there is a client and a ready address; \<open>None\<close> is a nil client.\<close>

definition resolveModel :: "endpoints_get option \<Rightarrow> Unstructured \<Rightarrow> DiscoveredModel \<Rightarrow> DiscoveredModel" where
  "resolveModel client obj m = (case client of None \<Rightarrow> m
     | Some getEndpoints \<Rightarrow> (case resolveEndpointIP getEndpoints (u_Name obj) (u_Namespace obj) of Inl err \<Rightarrow> m
         | Inr resolved \<Rightarrow> if resolved \<noteq> [] then m\<lparr>dm_MetricsURL := resolved\<rparr> else m))"

fun serviceModels :: "'u url_ops \<Rightarrow> endpoints_get option \<Rightarrow> (gostring, bool) gomap \<Rightarrow> Unstructured list \<Rightarrow> DiscoveredModel list" where
  "serviceModels U client knownModels [] = []"
| "serviceModels U client knownModels (obj # items) = (case inferenceServiceToModel U obj knownModels of
     None \<Rightarrow> serviceModels U client knownModels items
   | Some m \<Rightarrow> resolveModel client obj m # serviceModels U client knownModels items)"

definition degradable :: "apiError \<Rightarrow> bool" where
  "degradable err = (ae_IsNotFound err \<or> ae_IsForbidden err \<or> ae_IsServiceUnavailable err
     \<or> ae_StatusCode err = Some 404 \<or> ae_StatusCode err = Some 403)"

definition discoverModelsFromInferenceServices :: "'u url_ops \<Rightarrow> (gostring \<Rightarrow> apiError + Unstructured list) \<Rightarrow> endpoints_get option
    \<Rightarrow> gostring \<Rightarrow> (gostring, bool) gomap \<Rightarrow> gostring + DiscoveredModel list" where
  "discoverModelsFromInferenceServices U listServices client namespace knownModels = (case listServices namespace of
      Inl err \<Rightarrow> if degradable err then Inr [] else Inl (''listing InferenceServices: '' @ ae_text err)
    | Inr items \<Rightarrow> Inr (serviceModels U client knownModels items))"

subsection \<open>Lemmas\<close>

definition labelled :: "Pod \<Rightarrow> bool" where
  "labelled pod = (gm_get [] (pod_Labels pod) ''inference.llmkube.dev/model'' \<noteq> [])"

lemma podModels_map: "fst (podModels host pods models known) = models @ map (podModel host) (filter labelled pods)"
  by (induction pods arbitrary: models known) (simp_all add: labelled_def Let_def)

lemma podModel_fields [simp]:
  "dm_Name (podModel host pod) = gm_get [] (pod_Labels pod) ''inference.llmkube.dev/model''" "dm_Namespace (podModel host pod) = pod_Namespace pod"
  by (simp_all add: podModel_def Let_def)

lemma podModels_known:
  "gm_get False (snd (podModels host pods models known)) key \<longleftrightarrow> gm_get False known key
    \<or> (\<exists>m \<in> set (map (podModel host) (filter labelled pods)). deduplicationKey (dm_Namespace m) (dm_Name m) = key)"
proof (induction pods arbitrary: models known)
  case (Cons pod pods)
  show ?case
  proof (cases "labelled pod")
    case True
    then show ?thesis by (auto simp: Cons.IH labelled_def Let_def)
  qed (simp add: Cons.IH labelled_def Let_def)
qed simp

lemma podModel_scrapable:
  "dm_IsScrapable (podModel host pod) \<longleftrightarrow> pod_Phase pod = ''Running'' \<and> pod_IP pod \<noteq> []"
  "dm_Source (podModel host pod) = ''pod''"
  by (simp_all add: podModel_def Let_def)

lemma serviceToModel_form:
  assumes "inferenceServiceToModel U obj known = Some m"
  shows "dm_Phase m = ''Ready'' \<and> dm_IsScrapable m \<and> dm_Source m = sourceInferenceService \<and> dm_Name m \<noteq> []
    \<and> \<not> gm_get False known (deduplicationKey (dm_Namespace m) (dm_Name m))"
  using assms by (auto simp: inferenceServiceToModel_def Let_def split: prod.splits if_splits sum.splits)

lemma resolveModel_fields [simp]:
  "dm_Phase (resolveModel client obj m) = dm_Phase m" "dm_IsScrapable (resolveModel client obj m) = dm_IsScrapable m"
  "dm_Source (resolveModel client obj m) = dm_Source m" "dm_Name (resolveModel client obj m) = dm_Name m"
  "dm_Namespace (resolveModel client obj m) = dm_Namespace m"
  by (simp_all add: resolveModel_def split: option.split sum.split)

lemma serviceModels_form:
  "m \<in> set (serviceModels U client known items) \<Longrightarrow> dm_Phase m = ''Ready'' \<and> dm_IsScrapable m
    \<and> dm_Source m = sourceInferenceService \<and> dm_Name m \<noteq> [] \<and> \<not> gm_get False known (deduplicationKey (dm_Namespace m) (dm_Name m))"
  by (induction items) (auto split: option.splits dest: serviceToModel_form)

text \<open>Without a port named http the address carries the last port of the subset, not the first.\<close>

lemma endpointPort_last:
  "\<forall>p \<in> set ps. to_lower (ep_Name p) \<noteq> ''http'' \<and> ep_Name p \<noteq> ''http'' \<Longrightarrow>
    endpointPort port ps = (if ps = [] then port else sint (ep_Port (last ps)))"
  by (induction ps arbitrary: port) auto

subsection \<open>Properties\<close>

text \<open>Discovery counts no workload twice across its two sources: the models of the pods are the labelled pods in the
  order of the list, scrapable exactly when running with an address, and the models of the InferenceServices are ready,
  named and scrapable and none has the namespace and name of a model found on a pod, running or not.  An
  absent or forbidden custom resource gives no model and no error.\<close>

theorem discovery_disjoint:
  assumes "discoverModelsFromPods host pods = (podMs, known)"
    and "discoverModelsFromInferenceServices U listServices client namespace known = r"
  shows "podMs = map (podModel host) (filter labelled pods)
    \<and> (\<forall>p \<in> set pods. labelled p \<longrightarrow> (dm_IsScrapable (podModel host p) \<longleftrightarrow> pod_Phase p = ''Running'' \<and> pod_IP p \<noteq> []))
    \<and> (\<forall>svcMs. r = Inr svcMs \<longrightarrow> (\<forall>m \<in> set svcMs. dm_Phase m = ''Ready'' \<and> dm_IsScrapable m \<and> dm_Name m \<noteq> []
        \<and> (\<forall>m' \<in> set podMs. deduplicationKey (dm_Namespace m') (dm_Name m') \<noteq> deduplicationKey (dm_Namespace m) (dm_Name m))))
    \<and> (\<forall>err. listServices namespace = Inl err \<and> (ae_IsNotFound err \<or> ae_IsForbidden err) \<longrightarrow> r = Inr [])"
proof -
  have P: "podMs = map (podModel host) (filter labelled pods)"
    using podModels_map [of host pods "[]" "[]"] assms(1) by (simp add: discoverModelsFromPods_def)
  have K: "gm_get False known key \<longleftrightarrow> (\<exists>m \<in> set podMs. deduplicationKey (dm_Namespace m) (dm_Name m) = key)" for key
    using podModels_known [of host pods "[]" "[]" key] assms(1) unfolding P
    by (simp add: discoverModelsFromPods_def gm_get_def)
  have S: "dm_Phase m = ''Ready'' \<and> dm_IsScrapable m \<and> dm_Name m \<noteq> []
        \<and> (\<forall>m' \<in> set podMs. deduplicationKey (dm_Namespace m') (dm_Name m') \<noteq> deduplicationKey (dm_Namespace m) (dm_Name m))"
    if "r = Inr svcMs" and "m \<in> set svcMs" for m svcMs
  proof -
    have "m \<in> set (serviceModels U client known (projr (listServices namespace)))"
      using that assms(2) by (auto simp: discoverModelsFromInferenceServices_def split: sum.splits if_splits)
    from serviceModels_form [OF this] show ?thesis unfolding K by blast
  qed
  have D: "listServices namespace = Inl err \<and> (ae_IsNotFound err \<or> ae_IsForbidden err) \<Longrightarrow> r = Inr []" for err
    using assms(2) by (auto simp: discoverModelsFromInferenceServices_def degradable_def)
  show ?thesis
    by (intro conjI P ballI impI podModel_scrapable(1)) (use S D in blast)+
qed

definition demo_url :: "unit url_ops" where
  "demo_url = \<lparr>url_Parse = (\<lambda>s. Inr \<lparr>u_Host = takeWhile (\<lambda>c. c \<noteq> CHR ''/'') (drop 7 s), u_Path = [], u_RawQuery = [],
       u_Fragment = [], u_rest = ()\<rparr>),
     url_String = (\<lambda>u. ''http://'' @ u_Host u @ u_Path u)\<rparr>"

definition demo_service :: "gostring \<Rightarrow> gostring \<Rightarrow> Unstructured" where
  "demo_service name model = \<lparr>u_Name = name, u_Namespace = ''ml'',
     NestedString = (\<lambda>path. if path = [''spec'', ''modelRef''] then (model, True, None)
       else if path = [''status'', ''phase''] then (''Ready'', True, None) else (''http://'' @ name @ ''/v1'', True, None)),
     NestedFloat64 = (\<lambda>_. (0, False, None)), NestedSlice = (\<lambda>_. ([], False, None))\<rparr>"

theorem discovery_disjoint_witness:
  "\<exists>podMs known svcMs. discoverModelsFromPods ''https://k8s'' [demo_pod] = (podMs, known)
    \<and> discoverModelsFromInferenceServices demo_url (\<lambda>_. Inr [demo_service ''a'' ''llama'', demo_service ''b'' ''qwen'']) None [] known = Inr svcMs
    \<and> map dm_MetricsURL podMs = [''https://k8s/api/v1/namespaces/ml/pods/llama-0:8080/proxy/metrics'']
    \<and> map dm_MetricsURL svcMs = [''http://b/metrics'']
    \<and> (\<forall>m \<in> set svcMs. \<forall>m' \<in> set podMs. deduplicationKey (dm_Namespace m') (dm_Name m') \<noteq> deduplicationKey (dm_Namespace m) (dm_Name m))"
proof -
  let ?list = "\<lambda>_ :: gostring. Inr [demo_service ''a'' ''llama'', demo_service ''b'' ''qwen''] :: apiError + Unstructured list"
  let ?podMs = "[podModel ''https://k8s'' demo_pod]" and ?known = "[(''ml/llama'', True)]"
  have d: "discoverModelsFromPods ''https://k8s'' [demo_pod] = (?podMs, ?known)"
    by (simp add: discoverModelsFromPods_def demo_pod_def modelLabel_def gm_get_def gm_put_def deduplicationKey_def Let_def)
  have u: "map dm_MetricsURL ?podMs = [''https://k8s/api/v1/namespaces/ml/pods/llama-0:8080/proxy/metrics'']"
    by (simp add: podModel_def demo_pod_def podProxyURL_def show_int_def udec.simps digit_def Let_def)
  have s: "discoverModelsFromInferenceServices demo_url ?list None [] ?known = Inr (serviceModels demo_url None ?known (projr (?list [])))"
    by (simp add: discoverModelsFromInferenceServices_def)
  have v: "map dm_MetricsURL (serviceModels demo_url None ?known (projr (?list []))) = [''http://b/metrics'']"
    by (simp add: demo_service_def inferenceServiceToModel_def gm_get_def deduplicationKey_def metricsURLFromEndpoint_def demo_url_def
        resolveModel_def Let_def)
  have j: "\<forall>m \<in> set (serviceModels demo_url None ?known (projr (?list []))). \<forall>m' \<in> set ?podMs.
      deduplicationKey (dm_Namespace m') (dm_Name m') \<noteq> deduplicationKey (dm_Namespace m) (dm_Name m)"
  proof (intro ballI)
    fix m m' assume m: "m \<in> set (serviceModels demo_url None ?known (projr (?list [])))" and m': "m' \<in> set ?podMs"
    note D = discovery_disjoint [OF d s, THEN conjunct2, THEN conjunct2, THEN conjunct1, THEN spec, THEN mp, OF refl, THEN bspec, OF m]
    from D show "deduplicationKey (dm_Namespace m') (dm_Name m') \<noteq> deduplicationKey (dm_Namespace m) (dm_Name m)"
      by (elim conjE) (rule bspec [OF _ m'])
  qed
  show ?thesis by (intro exI conjI) (rule d, rule s, rule u, rule v, rule j)
qed

end
