(* ===== verification/CliCommands.thy ===== *)
theory CliCommands
  imports CliDiscovery TokenBudgetCtl Report
begin

text \<open>
  \<open>pkg/cli\<close>: the commands \<open>budget\<close>, \<open>compare\<close>, \<open>status\<close>, \<open>users\<close> and \<open>version\<close> as functions from what the cluster answers
  to how the command ends and what it prints.  Cobra's parsing of the flags and the alignment of the columns by
  \<open>tabwriter\<close> are left out: a table is the lines written to it.
\<close>

subsection \<open>Output and environment\<close>

text \<open>Text for the terminal, or a line for the table in front of it; the lines of a table are flushed before the next text.\<close>

datatype chunk = Out gostring | Tab gostring

datatype cliExit = CliOk | CliErr gostring | CliPanic gostring

definition println :: "gostring \<Rightarrow> chunk" where
  "println s = Out (s @ nl)"

fun cells :: "gostring list \<Rightarrow> gostring" where
  "cells [] = nl"
| "cells [c] = c @ nl"
| "cells (c # cs) = c @ [CHR 0x09] @ cells cs"

text \<open>
  The results of the libraries: configuration and clients, the lists of the cluster, the endpoints through the API
  server's proxy and directly, and the readings of the clock in the order a command makes them.
\<close>

record 'u cliEnv =
  ce_config :: "gostring + gostring"
  ce_addToScheme :: "gostring option"
  ce_newClient :: "gostring option"
  ce_newDynamic :: "gostring option"
  ce_transport :: "gostring option"
  ce_profiles :: "gostring + CostProfile list"
  ce_pods :: "gostring \<Rightarrow> gostring + Pod list"
  ce_services :: "gostring \<Rightarrow> apiError + Unstructured list"
  ce_endpoints :: endpoints_get
  ce_budgets :: "gostring \<Rightarrow> gostring + Unstructured list"
  ce_reports :: "gostring + UsageReport list"
  ce_url :: "'u url_ops"
  ce_proxy :: fetcher
  ce_direct :: fetcher
  ce_clock :: "nat \<Rightarrow> gotime"
  ce_embedded :: "gostring + PricingCatalog"

text \<open>The host of the API server, when all clients could be built.\<close>

definition newK8sClient :: "'u cliEnv \<Rightarrow> gostring + gostring" where
  "newK8sClient env = (case ce_config env of Inl err \<Rightarrow> Inl (''failed to get kubeconfig: '' @ err)
     | Inr host \<Rightarrow> (case ce_addToScheme env of Some err \<Rightarrow> Inl (''failed to add scheme: '' @ err)
     | None \<Rightarrow> (case ce_newClient env of Some err \<Rightarrow> Inl (''failed to create client: '' @ err)
     | None \<Rightarrow> (case ce_newDynamic env of Some err \<Rightarrow> Inl (''failed to create dynamic client: '' @ err)
     | None \<Rightarrow> Inr host))))"

definition formatTokenCount :: "f64 \<Rightarrow> gostring" where
  "formatTokenCount tokens =
    (if lit 1000000000 \<le> tokens then fmt_f 1 (tokens / lit 1000000000) @ ''B''
     else if lit 1000000 \<le> tokens then fmt_f 1 (tokens / lit 1000000) @ ''M''
     else if lit 1000 \<le> tokens then fmt_f 1 (tokens / lit 1000) @ ''K''
     else fmt_f 0 tokens)"

definition formatAge :: "duration \<Rightarrow> gostring" where
  "formatAge d =
    (if 24 * nsHour \<le> d then show_int64 (int64_of_f (Hours d / lit 24)) @ ''d''
     else if nsHour \<le> d then show_int64 (int64_of_f (Hours d)) @ ''h''
     else if nsMinute \<le> d then show_int64 (int64_of_f (Minutes d)) @ ''m''
     else show_int64 (int64_of_f (Seconds d)) @ ''s'')"

subsection \<open>budget\<close>

definition budgetScopeNamespace :: "Unstructured \<Rightarrow> gostring" where
  "budgetScopeNamespace obj = (let (val, _, _) = NestedString obj [''spec'', ''scope'', ''namespace'']
     in if val = [] then u_Namespace obj else val)"

definition budgetFieldFloat64 :: "Unstructured \<Rightarrow> gostring list \<Rightarrow> f64" where
  "budgetFieldFloat64 obj path = (let (val, found, err) = NestedFloat64 obj path
     in if err \<noteq> None \<or> \<not> found then 0 else val)"

definition anyString :: "any option \<Rightarrow> gostring" where
  "anyString v = (case v of Some (AString s) \<Rightarrow> s | _ \<Rightarrow> [])"

fun conditionLoop :: "bool \<Rightarrow> any list \<Rightarrow> gostring" where
  "conditionLoop hasWarning [] = (if hasWarning then ''Warning'' else ''OK'')"
| "conditionLoop hasWarning (AMap c # cs) =
    (let condType = anyString (map_of c ''type''); condStatus = anyString (map_of c ''status'') in
     if condStatus \<noteq> ''True'' then conditionLoop hasWarning cs
     else if condType = ''BudgetExceeded'' then ''Exceeded''
     else if condType = ''BudgetWarning'' then conditionLoop True cs
     else conditionLoop hasWarning cs)"
| "conditionLoop hasWarning (_ # cs) = conditionLoop hasWarning cs"

definition cliBudgetStatus :: "Unstructured \<Rightarrow> gostring" where
  "cliBudgetStatus obj = (let (conditions, found, err) = NestedSlice obj [''status'', ''conditions'']
     in if err \<noteq> None \<or> \<not> found \<or> length conditions = 0 then ''OK'' else conditionLoop False conditions)"

definition budgetLine :: "Unstructured \<Rightarrow> chunk" where
  "budgetLine obj = Tab (cells [budgetScopeNamespace obj, u_Name obj,
     ''$'' @ fmt_f 2 (budgetFieldFloat64 obj [''spec'', ''monthlyLimitUSD'']),
     ''$'' @ fmt_f 4 (budgetFieldFloat64 obj [''status'', ''currentSpendUSD'']),
     fmt_f 1 (budgetFieldFloat64 obj [''status'', ''utilizationPercent'']) @ ''%'', cliBudgetStatus obj])"

definition runBudget :: "'u cliEnv \<Rightarrow> gostring \<Rightarrow> cliExit \<times> chunk list" where
  "runBudget env namespace = (case newK8sClient env of Inl err \<Rightarrow> (CliErr err, [])
     | Inr host \<Rightarrow> (case ce_budgets env namespace of Inl err \<Rightarrow> (CliErr (''failed to list TokenBudgets: '' @ err), [])
       | Inr items \<Rightarrow>
           if length items = 0 then (CliOk, [println ''No TokenBudgets found. Create one to start tracking spend.'',
               println ''  kubectl apply -f config/samples/finops_v1alpha1_tokenbudget.yaml''])
           else (CliOk, Tab (cells [''NAMESPACE'', ''BUDGET'', ''LIMIT ($)'', ''SPEND ($)'', ''UTILIZATION'', ''STATUS''])
               # map budgetLine items)))"

subsection \<open>Models and their counters\<close>

text \<open>Pods first, then the InferenceServices no pod stands for.\<close>

definition listModels :: "'u cliEnv \<Rightarrow> gostring \<Rightarrow> gostring \<Rightarrow> gostring + DiscoveredModel list" where
  "listModels env host namespace = (case ce_pods env namespace of Inl err \<Rightarrow> Inl (''failed to list pods: '' @ err)
     | Inr pods \<Rightarrow>
         let (podMs, knownModels) = discoverModelsFromPods host pods in
         (case discoverModelsFromInferenceServices (ce_url env) (ce_services env) (Some (ce_endpoints env)) namespace knownModels of
            Inl err \<Rightarrow> Inl (''failed to discover InferenceServices: '' @ err)
          | Inr svcMs \<Rightarrow> Inr (podMs @ svcMs)))"

definition scrapeModel :: "'u cliEnv \<Rightarrow> DiscoveredModel \<Rightarrow> gostring + InferenceMetrics" where
  "scrapeModel env m = ScrapeLlamaCPP (if dm_Source m = sourceInferenceService then ce_direct env else ce_proxy env) (dm_MetricsURL m)"

fun compareTotals :: "'u cliEnv \<Rightarrow> DiscoveredModel list \<Rightarrow> f64 \<times> f64 \<Rightarrow> f64 \<times> f64" where
  "compareTotals env [] (totalInput, totalOutput) = (totalInput, totalOutput)"
| "compareTotals env (m # ms) (totalInput, totalOutput) =
    (if \<not> dm_IsScrapable m then compareTotals env ms (totalInput, totalOutput)
     else (case scrapeModel env m of Inl err \<Rightarrow> compareTotals env ms (totalInput, totalOutput)
       | Inr im \<Rightarrow> compareTotals env ms (totalInput + PromptTokensTotal im, totalOutput + PredictedTokensTotal im)))"

subsection \<open>compare\<close>

text \<open>The list prices shown beside a comparison: those of the first entry with its provider and model.\<close>

fun ratesOf :: "CloudPricing list \<Rightarrow> CloudComparison \<Rightarrow> f64 \<times> f64" where
  "ratesOf [] c = (0, 0)"
| "ratesOf (p # pricing) c = (if cp_Provider p = cc_Provider c \<and> cp_Model p = cc_Model c
     then (cp_InputPerMillion p, cp_OutputPerMillion p) else ratesOf pricing c)"

definition savingsText :: "nat \<Rightarrow> gostring \<Rightarrow> gostring \<Rightarrow> CloudComparison \<Rightarrow> gostring" where
  "savingsText places before after c =
    (if cc_SavingsPercent c < 0
     then ''-$'' @ fmt_f places (- cc_SavingsUSD c) @ '' ('' @ before @ fmt_f 0 (- cc_SavingsPercent c) @ after @ '')''
     else ''$'' @ fmt_f places (cc_SavingsUSD c) @ '' ('' @ fmt_f 0 (cc_SavingsPercent c) @ ''%)'')"

definition compareRow :: "CloudPricing list \<Rightarrow> CloudComparison \<Rightarrow> chunk" where
  "compareRow pricing c = (let (inputRate, outputRate) = ratesOf pricing c in
     Tab (cells [cc_Provider c, cc_Model c, ''$'' @ fmt_f 2 inputRate, ''$'' @ fmt_f 2 outputRate,
       ''$'' @ fmt_f 2 (cc_CloudCostUSD c), savingsText 2 [] ''% more'' c]))"

definition monthlyRow :: "CloudComparison \<Rightarrow> chunk" where
  "monthlyRow c = Tab (cells [cc_Provider c, cc_Model c, ''$'' @ fmt_f 0 (cc_CloudCostUSD c), ''$'' @ fmt_f 0 (cc_OnPremCostUSD c),
     savingsText 0 [] ''% more'' c])"

definition compareHeader :: "CostProfile \<Rightarrow> f64 \<Rightarrow> f64 \<Rightarrow> f64 \<Rightarrow> f64 \<Rightarrow> chunk list" where
  "compareHeader profile hoursRunning onPremTotal totalInput totalOutput =
    (let hw = cps_Hardware (prof_Spec profile); el = cps_Electricity (prof_Spec profile) in
     [println ''CLOUD vs ON-PREM COST COMPARISON'',
      println ''================================'',
      println (''GPU Hardware:    '' @ hs_GPUModel hw @ '' ('' @ show_int32 (hs_GPUCount hw) @ '' GPUs)''),
      println (''Purchase Price:  $'' @ fmt_f 0 (hs_PurchasePriceUSD hw) @ '' (amortized over '' @ show_int32 (hs_AmortizationYears hw) @ '' years)''),
      println (''Electricity:     $'' @ fmt_f 2 (es_RatePerKWh el) @ ''/kWh, PUE '' @ fmt_f 1 (es_PUEFactor el)),
      println (''Current Power:   '' @ fmt_f 1 (cpt_CurrentPowerDrawWatts (prof_Status profile)) @ ''W''),
      println (''Uptime:          '' @ fmt_f 1 hoursRunning @ '' hours''),
      println [],
      println (''Tokens Processed: '' @ formatTokenCount totalInput @ '' input + '' @ formatTokenCount totalOutput @ '' output = ''
        @ formatTokenCount (totalInput + totalOutput) @ '' total''),
      println (''On-Prem Cost:     $'' @ fmt_f 4 onPremTotal @ '' (infrastructure total for '' @ fmt_f 1 hoursRunning @ '' hours)''),
      println []])"

definition compareFooter :: "chunk list" where
  "compareFooter = [println [], println ''Cloud pricing: verified list prices as of 2026-03-21.'',
     println ''Sources: openai.com/pricing, platform.claude.com/pricing, ai.google.dev/pricing'',
     println ''Note: Does not reflect negotiated enterprise rates or batch discounts.'']"

definition monthlyProjection :: "CloudPricing list \<Rightarrow> CostProfile \<Rightarrow> f64 \<Rightarrow> f64 \<Rightarrow> f64 \<Rightarrow> chunk list" where
  "monthlyProjection pricing profile hoursRunning totalInput totalOutput =
    (let tokensPerHour = (totalInput + totalOutput) / hoursRunning;
         monthlyTokens = tokensPerHour * lit 24 * lit 30;
         monthlyOnPrem = cpt_HourlyCostUSD (prof_Status profile) * lit 24 * lit 30;
         ratio = totalInput / (totalInput + totalOutput);
         monthlyInput = monthlyTokens * ratio;
         monthlyOutput = monthlyTokens * (lit 1 - ratio)
     in [println [],
         println ''MONTHLY PROJECTION (based on current usage rate)'',
         println ''================================================'',
         println (''Projected tokens/month: '' @ formatTokenCount monthlyTokens),
         println (''Projected on-prem cost: $'' @ fmt_f 2 monthlyOnPrem @ ''/month''),
         println [],
         Tab (cells [''PROVIDER'', ''MODEL'', ''CLOUD/MONTH'', ''ON-PREM/MONTH'', ''SAVINGS/MONTH''])]
        @ map monthlyRow (CompareToCloud (int64_of_f monthlyInput) (int64_of_f monthlyOutput) monthlyOnPrem pricing))"

text \<open>The age of the profile, at least a thousandth of an hour.\<close>

definition compareHours :: "gotime \<Rightarrow> CostProfile \<Rightarrow> f64" where
  "compareHours now profile = (let h = Hours (time_Sub now (om_CreationTimestamp (prof_Meta profile)))
     in if h < lit (1/1000) then lit (1/1000) else h)"

definition freshPricing :: pricingState where
  "freshPricing = \<lparr>overrideCatalog = None, defaultCatalog = None\<rparr>"

definition runCompare :: "'u cliEnv \<Rightarrow> gostring \<Rightarrow> bool \<Rightarrow> cliExit \<times> chunk list" where
  "runCompare env namespace monthly = (case newK8sClient env of Inl err \<Rightarrow> (CliErr err, [])
     | Inr host \<Rightarrow> (case ce_transport env of Some err \<Rightarrow> (CliErr (''failed to create transport: '' @ err), [])
     | None \<Rightarrow> (case ce_profiles env of Inl err \<Rightarrow> (CliErr (''failed to list CostProfiles: '' @ err), [])
     | Inr [] \<Rightarrow> (CliOk, [println ''No CostProfiles found. Create one to start tracking costs.''])
     | Inr (profile # _) \<Rightarrow>
         let hoursRunning = compareHours (ce_clock env 0) profile;
             onPremTotal = cpt_HourlyCostUSD (prof_Status profile) * hoursRunning
         in (case listModels env host namespace of Inl err \<Rightarrow> (CliErr err, [])
           | Inr allModels \<Rightarrow>
               let (totalInput, totalOutput) = compareTotals env allModels (0, 0) in
               if feq (totalInput + totalOutput) 0
               then (CliOk, [println ''No token data available. Run some inference requests first.''])
               else let header = compareHeader profile hoursRunning onPremTotal totalInput totalOutput in
                 (case DefaultCloudPricing (ce_embedded env) freshPricing of
                    (Inl err, _) \<Rightarrow> (CliPanic err, header)
                  | (Inr pricing, _) \<Rightarrow> (CliOk, header
                      @ [println ''PROVIDER        MODEL                  INPUT/MTok  OUTPUT/MTok  CLOUD COST  SAVINGS'',
                         println ''--------        -----                  ----------  -----------  ----------  -------'']
                      @ map (compareRow pricing) (CompareToCloud (int64_of_f totalInput) (int64_of_f totalOutput) onPremTotal pricing)
                      @ (if monthly \<and> 0 < hoursRunning then monthlyProjection pricing profile hoursRunning totalInput totalOutput else [])
                      @ compareFooter))))))"

subsection \<open>status\<close>

fun profileRows :: "(nat \<Rightarrow> gotime) \<Rightarrow> nat \<Rightarrow> CostProfile list \<Rightarrow> chunk list" where
  "profileRows clk i [] = []"
| "profileRows clk i (p # ps) = Tab (cells [om_Name (prof_Meta p), hs_GPUModel (cps_Hardware (prof_Spec p)),
     show_int32 (hs_GPUCount (cps_Hardware (prof_Spec p))), ''$'' @ fmt_f 4 (cpt_HourlyCostUSD (prof_Status p)),
     ''$'' @ fmt_f 4 (cpt_AmortizationRatePerHour (prof_Status p)), ''$'' @ fmt_f 4 (cpt_ElectricityCostPerHour (prof_Status p)),
     fmt_f 1 (cpt_CurrentPowerDrawWatts (prof_Status p)) @ ''W'',
     formatAge (time_Sub (clk i) (om_CreationTimestamp (prof_Meta p)))]) # profileRows clk (i + 1) ps"

definition projectedLine :: "CostProfile \<Rightarrow> chunk list" where
  "projectedLine p = (let hourly = cpt_HourlyCostUSD (prof_Status p) in
     if 0 < hourly then [Out (nl @ ''  '' @ om_Name (prof_Meta p) @ '' projected: $'' @ fmt_f 2 (hourly * lit 24 * lit 30)
         @ ''/month, $'' @ fmt_f 2 (hourly * lit 8760) @ ''/year'' @ nl)]
     else [])"

text \<open>The cells of a model after its name, namespace and source.\<close>

definition modelRowText :: "DiscoveredModel \<Rightarrow> gostring list \<Rightarrow> chunk" where
  "modelRowText m cs = Tab (cells ([dm_Name m, dm_Namespace m, dm_SourceName m] @ cs))"

definition scrapedCells :: "InferenceMetrics \<Rightarrow> gostring list" where
  "scrapedCells im = [formatTokenCount (PromptTokensTotal im), formatTokenCount (PredictedTokensTotal im),
     fmt_f 1 (PredictedTokensPerSec im),
     (if 0 < RequestsProcessing im then ''Active ('' @ show_int64 (int64_of_f (RequestsProcessing im)) @ '' req)'' else ''Idle'')]"

fun statusLoop :: "'u cliEnv \<Rightarrow> DiscoveredModel list \<Rightarrow> chunk list \<Rightarrow> f64 \<Rightarrow> f64 \<Rightarrow> nat \<Rightarrow> chunk list \<times> f64 \<times> f64 \<times> nat" where
  "statusLoop env [] rows totalInput totalOutput modelCount = (rows, totalInput, totalOutput, modelCount)"
| "statusLoop env (m # ms) rows totalInput totalOutput modelCount =
    (if \<not> dm_IsScrapable m
     then statusLoop env ms (rows @ [modelRowText m [''-'', ''-'', ''-'', dm_Phase m]]) totalInput totalOutput (modelCount + 1)
     else (case scrapeModel env m of
         Inl err \<Rightarrow> statusLoop env ms (rows @ [modelRowText m [''-'', ''-'', ''-'', ''Scrape Error'']]) totalInput totalOutput (modelCount + 1)
       | Inr im \<Rightarrow> statusLoop env ms (rows @ [modelRowText m (scrapedCells im)])
           (totalInput + PromptTokensTotal im) (totalOutput + PredictedTokensTotal im) (modelCount + 1)))"

definition quickRow :: "CloudComparison \<Rightarrow> chunk" where
  "quickRow c = Tab (cells [''  '' @ cc_Provider c, cc_Model c, ''$'' @ fmt_f 2 (cc_CloudCostUSD c),
     savingsText 2 ''cloud '' ''% cheaper'' c, []])"

text \<open>The comparison for the first profile, and the panic of a malformed catalog in it.\<close>

definition quickComparison :: "'u cliEnv \<Rightarrow> CostProfile \<Rightarrow> gotime \<Rightarrow> f64 \<Rightarrow> f64 \<Rightarrow> cliExit \<times> chunk list" where
  "quickComparison env profile now totalInput totalOutput =
    (let hoursRunning = Hours (time_Sub now (om_CreationTimestamp (prof_Meta profile)));
         onPremTotal = cpt_HourlyCostUSD (prof_Status profile) * hoursRunning;
         header = [Out (nl @ ''QUICK COMPARISON'' @ nl), println ''================'',
           println (''  Total tokens processed: '' @ formatTokenCount totalInput @ '' input + '' @ formatTokenCount totalOutput @ '' output''),
           println (''  On-prem cost ('' @ fmt_f 1 hoursRunning @ '' hours): $'' @ fmt_f 4 onPremTotal),
           println []]
     in case DefaultCloudPricing (ce_embedded env) freshPricing of
          (Inl err, _) \<Rightarrow> (CliPanic err, header)
        | (Inr pricing, _) \<Rightarrow> (CliOk, header @ Tab (cells [''  PROVIDER'', ''MODEL'', ''CLOUD COST'', ''SAVINGS'', []])
            # map quickRow (CompareToCloud (int64_of_f totalInput) (int64_of_f totalOutput) onPremTotal pricing)))"

fun splitLines :: "gostring \<Rightarrow> gostring list" where
  "splitLines [] = [[]]"
| "splitLines (c # cs) = (if c = CHR 0x0A then [] # splitLines cs
     else (case splitLines cs of l # ls \<Rightarrow> (c # l) # ls | [] \<Rightarrow> [[c]]))"

fun reportLines :: "bool \<Rightarrow> UsageReport list \<Rightarrow> chunk list" where
  "reportLines printed [] = []"
| "reportLines printed (rep # reps) =
    (if ut_Period (ur_Status rep) = [] then reportLines printed reps
     else (if printed then [] else [Out (nl @ ''USAGE REPORTS'' @ nl), println ''=============''])
       @ [Out (nl @ om_Name (ur_Meta rep) @ '':'' @ nl)]
       @ map (\<lambda>line. println (''  '' @ line)) (splitLines (StatusMessage (ur_Status rep)))
       @ reportLines True reps)"

definition statusReports :: "'u cliEnv \<Rightarrow> chunk list" where
  "statusReports env = (case ce_reports env of Inl err \<Rightarrow> [] | Inr items \<Rightarrow> if 0 < length items then reportLines False items else [])"

definition runStatus :: "'u cliEnv \<Rightarrow> gostring \<Rightarrow> cliExit \<times> chunk list" where
  "runStatus env namespace = (case newK8sClient env of Inl err \<Rightarrow> (CliErr err, [])
     | Inr host \<Rightarrow> (case ce_transport env of Some err \<Rightarrow> (CliErr (''failed to create transport: '' @ err), [])
     | None \<Rightarrow> (case ce_profiles env of Inl err \<Rightarrow> (CliErr (''failed to list CostProfiles: '' @ err), [])
     | Inr [] \<Rightarrow> (CliOk, [println ''No CostProfiles found. Create one to start tracking costs.'',
         println ''  kubectl apply -f config/samples/finops_v1alpha1_costprofile.yaml''])
     | Inr (profile # others) \<Rightarrow>
         let profiles = profile # others;
             infrastructure = [println ''INFRASTRUCTURE COSTS'', println ''===================='']
               @ Tab (cells [''PROFILE'', ''GPU MODEL'', ''GPUs'', ''$/HOUR'', ''AMORT'', ''ELEC'', ''POWER'', ''AGE''])
               # profileRows (ce_clock env) 0 profiles
               @ concat (map projectedLine profiles)
               @ [Out (nl @ ''INFERENCE MODELS'' @ nl), println ''================'']
         in (case listModels env host namespace of Inl err \<Rightarrow> (CliErr err, infrastructure)
           | Inr allModels \<Rightarrow>
               let (rows, totalInput, totalOutput, modelCount) = statusLoop env allModels [] 0 0 0;
                   models = infrastructure
                     @ Tab (cells [''MODEL'', ''NAMESPACE'', ''SOURCE'', ''INPUT TOKENS'', ''OUTPUT TOKENS'', ''TOKENS/SEC'', ''STATUS''])
                     # rows @ (if modelCount = 0 then [println ''  No inference models found.''] else [])
               in if 0 < totalInput + totalOutput
                  then (case quickComparison env profile (ce_clock env (length profiles)) totalInput totalOutput of
                      (CliPanic err, quick) \<Rightarrow> (CliPanic err, models @ quick)
                    | (_, quick) \<Rightarrow> (CliOk, models @ quick @ statusReports env))
                  else (CliOk, models @ statusReports env)))))"

subsection \<open>users and version\<close>

definition runUsers :: "cliExit \<times> chunk list" where
  "runUsers = (CliOk, [println ''Per-user cost tracking requires LiteLLM integration.'',
     println ''Configure --litellm-db-dsn on the InferCost operator to enable per-user attribution.'',
     println ''See https://infercost.ai/docs/litellm for setup instructions.''])"

definition versionLine :: "gostring \<Rightarrow> gostring \<Rightarrow> gostring \<Rightarrow> chunk list" where
  "versionLine version gitCommit buildDate =
    [Out (''infercost '' @ version @ '' (commit: '' @ gitCommit @ '', built: '' @ buildDate @ '')'' @ nl)]"

end
