(* ===== verification/CliFacts.thy ===== *)
theory CliFacts
  imports CliCommands CostPower
begin

text \<open>What the command line shows, related to what the controllers publish and the calculator computes.\<close>

subsection \<open>Budgets\<close>

text \<open>The JSON of a condition, and of a budget: an object that shows it answers the accessors with its fields.\<close>

definition statusText :: "ConditionStatus \<Rightarrow> gostring" where
  "statusText v = (case v of ConditionTrue \<Rightarrow> ''True'' | ConditionFalse \<Rightarrow> ''False'' | ConditionUnknown \<Rightarrow> ''Unknown'')"

definition conditionJSON :: "Condition \<Rightarrow> any" where
  "conditionJSON c = AMap [(''type'', AString (c_Type c)), (''status'', AString (statusText (c_Status c))),
     (''reason'', AString (c_Reason c)), (''message'', AString (c_Message c)), (''lastTransitionTime'', AOther)]"

text \<open>
  A number in the decoded JSON: a whole number that fits is decoded to an int64, which \<open>NestedFloat64\<close> refuses (and a zero may be left out
  altogether); any other is the float64 that was written.  JSON has no other numbers than finite ones.
\<close>

definition whole :: "f64 \<Rightarrow> bool" where
  "whole x = (fval x = of_int \<lfloor>fval x\<rfloor> \<and> - (2 ^ 63) \<le> \<lfloor>fval x\<rfloor> \<and> \<lfloor>fval x\<rfloor> < 2 ^ 63)"

definition shows_number :: "f64 \<Rightarrow> f64 nested \<Rightarrow> bool" where
  "shows_number x answer \<longleftrightarrow> is_fin x \<and> (if whole x then \<not> fst (snd answer) \<or> snd (snd answer) \<noteq> None else answer = (x, True, None))"

definition shows_budget :: "Unstructured \<Rightarrow> TokenBudget \<Rightarrow> bool" where
  "shows_budget obj b \<longleftrightarrow> u_Name obj = om_Name (tb_Meta b) \<and> u_Namespace obj = om_Namespace (tb_Meta b)
    \<and> NestedString obj [''spec'', ''scope'', ''namespace''] = (tsc_Namespace (tbs_Scope (tb_Spec b)), True, None)
    \<and> shows_number (tbs_MonthlyLimitUSD (tb_Spec b)) (NestedFloat64 obj [''spec'', ''monthlyLimitUSD''])
    \<and> shows_number (tbt_CurrentSpendUSD (tb_Status b)) (NestedFloat64 obj [''status'', ''currentSpendUSD''])
    \<and> shows_number (tbt_UtilizationPercent (tb_Status b)) (NestedFloat64 obj [''status'', ''utilizationPercent''])
    \<and> NestedSlice obj [''status'', ''conditions''] = (map conditionJSON (tbt_Conditions (tb_Status b)), True, None)"

text \<open>The scan of the conditions: exceeded wins, then warning.\<close>

definition holds :: "Condition list \<Rightarrow> gostring \<Rightarrow> bool" where
  "holds cs ty = (\<exists>c \<in> set cs. c_Type c = ty \<and> c_Status c = ConditionTrue)"

lemma statusText_True [simp]: "statusText v = ''True'' \<longleftrightarrow> v = ConditionTrue"
  by (cases v) (simp_all add: statusText_def)

lemma conditionLoop_scan:
  "conditionLoop w (map conditionJSON cs) = (if holds cs ''BudgetExceeded'' then ''Exceeded''
     else if w \<or> holds cs ''BudgetWarning'' then ''Warning'' else ''OK'')"
proof (induction cs arbitrary: w)
  case (Cons c cs)
  have h: "holds (c # cs) ty \<longleftrightarrow> c_Type c = ty \<and> c_Status c = ConditionTrue \<or> holds cs ty" for ty
    by (simp add: holds_def)
  have l: "conditionLoop w (map conditionJSON (c # cs)) =
    (if c_Status c \<noteq> ConditionTrue then conditionLoop w (map conditionJSON cs)
     else if c_Type c = ''BudgetExceeded'' then ''Exceeded''
     else if c_Type c = ''BudgetWarning'' then conditionLoop True (map conditionJSON cs)
     else conditionLoop w (map conditionJSON cs))"
    by (simp add: conditionJSON_def anyString_def Let_def)
  show ?case unfolding l h Cons.IH by auto
qed (simp add: holds_def)

text \<open>With one condition per type, as the API server keeps the list, holding is what find finds.\<close>

lemma std_set_types: "set (map c_Type (std_set cs c)) = insert (c_Type c) (set (map c_Type cs))"
  by (induction cs) auto

lemma std_set_distinct: "distinct (map c_Type cs) \<Longrightarrow> distinct (map c_Type (std_set cs c))"
proof (induction cs)
  case (Cons d cs)
  then show ?case using std_set_types [of cs c] by auto
qed simp

lemma holds_find:
  "distinct (map c_Type cs) \<Longrightarrow> holds cs ty \<longleftrightarrow> (\<exists>c. std_find cs ty = Some c \<and> c_Status c = ConditionTrue)"
proof (induction cs)
  case (Cons d cs)
  then have n: "c \<in> set cs \<Longrightarrow> c_Type c \<noteq> c_Type d" for c by (metis distinct.simps(2) image_eqI image_set list.simps(9))
  show ?case using Cons n by (auto simp: holds_def)
qed (simp add: holds_def)

definition cliLevel :: "gostring \<Rightarrow> gostring" where
  "cliLevel st = (if st = ''exceeded'' then ''Exceeded'' else if st = ''warning'' then ''Warning'' else ''OK'')"

lemma cli_status:
  assumes "evaluateConditions std_conditions b u now = (st, b')" and "distinct (map c_Type (tbt_Conditions (tb_Status b)))"
    and "NestedSlice obj [''status'', ''conditions''] = (map conditionJSON (tbt_Conditions (tb_Status b')), True, None)"
  shows "cliBudgetStatus obj = cliLevel st"
proof -
  let ?cs = "tbt_Conditions (tb_Status b')"
  have d: "distinct (map c_Type ?cs)"
    by (rule evaluate_form [OF assms(1)]) (simp add: std_conditions_def std_set_distinct assms(2))
  have f: "holds ?cs ty \<longleftrightarrow> v = ConditionTrue" if "has_status std_conditions b' ty v" for ty v
    using that holds_find [OF d, of ty] by (auto simp: has_status_def std_conditions_def)
  note E = std.evaluate_conditions [OF assms(1)]
  have x: "holds ?cs ''BudgetExceeded'' \<longleftrightarrow> st = ''exceeded''" and w: "holds ?cs ''BudgetWarning'' \<longleftrightarrow> st \<noteq> ''ok''"
    using f [OF E(3)] f [OF E(2)] by (simp_all add: truth_def)
  have s: "st = ''exceeded'' \<or> st = ''warning'' \<or> st = ''ok''"
    using evaluate_status [of std_conditions b u now] assms(1) by (auto simp: budgetLevel_def split: if_splits)
  have "cliBudgetStatus obj = conditionLoop False (map conditionJSON ?cs)"
    by (cases ?cs) (simp_all add: cliBudgetStatus_def assms(3))
  then show ?thesis using s by (auto simp: conditionLoop_scan x w cliLevel_def)
qed

lemma shown_number: "shows_number x (NestedFloat64 obj path) \<Longrightarrow> budgetFieldFloat64 obj path = (if whole x then 0 else x)"
  by (auto simp: shows_number_def budgetFieldFloat64_def Let_def split: prod.splits)

text \<open>C37 What the command line shows of a budget whose object carries what a reconcile computed: the scope, the name, and the limit, the spend and the utilization of the row the
  reconcile publishes, except that every one of them that is a whole number (a limit of 500, a utilization of exactly 100) is shown as zero; and the
  status is Exceeded, Warning or OK exactly when that row's is exceeded, warning or ok, provided the stored conditions have one
  entry per type, which the API server enforces.\<close>

theorem cli_budget_agrees:
  assumes "computedBudget std_conditions now metaNow api b0 = (st, b)" and "shows_budget obj b"
    and "distinct (map c_Type (tbt_Conditions (tb_Status b0)))" and "tsc_Namespace (tbs_Scope (tb_Spec b)) \<noteq> []"
  shows "let row = budgetRow b st; shown = (\<lambda>x. if whole x then 0 else x) in
    budgetLine obj = Tab (cells [gd_Namespace row, gd_Name row, ''$'' @ fmt_f 2 (shown (gd_MonthlyLimitUSD row)),
      ''$'' @ fmt_f 4 (shown (gd_CurrentSpendUSD row)), fmt_f 1 (shown (gd_UtilizationPercent row)) @ ''%'',
      if gd_Status row = ''exceeded'' then ''Exceeded'' else if gd_Status row = ''warning'' then ''Warning'' else ''OK''])"
proof -
  have c: "cliBudgetStatus obj = cliLevel st"
    by (rule cli_status [OF assms(1) [unfolded computedBudget_def Let_def]]) (use assms(2,3) in \<open>simp_all add: shows_budget_def\<close>)
  have f: "budgetFieldFloat64 obj [''spec'', ''monthlyLimitUSD''] = (if whole (tbs_MonthlyLimitUSD (tb_Spec b)) then 0 else tbs_MonthlyLimitUSD (tb_Spec b))"
    "budgetFieldFloat64 obj [''status'', ''currentSpendUSD''] = (if whole (tbt_CurrentSpendUSD (tb_Status b)) then 0 else tbt_CurrentSpendUSD (tb_Status b))"
    "budgetFieldFloat64 obj [''status'', ''utilizationPercent''] = (if whole (tbt_UtilizationPercent (tb_Status b)) then 0 else tbt_UtilizationPercent (tb_Status b))"
    using assms(2) by (simp_all add: shows_budget_def shown_number)
  show ?thesis using assms(2,4)
    by (simp add: shows_budget_def budgetLine_def budgetRow_def budgetScopeNamespace_def c f cliLevel_def Let_def)
qed

text \<open>The object of a budget, as the dynamic client decodes it.\<close>

definition decoded_number :: "f64 \<Rightarrow> f64 nested" where
  "decoded_number x = (if whole x then (0, False, Some ''accessor error: value is of the type int64, expected float64'') else (x, True, None))"

definition budgetObject :: "TokenBudget \<Rightarrow> Unstructured" where
  "budgetObject b = \<lparr>u_Name = om_Name (tb_Meta b), u_Namespace = om_Namespace (tb_Meta b),
     NestedString = (\<lambda>path. (tsc_Namespace (tbs_Scope (tb_Spec b)), True, None)),
     NestedFloat64 = (\<lambda>path. decoded_number (if path = [''spec'', ''monthlyLimitUSD''] then tbs_MonthlyLimitUSD (tb_Spec b)
       else if path = [''status'', ''currentSpendUSD''] then tbt_CurrentSpendUSD (tb_Status b)
       else tbt_UtilizationPercent (tb_Status b))),
     NestedSlice = (\<lambda>path. (map conditionJSON (tbt_Conditions (tb_Status b)), True, None))\<rparr>"

lemma budgetObject_shows:
  "is_fin (tbs_MonthlyLimitUSD (tb_Spec b)) \<Longrightarrow> is_fin (tbt_CurrentSpendUSD (tb_Status b)) \<Longrightarrow> is_fin (tbt_UtilizationPercent (tb_Status b)) \<Longrightarrow>
    shows_budget (budgetObject b) b"
  by (simp add: shows_budget_def budgetObject_def shows_number_def decoded_number_def)

theorem cli_budget_agrees_witness:
  "\<exists>st b. computedBudget std_conditions 0 0
      (Some (SetNamespaceCosts [\<lparr>nc_Namespace = ''ml'', nc_EstimatedCostUSD = lit (855/10), nc_TokenCount = 1000, nc_Models = []\<rparr>] NewStore)) demo_budget = (st, b)
    \<and> tbs_MonthlyLimitUSD (tb_Spec b) = lit 100
    \<and> budgetLine (budgetObject b) = Tab (cells [''ml'', ''team-a'', ''$0.00'', ''$85.5000'', ''85.5%'', ''Warning''])"
proof -
  let ?api = "Some (SetNamespaceCosts [\<lparr>nc_Namespace = ''ml'', nc_EstimatedCostUSD = lit (855/10), nc_TokenCount = 1000, nc_Models = []\<rparr>] NewStore)"
  obtain st b where c: "computedBudget std_conditions 0 0 ?api demo_budget = (st, b)" by (metis surj_pair)
  have u: "0 < lit 100" "lit (855/10) / lit 100 * lit 100 = lit (855/10)" "f_of_int32 80 \<le> lit (855/10)" "\<not> f_of_int32 100 \<le> lit (855/10)" by code_simp+
  have s: "currentSpend ?api demo_budget = lit (855/10)" "tbs_MonthlyLimitUSD (tb_Spec demo_budget) = lit 100"
    unfolding currentSpend_def by (simp_all add: store_defs demo_budget_def)
  note F = computed_status [OF c, unfolded s budgetUtilization_def if_P [OF u(1)] u(2)]
  have st: "st = ''warning''" unfolding F(5) F(4) budgetLevel_def crossed_def using u(3,4) by (simp add: demo_budget_def severityCritical_def severityWarning_def)
  have w: "whole (lit 100)" "\<not> whole (lit (855/10))" "is_fin (lit 100)" "is_fin (lit (855/10))" by code_simp+
  have t: "fmt_f 2 0 = ''0.00''" "fmt_f 4 (lit (855/10)) = ''85.5000''" "fmt_f 1 (lit (855/10)) = ''85.5''" by code_simp+
  have l: "tbs_MonthlyLimitUSD (tb_Spec b) = lit 100" by (simp add: F(1) s)
  have sh: "shows_budget (budgetObject b) b" by (rule budgetObject_shows) (unfold l F(3,4), rule w(3), (rule w(4))+)
  have d: "distinct (map c_Type (tbt_Conditions (tb_Status demo_budget)))" "tsc_Namespace (tbs_Scope (tb_Spec b)) \<noteq> []"
    by (simp_all add: F(1) demo_budget_def)
  have n: "tsc_Namespace (tbs_Scope (tb_Spec b)) = ''ml''" "om_Name (tb_Meta b) = ''team-a''" by (simp_all add: F(1,2) demo_budget_def)
  have "budgetLine (budgetObject b) = Tab (cells [''ml'', ''team-a'', ''$0.00'', ''$85.5000'', ''85.5%'', ''Warning''])"
    using cli_budget_agrees [OF c sh d] unfolding Let_def budgetRow_def BudgetData.select_convs n l F(3,4) st if_P [OF w(1)] if_not_P [OF w(2)] t by simp
  then show ?thesis using c l by blast
qed

subsection \<open>Models and comparisons\<close>

definition statusRow :: "'u cliEnv \<Rightarrow> DiscoveredModel \<Rightarrow> chunk" where
  "statusRow env m = modelRowText m (if \<not> dm_IsScrapable m then [''-'', ''-'', ''-'', dm_Phase m]
     else (case scrapeModel env m of Inl err \<Rightarrow> [''-'', ''-'', ''-'', ''Scrape Error''] | Inr im \<Rightarrow> scrapedCells im))"

lemma statusLoop_spec:
  "statusLoop env ms rows i u n = (rows @ map (statusRow env) ms, fst (compareTotals env ms (i, u)), snd (compareTotals env ms (i, u)), n + length ms)"
  by (induction ms arbitrary: rows i u n) (auto simp: statusRow_def split: sum.splits)

text \<open>In a catalog without repeated entries the looked-up prices are the entry's own.\<close>

lemma ratesOf_own:
  assumes "distinct (map flatKey ps)" and "p \<in> set ps" and "cc_Provider c = cp_Provider p" and "cc_Model c = cp_Model p"
  shows "ratesOf ps c = (cp_InputPerMillion p, cp_OutputPerMillion p)"
  using assms
proof (induction ps)
  case (Cons q qs)
  show ?case
  proof (cases "cp_Provider q = cp_Provider p \<and> cp_Model q = cp_Model p")
    case True
    then have "flatKey q = flatKey p" by (simp add: flatKey_def)
    then have "q = p" using Cons.prems(1,2) by (auto simp: image_iff)
    then show ?thesis using Cons.prems by simp
  next
    case False
    then show ?thesis using Cons by auto
  qed
qed simp

text \<open>The row of a catalog entry with the entry's own prices.\<close>

definition ownRow :: "int64 \<Rightarrow> int64 \<Rightarrow> f64 \<Rightarrow> CloudPricing \<Rightarrow> chunk" where
  "ownRow i u onPrem p = (let c = compareOne i u onPrem p in
     Tab (cells [cp_Provider p, cp_Model p, ''$'' @ fmt_f 2 (cp_InputPerMillion p), ''$'' @ fmt_f 2 (cp_OutputPerMillion p),
       ''$'' @ fmt_f 2 (cc_CloudCostUSD c), savingsText 2 [] ''% more'' c]))"

lemma compareRows_own:
  assumes "distinct (map flatKey ps)"
  shows "map (compareRow ps) (CompareToCloud i u x ps) = map (ownRow i u x) ps"
proof -
  have "compareRow ps (compareOne i u x p) = ownRow i u x p" if "p \<in> set ps" for p
    using ratesOf_own [OF assms that, of "compareOne i u x p"] by (simp add: compareRow_def ownRow_def compareOne_def Let_def)
  then show ?thesis by (simp add: compare_map)
qed

text \<open>The table of a list of chunks.\<close>

fun tabs :: "chunk list \<Rightarrow> chunk list" where
  "tabs [] = []"
| "tabs (Tab t # cs) = Tab t # tabs cs"
| "tabs (Out t # cs) = tabs cs"

lemma tabs_append [simp]: "tabs (xs @ ys) = tabs xs @ tabs ys"
  by (induction xs rule: tabs.induct) simp_all

lemma tabs_own [simp]: "tabs (map (ownRow i u x) ps) = map (ownRow i u x) ps"
  by (induction ps) (simp_all add: ownRow_def Let_def)

lemma tabs_texts [simp]: "tabs (println s # cs) = tabs cs" "tabs (compareHeader p h x i u) = []" "tabs compareFooter = []"
  by (simp_all add: println_def compareHeader_def compareFooter_def Let_def)

lemma runCompare_models:
  assumes "newK8sClient env = Inr host" and "ce_transport env = None" and "ce_profiles env = Inr (profile # others)"
    and "listModels env host ns = Inr ms" and "compareTotals env ms (0, 0) = (i, u)"
  shows "runCompare env ns monthly =
    (let h = compareHours (ce_clock env 0) profile; x = cpt_HourlyCostUSD (prof_Status profile) * h in
     if feq (i + u) 0 then (CliOk, [println ''No token data available. Run some inference requests first.''])
     else (case DefaultCloudPricing (ce_embedded env) freshPricing of
        (Inl err, _) \<Rightarrow> (CliPanic err, compareHeader profile h x i u)
      | (Inr pricing, _) \<Rightarrow> (CliOk, compareHeader profile h x i u
          @ [println ''PROVIDER        MODEL                  INPUT/MTok  OUTPUT/MTok  CLOUD COST  SAVINGS'',
             println ''--------        -----                  ----------  -----------  ----------  -------'']
          @ map (compareRow pricing) (CompareToCloud (int64_of_f i) (int64_of_f u) x pricing)
          @ (if monthly \<and> 0 < h then monthlyProjection pricing profile h i u else []) @ compareFooter)))"
  using assms by (simp add: runCompare_def Let_def)

text \<open>The table of \<open>compare\<close> is the comparison the controllers publish: with a valid catalog it has one row per catalog
  entry, in order, each with the list prices of its own entry and the cloud cost and savings that \<open>CompareToCloud\<close>
  computes for the counters read, against the profile's hourly cost over its age; without tokens there is no
  table.\<close>

theorem compare_table:
  assumes "newK8sClient env = Inr host" and "ce_transport env = None" and "ce_profiles env = Inr (profile # others)"
    and "listModels env host ns = Inr ms" and "compareTotals env ms (0, 0) = (i, u)"
    and "ce_embedded env = Inr c" and "Validate c = None"
  shows "fst (runCompare env ns False) = CliOk
    \<and> tabs (snd (runCompare env ns False)) = (if feq (i + u) 0 then [] else map (ownRow (int64_of_f i) (int64_of_f u)
        (cpt_HourlyCostUSD (prof_Status profile) * compareHours (ce_clock env 0) profile)) (Flatten c))"
proof -
  have d: "distinct (map flatKey (Flatten c))"
    using assms(7) by (auto simp: Validate_def validateProviders_iff Flatten_def [symmetric] split: if_splits)
  show ?thesis
    by (simp add: runCompare_models [OF assms(1-5)] assms(6) DefaultCloudPricing_def DefaultCloudPricingCatalog_def freshPricing_def
        compareRows_own [OF d] Let_def)
qed

text \<open>The two commands agree: \<open>status\<close> lists every discovered model once and in order, counts them all, and adds up the
  same totals as \<open>compare\<close>; a model that is not scrapable or does not answer has a row and adds nothing.\<close>

theorem status_and_compare_agree:
  "statusLoop env ms [] 0 0 0 = (map (statusRow env) ms, fst (compareTotals env ms (0, 0)), snd (compareTotals env ms (0, 0)), length ms)"
  by (simp add: statusLoop_spec)

subsection \<open>Pods that are not llama.cpp\<close>

text \<open>An endpoint that answers with a token counter of llama.cpp.\<close>

definition speaks_llama :: "fetcher \<Rightarrow> gostring \<Rightarrow> bool" where
  "speaks_llama fetch url = (case client_Scrape fetch url of Inl err \<Rightarrow> False
     | Inr samples \<Rightarrow> (\<exists>s \<in> set samples. ms_Name s = ''llamacpp:prompt_tokens_total'' \<or> ms_Name s = ''llamacpp:tokens_predicted_total''))"

lemma llama_fold_silent:
  "\<forall>s \<in> set ss. ms_Name s \<noteq> ''llamacpp:prompt_tokens_total'' \<and> ms_Name s \<noteq> ''llamacpp:tokens_predicted_total'' \<Longrightarrow>
    PromptTokensTotal (foldl llamaStep m ss) = PromptTokensTotal m \<and> PredictedTokensTotal (foldl llamaStep m ss) = PredictedTokensTotal m"
  by (induction ss arbitrary: m) (simp_all add: llamaStep_def)

lemma scrape_silent:
  "\<not> speaks_llama fetch url \<Longrightarrow> ScrapeLlamaCPP fetch url = Inr im \<Longrightarrow> PromptTokensTotal im = 0 \<and> PredictedTokensTotal im = 0"
  by (auto simp: speaks_llama_def ScrapeLlamaCPP_def zeroMetrics_def llama_fold_silent split: sum.splits)

lemma f0_add: "(0::f64) + 0 = 0"
  by code_simp

lemma totals_silent:
  "\<forall>m \<in> set ms. dm_IsScrapable m \<longrightarrow> \<not> speaks_llama (if dm_Source m = sourceInferenceService then ce_direct env else ce_proxy env) (dm_MetricsURL m)
    \<Longrightarrow> compareTotals env ms (0, 0) = (0, 0)"
proof (induction ms)
  case (Cons m ms)
  then show ?case using scrape_silent [of _ "dm_MetricsURL m"] f0_add
    by (cases "scrapeModel env m") (auto simp: scrapeModel_def)
qed simp

lemma listModels_pods:
  assumes "ce_pods env ns = Inr pods" and "ce_services env ns = Inr []"
  shows "listModels env host ns = Inr (map (podModel host) (filter labelled pods))"
proof -
  obtain podMs known where d: "discoverModelsFromPods host pods = (podMs, known)" by (metis surj_pair)
  then have "podMs = map (podModel host) (filter labelled pods)"
    using podModels_map [of host pods "[]" "[]"] by (simp add: discoverModelsFromPods_def)
  then show ?thesis using assms d by (simp add: listModels_def discoverModelsFromInferenceServices_def)
qed

text \<open>The command line only counts llama.cpp: every model is scraped as llama.cpp, on port 8080 of a pod, so on a cluster
  whose running pods do not serve llama.cpp counters there, as vLLM pods do not, \<open>compare\<close> says that there is no token data and
  prints no comparison, whatever the controllers count.\<close>

theorem compare_counts_llama_only:
  assumes "newK8sClient env = Inr host" and "ce_transport env = None" and "ce_profiles env = Inr (profile # others)"
    and "ce_pods env ns = Inr pods" and "ce_services env ns = Inr []"
    and "\<forall>pod \<in> set pods. \<not> speaks_llama (ce_proxy env) (podProxyURL host (pod_Namespace pod) (pod_Name pod) 8080 ''metrics'')"
  shows "runCompare env ns monthly = (CliOk, [println ''No token data available. Run some inference requests first.''])"
proof -
  define podMs where P: "podMs = map (podModel host) (filter labelled pods)"
  note l = listModels_pods [OF assms(4,5), of host, folded P]
  have s: "''pod'' \<noteq> sourceInferenceService" by (simp add: sourceInferenceService_def)
  have "compareTotals env podMs (0, 0) = (0, 0)"
    using assms(6) by (intro totals_silent) (auto simp: P s podModel_scrapable podModel_def Let_def)
  moreover have "feq (0 + 0) 0" by code_simp
  ultimately show ?thesis using runCompare_models [OF assms(1-3) l] by (simp add: Let_def)
qed

subsection \<open>Witnesses\<close>

definition demo_cli :: "fetcher \<Rightarrow> Pod list \<Rightarrow> unit cliEnv" where
  "demo_cli fetch pods = \<lparr>ce_config = Inr ''https://k8s'', ce_addToScheme = None, ce_newClient = None, ce_newDynamic = None,
     ce_transport = None, ce_profiles = Inr [demo_gpu_profile], ce_pods = (\<lambda>_. Inr pods), ce_services = (\<lambda>_. Inr []),
     ce_endpoints = (\<lambda>_ _. Inr []), ce_budgets = (\<lambda>_. Inr []), ce_reports = Inr [], ce_url = demo_url, ce_proxy = fetch,
     ce_direct = fetch, ce_clock = (\<lambda>_. nsHour), ce_embedded = Inr (demo_catalog [''gpt-4o'', ''gpt-4o-mini''])\<rparr>"

definition vllm_pod :: Pod where
  "vllm_pod = demo_pod\<lparr>pod_Labels := [(modelLabel, ''qwen''), (BackendAnnotation, BackendVLLM)]\<rparr>"

lemma demo_cli_fields:
  "newK8sClient (demo_cli fetch pods) = Inr ''https://k8s''" "ce_transport (demo_cli fetch pods) = None"
  "ce_profiles (demo_cli fetch pods) = Inr [demo_gpu_profile]" "ce_pods (demo_cli fetch pods) ns = Inr pods"
  "ce_services (demo_cli fetch pods) ns = Inr []" "ce_proxy (demo_cli fetch pods) = fetch"
  by (simp_all add: demo_cli_def newK8sClient_def)

theorem compare_table_witness:
  "length (tabs (snd (runCompare (demo_cli demo_scrape [demo_pod]) [] False))) = 2"
proof -
  let ?env = "demo_cli demo_scrape [demo_pod]"
  let ?m = "podModel ''https://k8s'' demo_pod"
  have l: "labelled demo_pod" by (simp add: labelled_def demo_pod_def gm_get_def modelLabel_def)
  have ms: "listModels ?env ''https://k8s'' [] = Inr [?m]"
    using listModels_pods [OF demo_cli_fields(4,5)] l by simp
  have x: "scrapeModel ?env ?m = ScrapeLlamaCPP demo_scrape (dm_MetricsURL ?m)"
    by (simp add: scrapeModel_def podModel_scrapable(2) sourceInferenceService_def demo_cli_fields)
  have sm: "scrapeModel ?env ?m = Inr (zeroMetrics\<lparr>PromptTokensTotal := lit 30, PredictedTokensTotal := lit 12\<rparr>)"
    unfolding x by (simp add: ScrapeLlamaCPP_def client_Scrape_def demo_scrape_def parseMetrics_def llamaStep_def zeroMetrics_def)
  have "dm_IsScrapable ?m" by (simp add: podModel_scrapable demo_pod_def)
  then have t: "compareTotals ?env [?m] (0, 0) = (0 + lit 30, 0 + lit 12)" by (simp add: sm zeroMetrics_def)
  have v: "Validate (demo_catalog [''gpt-4o'', ''gpt-4o-mini'']) = None" by code_simp
  have n: "\<not> feq ((0 + lit 30) + (0 + lit 12)) 0" by code_simp
  have e: "ce_embedded ?env = Inr (demo_catalog [''gpt-4o'', ''gpt-4o-mini''])" by (simp add: demo_cli_def)
  have f: "length (Flatten (demo_catalog [''gpt-4o'', ''gpt-4o-mini''])) = 2"
    by (simp add: demo_catalog_def Flatten_concat entry_def)
  from compare_table [OF demo_cli_fields(1-3) ms t e v] show ?thesis unfolding if_not_P [OF n] by (simp only: length_map f)
qed

theorem compare_counts_llama_only_witness:
  "runCompare (demo_cli demo_fetch [vllm_pod]) [] False
      = (CliOk, [println ''No token data available. Run some inference requests first.''])
    \<and> (\<exists>m. scrapePod demo_fetch vllm_pod = Inr m \<and> PromptTokensTotal m = 0 + lit (of_int 1200) + lit (of_int 34))"
proof
  have "\<not> speaks_llama demo_fetch url" for url
    by (simp add: speaks_llama_def client_Scrape_def demo_fetch_def parseMetrics_def)
  then show "runCompare (demo_cli demo_fetch [vllm_pod]) [] False
      = (CliOk, [println ''No token data available. Run some inference requests first.''])"
    using compare_counts_llama_only [of "demo_cli demo_fetch [vllm_pod]" "''https://k8s''" demo_gpu_profile "[]" "[]" "[vllm_pod]" False]
    by (simp add: demo_cli_fields)
  show "\<exists>m. scrapePod demo_fetch vllm_pod = Inr m \<and> PromptTokensTotal m = 0 + lit (of_int 1200) + lit (of_int 34)"
    by (simp add: scrapePod_def vllm_pod_def demo_pod_def ResolveBackendWithSource_def modelLabel_def BackendAnnotation_def
        normalizeBackend_def Scrape_def ScrapeVLLM_def client_Scrape_def demo_fetch_def parseMetrics_def vllmStep_def zeroMetrics_def Let_def)
qed

end
