(* ===== verification/ShortestDecimal.thy ===== *)
theory ShortestDecimal
  imports GoFmt
begin

text \<open>
  \<open>strconv.FormatFloat(v, 'f', -1, 64)\<close>, which \<open>internal/focus\<close> uses for rates: the search for the shortest decimal that
  reads back, its termination within the fuel, and the round trip.
\<close>

subsection \<open>Rendering\<close>

text \<open>
  \<open>strconv.FormatFloat(v, 'f', -1, 64)\<close>: the fewest decimal places (possibly negative: trailing zeros of
  the integer part) that give the number back, the closest such decimal, ties to even.
\<close>

definition scaled :: "f64 \<Rightarrow> int \<Rightarrow> rat" where
  "scaled x p = absval x * 10 powi p"

definition gives_back :: "f64 \<Rightarrow> int \<Rightarrow> int \<Rightarrow> bool" where
  "gives_back x p d = (xrnd (of_int d * 10 powi (- p)) = absval x)"

definition shortestAt :: "f64 \<Rightarrow> int \<Rightarrow> int option" where
  "shortestAt x p = (let d = rne (scaled x p); lo = \<lfloor>scaled x p\<rfloor> in
     if gives_back x p d then Some d else if gives_back x p lo then Some lo else if gives_back x p (lo + 1) then Some (lo + 1) else None)"

text \<open>At most 1074 places are ever needed, and 309 digits before the point.\<close>

fun shortestFrom :: "nat \<Rightarrow> f64 \<Rightarrow> int \<Rightarrow> int \<times> int" where
  "shortestFrom 0 x p = (rne (scaled x p), p)"
| "shortestFrom (Suc n) x p = (case shortestAt x p of Some d \<Rightarrow> (d, p) | None \<Rightarrow> shortestFrom n x (p + 1))"

definition fmt_shortest :: "f64 \<Rightarrow> gostring" where
  "fmt_shortest x = (if is_nan x then ''NaN''
     else if is_inf x then (if sgnb x then ''-Inf'' else ''+Inf'')
     else (if sgnb x then ''-'' else []) @
       (if absval x = 0 then ''0''
        else let (d, p) = shortestFrom 1400 x (- int (length (udec \<lfloor>absval x\<rfloor>)))
             in if 0 < p then dot_at (nat p) (zpad (nat p + 1) (udec d)) else udec (d * 10 ^ nat (- p))))"

subsection \<open>The candidates\<close>

lemma powi_uminus_cancel: "of_int d * 10 powi (- p) = (a::rat) \<longleftrightarrow> of_int d = a * 10 powi p"
  by (simp add: power_int_minus field_simps)

lemma xrnd_absval: "xrnd (absval x) = absval x" if "is_fin x"
  using absval_fin [OF that] absval_nonneg [of x] by (intro xrnd_id rnd_absval) simp

text \<open>A decimal of \<open>p\<close> places that reads back has a candidate on its side of the number that does.\<close>

lemma between_gives_back:
  assumes "is_fin x" and "gives_back x p d" and "of_int d \<le> scaled x p \<and> d \<le> c \<and> of_int c \<le> scaled x p
    \<or> scaled x p \<le> of_int d \<and> c \<le> d \<and> scaled x p \<le> of_int c"
  shows "gives_back x p c"
proof -
  have q: "(0::rat) < 10 powi (- p)" by simp
  have s: "scaled x p * 10 powi (- p) = absval x" by (simp add: scaled_def power_int_minus)
  have m: "r \<le> r' \<Longrightarrow> r * 10 powi (- p) \<le> r' * 10 powi (- p)" for r r' :: rat using q by (intro mult_right_mono) auto
  from assms(3) show ?thesis
  proof (elim disjE conjE)
    assume "of_int d \<le> scaled x p" "d \<le> c" "of_int c \<le> scaled x p"
    then have "xrnd (of_int d * 10 powi (- p)) \<le> xrnd (of_int c * 10 powi (- p))"
      and "xrnd (of_int c * 10 powi (- p)) \<le> xrnd (absval x)"
      using m [of "of_int d" "of_int c"] m [of "of_int c" "scaled x p"] s by (auto intro!: xrnd_mono)
    then show ?thesis using assms(2) xrnd_absval [OF assms(1)] by (simp add: gives_back_def)
  next
    assume "scaled x p \<le> of_int d" "c \<le> d" "scaled x p \<le> of_int c"
    then have "xrnd (of_int c * 10 powi (- p)) \<le> xrnd (of_int d * 10 powi (- p))"
      and "xrnd (absval x) \<le> xrnd (of_int c * 10 powi (- p))"
      using m [of "of_int c" "of_int d"] m [of "scaled x p" "of_int c"] s by (auto intro!: xrnd_mono)
    then show ?thesis using assms(2) xrnd_absval [OF assms(1)] by (simp add: gives_back_def)
  qed
qed

lemma shortestAt_Some: "shortestAt x p = Some d \<Longrightarrow> gives_back x p d \<and> 0 \<le> d"
proof -
  have n: "0 \<le> scaled x p" using absval_nonneg [of x] by (simp add: scaled_def)
  then have "0 \<le> rne (scaled x p)" and "0 \<le> \<lfloor>scaled x p\<rfloor>" using rne_mono [OF n] by simp_all
  then show "shortestAt x p = Some d \<Longrightarrow> gives_back x p d \<and> 0 \<le> d"
    by (auto simp: shortestAt_def Let_def split: if_splits)
qed

lemma shortestAt_None:
  assumes "is_fin x" and "shortestAt x p = None"
  shows "\<not> gives_back x p d"
proof
  assume g: "gives_back x p d"
  let ?lo = "\<lfloor>scaled x p\<rfloor>"
  have lo: "of_int ?lo \<le> scaled x p" "scaled x p \<le> of_int (?lo + 1)" by linarith+
  have "gives_back x p ?lo \<or> gives_back x p (?lo + 1)"
  proof (cases "of_int d \<le> scaled x p")
    case True
    then have "d \<le> ?lo" by linarith
    then show ?thesis using between_gives_back [OF assms(1) g, of ?lo] True lo by blast
  next
    case False
    then have "?lo + 1 \<le> d" by linarith
    then show ?thesis using between_gives_back [OF assms(1) g, of "?lo + 1"] False lo by fastforce
  qed
  then show False using assms(2) by (auto simp: shortestAt_def Let_def split: if_splits)
qed

subsection \<open>The fuel\<close>

text \<open>1074 places render every finite number exactly.\<close>

lemma dyadic_places:
  assumes "0 \<le> p" and "- p \<le> e"
  shows "\<exists>k. of_int n * 2 powi e * (10::rat) powi p = of_int k"
proof -
  have "(10::rat) powi p = 2 powi p * 5 powi p" using power_int_mult_distrib [of 2 "5::rat" p] by simp
  then have "of_int n * 2 powi e * (10::rat) powi p = of_int n * (2 powi e * 2 powi p) * 5 powi p" by (simp only: mult_ac)
  also have "(2::rat) powi e * 2 powi p = 2 powi (e + p)" by (rule power_int_add [symmetric]) simp
  also have "(2::rat) powi (e + p) = of_int (2 ^ nat (e + p))" using assms(2) by (simp add: power_int_def)
  also have "(5::rat) powi p = of_int (5 ^ nat p)" using assms(1) by (simp add: power_int_def)
  finally show ?thesis by (metis of_int_mult)
qed

lemma exact_places: "\<exists>k. scaled x 1074 = of_int k"
proof -
  obtain n e where e: "- 1074 \<le> e" and v: "absval x = of_int n * 2 powi e" using absval_form by blast
  show ?thesis unfolding scaled_def v by (rule dyadic_places [OF _ e]) simp
qed

lemma shortestAt_1074:
  assumes "is_fin x"
  shows "shortestAt x 1074 \<noteq> None"
proof -
  obtain k where "scaled x 1074 = of_int k" using exact_places by blast
  then have "of_int k * 10 powi (- 1074) = absval x" unfolding powi_uminus_cancel by (simp only: scaled_def)
  then have "gives_back x 1074 k" using xrnd_absval [OF assms] by (simp only: gives_back_def)
  then show ?thesis using shortestAt_None [OF assms] by blast
qed

text \<open>The search stops at the first place that has a candidate, when the fuel reaches one.\<close>

lemma shortestFrom_found:
  assumes "shortestAt x (p + int i) \<noteq> None" and "i < n" and "shortestFrom n x p = (d, q)"
  shows "shortestAt x q = Some d \<and> p \<le> q \<and> (\<forall>r. p \<le> r \<longrightarrow> r < q \<longrightarrow> shortestAt x r = None)"
  using assms
proof (induction n x p arbitrary: i rule: shortestFrom.induct)
  case (2 n x p)
  show ?case
  proof (cases "shortestAt x p")
    case None
    then obtain j where j: "i = Suc j" using "2.prems"(1) by (cases i) auto
    have "shortestAt x q = Some d \<and> p + 1 \<le> q \<and> (\<forall>r. p + 1 \<le> r \<longrightarrow> r < q \<longrightarrow> shortestAt x r = None)"
      using "2.IH" [OF None, of j] "2.prems" None j by (simp add: add.assoc)
    then have q: "shortestAt x q = Some d" "p + 1 \<le> q" and r: "p + 1 \<le> r \<Longrightarrow> r < q \<Longrightarrow> shortestAt x r = None" for r by blast+
    have "shortestAt x r = None" if "p \<le> r" "r < q" for r using None r [of r] that by (cases "r = p") auto
    then show ?thesis using q by simp
  qed (use "2.prems" in auto)
qed simp

lemma udec_length: "0 \<le> n \<Longrightarrow> n < 10 ^ k \<Longrightarrow> 0 < k \<Longrightarrow> length (udec n) \<le> k"
proof (induction n arbitrary: k rule: udec.induct)
  case (1 n)
  show ?case
  proof (cases "n < 10")
    case True
    then show ?thesis using "1.prems" by (simp add: udec.simps [of n])
  next
    case False
    have "k \<noteq> 0" "k \<noteq> Suc 0" using "1.prems" False by (auto intro: notI)
    then obtain j where j: "k = Suc j" "0 < j" by (cases k) auto
    then have "n div 10 < 10 ^ j" using "1.prems" by (simp add: div_less_iff_less_mult mult.commute)
    then show ?thesis using "1.IH" [OF False, of j] "1.prems" False j by (simp add: udec.simps [of n])
  qed
qed

lemma integer_digits:
  assumes "is_fin x"
  shows "length (udec \<lfloor>absval x\<rfloor>) \<le> 309"
proof (rule udec_length)
  have "\<lfloor>absval x\<rfloor> < 2 ^ 1024" using absval_fin [OF assms] by (simp add: topval_def floor_less_iff)
  also have "(2::int) ^ 1024 \<le> 10 ^ 309" by simp
  finally show "\<lfloor>absval x\<rfloor> < 10 ^ 309" .
qed (use absval_nonneg [of x] in auto)

text \<open>So the search of \<open>fmt_shortest\<close> finds a decimal, and none with fewer places reads back.\<close>

lemma shortest_search:
  assumes "is_fin x" and "shortestFrom 1400 x (- int (length (udec \<lfloor>absval x\<rfloor>))) = (d, p)"
  shows "gives_back x p d \<and> 0 \<le> d \<and> (\<forall>r d'. 0 \<le> r \<longrightarrow> r < p \<longrightarrow> \<not> gives_back x r d')"
proof -
  let ?l = "length (udec \<lfloor>absval x\<rfloor>)"
  have "shortestAt x (- int ?l + int (1074 + ?l)) \<noteq> None" and "1074 + ?l < 1400"
    using shortestAt_1074 [OF assms(1)] integer_digits [OF assms(1)] by simp_all
  from shortestFrom_found [OF this assms(2)] show ?thesis
    using shortestAt_Some shortestAt_None [OF assms(1)] by force
qed

subsection \<open>Reading the text\<close>

text \<open>The value of a decimal numeral, with its sign.\<close>

definition fraction_digits :: "gostring \<Rightarrow> nat" where
  "fraction_digits s = length (drop 1 (dropWhile (\<lambda>c. c \<noteq> CHR ''.'') s))"

definition decimal_value :: "gostring \<Rightarrow> rat" where
  "decimal_value s = of_int (undec 0 (takeWhile (\<lambda>c. c \<noteq> CHR ''.'') s @ drop 1 (dropWhile (\<lambda>c. c \<noteq> CHR ''.'') s)))
     / 10 ^ fraction_digits s"

definition signed_value :: "gostring \<Rightarrow> rat" where
  "signed_value s = (if has_prefix s ''-'' then - decimal_value (drop 1 s) else decimal_value s)"

lemma no_dot: "0 \<le> n \<Longrightarrow> CHR ''.'' \<notin> set (udec n)" and no_minus: "0 \<le> n \<Longrightarrow> CHR ''-'' \<notin> set (udec n)"
  using udec_digits [of n] by auto

text \<open>What \<open>fmt_shortest\<close> writes for a decimal of \<open>p\<close> places.\<close>

definition place_dot :: "int \<Rightarrow> int \<Rightarrow> gostring" where
  "place_dot d p = (if 0 < p then dot_at (nat p) (zpad (nat p + 1) (udec d)) else udec (d * 10 ^ nat (- p)))"

lemma dot_split:
  assumes "CHR ''.'' \<notin> set t" and "0 < n" and "n < length t"
  shows "takeWhile (\<lambda>c. c \<noteq> CHR ''.'') (dot_at n t) = take (length t - n) t"
    and "dropWhile (\<lambda>c. c \<noteq> CHR ''.'') (dot_at n t) = CHR ''.'' # drop (length t - n) t"
proof -
  have "CHR ''.'' \<notin> set (take (length t - n) t)" using assms(1) by (meson in_set_takeD)
  then have a: "\<And>c. c \<in> set (take (length t - n) t) \<Longrightarrow> c \<noteq> CHR ''.''" by blast
  show "takeWhile (\<lambda>c. c \<noteq> CHR ''.'') (dot_at n t) = take (length t - n) t"
    using a assms(2) by (simp add: dot_at_def takeWhile_append2)
  show "dropWhile (\<lambda>c. c \<noteq> CHR ''.'') (dot_at n t) = CHR ''.'' # drop (length t - n) t"
    using a assms(2) by (simp add: dot_at_def dropWhile_append2)
qed

lemma whole_value: "CHR ''.'' \<notin> set u \<Longrightarrow> decimal_value u = of_int (undec 0 u) \<and> fraction_digits u = 0"
proof -
  assume "CHR ''.'' \<notin> set u"
  then have t: "takeWhile (\<lambda>c. c \<noteq> CHR ''.'') u = u" and d: "dropWhile (\<lambda>c. c \<noteq> CHR ''.'') u = []"
    by (auto simp: takeWhile_eq_all_conv dropWhile_eq_Nil_conv)
  show ?thesis unfolding decimal_value_def fraction_digits_def t d by simp
qed

lemma place_dot_value:
  assumes "0 \<le> d"
  shows "decimal_value (place_dot d p) = of_int d * 10 powi (- p)" and "fraction_digits (place_dot d p) = nat p"
proof -
  have "decimal_value (place_dot d p) = of_int d * 10 powi (- p) \<and> fraction_digits (place_dot d p) = nat p"
  proof (cases "0 < p")
    case True
    define t where "t = zpad (nat p + 1) (udec d)"
    have t: "CHR ''.'' \<notin> set t" "nat p < length t" "undec 0 t = d"
      using no_dot [OF assms] undec_udec [OF assms] by (auto simp: t_def zpad_def undec_zeros)
    note D = dot_split [OF t(1) _ t(2)]
    have "(10::rat) powi (- p) = 1 / 10 ^ nat p" using True by (simp add: power_int_def power_one_over inverse_eq_divide)
    moreover have "place_dot d p = dot_at (nat p) t" using True by (simp only: place_dot_def t_def if_True)
    ultimately show ?thesis using True t(2,3) by (simp add: decimal_value_def fraction_digits_def D)
  next
    case False
    have z: "0 \<le> d * 10 ^ nat (- p)" using assms by simp
    have "(10::rat) powi (- p) = of_int (10 ^ nat (- p))" using False by (simp add: power_int_def)
    then show ?thesis using False whole_value [OF no_dot [OF z]] by (simp add: place_dot_def undec_udec [OF z])
  qed
  then show "decimal_value (place_dot d p) = of_int d * 10 powi (- p)" and "fraction_digits (place_dot d p) = nat p" by blast+
qed

lemma place_dot_hd: "0 \<le> d \<Longrightarrow> \<not> has_prefix (place_dot d p) ''-''"
proof -
  assume d: "0 \<le> d"
  then have "0 \<le> d * 10 ^ nat (- p)" by simp
  from no_minus [OF d] no_minus [OF this] have "CHR ''-'' \<notin> set (place_dot d p)"
    by (auto simp: place_dot_def dot_at_def zpad_def dest: in_set_takeD in_set_dropD)
  then show ?thesis by (cases "place_dot d p") (auto simp: has_prefix_def)
qed

lemma fmt_shortest_form:
  assumes "is_fin x"
  obtains d p where "fmt_shortest x = (if sgnb x then ''-'' else []) @ place_dot d p" and "gives_back x p d" and "0 \<le> d"
    and "\<forall>r d'. 0 \<le> r \<longrightarrow> r < p \<longrightarrow> \<not> gives_back x r d'"
proof (cases "absval x = 0")
  case True
  have nf: "\<not> is_nan x" "\<not> is_inf x" using assms by (auto simp: is_nan_def is_inf_def is_fin_def)
  have "place_dot 0 0 = ''0''" by (simp add: place_dot_def udec.simps digit_def)
  moreover have "gives_back x 0 0" using True by (simp add: gives_back_def xrnd.zero)
  ultimately show thesis using that [of 0 0] nf True by (simp add: fmt_shortest_def)
next
  case False
  have nf: "\<not> is_nan x" "\<not> is_inf x" using assms by (auto simp: is_nan_def is_inf_def is_fin_def)
  obtain d p where s: "shortestFrom 1400 x (- int (length (udec \<lfloor>absval x\<rfloor>))) = (d, p)" by fastforce
  have "fmt_shortest x = (if sgnb x then ''-'' else []) @ place_dot d p"
    using nf False s by (simp add: fmt_shortest_def place_dot_def)
  then show thesis using that shortest_search [OF assms s] by blast
qed

subsection \<open>The round trip\<close>

text \<open>The search always ends with a rendering: within its bound it finds, for every finite float64, a
  decimal that a correctly rounding parser reads back as the same number with the same sign, and no decimal
  with fewer digits after the point does.\<close>

lemma shortest_reads_back:
  assumes "is_fin x"
  shows "xrnd (signed_value (fmt_shortest x)) = fval x
    \<and> (\<forall>n d. n < fraction_digits (fmt_shortest x) \<longrightarrow> xrnd (of_int d / 10 ^ n) \<noteq> absval x)"
proof (rule fmt_shortest_form [OF assms])
  fix d p
  assume f: "fmt_shortest x = (if sgnb x then ''-'' else []) @ place_dot d p" and g: "gives_back x p d" and d: "0 \<le> d"
    and m: "\<forall>r d'. 0 \<le> r \<longrightarrow> r < p \<longrightarrow> \<not> gives_back x r d'"
  note V = place_dot_value [OF d, of p]
  have v: "signed_value (fmt_shortest x) = (if sgnb x then - (of_int d * 10 powi (- p)) else of_int d * 10 powi (- p))"
    using place_dot_hd [OF d, of p] V(1) by (simp add: signed_value_def f) (simp add: has_prefix_def)
  have "xrnd (signed_value (fmt_shortest x)) = fval x"
    unfolding v using g by (simp add: gives_back_def xrnd_minus fval_def)
  moreover have "fraction_digits (fmt_shortest x) = nat p" using V(2) by (simp add: f fraction_digits_def)
  moreover have "xrnd (of_int d' / 10 ^ n) \<noteq> absval x" if "n < nat p" for n d'
  proof -
    have "(10::rat) powi (- int n) = 1 / 10 ^ n" by (simp add: power_int_minus inverse_eq_divide)
    then show ?thesis using m [rule_format, of "int n" d'] that by (simp add: gives_back_def)
  qed
  ultimately show ?thesis by simp
qed

end
