(* ===== verification/Focus.thy ===== *)
theory Focus
  imports ApiStore Scraper ShortestDecimal "HOL-Library.Product_Lexorder"
begin

text \<open>
  \<open>internal/focus\<close>: the FOCUS export, one CSV row per model of a report, and the part of \<open>pkg/cli/export.go\<close> that
  collects the reports and their profiles.  \<open>encoding/csv\<close> and \<open>strconv\<close> are modelled on ASCII text;
  \<open>sort.Slice\<close>, which is not stable, is an argument with its contract.  The times of a report read from the
  cluster are in the local zone of the process (\<open>metav1.Time\<close>): \<open>zone t\<close> is its offset at \<open>t\<close>.
\<close>

subsection \<open>Rendering\<close>

definition money :: "f64 \<Rightarrow> gostring" where
  "money v = fmt_f 4 v"

text \<open>\<open>t.UTC().Format(time.RFC3339)\<close>: whole seconds.\<close>

definition rfc3339 :: "gotime \<Rightarrow> gostring" where
  "rfc3339 t = (let s = (t mod nsDay) div nsSecond in
     zpad_int 4 (time_Year t) @ ''-'' @ zpad_int 2 (time_Month t) @ ''-'' @ zpad_int 2 (time_Day t) @ ''T''
     @ zpad_int 2 (s div 3600) @ '':'' @ zpad_int 2 (s div 60 mod 60) @ '':'' @ zpad_int 2 (s mod 60) @ ''Z'')"

definition isoTime :: "gotime \<Rightarrow> gostring" where
  "isoTime t = (if IsZero t then [] else rfc3339 t)"

text \<open>\<open>t.Year()\<close> and \<open>t.Month()\<close> read the zone of \<open>t\<close>; the bounds are in UTC.\<close>

definition monthBounds :: "(gotime \<Rightarrow> duration) \<Rightarrow> gotime \<Rightarrow> gotime \<times> gotime" where
  "monthBounds zone t = (if IsZero t then (t, t)
     else let l = t + zone t; start = time_Date (time_Year l) (time_Month l) 1 in (start, add_months start 1))"

subsection \<open>Rows\<close>

definition Columns :: "gostring list" where
  "Columns = [''BilledCost'', ''EffectiveCost'', ''ListCost'', ''ContractedCost'', ''ChargePeriodStart'', ''ChargePeriodEnd'',
    ''BillingPeriodStart'', ''BillingPeriodEnd'', ''Currency'', ''ServiceName'', ''ServiceCategory'', ''ProviderName'',
    ''PublisherName'', ''InvoiceIssuerName'', ''ResourceId'', ''ResourceName'', ''ResourceType'', ''Region'',
    ''UsageQuantity'', ''UsageUnit'', ''PricingUnit'', ''PricingCategory'', ''ChargeCategory'', ''ChargeClass'',
    ''ChargeDescription'', ''ChargeFrequency'', ''SkuId'', ''SkuPriceId'', ''SubAccountId'', ''SubAccountName'', ''Tags'',
    ''x-InferCostProfile'', ''x-InferGpuModel'', ''x-InferGpuCount'', ''x-InferTokensInput'', ''x-InferTokensOutput'',
    ''x-InferAmortizationYears'', ''x-InferElectricityRatePerKWh'', ''x-InferPUEFactor'', ''x-InferCloudEquivalentProvider'',
    ''x-InferCloudEquivalentModel'', ''x-InferCloudEquivalentCostUSD'', ''x-InferSavingsUSD'', ''x-InferSavingsPercent'']"

record ExportInput =
  xi_Reports :: "UsageReport list"
  xi_Profiles :: "(gostring, CostProfile) gomap"
  xi_Region :: gostring

text \<open>The zero value a lookup of an unknown profile gives.\<close>

definition zeroProfile :: CostProfile where
  "zeroProfile = \<lparr>prof_Meta = \<lparr>om_Name = [], om_Namespace = [], om_CreationTimestamp = 0\<rparr>,
     prof_Spec = \<lparr>cps_Hardware = \<lparr>hs_GPUModel = [], hs_GPUCount = 0, hs_PurchasePriceUSD = 0, hs_AmortizationYears = 0,
        hs_MaintenancePercentPerYear = 0, hs_TDPWatts = None\<rparr>,
       cps_Electricity = \<lparr>es_RatePerKWh = 0, es_PUEFactor = 0, es_IdleWattsThreshold = None\<rparr>,
       cps_NodeSelector = [], cps_NamespaceSelector = [], cps_CloudComparison = None\<rparr>,
     prof_Status = \<lparr>cpt_HourlyCostUSD = 0, cpt_AmortizationRatePerHour = 0, cpt_ElectricityCostPerHour = 0,
       cpt_CurrentPowerDrawWatts = 0, cpt_LastUpdated = None, cpt_Conditions = []\<rparr>\<rparr>"

fun bestLoop :: "CloudComparisonEntry \<Rightarrow> CloudComparisonEntry list \<Rightarrow> CloudComparisonEntry" where
  "bestLoop best [] = best"
| "bestLoop best (e # es) = bestLoop (if ce_SavingsUSD best < ce_SavingsUSD e then e else best) es"

definition bestCloudComparison :: "CloudComparisonEntry list \<Rightarrow> CloudComparisonEntry option" where
  "bestCloudComparison entries = (case entries of [] \<Rightarrow> None | e # es \<Rightarrow> Some (bestLoop e es))"

definition buildTags :: "UsageReport \<Rightarrow> ModelCostBreakdown \<Rightarrow> CostProfile \<Rightarrow> gostring" where
  "buildTags r m profile = ''{\"report\":\"'' @ om_Name (ur_Meta r) @ ''\",\"schedule\":\"'' @ urs_Schedule (ur_Spec r)
     @ ''\",\"model\":\"'' @ mb_Model m @ ''\",\"gpuModel\":\"'' @ hs_GPUModel (cps_Hardware (prof_Spec profile)) @ ''\"}''"

definition periodStart :: "UsageReport \<Rightarrow> gotime" where
  "periodStart r = (case ut_PeriodStart (ur_Status r) of Some t \<Rightarrow> t | None \<Rightarrow> 0)"

definition periodEnd :: "UsageReport \<Rightarrow> gotime" where
  "periodEnd r = (case ut_PeriodEnd (ur_Status r) of Some t \<Rightarrow> t | None \<Rightarrow> 0)"

definition buildRow :: "(gotime \<Rightarrow> duration) \<Rightarrow> f64 \<Rightarrow> gotime \<Rightarrow> gotime \<Rightarrow> int64 \<Rightarrow> gostring \<Rightarrow> gostring \<Rightarrow> gostring \<Rightarrow> gostring
    \<Rightarrow> gostring \<Rightarrow> gostring \<Rightarrow> gostring \<Rightarrow> CostProfile \<Rightarrow> gostring \<Rightarrow> gostring \<Rightarrow> int64 \<Rightarrow> int64 \<Rightarrow> CloudComparisonEntry option \<Rightarrow> f64
    \<Rightarrow> gostring list" where
  "buildRow zone cost start endt totalTokens resourceID resourceName subAccountID subAccountName chargeDesc skuID tags
     profile profileName region tokensIn tokensOut best onPremCost =
    (let costStr = money cost; (billingStart, billingEnd) = monthBounds zone start;
         hw = cps_Hardware (prof_Spec profile); el = cps_Electricity (prof_Spec profile)
     in [costStr, costStr, costStr, costStr, isoTime start, isoTime endt, isoTime billingStart, isoTime billingEnd,
         ''USD'', ''On-Prem AI Inference'', ''AI and Machine Learning'', ''InferCost'', ''Self-Hosted'', ''Self-Hosted'',
         resourceID, resourceName, ''AI Inference Endpoint'', region, show_int64 totalTokens, ''Tokens'', ''1M Tokens'',
         ''Usage-Based'', ''Usage'', [], chargeDesc, ''Usage-Based'', skuID, skuID, subAccountID, subAccountName, tags,
         profileName, hs_GPUModel hw, show_int32 (hs_GPUCount hw), show_int64 tokensIn, show_int64 tokensOut,
         show_int32 (hs_AmortizationYears hw), fmt_shortest (es_RatePerKWh el), fmt_shortest (es_PUEFactor el)]
        @ (case best of
             Some b \<Rightarrow> [ce_Provider b, ce_Model b, money (ce_EstimatedCloudCostUSD b),
               money (ce_EstimatedCloudCostUSD b - onPremCost), fmt_f 2 (ce_SavingsPercent b)]
           | None \<Rightarrow> [[], [], [], [], []]))"

definition rowFromModel :: "(gotime \<Rightarrow> duration) \<Rightarrow> UsageReport \<Rightarrow> ModelCostBreakdown \<Rightarrow> CostProfile \<Rightarrow> gostring
    \<Rightarrow> CloudComparisonEntry option \<Rightarrow> gostring list" where
  "rowFromModel zone r m profile region best = buildRow zone (mb_EstimatedCostUSD m) (periodStart r) (periodEnd r)
     (mb_InputTokens m + mb_OutputTokens m)
     (om_Namespace (ur_Meta r) @ ''/'' @ om_Name (ur_Meta r) @ ''/'' @ mb_Model m) (mb_Model m) (mb_Namespace m) (mb_Namespace m)
     (''Inference on '' @ mb_Model m @ '' for period '' @ ut_Period (ur_Status r)) (mb_Model m) (buildTags r m profile)
     profile (urs_CostProfileRef (ur_Spec r)) region (mb_InputTokens m) (mb_OutputTokens m) best (mb_EstimatedCostUSD m)"

definition rowFromTotals :: "(gotime \<Rightarrow> duration) \<Rightarrow> UsageReport \<Rightarrow> CostProfile \<Rightarrow> gostring \<Rightarrow> CloudComparisonEntry option \<Rightarrow> gostring list" where
  "rowFromTotals zone r profile region best = (let st = ur_Status r; ns = om_Namespace (ur_Meta r); name = om_Name (ur_Meta r) in
     buildRow zone (ut_EstimatedCostUSD st) (periodStart r) (periodEnd r) (ut_InputTokens st + ut_OutputTokens st)
     (ns @ ''/'' @ name) name ns ns (''Inference rollup for period '' @ ut_Period st @ '' (no model breakdown)'') []
     (''costProfile='' @ urs_CostProfileRef (ur_Spec r)) profile (urs_CostProfileRef (ur_Spec r)) region
     (ut_InputTokens st) (ut_OutputTokens st) best (ut_EstimatedCostUSD st))"

subsection \<open>The file\<close>

text \<open>The two uses of \<open>sort.Slice\<close>: of the reports, and of the models of a report.\<close>

record slice_sorts =
  so_reports :: "UsageReport list \<Rightarrow> UsageReport list"
  so_models :: "ModelCostBreakdown list \<Rightarrow> ModelCostBreakdown list"

definition reportLess :: "UsageReport \<Rightarrow> UsageReport \<Rightarrow> bool" where
  "reportLess a b = (if om_Namespace (ur_Meta a) \<noteq> om_Namespace (ur_Meta b) then om_Namespace (ur_Meta a) < om_Namespace (ur_Meta b)
     else om_Name (ur_Meta a) < om_Name (ur_Meta b))"

definition modelLess :: "ModelCostBreakdown \<Rightarrow> ModelCostBreakdown \<Rightarrow> bool" where
  "modelLess a b = (if mb_Namespace a \<noteq> mb_Namespace b then mb_Namespace a < mb_Namespace b else mb_Model a < mb_Model b)"

definition rowsForReport :: "slice_sorts \<Rightarrow> (gotime \<Rightarrow> duration) \<Rightarrow> ExportInput \<Rightarrow> UsageReport \<Rightarrow> gostring list list" where
  "rowsForReport S zone input r =
    (let profile = gm_get zeroProfile (xi_Profiles input) (urs_CostProfileRef (ur_Spec r));
         best = bestCloudComparison (ut_CloudComparison (ur_Status r))
     in if length (ut_ByModel (ur_Status r)) = 0 then [rowFromTotals zone r profile (xi_Region input) best]
        else map (\<lambda>m. rowFromModel zone r m profile (xi_Region input) best) (so_models S (ut_ByModel (ur_Status r))))"

text \<open>\<open>csv.Writer\<close>: when a field is quoted, and how.\<close>

definition fieldNeedsQuotes :: "gostring \<Rightarrow> bool" where
  "fieldNeedsQuotes f = (f \<noteq> [] \<and> (f = [CHR 0x5C, CHR ''.'']
     \<or> CHR '','' \<in> set f \<or> CHR 0x22 \<in> set f \<or> CHR 0x0D \<in> set f \<or> CHR 0x0A \<in> set f \<or> is_space (hd f)))"

definition csvField :: "gostring \<Rightarrow> gostring" where
  "csvField f = (if fieldNeedsQuotes f
     then CHR 0x22 # concat (map (\<lambda>c. if c = CHR 0x22 then [c, c] else [c]) f) @ [CHR 0x22] else f)"

fun csvFields :: "gostring list \<Rightarrow> gostring" where
  "csvFields [] = []"
| "csvFields [f] = csvField f"
| "csvFields (f # fs) = csvField f @ '','' @ csvFields fs"

definition csvLine :: "gostring list \<Rightarrow> gostring" where
  "csvLine row = csvFields row @ [CHR 0x0A]"

text \<open>The rows, and the bytes written; only the destination of the bytes can fail.\<close>

definition exportRows :: "slice_sorts \<Rightarrow> (gotime \<Rightarrow> duration) \<Rightarrow> ExportInput \<Rightarrow> gostring list list" where
  "exportRows S zone input = concat (map (rowsForReport S zone input) (so_reports S (xi_Reports input)))"

definition Write :: "slice_sorts \<Rightarrow> (gotime \<Rightarrow> duration) \<Rightarrow> ExportInput \<Rightarrow> gostring" where
  "Write S zone input = csvLine Columns @ concat (map csvLine (exportRows S zone input))"

subsection \<open>Collecting the reports\<close>

record 'k export_client =
  ec_listReports :: "'k \<Rightarrow> gostring \<Rightarrow> kerror + UsageReport list"
  ec_getProfile :: "'k \<Rightarrow> gostring \<Rightarrow> gostring \<Rightarrow> kerror + CostProfile"

definition fetchProfile :: "'k export_client \<Rightarrow> 'k \<Rightarrow> UsageReport \<Rightarrow> (gostring, CostProfile) gomap \<Rightarrow> (gostring, CostProfile) gomap" where
  "fetchProfile K k r profiles = (let ref = urs_CostProfileRef (ur_Spec r) in
     if gm_has profiles ref then profiles
     else (case ec_getProfile K k (om_Namespace (ur_Meta r)) ref of Inl err \<Rightarrow> profiles | Inr p \<Rightarrow> gm_put ref p profiles))"

definition fetchReportsAndProfiles :: "'k export_client \<Rightarrow> 'k \<Rightarrow> gostring \<Rightarrow> gostring
    \<Rightarrow> gostring + UsageReport list \<times> (gostring, CostProfile) gomap" where
  "fetchReportsAndProfiles K k namespace period = (case ec_listReports K k namespace of
      Inl err \<Rightarrow> Inl (''listing UsageReports: '' @ kerror_text err)
    | Inr items \<Rightarrow>
        let reports = (if period \<noteq> [] then filter (\<lambda>r. ut_Period (ur_Status r) = period) items else items)
        in Inr (reports, fold (fetchProfile K k) reports []))"

text \<open>\<open>runExportFocus\<close> up to the output: the text of the file, or the error.\<close>

definition runExportFocus :: "slice_sorts \<Rightarrow> (gotime \<Rightarrow> duration) \<Rightarrow> 'k export_client \<Rightarrow> 'k \<Rightarrow> gostring \<Rightarrow> gostring \<Rightarrow> gostring \<Rightarrow> gostring + gostring" where
  "runExportFocus S zone K k namespace period region = (case fetchReportsAndProfiles K k namespace period of
      Inl err \<Rightarrow> Inl err
    | Inr (reports, profiles) \<Rightarrow>
        if length reports = 0 then Inl (''no UsageReports matched (namespace='' @ go_quote namespace @ '', period='' @ go_quote period
          @ '') '' @ emDash @ '' nothing to export'')
        else Inr (Write S zone \<lparr>xi_Reports = reports, xi_Profiles = profiles, xi_Region = region\<rparr>))"

subsection \<open>Reading the file back\<close>

text \<open>A reader of comma-separated values as in RFC 4180, as a state machine over the characters.\<close>

datatype csv_state = FieldStart | Bare | Quoted | AfterQuote

fun csv_read :: "csv_state \<Rightarrow> gostring \<Rightarrow> gostring list \<Rightarrow> gostring \<Rightarrow> gostring list list option" where
  "csv_read st f row [] = (if st = FieldStart \<and> row = [] then Some [] else None)"
| "csv_read st f row (c # cs) =
    (if st = Quoted then
       (if c = CHR 0x22 then csv_read AfterQuote f row cs else csv_read Quoted (f @ [c]) row cs)
     else if c = CHR '','' then csv_read FieldStart [] (row @ [f]) cs
     else if c = CHR 0x0A then map_option (\<lambda>rows. (row @ [f]) # rows) (csv_read FieldStart [] [] cs)
     else if st = AfterQuote then (if c = CHR 0x22 then csv_read Quoted (f @ [c]) row cs else None)
     else if c = CHR 0x22 then (if st = FieldStart then csv_read Quoted [] row cs else None)
     else csv_read Bare (f @ [c]) row cs)"

lemma read_quoted:
  "csv_read Quoted f row (concat (map (\<lambda>c. if c = CHR 0x22 then [c, c] else [c]) xs) @ CHR 0x22 # rest) = csv_read AfterQuote (f @ xs) row rest"
  by (induction xs arbitrary: f) auto

lemma read_bare: "\<forall>c \<in> set xs. c \<noteq> CHR '','' \<and> c \<noteq> CHR 0x22 \<and> c \<noteq> CHR 0x0A \<Longrightarrow>
    csv_read Bare f row (xs @ rest) = csv_read Bare (f @ xs) row rest"
  by (induction xs arbitrary: f) auto

lemma read_field:
  assumes "d = CHR '','' \<or> d = CHR 0x0A"
  shows "csv_read FieldStart [] row (csvField f @ d # rest) =
    (if d = CHR '','' then csv_read FieldStart [] (row @ [f]) rest
     else map_option (\<lambda>rows. (row @ [f]) # rows) (csv_read FieldStart [] [] rest))"
proof (cases "fieldNeedsQuotes f")
  case True
  then show ?thesis using assms read_quoted [of "[]" row f "d # rest"] by (auto simp: csvField_def)
next
  case False
  show ?thesis
  proof (cases f)
    case (Cons c cs)
    then have "\<forall>x \<in> set f. x \<noteq> CHR '','' \<and> x \<noteq> CHR 0x22 \<and> x \<noteq> CHR 0x0A" using False by (auto simp: fieldNeedsQuotes_def)
    then have "csv_read FieldStart [] row (f @ d # rest) = csv_read Bare f row (d # rest)"
      using read_bare [of cs "[c]" row "d # rest"] by (simp add: Cons)
    then show ?thesis using False assms by (auto simp: csvField_def)
  qed (use False assms in \<open>auto simp: csvField_def\<close>)
qed

lemma read_fields: "fs \<noteq> [] \<Longrightarrow> csv_read FieldStart [] row (csvFields fs @ CHR 0x0A # rest) =
    map_option (\<lambda>rows. (row @ fs) # rows) (csv_read FieldStart [] [] rest)"
proof (induction fs arbitrary: row rule: csvFields.induct)
  case (2 f)
  then show ?case using read_field [of "CHR 0x0A"] by simp
next
  case (3 f g fs)
  then show ?case using read_field [of "CHR '',''" row f] by simp
qed simp

lemma read_lines: "\<forall>row \<in> set rows. row \<noteq> [] \<Longrightarrow> csv_read FieldStart [] [] (concat (map csvLine rows)) = Some rows"
proof (induction rows)
  case (Cons row rows)
  then show ?case using read_fields [of row "[]" "concat (map csvLine rows)"] by (simp add: csvLine_def [of row])
qed simp

lemma row_length: "length (buildRow zone cost a b n ri rn sa sn cd sk tg profile pn region ti to best op) = length Columns"
  by (simp add: buildRow_def Columns_def Let_def split: option.split prod.split)

lemma rows_length: "row \<in> set (exportRows S zone input) \<Longrightarrow> length row = length Columns"
  by (auto simp: exportRows_def rowsForReport_def rowFromModel_def rowFromTotals_def Let_def row_length split: if_splits)

text \<open>C26 Nothing is lost in the export: whatever characters names, models, tags and regions hold (commas, quotes, line breaks), a CSV
  reader gets back the header and exactly the rows, and every row has one field per column of the header.\<close>

theorem focus_roundtrip:
  "csv_read FieldStart [] [] (Write S zone input) = Some (Columns # exportRows S zone input)
   \<and> list_all (\<lambda>row. length row = length Columns) (exportRows S zone input)"
proof -
  have l: "list_all (\<lambda>row. length row = length Columns) (exportRows S zone input)"
    using rows_length by (auto simp: list_all_iff)
  have "length Columns = 44" by (simp add: Columns_def)
  then have "\<forall>row \<in> set (Columns # exportRows S zone input). row \<noteq> []" using l by (auto simp: list_all_iff)
  from read_lines [OF this] l show ?thesis by (simp add: Write_def)
qed

subsection \<open>The order of the rows\<close>

text \<open>What \<open>sort.Slice\<close> promises: the elements, in an order no two of which the comparison inverts.\<close>

locale slice_sort =
  fixes less :: "'a \<Rightarrow> 'a \<Rightarrow> bool" and srt :: "'a list \<Rightarrow> 'a list" and key :: "'a \<Rightarrow> 'k :: linorder"
  assumes sort_mset: "mset (srt xs) = mset xs"
    and sort_sorted: "sorted_wrt (\<lambda>x y. \<not> less y x) (srt xs)"
    and less_key: "less x y \<longleftrightarrow> key x < key y"
begin

lemma sort_set: "set (srt xs) = set xs"
  using arg_cong [OF sort_mset, of set_mset] by simp

lemma sort_unique:
  assumes "mset xs = mset ys" and "inj_on key (set xs)"
  shows "srt ys = sort_key key xs"
proof -
  have "sorted (map key (srt ys))" using sort_sorted [of ys] by (simp add: sorted_map less_key not_less)
  with assms show ?thesis by (intro sort_key_inj_key_eq [symmetric]) (simp_all add: sort_mset)
qed

end

definition reportKey :: "UsageReport \<Rightarrow> gostring \<times> gostring" where
  "reportKey r = (om_Namespace (ur_Meta r), om_Name (ur_Meta r))"

definition breakdownKey :: "ModelCostBreakdown \<Rightarrow> gostring \<times> gostring" where
  "breakdownKey m = (mb_Namespace m, mb_Model m)"

lemma reportLess_key: "reportLess a b \<longleftrightarrow> reportKey a < reportKey b"
  by (auto simp: reportLess_def reportKey_def)

lemma modelLess_key: "modelLess a b \<longleftrightarrow> breakdownKey a < breakdownKey b"
  by (auto simp: modelLess_def breakdownKey_def)

lemma sort_key_slice: "sorted_wrt (\<lambda>x y. \<not> f y < f x) (sort_key f xs)" for f :: "'a \<Rightarrow> 'k :: linorder"
  using sorted_sort_key [of f xs] by (simp add: sorted_map not_less)

interpretation sort_reports: slice_sort reportLess "sort_key reportKey" reportKey
  by unfold_locales (simp_all add: reportLess_key sort_key_slice)

interpretation sort_models: slice_sort modelLess "sort_key breakdownKey" breakdownKey
  by unfold_locales (simp_all add: modelLess_key sort_key_slice)

definition good_sorts :: "slice_sorts \<Rightarrow> bool" where
  "good_sorts S = (slice_sort reportLess (so_reports S) reportKey \<and> slice_sort modelLess (so_models S) breakdownKey)"

definition stable_sorts :: slice_sorts where
  "stable_sorts = \<lparr>so_reports = sort_key reportKey, so_models = sort_key breakdownKey\<rparr>"

lemma good_stable: "good_sorts stable_sorts"
  by (simp add: good_sorts_def stable_sorts_def sort_reports.slice_sort_axioms sort_models.slice_sort_axioms)

subsection \<open>The columns\<close>

text \<open>The text of a column in a row, found by the header.\<close>

definition column :: "gostring \<Rightarrow> gostring list \<Rightarrow> gostring option" where
  "column n row = map_of (zip Columns row) n"

lemma column_names: "distinct Columns" "length Columns = 44" "Columns ! 31 = ''x-InferCostProfile''" "Columns ! 32 = ''x-InferGpuModel''"
  "Columns ! 33 = ''x-InferGpuCount''" "Columns ! 36 = ''x-InferAmortizationYears''" "Columns ! 37 = ''x-InferElectricityRatePerKWh''"
  "Columns ! 38 = ''x-InferPUEFactor''"
  by code_simp+

lemma column_nth: "length row = length Columns \<Longrightarrow> i < length Columns \<Longrightarrow> column (Columns ! i) row = Some (row ! i)"
  by (simp add: column_def map_of_zip_nth column_names(1))

text \<open>C39 Whoever reads the file can recompute the charge: in every row, the columns of the electricity rate and of the PUE factor hold decimals that a correctly rounding
  parser reads back as exactly the numbers of the profile, with no digit lost (as the four decimals of the money columns would), and the other inputs of the
  profile, its name, GPU model and count and the amortization years, stand under their names.\<close>

theorem export_economics_exact:
  assumes "row \<in> set (exportRows S zone input)" and "good_sorts S"
    and "\<forall>p \<in> insert zeroProfile (snd ` set (xi_Profiles input)). is_fin (es_RatePerKWh (cps_Electricity (prof_Spec p))) \<and> is_fin (es_PUEFactor (cps_Electricity (prof_Spec p)))"
  shows "\<exists>r \<in> set (xi_Reports input). \<exists>p rate pue. p = gm_get zeroProfile (xi_Profiles input) (urs_CostProfileRef (ur_Spec r))
    \<and> column ''x-InferElectricityRatePerKWh'' row = Some rate \<and> xrnd (signed_value rate) = fval (es_RatePerKWh (cps_Electricity (prof_Spec p)))
    \<and> column ''x-InferPUEFactor'' row = Some pue \<and> xrnd (signed_value pue) = fval (es_PUEFactor (cps_Electricity (prof_Spec p)))
    \<and> column ''x-InferCostProfile'' row = Some (urs_CostProfileRef (ur_Spec r))
    \<and> column ''x-InferGpuModel'' row = Some (hs_GPUModel (cps_Hardware (prof_Spec p)))
    \<and> column ''x-InferGpuCount'' row = Some (show_int32 (hs_GPUCount (cps_Hardware (prof_Spec p))))
    \<and> column ''x-InferAmortizationYears'' row = Some (show_int32 (hs_AmortizationYears (cps_Hardware (prof_Spec p))))"
proof -
  obtain r where r: "r \<in> set (xi_Reports input)" "row \<in> set (rowsForReport S zone input r)"
    using assms(1,2) by (auto simp: exportRows_def good_sorts_def slice_sort.sort_set)
  let ?p = "gm_get zeroProfile (xi_Profiles input) (urs_CostProfileRef (ur_Spec r))"
  have "?p \<in> insert zeroProfile (snd ` set (xi_Profiles input))"
    by (auto simp: gm_get_def split: option.split dest!: map_of_SomeD) force
  then have f: "is_fin (es_RatePerKWh (cps_Electricity (prof_Spec ?p)))" "is_fin (es_PUEFactor (cps_Electricity (prof_Spec ?p)))"
    using assms(3) by blast+
  obtain cost a b n ri rn sa sn cd sk tg ti to best op where
    row: "row = buildRow zone cost a b n ri rn sa sn cd sk tg ?p (urs_CostProfileRef (ur_Spec r)) (xi_Region input) ti to best op"
    using r(2) by (auto simp: rowsForReport_def rowFromModel_def rowFromTotals_def Let_def split: if_splits)
  note reads = shortest_reads_back [OF f(1), THEN conjunct1] shortest_reads_back [OF f(2), THEN conjunct1]
  have len: "length row = length Columns" unfolding row by (rule row_length)
  have c: "column (Columns ! i) row = Some (row ! i)" if "i < 44" for i using column_nth [OF len] that by (simp add: column_names(2))
  have "row ! 37 = fmt_shortest (es_RatePerKWh (cps_Electricity (prof_Spec ?p)))" "row ! 38 = fmt_shortest (es_PUEFactor (cps_Electricity (prof_Spec ?p)))"
    "row ! 31 = urs_CostProfileRef (ur_Spec r)" "row ! 32 = hs_GPUModel (cps_Hardware (prof_Spec ?p))"
    "row ! 33 = show_int32 (hs_GPUCount (cps_Hardware (prof_Spec ?p)))" "row ! 36 = show_int32 (hs_AmortizationYears (cps_Hardware (prof_Spec ?p)))"
    by (simp_all add: row buildRow_def Let_def nth_append split: prod.split)
  then have "column ''x-InferElectricityRatePerKWh'' row = Some (fmt_shortest (es_RatePerKWh (cps_Electricity (prof_Spec ?p))))"
    "column ''x-InferPUEFactor'' row = Some (fmt_shortest (es_PUEFactor (cps_Electricity (prof_Spec ?p))))"
    "column ''x-InferCostProfile'' row = Some (urs_CostProfileRef (ur_Spec r))"
    "column ''x-InferGpuModel'' row = Some (hs_GPUModel (cps_Hardware (prof_Spec ?p)))"
    "column ''x-InferGpuCount'' row = Some (show_int32 (hs_GPUCount (cps_Hardware (prof_Spec ?p))))"
    "column ''x-InferAmortizationYears'' row = Some (show_int32 (hs_AmortizationYears (cps_Hardware (prof_Spec ?p))))"
    using c [of 37] c [of 38] c [of 31] c [of 32] c [of 33] c [of 36] unfolding column_names by simp_all
  then show ?thesis using r(1) reads by blast
qed

subsection \<open>Reproducibility\<close>

text \<open>Two profile maps with the same answers, and any order of the reports, give the same file.\<close>

lemma write_deterministic:
  assumes "good_sorts S" and "good_sorts S'" and "mset reports = mset reports'" and "map_of profiles = map_of profiles'"
    and "inj_on reportKey (set reports)" and "\<forall>r \<in> set reports. inj_on breakdownKey (set (ut_ByModel (ur_Status r)))"
  shows "Write S zone \<lparr>xi_Reports = reports, xi_Profiles = profiles, xi_Region = region\<rparr>
    = Write S' zone \<lparr>xi_Reports = reports', xi_Profiles = profiles', xi_Region = region\<rparr>"
proof -
  let ?in = "\<lambda>rs ps. \<lparr>xi_Reports = rs, xi_Profiles = ps, xi_Region = region\<rparr>"
  have so: "so_reports T rs = sort_key reportKey reports" if "good_sorts T" "mset reports = mset rs" for T rs
    using that(1) unfolding good_sorts_def by (blast intro: slice_sort.sort_unique [OF _ that(2) assms(5)])
  have sm: "so_models S ms = so_models S' ms" if "inj_on breakdownKey (set ms)" for ms
  proof -
    have "so_models S ms = sort_key breakdownKey ms" "so_models S' ms = sort_key breakdownKey ms"
      using assms(1,2) unfolding good_sorts_def by (blast intro: slice_sort.sort_unique [OF _ refl that])+
    then show ?thesis by simp
  qed
  have "map (rowsForReport S zone (?in reports profiles)) (sort_key reportKey reports)
      = map (rowsForReport S' zone (?in reports' profiles')) (sort_key reportKey reports)"
    using assms(6) sm by (intro map_cong refl) (simp add: rowsForReport_def Let_def gm_get_def assms(4))
  then show ?thesis by (simp only: Write_def exportRows_def ExportInput.simps so [OF assms(1) refl] so [OF assms(2,3)])
qed

definition demo_usage :: "gostring \<Rightarrow> gostring list \<Rightarrow> UsageReport" where
  "demo_usage name models = \<lparr>ur_Meta = \<lparr>om_Name = name, om_Namespace = ''ml'', om_CreationTimestamp = 0\<rparr>,
     ur_Spec = \<lparr>urs_CostProfileRef = ''gpu'', urs_Schedule = ReportScheduleDaily, urs_Namespaces = []\<rparr>,
     ur_Status = \<lparr>ut_Period = ''2026-04-01'', ut_PeriodStart = None, ut_PeriodEnd = None, ut_InputTokens = 7, ut_OutputTokens = 5,
       ut_EstimatedCostUSD = 0, ut_CostPerMillionTokens = 0, ut_MarginalCostPerMillionTokens = 0,
       ut_ActiveHoursCostPerMillionTokens = 0, ut_ActiveEnergyKWh = 0, ut_GPUEfficiencyRatio = 0, ut_UtilizationPercent = 0,
       ut_ActiveHoursInPeriod = 0, ut_TotalHoursInPeriod = 0,
       ut_ByModel = map (\<lambda>m. \<lparr>mb_Model = m, mb_Namespace = ''ml'', mb_InputTokens = 7, mb_OutputTokens = 5, mb_EstimatedCostUSD = 0,
         mb_CostPerMillionTokens = 0\<rparr>) models, ut_ByNamespace = [], ut_CloudComparison = [],
       ut_BreakEvenAnalysis = [], ut_LastUpdated = None, ut_Conditions = []\<rparr>\<rparr>"

subsection \<open>Billing periods and profiles\<close>

lemma month_start_day: "month_start k + nsDay \<le> month_start (k + 1)"
proof -
  have "month_start j mod nsDay = 0" for j by (simp add: month_start_def time_Date_def)
  then obtain a b where "month_start k = a * nsDay" "month_start (k + 1) = b * nsDay"
    by (metis mod_0_imp_dvd dvd_def mult.commute)
  moreover have "0 < nsDay" by (simp add: nsDay_def)
  moreover from calculation have "a < b" using month_start_less_Suc [of k] by simp
  ultimately show ?thesis using mult_right_mono [of "a + 1" b nsDay] by (simp add: distrib_right)
qed

text \<open>The billing period of a charge is the calendar month, but of the clock on the wall of whoever runs the export.  In UTC it contains the
  start of the charge; anywhere west of Greenwich a charge that starts with a month, as every monthly report does, is
  filed under the month before, which ends where the charge begins.\<close>

theorem billing_period_zone:
  assumes "\<not> IsZero t" and "t = month_start k" and "- nsDay \<le> zone t" and "zone t < 0"
  shows "monthBounds (\<lambda>t. 0) t = (month_start k, month_start (k + 1))
    \<and> monthBounds zone t = (month_start (k - 1), t)"
proof -
  have b: "monthBounds z t = (month_start (month_index (t + z t)), month_start (month_index (t + z t) + 1))" for z
    using assms(1) by (simp add: monthBounds_def Let_def month_start_of add_month_start)
  have "month_start (k - 1) \<le> t + zone t" "t + zone t < month_start k"
    using month_start_day [of "k - 1"] assms(2-4) by simp_all
  then have "month_index (t + zone t) = k - 1" using month_index_unique [of "k - 1" "t + zone t"] by simp
  moreover have "month_index (t + 0) = k" by (simp add: assms(2) month_index_start)
  ultimately show ?thesis unfolding b by (simp add: assms(2))
qed

theorem billing_period_zone_witness:
  "snd (monthBounds (\<lambda>t. - 5 * nsHour) (month_start (12 * 2026 + 3))) = month_start (12 * 2026 + 3)"
proof -
  have z: "\<not> IsZero (month_start (12 * 2026 + 3))" "- nsDay \<le> - 5 * nsHour" "- 5 * nsHour < 0"
    by (simp add: IsZero_def month_start_def) code_simp+
  show ?thesis using billing_period_zone [OF z(1) refl, of "\<lambda>t. - 5 * nsHour"] z(2,3) by simp
qed

text \<open>The profile the first report with a reference finds, in the namespace of that report.\<close>

definition fetched :: "'k export_client \<Rightarrow> 'k \<Rightarrow> UsageReport \<Rightarrow> CostProfile option" where
  "fetched K k r = (case ec_getProfile K k (om_Namespace (ur_Meta r)) (urs_CostProfileRef (ur_Spec r)) of Inl _ \<Rightarrow> None | Inr p \<Rightarrow> Some p)"

definition firstFetched :: "'k export_client \<Rightarrow> 'k \<Rightarrow> gostring \<Rightarrow> UsageReport list \<Rightarrow> CostProfile option" where
  "firstFetched K k ref reports = (case List.find (\<lambda>r. urs_CostProfileRef (ur_Spec r) = ref \<and> fetched K k r \<noteq> None) reports of
     None \<Rightarrow> None | Some r \<Rightarrow> fetched K k r)"

lemma fetch_fold: "map_of (fold (fetchProfile K k) reports m) ref =
    (case map_of m ref of Some p \<Rightarrow> Some p | None \<Rightarrow> firstFetched K k ref reports)"
proof (induction reports arbitrary: m)
  case (Cons r rs)
  have "map_of (fetchProfile K k r m) ref = (case map_of m ref of Some p \<Rightarrow> Some p
    | None \<Rightarrow> if urs_CostProfileRef (ur_Spec r) = ref then fetched K k r else None)"
    by (auto simp: fetchProfile_def fetched_def gm_has_def Let_def split: option.split sum.split)
  then show ?case using Cons.IH [of "fetchProfile K k r m"]
    by (auto simp: firstFetched_def split: option.split)
qed (simp add: firstFetched_def split: option.split)

text \<open>When all reports that share a reference find the same profile, the order of the reports does not matter.\<close>

lemma firstFetched_iff:
  assumes "\<forall>r1 \<in> set reports. \<forall>r2 \<in> set reports. urs_CostProfileRef (ur_Spec r1) = urs_CostProfileRef (ur_Spec r2)
      \<longrightarrow> fetched K k r1 \<noteq> None \<longrightarrow> fetched K k r2 \<noteq> None \<longrightarrow> fetched K k r1 = fetched K k r2"
  shows "firstFetched K k ref reports = Some p \<longleftrightarrow> (\<exists>r \<in> set reports. urs_CostProfileRef (ur_Spec r) = ref \<and> fetched K k r = Some p)"
proof (cases "List.find (\<lambda>r. urs_CostProfileRef (ur_Spec r) = ref \<and> fetched K k r \<noteq> None) reports")
  case None
  then have "\<forall>r \<in> set reports. urs_CostProfileRef (ur_Spec r) = ref \<longrightarrow> fetched K k r = None" by (auto simp: find_None_iff)
  moreover have "firstFetched K k ref reports = None" unfolding firstFetched_def None by simp
  ultimately show ?thesis by auto
next
  case (Some r)
  then have r: "r \<in> set reports" "urs_CostProfileRef (ur_Spec r) = ref" "fetched K k r \<noteq> None" by (auto simp: find_Some_iff)
  have "fetched K k r' = fetched K k r" if "r' \<in> set reports" "urs_CostProfileRef (ur_Spec r') = ref" "fetched K k r' = Some q" for r' q
  proof -
    have "fetched K k r' \<noteq> None" "urs_CostProfileRef (ur_Spec r') = urs_CostProfileRef (ur_Spec r)" using that r(2) by simp_all
    then show ?thesis using assms that(1) r(1,3) by blast
  qed
  moreover have "firstFetched K k ref reports = fetched K k r" unfolding firstFetched_def Some by simp
  ultimately show ?thesis using r(1,2) by metis
qed

text \<open>C27 The export is reproducible: two runs of the command, each with its own implementation of \<open>sort.Slice\<close> and on a listing of the same reports in its own
  order, end in the same file or the same error, when the cluster answers both alike, report names are distinct in a namespace, as models are in a report,
  and no two reports find different profiles under the same name (as is the case when one namespace is exported; without it the order of the listing decides,
  see \<open>export_profile_by_name\<close>).\<close>

theorem focus_deterministic:
  assumes "good_sorts S" and "good_sorts S'"
    and "ec_listReports K k namespace = Inr reports" and "ec_listReports K' k' namespace = Inr reports'" and "mset reports = mset reports'"
    and "ec_getProfile K k = ec_getProfile K' k'"
    and "inj_on (\<lambda>r. (om_Namespace (ur_Meta r), om_Name (ur_Meta r))) (set reports)"
    and "\<forall>r \<in> set reports. inj_on (\<lambda>m. (mb_Namespace m, mb_Model m)) (set (ut_ByModel (ur_Status r)))"
    and "\<forall>r1 \<in> set reports. \<forall>r2 \<in> set reports. \<forall>ref p q. urs_CostProfileRef (ur_Spec r1) = ref \<longrightarrow> urs_CostProfileRef (ur_Spec r2) = ref
      \<longrightarrow> ec_getProfile K k (om_Namespace (ur_Meta r1)) ref = Inr p \<longrightarrow> ec_getProfile K k (om_Namespace (ur_Meta r2)) ref = Inr q \<longrightarrow> p = q"
  shows "runExportFocus S zone K k namespace period region = runExportFocus S' zone K' k' namespace period region"
proof -
  let ?sel = "\<lambda>rs. if period \<noteq> [] then filter (\<lambda>r. ut_Period (ur_Status r) = period) rs else rs"
  let ?ps = "fold (fetchProfile K k) (?sel reports) []" and ?ps' = "fold (fetchProfile K' k') (?sel reports') []"
  have keys: "(\<lambda>r. (om_Namespace (ur_Meta r), om_Name (ur_Meta r))) = reportKey" "(\<lambda>m. (mb_Namespace m, mb_Model m)) = breakdownKey"
    by (simp_all add: fun_eq_iff reportKey_def breakdownKey_def)
  have sub: "set (?sel reports) \<subseteq> set reports" and perm: "mset (?sel reports) = mset (?sel reports')" using assms(5) by auto
  have fe: "fetched K' k' = fetched K k" by (simp add: fun_eq_iff fetched_def assms(6))
  have con: "\<forall>r1 \<in> set rs. \<forall>r2 \<in> set rs. urs_CostProfileRef (ur_Spec r1) = urs_CostProfileRef (ur_Spec r2)
      \<longrightarrow> fetched K k r1 \<noteq> None \<longrightarrow> fetched K k r2 \<noteq> None \<longrightarrow> fetched K k r1 = fetched K k r2" if "set rs \<subseteq> set reports" for rs
  proof (intro ballI impI)
    fix r1 r2
    assume r: "r1 \<in> set rs" "r2 \<in> set rs" "urs_CostProfileRef (ur_Spec r1) = urs_CostProfileRef (ur_Spec r2)"
      and f: "fetched K k r1 \<noteq> None" "fetched K k r2 \<noteq> None"
    obtain p q where "ec_getProfile K k (om_Namespace (ur_Meta r1)) (urs_CostProfileRef (ur_Spec r2)) = Inr p"
      "ec_getProfile K k (om_Namespace (ur_Meta r2)) (urs_CostProfileRef (ur_Spec r2)) = Inr q"
      using f by (auto simp: fetched_def r(3) split: sum.splits)
    moreover from this have "p = q" using assms(9) r that by blast
    ultimately show "fetched K k r1 = fetched K k r2" by (simp add: fetched_def r(3))
  qed
  have set: "set (?sel reports') = set (?sel reports)" using arg_cong [OF perm, of set_mset] unfolding set_mset_mset by (rule sym)
  have "firstFetched K k ref (?sel reports) = Some p \<longleftrightarrow> firstFetched K' k' ref (?sel reports') = Some p" for ref p
    unfolding firstFetched_iff [OF con [OF sub]] firstFetched_iff [of "?sel reports'" K' k', unfolded fe set, OF con [OF sub]] fe set ..
  then have "firstFetched K k ref (?sel reports) = firstFetched K' k' ref (?sel reports')" for ref by (metis not_Some_eq)
  then have "map_of ?ps = map_of ?ps'" by (simp add: fun_eq_iff fetch_fold)
  moreover have "inj_on reportKey (set (?sel reports))" "\<forall>r \<in> set (?sel reports). inj_on breakdownKey (set (ut_ByModel (ur_Status r)))"
    using assms(7,8) sub unfolding keys by (blast intro: inj_on_subset)+
  ultimately have "Write S zone \<lparr>xi_Reports = ?sel reports, xi_Profiles = ?ps, xi_Region = region\<rparr>
      = Write S' zone \<lparr>xi_Reports = ?sel reports', xi_Profiles = ?ps', xi_Region = region\<rparr>"
    by (intro write_deterministic [OF assms(1,2) perm])
  moreover have "length (?sel reports) = length (?sel reports')" using arg_cong [OF perm, of size] unfolding size_mset .
  ultimately show ?thesis
    unfolding runExportFocus_def fetchReportsAndProfiles_def assms(3,4) sum.case Let_def prod.case by simp
qed

text \<open>The export looks profiles up by their name alone: the economics shown for a report are those of the profile that the first listed report with
  the same reference found in its own namespace.  So two reports that refer to profiles of the same name in
  different namespaces are exported with the figures of one of them, and a report whose profile is gone shows another
  namespace's.\<close>

theorem export_profile_by_name:
  assumes "ec_listReports K k namespace = Inr reports" and "fetchReportsAndProfiles K k namespace [] = Inr (rs, profiles)"
  shows "rs = reports \<and> map_of profiles ref = firstFetched K k ref reports
    \<and> (\<forall>r1 rest r2 p. reports = r1 # rest \<and> r2 \<in> set rest \<and> urs_CostProfileRef (ur_Spec r2) = urs_CostProfileRef (ur_Spec r1)
        \<and> fetched K k r1 = Some p \<longrightarrow> gm_get zeroProfile profiles (urs_CostProfileRef (ur_Spec r2)) = p)"
proof -
  have p: "rs = reports" "profiles = fold (fetchProfile K k) reports []"
    using assms by (auto simp: fetchReportsAndProfiles_def)
  have m: "map_of profiles x = firstFetched K k x reports" for x by (simp add: p(2) fetch_fold)
  then show ?thesis using p(1) by (auto simp: gm_get_def firstFetched_def)
qed

definition two_namespaces :: "unit export_client" where
  "two_namespaces = \<lparr>ec_listReports = \<lambda>_ _. Inr [demo_usage ''a'' [], (demo_usage ''b'' [])\<lparr>ur_Meta := \<lparr>om_Name = ''b'', om_Namespace = ''web'', om_CreationTimestamp = 0\<rparr>\<rparr>],
     ec_getProfile = \<lambda>_ ns _. Inr (zeroProfile\<lparr>prof_Meta := \<lparr>om_Name = ''gpu'', om_Namespace = ns, om_CreationTimestamp = 0\<rparr>\<rparr>)\<rparr>"

theorem export_profile_by_name_witness:
  "\<exists>rs profiles. fetchReportsAndProfiles two_namespaces () [] [] = Inr (rs, profiles)
    \<and> (\<exists>r \<in> set rs. om_Namespace (ur_Meta r) = ''web''
      \<and> om_Namespace (prof_Meta (gm_get zeroProfile profiles (urs_CostProfileRef (ur_Spec r)))) = ''ml'')"
proof -
  let ?a = "demo_usage ''a'' []" and ?b = "(demo_usage ''b'' [])\<lparr>ur_Meta := \<lparr>om_Name = ''b'', om_Namespace = ''web'', om_CreationTimestamp = 0\<rparr>\<rparr>"
  have l: "ec_listReports two_namespaces () [] = Inr [?a, ?b]" by (simp add: two_namespaces_def)
  then obtain rs profiles where f: "fetchReportsAndProfiles two_namespaces () [] [] = Inr (rs, profiles)"
    by (simp add: fetchReportsAndProfiles_def)
  have "rs = [?a, ?b] \<and> gm_get zeroProfile profiles (urs_CostProfileRef (ur_Spec ?b)) =
      zeroProfile\<lparr>prof_Meta := \<lparr>om_Name = ''gpu'', om_Namespace = ''ml'', om_CreationTimestamp = 0\<rparr>\<rparr>"
    using export_profile_by_name [OF l f, of "urs_CostProfileRef (ur_Spec ?b)"]
    by (simp add: gm_get_def firstFetched_def fetched_def two_namespaces_def demo_usage_def)
  then show ?thesis using f by auto
qed

text \<open>One cluster, listed in two orders, and its file.\<close>

definition listing :: "UsageReport list \<Rightarrow> unit export_client" where
  "listing rs = \<lparr>ec_listReports = \<lambda>_ _. Inr rs, ec_getProfile = \<lambda>_ _ _. Inr (zeroProfile\<lparr>prof_Spec := (prof_Spec zeroProfile)\<lparr>cps_Electricity :=
     \<lparr>es_RatePerKWh = lit (8/100), es_PUEFactor = lit (11/10), es_IdleWattsThreshold = None\<rparr>\<rparr>\<rparr>)\<rparr>"

theorem focus_deterministic_witness:
  "\<exists>file. runExportFocus stable_sorts (\<lambda>t. 0) (listing [demo_usage ''b'' [''x'', ''a''], demo_usage ''a'' []]) () ''ml'' [] ''dc1'' = Inr file
    \<and> runExportFocus stable_sorts (\<lambda>t. 0) (listing [demo_usage ''a'' [], demo_usage ''b'' [''x'', ''a'']]) () ''ml'' [] ''dc1'' = Inr file"
proof -
  let ?r1 = "[demo_usage ''b'' [''x'', ''a''], demo_usage ''a'' []]" and ?r2 = "[demo_usage ''a'' [], demo_usage ''b'' [''x'', ''a'']]"
  have "ec_listReports (listing rs) () ''ml'' = Inr rs" for rs by (simp add: listing_def)
  then have "runExportFocus stable_sorts (\<lambda>t. 0) (listing ?r1) () ''ml'' [] ''dc1'' = runExportFocus stable_sorts (\<lambda>t. 0) (listing ?r2) () ''ml'' [] ''dc1''"
    by (rule focus_deterministic [OF good_stable good_stable]) (auto simp: listing_def demo_usage_def inj_on_def)
  moreover have "\<exists>file. runExportFocus stable_sorts (\<lambda>t. 0) (listing ?r1) () ''ml'' [] ''dc1'' = Inr file"
    by (simp add: runExportFocus_def fetchReportsAndProfiles_def listing_def Let_def)
  ultimately show ?thesis by auto
qed

theorem export_economics_exact_witness:
  "\<exists>row rate. exportRows stable_sorts (\<lambda>t. 0) \<lparr>xi_Reports = [demo_usage ''a'' []], xi_Profiles = [(''gpu'', zeroProfile\<lparr>prof_Spec := (prof_Spec zeroProfile)\<lparr>cps_Electricity :=
      \<lparr>es_RatePerKWh = lit (8/100), es_PUEFactor = lit 1, es_IdleWattsThreshold = None\<rparr>\<rparr>\<rparr>)], xi_Region = ''dc1''\<rparr> = [row]
    \<and> column ''x-InferElectricityRatePerKWh'' row = Some rate \<and> xrnd (signed_value rate) = fval (lit (8/100))"
proof -
  let ?p = "zeroProfile\<lparr>prof_Spec := (prof_Spec zeroProfile)\<lparr>cps_Electricity := \<lparr>es_RatePerKWh = lit (8/100), es_PUEFactor = lit 1, es_IdleWattsThreshold = None\<rparr>\<rparr>\<rparr>"
  let ?in = "\<lparr>xi_Reports = [demo_usage ''a'' []], xi_Profiles = [(''gpu'', ?p)], xi_Region = ''dc1''\<rparr>"
  obtain row where row: "exportRows stable_sorts (\<lambda>t. 0) ?in = [row]"
    by (simp add: exportRows_def stable_sorts_def rowsForReport_def demo_usage_def Let_def)
  have "is_fin (lit (8/100))" "is_fin (lit 1)" "is_fin (0 :: f64)" by code_simp+
  then have fin: "\<forall>p \<in> insert zeroProfile (snd ` set (xi_Profiles ?in)). is_fin (es_RatePerKWh (cps_Electricity (prof_Spec p))) \<and> is_fin (es_PUEFactor (cps_Electricity (prof_Spec p)))"
    by (simp add: zeroProfile_def)
  have h: "row \<in> set (exportRows stable_sorts (\<lambda>t. 0) ?in)" unfolding row by (rule list.set_intros)
  from export_economics_exact [OF h good_stable fin] show ?thesis using row by (auto simp: demo_usage_def gm_get_def)
qed

end
