(* ===== verification/CliRoot.thy ===== *)
theory CliRoot
  imports CliFacts Focus
begin

text \<open>
  \<open>cmd/infercost\<close> and the command tree of \<open>pkg/cli\<close>: the commands with their flags and what each runs, the file the export
  writes, and the exit status.  Finding the command of an argument list and parsing its flags is cobra's, the file system the
  operating system's: both are arguments.
\<close>

subsection \<open>The API group\<close>

record groupVersion =
  gv_Group :: gostring
  gv_Version :: gostring

definition GroupVersion :: groupVersion where
  "GroupVersion = \<lparr>gv_Group = ''finops.infercost.ai'', gv_Version = ''v1alpha1''\<rparr>"

text \<open>What the \<open>init\<close> functions of the package register under it, by the names of the Go types, which are the kinds.\<close>

definition costprofile_init :: "gostring list" where
  "costprofile_init = [''CostProfile'', ''CostProfileList'']"

definition usagereport_init :: "gostring list" where
  "usagereport_init = [''UsageReport'', ''UsageReportList'']"

definition tokenbudget_init :: "gostring list" where
  "tokenbudget_init = [''TokenBudget'', ''TokenBudgetList'']"

record groupVersionResource = groupVersion +
  gv_Resource :: gostring

definition tokenBudgetGVR :: groupVersionResource where
  "tokenBudgetGVR = \<lparr>gv_Group = ''finops.infercost.ai'', gv_Version = ''v1alpha1'', gv_Resource = ''tokenbudgets''\<rparr>"

text \<open>
  The kinds are registered once each, and the dynamic client of the command line reads the resource of a registered kind (its
  plural in lower case) under the group and version the operator serves.
\<close>

lemma registered_kinds:
  "distinct (costprofile_init @ usagereport_init @ tokenbudget_init)"
  "groupVersion.truncate tokenBudgetGVR = GroupVersion"
  "\<exists>kind \<in> set tokenbudget_init. gv_Resource tokenBudgetGVR = to_lower kind @ ''s''"
  subgoal by (simp add: costprofile_init_def usagereport_init_def tokenbudget_init_def)
  subgoal by (simp add: tokenBudgetGVR_def GroupVersion_def groupVersion.truncate_def)
  subgoal by (simp add: tokenbudget_init_def tokenBudgetGVR_def) code_simp
  done

subsection \<open>Commands\<close>

datatype flagValue = FString gostring | FBool bool | FInt int

record flag =
  fd_Name :: gostring
  fd_Shorthand :: gostring
  fd_Default :: flagValue
  fd_Usage :: gostring

text \<open>What was typed for a flag, by its name; a flag that was not typed has its default.\<close>

type_synonym parsed = "gostring \<Rightarrow> flagValue option"

definition flag_value :: "parsed \<Rightarrow> flag \<Rightarrow> flagValue" where
  "flag_value given fl = (case given (fd_Name fl) of Some v \<Rightarrow> v | None \<Rightarrow> fd_Default fl)"

fun string_of :: "flagValue \<Rightarrow> gostring" where
  "string_of (FString s) = s"
| "string_of _ = []"

fun bool_of :: "flagValue \<Rightarrow> bool" where
  "bool_of (FBool b) = b"
| "bool_of _ = False"

fun int_of :: "flagValue \<Rightarrow> int" where
  "int_of (FInt i) = i"
| "int_of _ = 0"

record cmdResult =
  cr_end :: cliExit
  cr_out :: "chunk list"
  cr_err :: gostring

text \<open>A command, on a state of the file system; one without a \<open>run\<close> only groups others.\<close>

datatype 'f command = Command (co_Use: gostring) (co_Short: gostring) (co_Long: "gostring list") (co_Example: "gostring list")
  (co_flags: "flag list") (co_run: "(parsed \<Rightarrow> 'f \<Rightarrow> cmdResult \<times> 'f) option") (co_subs: "'f command list")

text \<open>A run that prints and leaves the files alone.\<close>

definition printing :: "cliExit \<times> chunk list \<Rightarrow> 'f \<Rightarrow> cmdResult \<times> 'f" where
  "printing res f = (\<lparr>cr_end = fst res, cr_out = snd res, cr_err = []\<rparr>, f)"

text \<open>
  What a process finds: the cluster, the sorting and the zone of the export, the files (\<open>os.Create\<close>, the writes of the CSV
  writer to a file or to the standard output, with their errors), and the variables set at build time.
\<close>

record 'f file_ops =
  fo_create :: "gostring \<Rightarrow> 'f \<Rightarrow> gostring + 'f"
  fo_write :: "gostring \<Rightarrow> gostring \<Rightarrow> 'f \<Rightarrow> gostring option \<times> 'f"
  fo_stdout :: "gostring \<Rightarrow> gostring option"

record ('u, 'k, 'f) cliProcess =
  cp_env :: "'u cliEnv"
  cp_sorts :: slice_sorts
  cp_zone :: "gotime \<Rightarrow> duration"
  cp_client :: "'k export_client"
  cp_kube :: 'k
  cp_files :: "'f file_ops"
  cp_Version :: gostring
  cp_GitCommit :: gostring
  cp_BuildDate :: gostring

subsection \<open>status, compare, budget, users, version\<close>

record statusOptions =
  sto_namespace :: gostring
  sto_allNamespaces :: bool

definition namespaceFlag :: "gostring \<Rightarrow> flag" where
  "namespaceFlag usage = \<lparr>fd_Name = ''namespace'', fd_Shorthand = ''n'', fd_Default = FString [], fd_Usage = usage\<rparr>"

definition allNamespacesFlag :: "gostring \<Rightarrow> flag" where
  "allNamespacesFlag usage = \<lparr>fd_Name = ''all-namespaces'', fd_Shorthand = ''A'', fd_Default = FBool False, fd_Usage = usage\<rparr>"

definition NewStatusCommand :: "('u, 'k, 'f) cliProcess \<Rightarrow> 'f command" where
  "NewStatusCommand P = (let
     namespace = namespaceFlag ''Kubernetes namespace (default: all)'';
     allNamespaces = allNamespacesFlag ''Show costs across all namespaces''
   in Command ''status'' ''Show current inference cost status'' [
     ''Display real-time cost data for all CostProfiles and inference workloads.'', [],
     ''Shows hardware costs, GPU power draw, active models, token throughput,'',
     ''and cost-per-token computed from live metrics.''] []
     [namespace, allNamespaces]
     (Some (\<lambda>given. let opts = \<lparr>sto_namespace = string_of (flag_value given namespace),
           sto_allNamespaces = bool_of (flag_value given allNamespaces)\<rparr>
         in printing (runStatus (cp_env P) (sto_namespace opts))))
     [])"

record compareOptions =
  cmo_namespace :: gostring
  cmo_monthly :: bool

definition NewCompareCommand :: "('u, 'k, 'f) cliProcess \<Rightarrow> 'f command" where
  "NewCompareCommand P = (let
     namespace = namespaceFlag ''Kubernetes namespace (default: all)'';
     monthly = \<lparr>fd_Name = ''monthly'', fd_Shorthand = [], fd_Default = FBool False, fd_Usage = ''Project costs to monthly estimates''\<rparr>
   in Command ''compare'' ''Compare on-prem costs to cloud API pricing'' [
     ''Show a detailed comparison of your on-premises inference costs against'',
     ''major cloud API providers (OpenAI, Anthropic, Google).'', [],
     ''Costs are computed from actual hardware economics and real GPU power draw,'',
     ''compared against verified list prices for cloud APIs.'', [], ''Cloud pricing last verified: 2026-03-21'',
     ''Sources: openai.com/pricing, platform.claude.com/pricing, ai.google.dev/pricing''] []
     [namespace, monthly]
     (Some (\<lambda>given. let opts = \<lparr>cmo_namespace = string_of (flag_value given namespace), cmo_monthly = bool_of (flag_value given monthly)\<rparr>
         in printing (runCompare (cp_env P) (cmo_namespace opts) (cmo_monthly opts))))
     [])"

record budgetOptions =
  buo_namespace :: gostring
  buo_allNamespaces :: bool

definition NewBudgetCommand :: "('u, 'k, 'f) cliProcess \<Rightarrow> 'f command" where
  "NewBudgetCommand P = (let
     namespace = namespaceFlag ''Kubernetes namespace (default: all)'';
     allNamespaces = allNamespacesFlag ''Show budgets across all namespaces''
   in Command ''budget'' ''List TokenBudget resources and spend status'' [
     ''Display all TokenBudget resources showing monthly spend limits,'', ''current utilization, and alert status.'', [],
     ''TokenBudgets track inference spend per namespace and generate'',
     ''Prometheus alerts when configured thresholds are exceeded.''] []
     [namespace, allNamespaces]
     (Some (\<lambda>given. let opts = \<lparr>buo_namespace = string_of (flag_value given namespace),
           buo_allNamespaces = bool_of (flag_value given allNamespaces)\<rparr>
         in printing (runBudget (cp_env P) (buo_namespace opts))))
     [])"

record usersOptions =
  uso_namespace :: gostring
  uso_top :: int

definition NewUsersCommand :: "'f command" where
  "NewUsersCommand = (let
     namespace = namespaceFlag ''Kubernetes namespace'';
     top = \<lparr>fd_Name = ''top'', fd_Shorthand = [], fd_Default = FInt 10, fd_Usage = ''Number of top users to display''\<rparr>
   in Command ''users'' ''Show per-user inference cost attribution'' [
     ''Display per-user cost attribution for inference workloads.'', [],
     ''Requires LiteLLM integration to be configured on the InferCost operator.'',
     ''LiteLLM provides API key management and per-user request routing, which'',
     ''InferCost uses to attribute costs to individual users.''] []
     [namespace, top]
     (Some (\<lambda>given. let opts = \<lparr>uso_namespace = string_of (flag_value given namespace), uso_top = int_of (flag_value given top)\<rparr>
         in printing runUsers))
     [])"

definition NewVersionCommand :: "('u, 'k, 'f) cliProcess \<Rightarrow> 'f command" where
  "NewVersionCommand P = Command ''version'' ''Print the InferCost version'' [] [] []
     (Some (\<lambda>given. printing (CliOk, versionLine (cp_Version P) (cp_GitCommit P) (cp_BuildDate P)))) []"

subsection \<open>export\<close>

record exportFocusOptions =
  exo_namespace :: gostring
  exo_output :: gostring
  exo_period :: gostring
  exo_region :: gostring

text \<open>The number of reports that are written.\<close>

definition reportCount :: "('u, 'k, 'f) cliProcess \<Rightarrow> exportFocusOptions \<Rightarrow> nat" where
  "reportCount P opts = (case fetchReportsAndProfiles (cp_client P) (cp_kube P) (exo_namespace opts) (exo_period opts) of
     Inl err \<Rightarrow> 0 | Inr (reports, profiles) \<Rightarrow> length reports)"

text \<open>The file is created when there is something to write; the error of its \<open>Close\<close> is dropped.\<close>

definition exportFocus :: "('u, 'k, 'f) cliProcess \<Rightarrow> exportFocusOptions \<Rightarrow> 'f \<Rightarrow> cmdResult \<times> 'f" where
  "exportFocus P opts f = (let failed = (\<lambda>err. \<lparr>cr_end = CliErr err, cr_out = [], cr_err = []\<rparr>) in
     case newK8sClient (cp_env P) of Inl err \<Rightarrow> (failed err, f)
     | Inr host \<Rightarrow> (case runExportFocus (cp_sorts P) (cp_zone P) (cp_client P) (cp_kube P) (exo_namespace opts) (exo_period opts) (exo_region opts) of
         Inl err \<Rightarrow> (failed err, f)
       | Inr csv \<Rightarrow>
           if exo_output opts = [] then
             (case fo_stdout (cp_files P) csv of
                Some err \<Rightarrow> (failed (''writing FOCUS CSV: '' @ err), f)
              | None \<Rightarrow> (\<lparr>cr_end = CliOk, cr_out = [Out csv], cr_err = []\<rparr>, f))
           else (case fo_create (cp_files P) (exo_output opts) f of
               Inl err \<Rightarrow> (failed (''creating output file: '' @ err), f)
             | Inr f \<Rightarrow> (case fo_write (cp_files P) (exo_output opts) csv f of
                 (Some err, f) \<Rightarrow> (failed (''writing FOCUS CSV: '' @ err), f)
               | (None, f) \<Rightarrow> (\<lparr>cr_end = CliOk, cr_out = [],
                   cr_err = ''Wrote '' @ show_int (int (reportCount P opts)) @ '' UsageReports to '' @ exo_output opts @ nl\<rparr>, f)))))"

definition outputFlag :: flag where
  "outputFlag = \<lparr>fd_Name = ''out'', fd_Shorthand = ''o'', fd_Default = FString [], fd_Usage = ''Output file path (default: stdout)''\<rparr>"

definition periodFlag :: flag where
  "periodFlag = \<lparr>fd_Name = ''period'', fd_Shorthand = [], fd_Default = FString [],
     fd_Usage = ''Filter to reports whose status.period matches this value (e.g. 2026-04)''\<rparr>"

definition regionFlag :: flag where
  "regionFlag = \<lparr>fd_Name = ''region'', fd_Shorthand = [], fd_Default = FString [],
     fd_Usage = ''Value for the FOCUS Region column (e.g. data center or cluster name)''\<rparr>"

definition exportOptions :: "parsed \<Rightarrow> exportFocusOptions" where
  "exportOptions given = \<lparr>exo_namespace = string_of (flag_value given (namespaceFlag ''Kubernetes namespace (default: all)'')),
     exo_output = string_of (flag_value given outputFlag), exo_period = string_of (flag_value given periodFlag),
     exo_region = string_of (flag_value given regionFlag)\<rparr>"

definition newExportFocusCommand :: "('u, 'k, 'f) cliProcess \<Rightarrow> 'f command" where
  "newExportFocusCommand P = Command ''focus'' ''Export usage reports as FOCUS-compatible CSV'' [
     ''Export UsageReport data as a FOCUS (FinOps Open Cost and Usage Specification)'',
     ''compatible CSV. Standard FOCUS v1 columns are populated for billing/usage'',
     ''integration; on-prem inference specifics (GPU model, token counts, power,'',
     ''cloud-equivalent cost) live in x-Infer* extension columns.'', [],
     ''Importable into Kubecost, Cloudability, or any FOCUS-aware BI pipeline.'',
     ''See docs/focus-export.md for the full schema.'']
     [
     ''  # Write a CSV for all UsageReports in the cluster'', ''  infercost export focus --out report.csv'', [],
     ''  # Scope to one namespace and tag with region for multi-cluster rollups'',
     ''  infercost export focus --namespace engineering --region us-east-1 --out eng.csv'', [],
     ''  # Stream to stdout for piping into analysis'',
     ''  infercost export focus | awk -F, '' @ [CHR 0x27] @ ''$1>0'' @ [CHR 0x27]]
     [namespaceFlag ''Kubernetes namespace (default: all)'', outputFlag, periodFlag, regionFlag]
     (Some (\<lambda>given. exportFocus P (exportOptions given))) []"

definition NewExportCommand :: "('u, 'k, 'f) cliProcess \<Rightarrow> 'f command" where
  "NewExportCommand P = Command ''export'' ''Export InferCost data in interchange formats''
     [''Export InferCost cost data in formats that drop into external FinOps tooling.''] [] [] None [newExportFocusCommand P]"

subsection \<open>The root and the process\<close>

definition NewRootCommand :: "('u, 'k, 'f) cliProcess \<Rightarrow> 'f command" where
  "NewRootCommand P = Command ''infercost'' ''True cost intelligence for on-prem AI inference'' [
     ''InferCost: Know the true cost of AI inference on your hardware.'', [],
     ''Computes real cost-per-token from GPU hardware amortization, electricity,'',
     ''and actual power draw. Compares against cloud API pricing to show savings.'', [],
     ''InferCost works with any Kubernetes inference stack. First-class integration'', ''with LLMKube, llama.cpp, and vLLM.''] [] [] None
     [NewStatusCommand P, NewCompareCommand P, NewBudgetCommand P, NewUsersCommand, NewExportCommand P, NewVersionCommand P]"

text \<open>
  \<open>Execute\<close>: cobra finds the command of the arguments and parses its flags, or fails; a command without a run prints its help.
\<close>

type_synonym 'f finder = "'f command \<Rightarrow> gostring list \<Rightarrow> gostring + 'f command \<times> parsed"

definition Execute :: "'f finder \<Rightarrow> ('f command \<Rightarrow> chunk list) \<Rightarrow> 'f command \<Rightarrow> gostring list \<Rightarrow> 'f \<Rightarrow> cmdResult \<times> 'f" where
  "Execute resolve help rootCmd argv f = (case resolve rootCmd argv of
     Inl err \<Rightarrow> (\<lparr>cr_end = CliErr err, cr_out = [], cr_err = []\<rparr>, f)
   | Inr (c, given) \<Rightarrow> (case co_run c of None \<Rightarrow> printing (CliOk, help c) f | Some run \<Rightarrow> run given f))"

text \<open>The exit status, with what the process prints; a panic ends a Go process with status 2.\<close>

definition cliMain :: "'f finder \<Rightarrow> ('f command \<Rightarrow> chunk list) \<Rightarrow> ('u, 'k, 'f) cliProcess \<Rightarrow> gostring list \<Rightarrow> 'f \<Rightarrow> nat \<times> cmdResult \<times> 'f" where
  "cliMain resolve help P argv f = (let (res, f) = Execute resolve help (NewRootCommand P) argv f in
     case cr_end res of
       CliOk \<Rightarrow> (0, res, f)
     | CliErr err \<Rightarrow> (1, res\<lparr>cr_err := cr_err res @ err @ nl\<rparr>, f)
     | CliPanic err \<Rightarrow> (2, res\<lparr>cr_err := cr_err res @ err\<rparr>, f))"

subsection \<open>Flags\<close>

fun commands :: "'f command \<Rightarrow> 'f command list" where
  "commands (Command use short long example flags run subs) = Command use short long example flags run subs # concat (map commands subs)"

lemma commands_root: "commands (NewRootCommand P) = [NewRootCommand P, NewStatusCommand P, NewCompareCommand P, NewBudgetCommand P,
    NewUsersCommand, NewExportCommand P, newExportFocusCommand P, NewVersionCommand P]"
  by (simp add: NewRootCommand_def NewStatusCommand_def NewCompareCommand_def NewBudgetCommand_def NewUsersCommand_def
    NewExportCommand_def newExportFocusCommand_def NewVersionCommand_def Let_def)

lemmas command_defs = NewStatusCommand_def NewCompareCommand_def NewBudgetCommand_def NewUsersCommand_def NewExportCommand_def
  newExportFocusCommand_def NewVersionCommand_def NewRootCommand_def namespaceFlag_def allNamespacesFlag_def outputFlag_def
  periodFlag_def regionFlag_def Let_def

text \<open>No command declares a name or a shorthand twice or takes those of cobra's own help flag, at which the flag package panics.\<close>

lemma flags_distinct:
  assumes "c \<in> set (commands (NewRootCommand P))"
  shows "distinct (''help'' # map fd_Name (co_flags c))" and "distinct (''h'' # filter (\<lambda>s. s \<noteq> []) (map fd_Shorthand (co_flags c)))"
  using assms unfolding commands_root by (auto simp: command_defs)

text \<open>\<open>--all-namespaces\<close> is parsed and never read.\<close>

lemma all_namespaces_ignored:
  assumes "c = NewStatusCommand P \<or> c = NewBudgetCommand P"
  shows "the (co_run c) (given(''all-namespaces'' := v)) = the (co_run c) given"
  using assms by (auto simp: command_defs flag_value_def)

subsection \<open>What a run leaves behind\<close>

text \<open>The promises of cobra, that it finds a command of the tree or one it adds itself (help, completion), which only prints, and of the file system.\<close>

definition only_prints :: "'f command \<Rightarrow> bool" where
  "only_prints d = (\<forall>run given f. co_run d = Some run \<longrightarrow> snd (run given f) = f)"


locale cobra =
  fixes resolve :: "'f finder"
  assumes resolved: "resolve c argv = Inr (d, given) \<Longrightarrow> d \<in> set (commands c) \<or> only_prints d"

locale file_system =
  fixes F :: "'f file_ops" and content :: "'f \<Rightarrow> gostring \<Rightarrow> gostring option"
  assumes created: "fo_create F path f = Inr f' \<Longrightarrow> content f' = (content f)(path \<mapsto> [])"
    and elsewhere: "fo_write F path text f = (err, f') \<Longrightarrow> other \<noteq> path \<Longrightarrow> content f' other = content f other"
    and written: "fo_write F path text f = (None, f') \<Longrightarrow> content f path = Some old \<Longrightarrow> content f' path = Some (old @ text)"
begin

lemma export_cases:
  assumes "cp_files P = F" and "exportFocus P opts f = (r, f')"
  shows "f' = f \<and> (cr_end r = CliOk \<longrightarrow> exo_output opts = [])
    \<or> (exo_output opts \<noteq> [] \<and> (\<forall>path. path \<noteq> exo_output opts \<longrightarrow> content f' path = content f path)
      \<and> (\<exists>csv. runExportFocus (cp_sorts P) (cp_zone P) (cp_client P) (cp_kube P) (exo_namespace opts) (exo_period opts)
            (exo_region opts) = Inr csv \<and> (cr_end r = CliOk \<longrightarrow> content f' (exo_output opts) = Some csv)))"
proof (cases "runExportFocus (cp_sorts P) (cp_zone P) (cp_client P) (cp_kube P) (exo_namespace opts) (exo_period opts) (exo_region opts)")
  case (Inr csv)
  show ?thesis
  proof (cases "fo_create F (exo_output opts) f")
    case created_file: (Inr f1)
    obtain e f2 where w: "fo_write F (exo_output opts) csv f1 = (e, f2)" by (cases "fo_write F (exo_output opts) csv f1")
    have "content f2 path = content f path" if "path \<noteq> exo_output opts" for path
      using created [OF created_file] elsewhere [OF w that] that by simp
    moreover have "content f2 (exo_output opts) = Some csv" if "e = None"
      using created [OF created_file] written [of "exo_output opts" csv f1 f2 "[]"] w that by simp
    ultimately show ?thesis
      using assms Inr created_file w by (auto simp: exportFocus_def Let_def split: sum.splits option.splits if_splits)
  qed (use assms Inr in \<open>auto simp: exportFocus_def Let_def split: sum.splits option.splits if_splits\<close>)
qed (use assms in \<open>auto simp: exportFocus_def Let_def split: sum.splits\<close>)

end

text \<open>Files as a map from paths, and a cobra that adds a help command and goes down the tree by the words of the command, without flags.\<close>

definition map_files :: "(gostring \<rightharpoonup> gostring) file_ops" where
  "map_files = \<lparr>fo_create = \<lambda>path f. Inr (f(path \<mapsto> [])),
     fo_write = \<lambda>path text f. (None, f(path \<mapsto> (case f path of Some old \<Rightarrow> old @ text | None \<Rightarrow> text))), fo_stdout = \<lambda>text. None\<rparr>"

interpretation map_files: file_system map_files "\<lambda>f. f"
  by unfold_locales (auto simp: map_files_def)

fun descend :: "'f command \<Rightarrow> gostring list \<Rightarrow> 'f command" where
  "descend c [] = c"
| "descend c (word # words) = (case List.find (\<lambda>d. co_Use d = word) (co_subs c) of None \<Rightarrow> c | Some d \<Rightarrow> descend d words)"

lemma commands_self: "c \<in> set (commands c)"
  by (cases c) simp

lemma descend_command: "descend c words \<in> set (commands c)"
proof (induction c words rule: descend.induct)
  case (2 c word words)
  have sub: "set (commands d) \<subseteq> set (commands c)" if "d \<in> set (co_subs c)" for d
    using that by (cases c) auto
  show ?case
  proof (cases "List.find (\<lambda>d. co_Use d = word) (co_subs c)")
    case (Some d)
    then have "d \<in> set (co_subs c)" by (auto simp: find_Some_iff)
    then show ?thesis using 2 [OF Some] sub Some by auto
  qed (simp add: commands_self)
qed (simp add: commands_self)

definition help_command :: "'f command \<Rightarrow> 'f command" where
  "help_command c = Command ''help [command]'' ''Help about any command'' [] [] [] (Some (\<lambda>given. printing (CliOk, [println (co_Use c)]))) []"

definition plain_cobra :: "(gostring \<Rightarrow> flagValue option) \<Rightarrow> 'f finder" where
  "plain_cobra given c argv = Inr (if argv \<noteq> [] \<and> hd argv = ''help'' then help_command (descend c (tl argv)) else descend c argv, given)"

interpretation plain_cobra: cobra "plain_cobra given" for given
  by unfold_locales (auto simp: plain_cobra_def descend_command only_prints_def help_command_def printing_def split: if_splits)

lemma co_runs:
  "co_run (NewRootCommand P) = None" "co_run (NewExportCommand P) = None"
  "\<exists>res. co_run (NewStatusCommand P) = Some (\<lambda>given. printing (res given))"
  "\<exists>res. co_run (NewCompareCommand P) = Some (\<lambda>given. printing (res given))"
  "\<exists>res. co_run (NewBudgetCommand P) = Some (\<lambda>given. printing (res given))"
  "\<exists>res. co_run (NewVersionCommand P) = Some (\<lambda>given. printing (res given))"
  "co_run (newExportFocusCommand P) = Some (\<lambda>given. exportFocus P (exportOptions given))"
  by (auto simp: command_defs)

lemma run_keeps_files:
  assumes "c \<in> set (commands (NewRootCommand P))" and "co_run c = Some run" and "run given f = (r, f')"
  shows "f' = f \<or> c = newExportFocusCommand P \<and> exportFocus P (exportOptions given) f = (r, f')"
  using assms co_runs [of P] unfolding commands_root by (auto simp: printing_def NewUsersCommand_def Let_def)

lemma execute_keeps_files:
  assumes "cobra resolve" and ex: "Execute resolve help (NewRootCommand P) argv f = (r, f')"
  shows "f' = f \<or> (\<exists>given. resolve (NewRootCommand P) argv = Inr (newExportFocusCommand P, given)
      \<and> exportFocus P (exportOptions given) f = (r, f'))"
proof (cases "resolve (NewRootCommand P) argv")
  case (Inr a)
  obtain c given where a: "a = (c, given)" by (cases a)
  show ?thesis
  proof (cases "co_run c")
    case (Some run)
    have run: "run given f = (r, f')" using ex by (simp add: Execute_def Inr a Some)
    from cobra.resolved [OF assms(1) Inr [unfolded a]] show ?thesis
    proof
      assume "c \<in> set (commands (NewRootCommand P))"
      then show ?thesis using run_keeps_files [OF _ Some run] Inr a by auto
    next
      assume "only_prints c"
      then show ?thesis using Some run by (metis only_prints_def snd_conv)
    qed
  qed (use ex Inr a in \<open>simp add: Execute_def printing_def\<close>)
qed (use ex in \<open>simp add: Execute_def\<close>)

text \<open>C38 The command line changes no file but the one it was told to write: whatever the arguments, a run of \<open>infercost\<close> leaves
  every file as it was unless it is \<open>export focus\<close> with an output file and with reports to export, and then every other file.  Its
  exit status is 0 exactly when the command ended without an error, and with status 0 the output file holds exactly the CSV
  text of the export; whenever the cluster or the selection of reports fails, a file of an earlier export stays untouched.\<close>

theorem cli_writes_one_file:
  assumes "file_system (cp_files P) content" and "cobra resolve" and run: "cliMain resolve help P argv f = (status, r, f')"
  shows "(status = 0 \<longleftrightarrow> cr_end r = CliOk)
    \<and> (f' = f \<or> (\<exists>given csv. resolve (NewRootCommand P) argv = Inr (newExportFocusCommand P, given)
      \<and> exo_output (exportOptions given) \<noteq> []
      \<and> runExportFocus (cp_sorts P) (cp_zone P) (cp_client P) (cp_kube P) (exo_namespace (exportOptions given))
          (exo_period (exportOptions given)) (exo_region (exportOptions given)) = Inr csv
      \<and> (\<forall>path. path \<noteq> exo_output (exportOptions given) \<longrightarrow> content f' path = content f path)
      \<and> (status = 0 \<longrightarrow> content f' (exo_output (exportOptions given)) = Some csv)))
    \<and> (\<forall>given. resolve (NewRootCommand P) argv = Inr (newExportFocusCommand P, given) \<and> exo_output (exportOptions given) \<noteq> []
      \<and> status = 0 \<longrightarrow> (\<exists>csv. runExportFocus (cp_sorts P) (cp_zone P) (cp_client P) (cp_kube P) (exo_namespace (exportOptions given))
          (exo_period (exportOptions given)) (exo_region (exportOptions given)) = Inr csv
        \<and> content f' (exo_output (exportOptions given)) = Some csv))" (is "?status \<and> ?effect \<and> ?output")
proof (intro conjI allI impI)
  obtain res where ex: "Execute resolve help (NewRootCommand P) argv f = (res, f')" and status: "status = 0 \<longleftrightarrow> cr_end res = CliOk"
    and same_end: "cr_end r = cr_end res"
    using run by (auto simp: cliMain_def split: prod.splits cliExit.splits)
  then show ?status by simp
  note cases = file_system.export_cases [OF assms(1) refl]
  show ?effect
  proof (cases "f' = f")
    case False
    with execute_keeps_files [OF assms(2) ex]
    obtain given where given: "resolve (NewRootCommand P) argv = Inr (newExportFocusCommand P, given)"
      and export: "exportFocus P (exportOptions given) f = (res, f')" by blast
    show ?thesis using cases [OF export] False given status by blast
  qed simp
  fix given
  assume typed: "resolve (NewRootCommand P) argv = Inr (newExportFocusCommand P, given) \<and> exo_output (exportOptions given) \<noteq> [] \<and> status = 0"
  then have "exportFocus P (exportOptions given) f = (res, f')"
    using ex by (simp add: Execute_def newExportFocusCommand_def)
  from cases [OF this] show "\<exists>csv. runExportFocus (cp_sorts P) (cp_zone P) (cp_client P) (cp_kube P) (exo_namespace (exportOptions given))
          (exo_period (exportOptions given)) (exo_region (exportOptions given)) = Inr csv
        \<and> content f' (exo_output (exportOptions given)) = Some csv"
    using typed status by blast
qed

text \<open>A report of the cluster, exported over an older file next to another one.\<close>

definition demo_export :: "(unit, unit, gostring \<rightharpoonup> gostring) cliProcess" where
  "demo_export = \<lparr>cp_env = demo_cli (\<lambda>url. Inl (NoResponse ''refused'')) [], cp_sorts = stable_sorts, cp_zone = \<lambda>_. 0,
     cp_client = two_namespaces, cp_kube = (), cp_files = map_files, cp_Version = ''dev'', cp_GitCommit = ''unknown'', cp_BuildDate = ''unknown''\<rparr>"

lemma demo_export_fields: "cp_env demo_export = demo_cli (\<lambda>url. Inl (NoResponse ''refused'')) []" "cp_sorts demo_export = stable_sorts"
    "cp_zone demo_export = (\<lambda>_. 0)" "cp_client demo_export = two_namespaces" "cp_kube demo_export = ()" "cp_files demo_export = map_files"
  by (simp_all add: demo_export_def)

definition demo_given :: parsed where
  "demo_given = [''out'' \<mapsto> FString ''a.csv'']"

definition demo_files :: "gostring \<rightharpoonup> gostring" where
  "demo_files = [''a.csv'' \<mapsto> ''old'', ''b.csv'' \<mapsto> ''keep'']"

lemma demo_resolved: "plain_cobra demo_given (NewRootCommand demo_export) [''export'', ''focus''] = Inr (newExportFocusCommand demo_export, demo_given)"
  by (simp add: plain_cobra_def command_defs)

lemma demo_options: "exportOptions demo_given = \<lparr>exo_namespace = [], exo_output = ''a.csv'', exo_period = [], exo_region = []\<rparr>"
  by (simp add: exportOptions_def demo_given_def flag_value_def namespaceFlag_def outputFlag_def periodFlag_def regionFlag_def)

lemma demo_csv: "\<exists>csv. runExportFocus stable_sorts (\<lambda>_. 0) two_namespaces () [] [] [] = Inr csv"
  by (simp add: runExportFocus_def fetchReportsAndProfiles_def two_namespaces_def Let_def)

theorem cli_writes_one_file_witness:
  "\<exists>r f' csv. cliMain (plain_cobra demo_given) (\<lambda>c. []) demo_export [''export'', ''focus''] demo_files = (0, r, f')
    \<and> runExportFocus stable_sorts (\<lambda>_. 0) two_namespaces () [] [] [] = Inr csv \<and> f' ''a.csv'' = Some csv \<and> f' ''b.csv'' = Some ''keep''"
proof -
  obtain csv where csv: "runExportFocus stable_sorts (\<lambda>_. 0) two_namespaces () [] [] [] = Inr csv" using demo_csv by blast
  obtain status r f' where call: "cliMain (plain_cobra demo_given) (\<lambda>c. []) demo_export [''export'', ''focus''] demo_files = (status, r, f')"
    by (cases "cliMain (plain_cobra demo_given) (\<lambda>c. []) demo_export [''export'', ''focus''] demo_files")
  note facts = cli_writes_one_file [OF map_files.file_system_axioms [folded demo_export_fields(6)] plain_cobra.cobra_axioms call]
  have "status = 0"
    using call csv by (auto simp: cliMain_def Execute_def demo_resolved newExportFocusCommand_def demo_options exportFocus_def
      demo_cli_fields demo_export_fields map_files_def Let_def)
  moreover have "exo_output (exportOptions demo_given) = ''a.csv''" by (simp add: demo_options)
  ultimately have "f' ''a.csv'' = Some csv" using facts demo_resolved csv by (auto simp: demo_options demo_export_fields)
  moreover have "f' ''b.csv'' = Some ''keep''"
    using facts demo_resolved by (auto simp: demo_options demo_files_def)
  ultimately show ?thesis using call csv \<open>status = 0\<close> by blast
qed

end
