(* ===== verification/Requeue.thy ===== *)
theory Requeue
  imports Process
begin

text \<open>
  When a reconcile runs again: the watches of the three \<open>SetupWithManager\<close> and the work queue of a controller.
  The queue and the API server are libraries; the server's documented treatment of the status subresource is the locale
  \<open>status_server\<close>, and the queue a step relation: an event that passes the predicates makes a key ready at once, a delayed
  requeue makes it ready when its time has come, an error or a recovered panic makes it ready after some backoff.
\<close>

subsection \<open>The watches\<close>

type_synonym nskey = "gostring \<times> gostring"

text \<open>The generations of the old and the new object of an update event.\<close>

record update_event =
  old_generation :: nat
  new_generation :: nat

record watch =
  wa_name :: gostring
  wa_predicates :: "(update_event \<Rightarrow> bool) list"

definition CostProfile_SetupWithManager :: watch where
  "CostProfile_SetupWithManager = \<lparr>wa_name = ''costprofile'', wa_predicates = []\<rparr>"

definition TokenBudget_SetupWithManager :: watch where
  "TokenBudget_SetupWithManager = \<lparr>wa_name = ''tokenbudget'', wa_predicates = []\<rparr>"

text \<open>The argument is \<open>predicate.GenerationChangedPredicate\<close>.\<close>

definition UsageReport_SetupWithManager :: "(update_event \<Rightarrow> bool) \<Rightarrow> watch" where
  "UsageReport_SetupWithManager generationChanged = \<lparr>wa_name = ''usagereport'', wa_predicates = [generationChanged]\<rparr>"

text \<open>What its documentation says.\<close>

definition generation_changed :: "update_event \<Rightarrow> bool" where
  "generation_changed e = (old_generation e \<noteq> new_generation e)"

subsection \<open>The API server\<close>

text \<open>Generation and resource version of an object, \<open>None\<close> when there is none.\<close>

type_synonym 'k metadata = "'k \<Rightarrow> nskey \<Rightarrow> (nat \<times> nat) option"

definition keyOf :: "ObjectMeta \<Rightarrow> nskey" where
  "keyOf m = (om_Namespace m, om_Name m)"

text \<open>The form in which the server keeps an object: a time is stored in whole seconds.\<close>

definition stored_time :: "gotime \<Rightarrow> gotime" where
  "stored_time t = t div nsSecond * nsSecond"

definition stored_conditions :: "Condition list \<Rightarrow> Condition list" where
  "stored_conditions = map (\<lambda>c. c\<lparr>c_LastTransitionTime := stored_time (c_LastTransitionTime c)\<rparr>)"

definition stored_profile :: "CostProfile \<Rightarrow> CostProfile" where
  "stored_profile p = p\<lparr>prof_Status := (prof_Status p)\<lparr>cpt_LastUpdated := map_option stored_time (cpt_LastUpdated (prof_Status p)),
     cpt_Conditions := stored_conditions (cpt_Conditions (prof_Status p))\<rparr>\<rparr>"

definition stored_report :: "UsageReport \<Rightarrow> UsageReport" where
  "stored_report r = r\<lparr>ur_Status := (ur_Status r)\<lparr>ut_PeriodStart := map_option stored_time (ut_PeriodStart (ur_Status r)),
     ut_PeriodEnd := map_option stored_time (ut_PeriodEnd (ur_Status r)), ut_LastUpdated := map_option stored_time (ut_LastUpdated (ur_Status r)),
     ut_Conditions := stored_conditions (ut_Conditions (ur_Status r))\<rparr>\<rparr>"

definition stored_budget :: "TokenBudget \<Rightarrow> TokenBudget" where
  "stored_budget b = b\<lparr>tb_Status := (tb_Status b)\<lparr>tbt_PeriodStart := map_option stored_time (tbt_PeriodStart (tb_Status b)),
     tbt_PeriodEnd := map_option stored_time (tbt_PeriodEnd (tb_Status b)), tbt_LastUpdated := map_option stored_time (tbt_LastUpdated (tb_Status b)),
     tbt_Conditions := stored_conditions (tbt_Conditions (tb_Status b))\<rparr>\<rparr>"

lemma stored_meta [simp]: "prof_Meta (stored_profile p) = prof_Meta p" "ur_Meta (stored_report r) = ur_Meta r" "tb_Meta (stored_budget b) = tb_Meta b"
  by (simp_all add: stored_profile_def stored_report_def stored_budget_def)

lemma stored_updated [simp]:
  "cpt_LastUpdated (prof_Status (stored_profile p)) = map_option stored_time (cpt_LastUpdated (prof_Status p))"
  "tbt_LastUpdated (tb_Status (stored_budget b)) = map_option stored_time (tbt_LastUpdated (tb_Status b))"
  by (simp_all add: stored_profile_def stored_budget_def)

text \<open>A time a second later is stored as another one.\<close>

lemma stored_later: "t + nsSecond \<le> t' \<Longrightarrow> stored_time t' \<noteq> t"
proof -
  have "t' < stored_time t' + nsSecond"
    using pos_mod_bound [of nsSecond t'] div_mult_mod_eq [of t' nsSecond] by (simp add: stored_time_def nsSecond_def)
  then show "t + nsSecond \<le> t' \<Longrightarrow> stored_time t' \<noteq> t" by linarith
qed

text \<open>
  A write to the status keeps the generation; the resource version stays exactly when what would be stored is what is there.
\<close>

locale status_server =
  fixes get :: "'k \<Rightarrow> nskey \<Rightarrow> kerror + 'x" and upd :: "'x \<Rightarrow> 'k \<Rightarrow> kerror + 'k" and md :: "'x \<Rightarrow> ObjectMeta"
    and stored :: "'x \<Rightarrow> 'x" and meta :: "'k metadata"
  assumes not_found: "get k key = Inl (NotFound m) \<Longrightarrow> meta k key = None"
    and found: "get k key = Inr x \<Longrightarrow> meta k key \<noteq> None \<and> keyOf (md x) = key"
    and status_generation: "upd x k = Inr k' \<Longrightarrow> map_option fst (meta k' key) = map_option fst (meta k key)"
    and status_version: "upd x k = Inr k' \<Longrightarrow> get k (keyOf (md x)) = Inr x0 \<Longrightarrow>
      meta k' (keyOf (md x)) = meta k (keyOf (md x)) \<longleftrightarrow> stored x = x0"

subsection \<open>Events\<close>

text \<open>Creations and deletions pass, an update when every predicate lets it; the watch delivers it when the version changes.\<close>

definition enqueues :: "'k metadata \<Rightarrow> watch \<Rightarrow> 'k \<Rightarrow> 'k \<Rightarrow> nskey \<Rightarrow> bool" where
  "enqueues meta b k k' key = (case (meta k key, meta k' key) of
     (Some (g, v), Some (g', v')) \<Rightarrow> v \<noteq> v' \<and> list_all (\<lambda>p. p \<lparr>old_generation = g, new_generation = g'\<rparr>) (wa_predicates b)
   | (None, None) \<Rightarrow> False
   | _ \<Rightarrow> True)"

lemma enqueues_created: "meta k key = None \<Longrightarrow> meta k' key \<noteq> None \<Longrightarrow> enqueues meta b k k' key"
  by (auto simp: enqueues_def)

context status_server
begin

lemma write_generation:
  assumes "upd x k = Inr k'"
  shows "\<not> enqueues meta (UsageReport_SetupWithManager generation_changed) k k' key"
  using status_generation [OF assms, of key]
  by (cases "meta k key"; cases "meta k' key")
    (auto simp: enqueues_def UsageReport_SetupWithManager_def generation_changed_def)

lemma write_version:
  assumes "upd x k = Inr k'" and "get k (keyOf (md x)) = Inr x0" and "wa_predicates b = []"
  shows "enqueues meta b k k' (keyOf (md x)) \<longleftrightarrow> stored x \<noteq> x0"
  using status_version [OF assms(1,2)] status_generation [OF assms(1), of "keyOf (md x)"]
  by (cases "meta k (keyOf (md x))"; cases "meta k' (keyOf (md x))") (auto simp: enqueues_def assms(3))

end

text \<open>The documented server over a map from keys to an object, its generation and its version.\<close>

type_synonym 'x objects = "nskey \<Rightarrow> ('x \<times> nat \<times> nat) option"

definition srv_get :: "('x \<Rightarrow> ObjectMeta) \<Rightarrow> 'x objects \<Rightarrow> nskey \<Rightarrow> kerror + 'x" where
  "srv_get md s key = (case s key of None \<Rightarrow> Inl (NotFound ''not found'')
     | Some (x, g, v) \<Rightarrow> if keyOf (md x) = key then Inr x else Inl (KError ''invalid object''))"

definition srv_update :: "('x \<Rightarrow> ObjectMeta) \<Rightarrow> ('x \<Rightarrow> 'x) \<Rightarrow> 'x \<Rightarrow> 'x objects \<Rightarrow> kerror + 'x objects" where
  "srv_update md stored x s = (case s (keyOf (md x)) of None \<Rightarrow> Inl (NotFound ''not found'')
     | Some (x0, g, v) \<Rightarrow> if stored x = x0 then Inr s else Inr (s(keyOf (md x) \<mapsto> (stored x, g, Suc v))))"

definition srv_meta :: "'x objects metadata" where
  "srv_meta s key = map_option snd (s key)"

lemma srv_server:
  fixes md :: "'x \<Rightarrow> ObjectMeta"
  shows "status_server (srv_get md) (srv_update md stored) md stored srv_meta"
proof unfold_locales
  fix s s' :: "'x objects" and key x x0 m
  show "srv_get md s key = Inl (NotFound m) \<Longrightarrow> srv_meta s key = None"
    and "srv_get md s key = Inr x \<Longrightarrow> srv_meta s key \<noteq> None \<and> keyOf (md x) = key"
    by (auto simp: srv_get_def srv_meta_def split: option.splits if_splits)
  assume u: "srv_update md stored x s = Inr s'"
  then obtain y g v where s: "s (keyOf (md x)) = Some (y, g, v)" by (auto simp: srv_update_def split: option.splits)
  then have s': "s' = (if stored x = y then s else s(keyOf (md x) \<mapsto> (stored x, g, Suc v)))" using u by (simp add: srv_update_def split: if_splits)
  show "map_option fst (srv_meta s' key) = map_option fst (srv_meta s key)" by (simp add: s s' srv_meta_def)
  assume "srv_get md s (keyOf (md x)) = Inr x0"
  then show "srv_meta s' (keyOf (md x)) = srv_meta s (keyOf (md x)) \<longleftrightarrow> stored x = x0"
    by (simp add: s s' srv_meta_def srv_get_def split: if_splits)
qed

definition cost_server :: "'k cost_client \<Rightarrow> 'k metadata \<Rightarrow> bool" where
  "cost_server K = status_server (\<lambda>k key. kc_getProfile K k (fst key) (snd key)) (kc_updateStatus K) prof_Meta stored_profile"

definition report_server :: "'k report_client \<Rightarrow> 'k metadata \<Rightarrow> bool" where
  "report_server K = status_server (\<lambda>k key. rc_getReport K k (fst key) (snd key)) (rc_updateStatus K) ur_Meta stored_report"

definition budget_server :: "'k budget_client \<Rightarrow> 'k metadata \<Rightarrow> bool" where
  "budget_server K = status_server (\<lambda>k key. bc_getBudget K k (fst key) (snd key)) (bc_updateStatus K) tb_Meta stored_budget"

text \<open>A cluster that serves the three kinds this way.\<close>

record cluster =
  cl_profiles :: "CostProfile objects"
  cl_reports :: "UsageReport objects"
  cl_budgets :: "TokenBudget objects"

definition cluster_costs :: "cluster cost_client" where
  "cluster_costs = \<lparr>kc_getProfile = \<lambda>k ns n. srv_get prof_Meta (cl_profiles k) (ns, n), kc_listPods = \<lambda>k. Inr [],
     kc_updateStatus = \<lambda>x k. map_sum id (\<lambda>s. k\<lparr>cl_profiles := s\<rparr>) (srv_update prof_Meta stored_profile x (cl_profiles k))\<rparr>"

definition cluster_reports :: "cluster report_client" where
  "cluster_reports = \<lparr>rc_getReport = \<lambda>k ns n. srv_get ur_Meta (cl_reports k) (ns, n),
     rc_getProfile = \<lambda>k ns n. srv_get prof_Meta (cl_profiles k) (ns, n), rc_listPods = \<lambda>k. Inr [],
     rc_updateStatus = \<lambda>x k. map_sum id (\<lambda>s. k\<lparr>cl_reports := s\<rparr>) (srv_update ur_Meta stored_report x (cl_reports k))\<rparr>"

definition cluster_budgets :: "cluster budget_client" where
  "cluster_budgets = \<lparr>bc_getBudget = \<lambda>k ns n. srv_get tb_Meta (cl_budgets k) (ns, n),
     bc_updateStatus = \<lambda>x k. map_sum id (\<lambda>s. k\<lparr>cl_budgets := s\<rparr>) (srv_update tb_Meta stored_budget x (cl_budgets k)),
     bc_setOwner = \<lambda>_ r. Inr r, bc_getRule = \<lambda>_ _ _. Inl (NoMatch ''no CRD''), bc_createRule = \<lambda>_ k. Inr k, bc_updateRule = \<lambda>_ k. Inr k\<rparr>"

text \<open>What holds of a server holds of a cluster that has it as a part.\<close>

lemma part_server:
  assumes "status_server get upd md stored meta" and "\<And>s k. sel (put s k) = s"
  shows "status_server (\<lambda>k key. get (sel k) (fst key, snd key)) (\<lambda>x k. map_sum id (\<lambda>s. put s k) (upd x (sel k))) md stored (\<lambda>k. meta (sel k))"
proof -
  have u: "map_sum id (\<lambda>s. put s k) (upd x (sel k)) = Inr k' \<Longrightarrow> upd x (sel k) = Inr (sel k')" for x k k'
    by (cases "upd x (sel k)") (auto simp: assms(2))
  note S = assms(1) [unfolded status_server_def]
  show ?thesis unfolding status_server_def using S by (auto simp: dest!: u)
qed

lemma cluster_servers:
  "cost_server cluster_costs (\<lambda>k. srv_meta (cl_profiles k))" "report_server cluster_reports (\<lambda>k. srv_meta (cl_reports k))"
  "budget_server cluster_budgets (\<lambda>k. srv_meta (cl_budgets k))"
  unfolding cost_server_def report_server_def budget_server_def
  using part_server [OF srv_server, of cl_profiles "\<lambda>s k. k\<lparr>cl_profiles := s\<rparr>"]
    part_server [OF srv_server, of cl_reports "\<lambda>s k. k\<lparr>cl_reports := s\<rparr>"]
    part_server [OF srv_server, of cl_budgets "\<lambda>s k. k\<lparr>cl_budgets := s\<rparr>"]
  by (simp_all add: cluster_costs_def cluster_reports_def cluster_budgets_def)

interpretation profiles: status_server "\<lambda>k key. kc_getProfile cluster_costs k (fst key) (snd key)" "kc_updateStatus cluster_costs"
  prof_Meta stored_profile "\<lambda>k. srv_meta (cl_profiles k)"
  by (rule cluster_servers(1) [unfolded cost_server_def])

interpretation reports: status_server "\<lambda>k key. rc_getReport cluster_reports k (fst key) (snd key)" "rc_updateStatus cluster_reports"
  ur_Meta stored_report "\<lambda>k. srv_meta (cl_reports k)"
  by (rule cluster_servers(2) [unfolded report_server_def])

interpretation budgets: status_server "\<lambda>k key. bc_getBudget cluster_budgets k (fst key) (snd key)" "bc_updateStatus cluster_budgets"
  tb_Meta stored_budget "\<lambda>k. srv_meta (cl_budgets k)"
  by (rule cluster_servers(3) [unfolded budget_server_def])

subsection \<open>The work queue\<close>

record ('k, 'db) running =
  ru_world :: "('k, 'db) world"
  ru_clock :: gotime
  ru_ready :: "nskey set"
  ru_timers :: "(gotime \<times> nskey) set"

text \<open>What the outcome of a run adds to the timers; \<open>d\<close> is the backoff of a failure.\<close>

definition requeue :: "outcome \<Rightarrow> gotime \<Rightarrow> duration \<Rightarrow> nskey \<Rightarrow> (gotime \<times> nskey) set" where
  "requeue res now d key = (case res of
     Done r \<Rightarrow> if 0 < RequeueAfter r then {(now + RequeueAfter r, key)} else {}
   | _ \<Rightarrow> {(now + d, key)})"

type_synonym ('k, 'db) run = "nskey \<Rightarrow> ('k, 'db) world \<Rightarrow> outcome \<Rightarrow> ('k, 'db) world \<Rightarrow> bool"

definition deliver :: "'k metadata \<Rightarrow> watch \<Rightarrow> ('k, 'db) world \<Rightarrow> nskey set \<Rightarrow> ('k, 'db) running \<Rightarrow> ('k, 'db) running" where
  "deliver meta b w' keys s = s\<lparr>ru_world := w',
     ru_ready := keys \<union> {key. enqueues meta b (w_kube (ru_world s)) (w_kube w') key}\<rparr>"

text \<open>A run of a ready key, a change of the cluster or of the process from elsewhere, the passing of time.\<close>

inductive queue_step :: "'k metadata \<Rightarrow> watch \<Rightarrow> ('k, 'db) run \<Rightarrow> ('k, 'db) running \<Rightarrow> ('k, 'db) running \<Rightarrow> bool" for meta b R where
  run: "key \<in> ru_ready s \<Longrightarrow> R key (ru_world s) res w' \<Longrightarrow> queue_step meta b R s
    ((deliver meta b w' (ru_ready s - {key}) s)\<lparr>ru_timers := ru_timers s \<union> requeue res (ru_clock s) d key\<rparr>)"
| elsewhere: "queue_step meta b R s (deliver meta b w' (ru_ready s) s)"
| tick: "ru_clock s \<le> t \<Longrightarrow> queue_step meta b R s (s\<lparr>ru_clock := t, ru_ready := ru_ready s \<union> {key. \<exists>d \<le> t. (d, key) \<in> ru_timers s},
    ru_timers := {(d, key) \<in> ru_timers s. t < d}\<rparr>)"

text \<open>At the start the informer lists every object there is.\<close>

inductive queue_reachable :: "'k metadata \<Rightarrow> watch \<Rightarrow> ('k, 'db) run \<Rightarrow> ('k, 'db) running \<Rightarrow> bool" for meta b R where
  start: "\<forall>key. meta (w_kube (ru_world s)) key \<noteq> None \<longrightarrow> key \<in> ru_ready s \<Longrightarrow> queue_reachable meta b R s"
| step: "queue_reachable meta b R s \<Longrightarrow> queue_step meta b R s s' \<Longrightarrow> queue_reachable meta b R s'"

definition scheduled :: "nskey \<Rightarrow> ('k, 'db) running \<Rightarrow> bool" where
  "scheduled key s = (key \<in> ru_ready s \<or> (\<exists>d. (d, key) \<in> ru_timers s))"

lemma scheduled_deliver: "scheduled key (deliver meta b w' keys s\<lparr>ru_timers := T\<rparr>) \<longleftrightarrow>
    key \<in> keys \<or> enqueues meta b (w_kube (ru_world s)) (w_kube w') key \<or> (\<exists>d. (d, key) \<in> T)"
  by (simp add: scheduled_def deliver_def)

subsection \<open>Nothing is forgotten\<close>

text \<open>A controller whose reconcile asks to be run again unless its object is gone.\<close>

locale requeuer =
  fixes meta :: "'k metadata" and R :: "('k, 'db) run"
  assumes again: "R key w (Done r) w' \<Longrightarrow> 0 < RequeueAfter r \<or> meta (w_kube w') key = None"
begin

lemma requeue_timer:
  assumes "R key w res w'" and "meta (w_kube w') key \<noteq> None"
  shows "\<exists>t. (t, key) \<in> requeue res now d key"
proof (cases res)
  case (Done r)
  then have "0 < RequeueAfter r" using again [of key w r w'] assms by simp
  then show ?thesis by (simp add: Done requeue_def)
qed (auto simp: requeue_def)

lemma step_scheduled:
  assumes "queue_step meta b R s s'" and "\<forall>key. meta (w_kube (ru_world s)) key \<noteq> None \<longrightarrow> scheduled key s"
    and "meta (w_kube (ru_world s')) key \<noteq> None"
  shows "scheduled key s'"
proof -
  have old: "scheduled key s \<or> enqueues meta b (w_kube (ru_world s)) (w_kube w') key" if "meta (w_kube w') key \<noteq> None" for w'
    using that assms(2) enqueues_created [of meta "w_kube (ru_world s)" key "w_kube w'" b] by blast
  show ?thesis using assms(1)
  proof cases
    case (run key' res w' d)
    have ex: "meta (w_kube w') key \<noteq> None" using assms(3) by (simp add: run(1) deliver_def)
    show ?thesis
    proof (cases "key = key'")
      case True
      then show ?thesis using requeue_timer [OF run(3), of "ru_clock s" d] ex by (auto simp: run(1) scheduled_def)
    next
      case False
      then show ?thesis using old [OF ex] by (auto simp: run(1) scheduled_def deliver_def)
    qed
  next
    case (elsewhere w')
    then show ?thesis using old [of w'] assms(3) by (auto simp: scheduled_def deliver_def)
  next
    case (tick t)
    then have "ru_world s' = ru_world s" by simp
    then have "scheduled key s" using assms(2,3) by metis
    then show ?thesis unfolding tick(1) scheduled_def by (auto simp: not_le [symmetric])
  qed
qed

lemma reachable_scheduled: "queue_reachable meta b R s \<Longrightarrow> \<forall>key. meta (w_kube (ru_world s)) key \<noteq> None \<longrightarrow> scheduled key s"
proof (induction rule: queue_reachable.induct)
  case (start s)
  then show ?case by (simp add: scheduled_def)
next
  case (step s s')
  then show ?case using step_scheduled by blast
qed

end

subsection \<open>The three controllers\<close>

text \<open>A run of each with any endpoints, clock and map order.\<close>

definition cost_run :: "('k, 'db) env \<Rightarrow> ('k, 'db) run" where
  "cost_run E key w res w' = (\<exists>fetch clk. CostProfile_Reconcile (e_conditions E) (e_cost E) (e_store E) (e_power E) fetch (e_embedded E)
     clk (fst key) (snd key) w = (res, w'))"

definition report_run :: "('k, 'db) env \<Rightarrow> ('k, 'db) run" where
  "report_run E key w res w' = (\<exists>fetch V now metaNow. UsageReport_Reconcile (e_conditions E) (e_report E) fetch (e_embedded E) V now metaNow
     (fst key) (snd key) w = (res, w'))"

definition budget_run :: "('k, 'db) env \<Rightarrow> ('k, 'db) run" where
  "budget_run E key w res w' = (\<exists>now metaNow. Reconcile (e_conditions E) (e_budget E) now metaNow (fst key) (snd key) w = (res, w'))"

lemma cost_again:
  assumes "cost_server (e_cost E) meta" and "cost_run E key w (Done r) w'"
  shows "0 < RequeueAfter r \<or> meta (w_kube w') key = None"
proof -
  obtain fetch clk where r: "CostProfile_Reconcile (e_conditions E) (e_cost E) (e_store E) (e_power E) fetch (e_embedded E)
     clk (fst key) (snd key) w = (Done r, w')" using assms(2) by (auto simp: cost_run_def)
  show ?thesis
  proof (cases "kc_getProfile (e_cost E) (w_kube w) (fst key) (snd key)")
    case (Inl err)
    then have "w' = w" "\<exists>m. err = NotFound m" using r by (auto simp: CostProfile_Reconcile_def split: kerror.splits)
    then show ?thesis using Inl status_server.not_found [OF assms(1) [unfolded cost_server_def], of "w_kube w" key] by auto
  next
    case (Inr profile)
    obtain pw c g where p: "readPower fetch (e_power E) profile (w_gauges w) = (pw, c, g)" by (metis surj_pair)
    show ?thesis
      by (rule cost_Reconcile_found [OF Inr p, where C = "e_conditions E" and St = "e_store E" and embedded = "e_embedded E" and clk = clk])
        (use r in \<open>auto simp: reconcileInterval_def nsSecond_def split: if_splits sum.splits\<close>)
  qed
qed

lemma budget_again:
  assumes "budget_server (e_budget E) meta" and "budget_run E key w (Done r) w'"
  shows "0 < RequeueAfter r \<or> meta (w_kube w') key = None"
proof -
  obtain now metaNow where r: "Reconcile (e_conditions E) (e_budget E) now metaNow (fst key) (snd key) w = (Done r, w')"
    using assms(2) by (auto simp: budget_run_def)
  show ?thesis
  proof (cases "bc_getBudget (e_budget E) (w_kube w) (fst key) (snd key)")
    case (Inl err)
    then have "w' = w" "\<exists>m. err = NotFound m" using r by (auto simp: Reconcile_def split: kerror.splits)
    then show ?thesis using Inl status_server.not_found [OF assms(1) [unfolded budget_server_def], of "w_kube w" key] by auto
  next
    case (Inr b0)
    show ?thesis
      by (rule Reconcile_found [OF Inr, of "e_conditions E" now metaNow]) (use r in \<open>auto simp: nsMinute_def Let_def split: if_splits sum.splits\<close>)
  qed
qed

text \<open>A report that is found is asked for again after its interval, and its status is all a reconcile writes to the cluster.\<close>

lemma report_run_effect:
  assumes "report_run E key w res w'"
  shows "(\<exists>m. rc_getReport (e_report E) (w_kube w) (fst key) (snd key) = Inl (NotFound m)) \<or> (\<forall>r. res = Done r \<longrightarrow> RequeueAfter r = usageReportReconcileInterval)"
    and "w_kube w' = w_kube w \<or> (\<exists>x. rc_updateStatus (e_report E) x (w_kube w) = Inr (w_kube w'))"
proof -
  obtain fetch V now metaNow where r: "UsageReport_Reconcile (e_conditions E) (e_report E) fetch (e_embedded E) V now metaNow
     (fst key) (snd key) w = (res, w')" using assms by (auto simp: report_run_def)
  have a: "applyStatusIfChanged (e_conditions E) (e_report E) rep c t k = (Some (Inr k'), sent) \<Longrightarrow>
      k' = k \<or> (\<exists>x. rc_updateStatus (e_report E) x k = Inr k')" for rep c t k k' sent
    by (auto simp: applyStatusIfChanged_def Let_def split: if_splits option.splits bool.splits)
  have "((\<exists>m. rc_getReport (e_report E) (w_kube w) (fst key) (snd key) = Inl (NotFound m)) \<or> (\<forall>r. res = Done r \<longrightarrow> RequeueAfter r = usageReportReconcileInterval))
    \<and> (w_kube w' = w_kube w \<or> (\<exists>x. rc_updateStatus (e_report E) x (w_kube w) = Inr (w_kube w')))"
  proof (cases "rc_getReport (e_report E) (w_kube w) (fst key) (snd key)")
    case (Inl err)
    then show ?thesis using r by (auto simp: UsageReport_Reconcile_def split: kerror.splits)
  next
    case R: (Inr report)
    show ?thesis
    proof (cases "rc_getProfile (e_report E) (w_kube w) (fst key) (urs_CostProfileRef (ur_Spec report))")
      case (Inl err)
      then show ?thesis using r R
        by (auto simp: UsageReport_Reconcile_def handleMissingCostProfile_def Let_def split: option.splits sum.splits if_splits)
    next
      case P: (Inr profile)
      show ?thesis
      proof (cases "scrapeTokens (e_report E) fetch (w_kube w) report")
        case (Inl err)
        then show ?thesis using r R P by (auto simp: UsageReport_Reconcile_def)
      next
        case T: (Inr mt)
        obtain modelT nsT pricing pst where mt: "mt = (modelT, nsT)" "DefaultCloudPricing (e_embedded E) (w_pricing w) = (pricing, pst)" by (metis surj_pair)
        show ?thesis
        proof (cases pricing)
          case (Inl e)
          then show ?thesis using r unfolding UsageReport_Reconcile_def R P T mt Inl sum.case prod.case Let_def by auto
        next
          case C: (Inr rates)
          obtain c d x sent where cd: "computeReport V rates (w_sampler w) report profile now modelT nsT = (c, d)"
            "applyStatusIfChanged (e_conditions E) (e_report E) report c metaNow (w_kube w) = (x, sent)" by (metis surj_pair)
          show ?thesis using r a [of report c metaNow "w_kube w"]
            unfolding UsageReport_Reconcile_def R P T mt C cd sum.case prod.case Let_def
            by (cases x) (auto split: sum.splits)
        qed
      qed
    qed
  qed
  then show "(\<exists>m. rc_getReport (e_report E) (w_kube w) (fst key) (snd key) = Inl (NotFound m)) \<or> (\<forall>r. res = Done r \<longrightarrow> RequeueAfter r = usageReportReconcileInterval)"
    and "w_kube w' = w_kube w \<or> (\<exists>x. rc_updateStatus (e_report E) x (w_kube w) = Inr (w_kube w'))" by blast+
qed

lemma report_generation:
  assumes "report_server (e_report E) meta" and "report_run E key w res w'"
  shows "map_option fst (meta (w_kube w') x) = map_option fst (meta (w_kube w) x)"
  using report_run_effect(2) [OF assms(2)] status_server.status_generation [OF assms(1) [unfolded report_server_def]] by (elim disjE exE) simp_all

lemma report_again:
  assumes "report_server (e_report E) meta" and "report_run E key w (Done r) w'"
  shows "RequeueAfter r = usageReportReconcileInterval \<or> meta (w_kube w') key = None"
  using report_run_effect(1) [OF assms(2)] status_server.not_found [OF assms(1) [unfolded report_server_def], of "w_kube w" key]
    report_generation [OF assms, of key]
  by (elim disjE exE) simp_all

interpretation cost_queue: requeuer meta "\<lambda>key w res w'. cost_server (e_cost E) meta \<and> cost_run E key w res w'"
  by unfold_locales (elim conjE, rule cost_again)

interpretation budget_queue: requeuer meta "\<lambda>key w res w'. budget_server (e_budget E) meta \<and> budget_run E key w res w'"
  by unfold_locales (elim conjE, rule budget_again)

subsection \<open>Pace\<close>

text \<open>A key that only waits for its timer.\<close>

definition waiting :: "nskey \<Rightarrow> gotime \<Rightarrow> ('k, 'db) running \<Rightarrow> bool" where
  "waiting key d s = (key \<notin> ru_ready s \<and> (d, key) \<in> ru_timers s \<and> (\<forall>d'. (d', key) \<in> ru_timers s \<longrightarrow> d \<le> d'))"

text \<open>A step that leaves the spec of the object alone.\<close>

definition calm_step :: "'k metadata \<Rightarrow> watch \<Rightarrow> ('k, 'db) run \<Rightarrow> nskey \<Rightarrow> ('k, 'db) running \<Rightarrow> ('k, 'db) running \<Rightarrow> bool" where
  "calm_step meta b R key s s' = (queue_step meta b R s s'
     \<and> map_option fst (meta (w_kube (ru_world s')) key) = map_option fst (meta (w_kube (ru_world s)) key))"

text \<open>A controller that is not woken by its own writes, nor by anything but a change of the spec.\<close>

locale paced = requeuer meta R for meta :: "'k metadata" and R :: "('k, 'db) run" +
  fixes b :: watch and interval :: duration
  assumes by_generation: "map_option fst (meta k' key) = map_option fst (meta k key) \<Longrightarrow> \<not> enqueues meta b k k' key"
    and own_generation: "R key w res w' \<Longrightarrow> map_option fst (meta (w_kube w') key) = map_option fst (meta (w_kube w) key)"
    and interval: "R key w (Done r) w' \<Longrightarrow> RequeueAfter r = interval \<or> meta (w_kube w') key = None"
    and interval_pos: "0 < interval"
begin

lemma calm_waiting:
  assumes "calm_step meta b R key s s'" and "waiting key d s" and "ru_clock s' < d"
  shows "waiting key d s'"
proof -
  have q: "\<not> enqueues meta b (w_kube (ru_world s)) (w_kube (ru_world s')) key"
    using assms(1) by (intro by_generation) (simp add: calm_step_def)
  have "queue_step meta b R s s'" using assms(1) by (simp add: calm_step_def)
  then show ?thesis using q assms(2,3)
    by cases (auto simp: waiting_def deliver_def requeue_def split: outcome.splits)
qed

lemma clock_mono: "queue_step meta b R s s' \<Longrightarrow> ru_clock s \<le> ru_clock s'"
  by (auto elim!: queue_step.cases simp: deliver_def)

lemma calm_run: "rtranclp (calm_step meta b R key) s s' \<Longrightarrow> waiting key d s \<Longrightarrow> ru_clock s' < d \<Longrightarrow> waiting key d s'"
proof (induction rule: rtranclp_induct)
  case (step y z)
  have "ru_clock y \<le> ru_clock z" using step.hyps(2) clock_mono by (simp add: calm_step_def)
  then show ?case using step calm_waiting by simp
qed

text \<open>A successful run of a key without other timers leaves it waiting for the interval.\<close>

lemma run_waiting:
  assumes "R key (ru_world s) (Done r) w'" and "meta (w_kube w') key \<noteq> None" and "\<forall>d. (d, key) \<notin> ru_timers s"
  shows "waiting key (ru_clock s + interval)
    ((deliver meta b w' (ru_ready s - {key}) s)\<lparr>ru_timers := ru_timers s \<union> requeue (Done r) (ru_clock s) d key\<rparr>)"
  using assms(3) interval [OF assms(1)] assms(2) by_generation [OF own_generation [OF assms(1)]] interval_pos
  by (auto simp: waiting_def deliver_def requeue_def)

end

lemma enqueues_generation:
  "map_option fst (meta k' key) = map_option fst (meta k key) \<Longrightarrow>
    \<not> enqueues meta (UsageReport_SetupWithManager generation_changed) k k' key"
  by (cases "meta k key"; cases "meta k' key") (auto simp: enqueues_def UsageReport_SetupWithManager_def generation_changed_def)

interpretation report_queue: paced meta "\<lambda>key w res w'. report_server (e_report E) meta \<and> report_run E key w res w'"
  "UsageReport_SetupWithManager generation_changed" usageReportReconcileInterval
proof unfold_locales
  fix key w res r w' k k'
  show pos: "0 < usageReportReconcileInterval" by (simp add: usageReportReconcileInterval_def nsMinute_def)
  show "map_option fst (meta k' key) = map_option fst (meta k key) \<Longrightarrow>
      \<not> enqueues meta (UsageReport_SetupWithManager generation_changed) k k' key" by (rule enqueues_generation)
  show "report_server (e_report E) meta \<and> report_run E key w (Done r) w' \<Longrightarrow> 0 < RequeueAfter r \<or> meta (w_kube w') key = None"
    and "report_server (e_report E) meta \<and> report_run E key w (Done r) w' \<Longrightarrow> RequeueAfter r = usageReportReconcileInterval \<or> meta (w_kube w') key = None"
    using report_again pos by fastforce+
  assume r: "report_server (e_report E) meta \<and> report_run E key w res w'"
  then show "map_option fst (meta (w_kube w') key) = map_option fst (meta (w_kube w) key)"
    by (elim conjE) (rule report_generation)
qed

subsection \<open>Own writes\<close>

text \<open>The objects of the Prometheus operator are of another kind than the budgets.\<close>

definition rules_apart :: "'k budget_client \<Rightarrow> 'k metadata \<Rightarrow> bool" where
  "rules_apart K meta = (\<forall>x k k'. bc_createRule K x k = Inr k' \<or> bc_updateRule K x k = Inr k' \<longrightarrow>
     meta k' = meta k \<and> bc_getBudget K k' = bc_getBudget K k)"

lemma rule_frame:
  assumes "rules_apart K meta" and "reconcilePrometheusRule K b k = (r, k')"
  shows "meta k' = meta k \<and> bc_getBudget K k' = bc_getBudget K k"
  using assms unfolding reconcilePrometheusRule_def rules_apart_def Let_def
  by (auto split: if_splits option.splits sum.splits kerror.splits)

lemma cost_own_write:
  assumes "cost_server (e_cost E) meta" and "kc_getProfile (e_cost E) (w_kube w) ns name = Inr profile"
    and "CostProfile_Reconcile (e_conditions E) (e_cost E) (e_store E) (e_power E) fetch (e_embedded E) clk ns name w = (Done r, w')"
  shows "RequeueAfter r = 30 * nsSecond \<and> (\<exists>p. kc_updateStatus (e_cost E) p (w_kube w) = Inr (w_kube w') \<and> cpt_LastUpdated (prof_Status p) = Some (k_status clk)
    \<and> (enqueues meta CostProfile_SetupWithManager (w_kube w) (w_kube w') (ns, name) \<longleftrightarrow> stored_profile p \<noteq> profile))"
proof -
  note S = assms(1) [unfolded cost_server_def]
  obtain pw c g where p: "readPower fetch (e_power E) profile (w_gauges w) = (pw, c, g)" by (metis surj_pair)
  obtain a e t where h: "ComputeHourlyCost (hardwareOf profile) pw = (a, e, t)" by (metis surj_pair)
  let ?x = "writtenProfile (e_conditions E) profile pw c (k_status clk)"
  have u: "RequeueAfter r = 30 * nsSecond" "kc_updateStatus (e_cost E) ?x (w_kube w) = Inr (w_kube w')"
    using cost_reconcile_effect [OF assms(2) p h assms(3)] by simp_all
  have l: "cpt_LastUpdated (prof_Status ?x) = Some (k_status clk)" "prof_Meta ?x = prof_Meta profile"
    by (simp_all add: writtenProfile_def costStatus_def h)
  have key: "keyOf (prof_Meta profile) = (ns, name)"
    using status_server.found [OF S, of "w_kube w" "(ns, name)"] assms(2) by simp
  show ?thesis
    using status_server.write_version [OF S u(2), of profile CostProfile_SetupWithManager] assms(2) u l(1)
    by (intro conjI u(1) exI [of _ ?x]) (simp_all add: l(2) key CostProfile_SetupWithManager_def)
qed

lemma budget_own_write:
  assumes "budget_server (e_budget E) meta" and "rules_apart (e_budget E) meta"
    and "bc_getBudget (e_budget E) (w_kube w) ns name = Inr budget"
    and "Reconcile (e_conditions E) (e_budget E) now metaNow ns name w = (Done r, w')"
  shows "RequeueAfter r = nsMinute \<and> (\<exists>b k. bc_updateStatus (e_budget E) b k = Inr (w_kube w') \<and> tbt_LastUpdated (tb_Status b) = Some metaNow
    \<and> (enqueues meta TokenBudget_SetupWithManager (w_kube w) (w_kube w') (ns, name) \<longleftrightarrow> stored_budget b \<noteq> budget))"
proof (rule Reconcile_found [OF assms(3), of "e_conditions E" now metaNow])
  fix st b q k
  assume cb: "computedBudget (e_conditions E) now metaNow (w_api w) budget = (st, b)"
    and rk: "reconcilePrometheusRule (e_budget E) b (w_kube w) = (q, k)"
    and R: "Reconcile (e_conditions E) (e_budget E) now metaNow ns name w = (let w2 = w\<lparr>w_gauges := budgetGauges b (w_gauges w), w_kube := k\<rparr> in
      if q = RulePanic then (Panicked, w2)
      else (case bc_updateStatus (e_budget E) b k of Inl err \<Rightarrow> (Failed err, w2)
       | Inr k' \<Rightarrow> (Done \<lparr>RequeueAfter = nsMinute\<rparr>, w2\<lparr>w_kube := k', w_api := map_option (updateAPIStore b st) (w_api w)\<rparr>)))"
  note S = assms(1) [unfolded budget_server_def] and f = rule_frame [OF assms(2) rk]
  have u: "RequeueAfter r = nsMinute" "bc_updateStatus (e_budget E) b k = Inr (w_kube w')"
    using assms(4) unfolding R Let_def by (auto split: if_splits sum.splits)
  have l: "tbt_LastUpdated (tb_Status b) = Some metaNow" "tb_Meta b = tb_Meta budget"
    using computed_status [OF cb] by auto
  have g: "bc_getBudget (e_budget E) k ns name = Inr budget" using f assms(3) by simp
  have key: "keyOf (tb_Meta budget) = (ns, name)" using status_server.found [OF S, of k "(ns, name)"] g by simp
  have "enqueues meta TokenBudget_SetupWithManager k (w_kube w') (ns, name) \<longleftrightarrow> stored_budget b \<noteq> budget"
    using status_server.write_version [OF S u(2), of budget TokenBudget_SetupWithManager] g
    by (simp add: l key TokenBudget_SetupWithManager_def)
  then have "enqueues meta TokenBudget_SetupWithManager (w_kube w) (w_kube w') (ns, name) \<longleftrightarrow> stored_budget b \<noteq> budget"
    using f by (simp add: enqueues_def)
  then show ?thesis using u l(1) by blast
qed

text \<open>The state of a controller after a run of a key.\<close>

definition after_run :: "'k metadata \<Rightarrow> watch \<Rightarrow> nskey \<Rightarrow> outcome \<Rightarrow> ('k, 'db) world \<Rightarrow> duration \<Rightarrow> ('k, 'db) running \<Rightarrow> ('k, 'db) running" where
  "after_run meta b key res w' d s = (deliver meta b w' (ru_ready s - {key}) s)\<lparr>ru_timers := ru_timers s \<union> requeue res (ru_clock s) d key\<rparr>"

lemma after_run_step: "key \<in> ru_ready s \<Longrightarrow> R key (ru_world s) res w' \<Longrightarrow> queue_step meta b R s (after_run meta b key res w' d s)"
  unfolding after_run_def by (rule queue_step.run)

lemma after_run_ready: "key \<in> ru_ready (after_run meta b key res w' d s) \<longleftrightarrow> enqueues meta b (w_kube (ru_world s)) (w_kube w') key"
  by (simp add: after_run_def deliver_def)

lemma after_run_timer: "0 < RequeueAfter r \<Longrightarrow> (ru_clock s + RequeueAfter r, key) \<in> ru_timers (after_run meta b key (Done r) w' d s)"
  by (simp add: after_run_def requeue_def)

subsection \<open>A cluster to run in\<close>

definition quiet_budget :: TokenBudget where
  "quiet_budget = demo_budget\<lparr>tb_Spec := (tb_Spec demo_budget)\<lparr>tbs_AlertThresholds := []\<rparr>\<rparr>"

definition demo_cluster :: cluster where
  "demo_cluster = \<lparr>cl_profiles = Map.empty, cl_reports = [(''finops'', ''daily'') \<mapsto> (demo_report, 1, 1)],
     cl_budgets = [(''finops'', ''team-a'') \<mapsto> (quiet_budget, 1, 1)]\<rparr>"

definition cluster_env :: "(cluster, memdb) env" where
  "cluster_env = \<lparr>e_conditions = std_conditions, e_cost = cluster_costs, e_report = cluster_reports, e_budget = cluster_budgets,
     e_store = bolt_store mem_bbolt, e_power = demo_config, e_embedded = Inr emptyCatalog\<rparr>"

definition demo_running :: "(cluster, memdb) running" where
  "demo_running = \<lparr>ru_world = demo_world demo_cluster, ru_clock = 0, ru_ready = {(''finops'', ''daily'')}, ru_timers = {}\<rparr>"

abbreviation report_meta :: "cluster metadata" where
  "report_meta k \<equiv> srv_meta (cl_reports k)"

lemma demo_servers: "cost_server (e_cost cluster_env) (\<lambda>k. srv_meta (cl_profiles k))" "report_server (e_report cluster_env) report_meta"
  "budget_server (e_budget cluster_env) (\<lambda>k. srv_meta (cl_budgets k))" "rules_apart (e_budget cluster_env) (\<lambda>k. srv_meta (cl_budgets k))"
  using cluster_servers by (simp_all add: cluster_env_def rules_apart_def cluster_budgets_def)

text \<open>The report of the cluster names a profile that is not there: a run says so in its status and waits.\<close>

lemma demo_report_run:
  obtains r w' where "report_run cluster_env (''finops'', ''daily'') (ru_world demo_running) (Done r) w'"
    and "report_meta (w_kube w') (''finops'', ''daily'') \<noteq> None"
proof -
  obtain r k where h: "handleMissingCostProfile std_conditions cluster_reports demo_report (NotFound ''not found'') 0 demo_cluster = (r, k)"
    by (metis surj_pair)
  have g: "rc_getReport cluster_reports demo_cluster ''finops'' ''daily'' = Inr demo_report"
    "rc_getProfile cluster_reports demo_cluster ''finops'' (urs_CostProfileRef (ur_Spec demo_report)) = Inl (NotFound ''not found'')"
    by (simp_all add: cluster_reports_def srv_get_def demo_cluster_def demo_report_def keyOf_def)
  have "UsageReport_Reconcile std_conditions cluster_reports demo_scrape (Inr emptyCatalog) in_order 0 0 ''finops'' ''daily''
      (demo_world demo_cluster :: (cluster, memdb) world) = (Done r, (demo_world demo_cluster)\<lparr>w_kube := k\<rparr>)"
    by (simp add: UsageReport_Reconcile_def demo_world_def g h)
  then have run: "report_run cluster_env (''finops'', ''daily'') (ru_world demo_running) (Done r) ((demo_world demo_cluster)\<lparr>w_kube := k\<rparr>)"
    unfolding report_run_def cluster_env_def demo_running_def by (simp only: env.simps running.simps fst_conv snd_conv) blast
  have "report_meta demo_cluster (''finops'', ''daily'') \<noteq> None" by (simp add: srv_meta_def demo_cluster_def)
  then have "report_meta k (''finops'', ''daily'') \<noteq> None"
    using report_generation [OF demo_servers(2) run, of "(''finops'', ''daily'')"] by (auto simp: demo_running_def demo_world_def)
  then show thesis by (intro that [OF run]) simp
qed

text \<open>A budget without thresholds, before and after its first run.\<close>

definition done_budget :: TokenBudget where
  "done_budget = stored_budget (snd (computedBudget std_conditions 0 nsHour (Some NewStore) quiet_budget))"

lemma stored_time_idem [simp]: "stored_time (stored_time t) = stored_time t"
  by (simp add: stored_time_def nsSecond_def)

lemma done_again: "stored_budget (snd (computedBudget std_conditions 0 (nsHour + 1) (Some NewStore) done_budget)) = done_budget"
proof -
  have "stored_time (nsHour + 1) = stored_time nsHour" by (simp add: stored_time_def ns_defs)
  then show ?thesis
    by (simp add: done_budget_def computedBudget_def evaluateConditions_def quiet_budget_def demo_budget_def stored_budget_def Let_def
        currentSpend_def store_defs NewStore_def cond_def stored_conditions_def std_conditions_def comp_def option.map_comp)
qed

definition settled :: "TokenBudget \<Rightarrow> (cluster, memdb) running" where
  "settled b = demo_running\<lparr>ru_world := demo_world (demo_cluster\<lparr>cl_budgets := [(''finops'', ''team-a'') \<mapsto> (b, 1, 1)]\<rparr>)\<rparr>"

lemma quiet_run:
  assumes "b = quiet_budget \<or> b = done_budget"
  obtains r w' where "Reconcile std_conditions cluster_budgets 0 t ''finops'' ''team-a'' (ru_world (settled b)) = (Done r, w')"
    and "bc_getBudget cluster_budgets (w_kube (ru_world (settled b))) ''finops'' ''team-a'' = Inr b"
    and "cl_budgets (w_kube w') (''finops'', ''team-a'') =
      (let b' = stored_budget (snd (computedBudget std_conditions 0 t (Some NewStore) b)) in Some (b', 1, if b' = b then 1 else 2))"
proof -
  have m: "tbs_AlertThresholds (tb_Spec b) = []" "tb_Meta b = tb_Meta quiet_budget"
    using assms computed_status [of std_conditions 0 nsHour "Some NewStore" quiet_budget "fst (computedBudget std_conditions 0 nsHour (Some NewStore) quiet_budget)"
        "snd (computedBudget std_conditions 0 nsHour (Some NewStore) quiet_budget)"]
    by (auto simp: done_budget_def stored_budget_def quiet_budget_def)
  then have key: "keyOf (tb_Meta b) = (''finops'', ''team-a'')" by (simp add: quiet_budget_def demo_budget_def keyOf_def)
  have g: "bc_getBudget cluster_budgets (w_kube (ru_world (settled b))) ''finops'' ''team-a'' = Inr b"
    by (simp add: cluster_budgets_def srv_get_def settled_def demo_world_def key)
  show thesis
  proof (rule Reconcile_found [OF g, of std_conditions 0 t])
    fix st b' q k
    assume cb: "computedBudget std_conditions 0 t (w_api (ru_world (settled b))) b = (st, b')"
      and rk: "reconcilePrometheusRule cluster_budgets b' (w_kube (ru_world (settled b))) = (q, k)"
      and R: "Reconcile std_conditions cluster_budgets 0 t ''finops'' ''team-a'' (ru_world (settled b)) =
        (let w2 = (ru_world (settled b))\<lparr>w_gauges := budgetGauges b' (w_gauges (ru_world (settled b))), w_kube := k\<rparr> in
         if q = RulePanic then (Panicked, w2)
         else (case bc_updateStatus cluster_budgets b' k of Inl err \<Rightarrow> (Failed err, w2)
          | Inr k' \<Rightarrow> (Done \<lparr>RequeueAfter = nsMinute\<rparr>, w2\<lparr>w_kube := k', w_api := map_option (updateAPIStore b' st) (w_api (ru_world (settled b)))\<rparr>)))"
    note f = computed_status(1,2) [OF cb]
    have api: "w_api (ru_world (settled b)) = Some NewStore" by (simp add: settled_def demo_world_def)
    have k: "q = RuleOk" "cl_budgets k = [(''finops'', ''team-a'') \<mapsto> (b, 1, 1)]"
      using rk by (auto simp: reconcilePrometheusRule_def f m settled_def demo_world_def)
    have b': "snd (computedBudget std_conditions 0 t (Some NewStore) b) = b'" using cb by (simp add: api)
    obtain k' where k': "bc_updateStatus cluster_budgets b' k = Inr k'"
      "cl_budgets k' (''finops'', ''team-a'') = Some (stored_budget b', 1, if stored_budget b' = b then 1 else 2)"
      by (cases "stored_budget b' = b") (simp_all add: cluster_budgets_def srv_update_def k(2) f m(2) key [unfolded m(2)])
    show thesis by (rule that [OF _ g]) (use R k' k(1) in \<open>simp add: Let_def, simp add: Let_def b'\<close>)
  qed
qed

subsection \<open>Properties\<close>

text \<open>C8 No object is ever forgotten: whatever fails, panics or changes, and in whatever order, every CostProfile, TokenBudget and
  UsageReport there is is in the queue of its controller or has a timer that will put it there.\<close>

theorem objects_stay_scheduled:
  assumes "cost_server (e_cost E) metaC" and "budget_server (e_budget E) metaB" and "report_server (e_report E) metaR"
  shows "(queue_reachable metaC CostProfile_SetupWithManager (cost_run E) s \<longrightarrow> metaC (w_kube (ru_world s)) key \<noteq> None \<longrightarrow> scheduled key s)
    \<and> (queue_reachable metaB TokenBudget_SetupWithManager (budget_run E) s \<longrightarrow> metaB (w_kube (ru_world s)) key \<noteq> None \<longrightarrow> scheduled key s)
    \<and> (queue_reachable metaR (UsageReport_SetupWithManager generation_changed) (report_run E) s \<longrightarrow> metaR (w_kube (ru_world s)) key \<noteq> None \<longrightarrow> scheduled key s)"
  using cost_queue.reachable_scheduled [where E = E and meta = metaC and b = CostProfile_SetupWithManager and s = s]
    budget_queue.reachable_scheduled [where E = E and meta = metaB and b = TokenBudget_SetupWithManager and s = s]
    report_queue.reachable_scheduled [where E = E and meta = metaR and b = "UsageReport_SetupWithManager generation_changed" and s = s]
  by (cases key) (simp add: assms)

theorem objects_stay_scheduled_witness:
  "\<exists>s. queue_reachable report_meta (UsageReport_SetupWithManager generation_changed) (report_run cluster_env) s
    \<and> report_meta (w_kube (ru_world s)) (''finops'', ''daily'') \<noteq> None \<and> s \<noteq> demo_running \<and> scheduled (''finops'', ''daily'') s"
proof (rule demo_report_run)
  fix r w'
  assume run: "report_run cluster_env (''finops'', ''daily'') (ru_world demo_running) (Done r) w'"
    and ex: "report_meta (w_kube w') (''finops'', ''daily'') \<noteq> None"
  let ?b = "UsageReport_SetupWithManager generation_changed"
  let ?s = "(deliver report_meta ?b w' (ru_ready demo_running - {(''finops'', ''daily'')}) demo_running)
    \<lparr>ru_timers := ru_timers demo_running \<union> requeue (Done r) (ru_clock demo_running) 0 (''finops'', ''daily'')\<rparr>"
  have "queue_reachable report_meta ?b (report_run cluster_env) demo_running"
    by (rule queue_reachable.start) (simp add: demo_running_def demo_world_def demo_cluster_def srv_meta_def)
  moreover have "queue_step report_meta ?b (report_run cluster_env) demo_running ?s"
    by (rule queue_step.run [where R = "report_run cluster_env" and s = demo_running and res = "Done r"])
      (simp add: demo_running_def, rule run)
  ultimately have reach: "queue_reachable report_meta ?b (report_run cluster_env) ?s" by (rule queue_reachable.step)
  have ex': "report_meta (w_kube (ru_world ?s)) (''finops'', ''daily'') \<noteq> None" using ex by (simp add: deliver_def)
  have "scheduled (''finops'', ''daily'') ?s"
    using objects_stay_scheduled [OF demo_servers(1,3,2), of ?s "(''finops'', ''daily'')"] reach ex' by simp
  moreover have "(''finops'', ''daily'') \<notin> ru_ready ?s"
    using enqueues_generation [of report_meta "w_kube w'" "(''finops'', ''daily'')", OF report_generation [OF demo_servers(2) run]]
    by (simp add: deliver_def)
  moreover have "(''finops'', ''daily'') \<in> ru_ready demo_running" by (simp add: demo_running_def)
  ultimately have "scheduled (''finops'', ''daily'') ?s" "?s \<noteq> demo_running" by metis+
  then show ?thesis using reach ex' by blast
qed

text \<open>C9 A UsageReport keeps its pace: after a run that succeeds, and as long as nobody changes its spec, it is not run again before
  its interval of five minutes is over, whatever else happens (its own status write wakes nobody), and its timer stays set.\<close>

theorem report_paced:
  assumes "report_server (e_report E) meta" and "report_run E key (ru_world s) (Done r) w'"
    and "meta (w_kube w') key \<noteq> None" and "\<forall>d. (d, key) \<notin> ru_timers s"
    and "s1 = (deliver meta (UsageReport_SetupWithManager generation_changed) w' (ru_ready s - {key}) s)
      \<lparr>ru_timers := ru_timers s \<union> requeue (Done r) (ru_clock s) d key\<rparr>"
    and "rtranclp (calm_step meta (UsageReport_SetupWithManager generation_changed) (report_run E) key) s1 s2"
    and "ru_clock s2 < ru_clock s + 5 * nsMinute"
  shows "key \<notin> ru_ready s2 \<and> (ru_clock s + 5 * nsMinute, key) \<in> ru_timers s2"
proof -
  have i: "usageReportReconcileInterval = 5 * nsMinute" by (simp add: usageReportReconcileInterval_def)
  have "waiting key (ru_clock s + 5 * nsMinute) s1"
    using report_queue.run_waiting [where E = E and meta = meta and key = key and s = s and r = r and w' = w' and d = d] assms(1-5) by (simp add: i)
  then have "waiting key (ru_clock s + 5 * nsMinute) s2"
    using report_queue.calm_run [where E = E and meta = meta and key = key and s = s1 and s' = s2] assms(1,6,7) by simp
  then show ?thesis by (simp add: waiting_def)
qed

theorem report_paced_witness:
  "\<exists>r w' (s2 :: (cluster, memdb) running). report_run cluster_env (''finops'', ''daily'') (ru_world demo_running) (Done r) w' \<and> ru_clock s2 = 4 * nsMinute
    \<and> (''finops'', ''daily'') \<notin> ru_ready s2 \<and> (5 * nsMinute, (''finops'', ''daily'')) \<in> ru_timers s2"
proof (rule demo_report_run)
  fix r w'
  assume run: "report_run cluster_env (''finops'', ''daily'') (ru_world demo_running) (Done r) w'"
    and ex: "report_meta (w_kube w') (''finops'', ''daily'') \<noteq> None"
  let ?b = "UsageReport_SetupWithManager generation_changed"
  define s1 where "s1 = (deliver report_meta ?b w' (ru_ready demo_running - {(''finops'', ''daily'')}) demo_running)
    \<lparr>ru_timers := ru_timers demo_running \<union> requeue (Done r) (ru_clock demo_running) 0 (''finops'', ''daily'')\<rparr>"
  define s2 where "s2 = s1\<lparr>ru_clock := 4 * nsMinute, ru_ready := ru_ready s1 \<union> {key. \<exists>d \<le> 4 * nsMinute. (d, key) \<in> ru_timers s1},
    ru_timers := {(d, key) \<in> ru_timers s1. 4 * nsMinute < d}\<rparr>"
  have "queue_step report_meta ?b (report_run cluster_env) s1 s2"
    unfolding s2_def by (rule queue_step.tick) (simp add: s1_def demo_running_def deliver_def nsMinute_def)
  then have calm: "rtranclp (calm_step report_meta ?b (report_run cluster_env) (''finops'', ''daily'')) s1 s2"
    by (intro r_into_rtranclp) (simp add: calm_step_def s2_def)
  have t: "\<forall>d. (d, (''finops'', ''daily'')) \<notin> ru_timers demo_running" "ru_clock s2 < ru_clock demo_running + 5 * nsMinute"
    by (simp_all add: demo_running_def s2_def nsMinute_def)
  have "(''finops'', ''daily'') \<notin> ru_ready s2 \<and> (ru_clock demo_running + 5 * nsMinute, (''finops'', ''daily'')) \<in> ru_timers s2"
    by (rule report_paced [OF demo_servers(2) run ex t(1) s1_def calm t(2)])
  moreover have "ru_clock s2 = 4 * nsMinute" "ru_clock demo_running = 0" by (simp_all add: s2_def demo_running_def)
  ultimately have "ru_clock s2 = 4 * nsMinute \<and> (''finops'', ''daily'') \<notin> ru_ready s2 \<and> (5 * nsMinute, (''finops'', ''daily'')) \<in> ru_timers s2"
    by simp
  then show ?thesis using run by blast
qed

text \<open>C10 CostProfile and TokenBudget do not keep theirs: their watches have no predicate, so a successful run is followed by another at once
  exactly when the status it writes, with its times in whole seconds, is not what is stored already.  Every run a second or more after the time stored in the
  status is: so each run that a timer starts is followed by a second one, at once, besides the timer it sets for the interval.
  Only a run that stores the same (in the same second, with the same figures) wakes nobody, and then the timer is waited for.\<close>

theorem own_write_requeues:
  assumes "cost_server (e_cost E) metaC" and "budget_server (e_budget E) metaB" and "rules_apart (e_budget E) metaB" and "key = (ns, name)"
  shows "(CostProfile_Reconcile (e_conditions E) (e_cost E) (e_store E) (e_power E) fetch (e_embedded E) clk ns name (ru_world s) = (Done r, w')
      \<longrightarrow> kc_getProfile (e_cost E) (w_kube (ru_world s)) ns name = Inr profile
      \<longrightarrow> s1 = after_run metaC CostProfile_SetupWithManager key (Done r) w' d s
      \<longrightarrow> (ru_clock s + 30 * nsSecond, key) \<in> ru_timers s1
        \<and> (\<exists>p. kc_updateStatus (e_cost E) p (w_kube (ru_world s)) = Inr (w_kube w') \<and> (key \<in> ru_ready s1 \<longleftrightarrow> stored_profile p \<noteq> profile))
        \<and> ((\<forall>t. cpt_LastUpdated (prof_Status profile) = Some t \<longrightarrow> t + nsSecond \<le> k_status clk) \<longrightarrow> key \<in> ru_ready s1))
    \<and> (Reconcile (e_conditions E) (e_budget E) now metaNow ns name (ru_world s) = (Done r, w')
      \<longrightarrow> bc_getBudget (e_budget E) (w_kube (ru_world s)) ns name = Inr budget
      \<longrightarrow> s1 = after_run metaB TokenBudget_SetupWithManager key (Done r) w' d s
      \<longrightarrow> (ru_clock s + nsMinute, key) \<in> ru_timers s1
        \<and> (\<exists>b k. bc_updateStatus (e_budget E) b k = Inr (w_kube w') \<and> (key \<in> ru_ready s1 \<longleftrightarrow> stored_budget b \<noteq> budget))
        \<and> ((\<forall>t. tbt_LastUpdated (tb_Status budget) = Some t \<longrightarrow> t + nsSecond \<le> metaNow) \<longrightarrow> key \<in> ru_ready s1))"
proof (intro conjI impI)
  let ?s = "after_run metaC CostProfile_SetupWithManager key (Done r) w' d s"
  assume r: "CostProfile_Reconcile (e_conditions E) (e_cost E) (e_store E) (e_power E) fetch (e_embedded E) clk ns name (ru_world s) = (Done r, w')"
    and g: "kc_getProfile (e_cost E) (w_kube (ru_world s)) ns name = Inr profile" and s1: "s1 = ?s"
  obtain p where p: "RequeueAfter r = 30 * nsSecond" "kc_updateStatus (e_cost E) p (w_kube (ru_world s)) = Inr (w_kube w')"
    "cpt_LastUpdated (prof_Status p) = Some (k_status clk)" "key \<in> ru_ready ?s \<longleftrightarrow> stored_profile p \<noteq> profile"
    using cost_own_write [OF assms(1) g r] by (auto simp: after_run_ready assms(4))
  show "(ru_clock s + 30 * nsSecond, key) \<in> ru_timers s1" using after_run_timer [of r s key metaC] p(1) by (simp add: s1 nsSecond_def)
  show "\<exists>p. kc_updateStatus (e_cost E) p (w_kube (ru_world s)) = Inr (w_kube w') \<and> (key \<in> ru_ready s1 \<longleftrightarrow> stored_profile p \<noteq> profile)"
    unfolding s1 using p(2,4) by blast
  assume later: "\<forall>t. cpt_LastUpdated (prof_Status profile) = Some t \<longrightarrow> t + nsSecond \<le> k_status clk"
  have "stored_profile p \<noteq> profile"
  proof
    assume "stored_profile p = profile"
    then have "cpt_LastUpdated (prof_Status profile) = Some (stored_time (k_status clk))" using stored_updated(1) [of p] p(3) by simp
    then show False using later stored_later by blast
  qed
  then show "key \<in> ru_ready s1" unfolding s1 using p(4) by blast
next
  let ?s = "after_run metaB TokenBudget_SetupWithManager key (Done r) w' d s"
  assume r: "Reconcile (e_conditions E) (e_budget E) now metaNow ns name (ru_world s) = (Done r, w')"
    and g: "bc_getBudget (e_budget E) (w_kube (ru_world s)) ns name = Inr budget" and s1: "s1 = ?s"
  obtain b k where b: "RequeueAfter r = nsMinute" "bc_updateStatus (e_budget E) b k = Inr (w_kube w')"
    "tbt_LastUpdated (tb_Status b) = Some metaNow" "key \<in> ru_ready ?s \<longleftrightarrow> stored_budget b \<noteq> budget"
    using budget_own_write [OF assms(2,3) g r] by (auto simp: after_run_ready assms(4))
  show "(ru_clock s + nsMinute, key) \<in> ru_timers s1" using after_run_timer [of r s key metaB] b(1) by (simp add: s1 nsMinute_def)
  show "\<exists>b k. bc_updateStatus (e_budget E) b k = Inr (w_kube w') \<and> (key \<in> ru_ready s1 \<longleftrightarrow> stored_budget b \<noteq> budget)"
    unfolding s1 using b(2,4) by blast
  assume later: "\<forall>t. tbt_LastUpdated (tb_Status budget) = Some t \<longrightarrow> t + nsSecond \<le> metaNow"
  have "stored_budget b \<noteq> budget"
  proof
    assume "stored_budget b = budget"
    then have "tbt_LastUpdated (tb_Status budget) = Some (stored_time metaNow)" using stored_updated(2) [of b] b(3) by simp
    then show False using later stored_later by blast
  qed
  then show "key \<in> ru_ready s1" unfolding s1 using b(4) by blast
qed

theorem own_write_requeues_witness:
  "(\<exists>r w'. Reconcile std_conditions cluster_budgets 0 nsHour ''finops'' ''team-a'' (ru_world (settled quiet_budget)) = (Done r, w')
      \<and> (''finops'', ''team-a'') \<in> ru_ready (after_run (\<lambda>k. srv_meta (cl_budgets k)) TokenBudget_SetupWithManager (''finops'', ''team-a'') (Done r) w' 0 (settled quiet_budget)))
    \<and> (\<exists>r w'. Reconcile std_conditions cluster_budgets 0 (nsHour + 1) ''finops'' ''team-a'' (ru_world (settled done_budget)) = (Done r, w')
      \<and> (''finops'', ''team-a'') \<notin> ru_ready (after_run (\<lambda>k. srv_meta (cl_budgets k)) TokenBudget_SetupWithManager (''finops'', ''team-a'') (Done r) w' 0 (settled done_budget))
      \<and> (nsMinute, (''finops'', ''team-a'')) \<in> ru_timers (after_run (\<lambda>k. srv_meta (cl_budgets k)) TokenBudget_SetupWithManager (''finops'', ''team-a'') (Done r) w' 0 (settled done_budget)))"
proof
  have e: "e_conditions cluster_env = std_conditions" "e_budget cluster_env = cluster_budgets" by (simp_all add: cluster_env_def)
  note T = own_write_requeues [OF demo_servers(1,3,4) refl, where d = 0 and now = 0 and ns = "''finops''" and name = "''team-a''", unfolded e, THEN conjunct2]
  show "\<exists>r w'. Reconcile std_conditions cluster_budgets 0 nsHour ''finops'' ''team-a'' (ru_world (settled quiet_budget)) = (Done r, w')
      \<and> (''finops'', ''team-a'') \<in> ru_ready (after_run (\<lambda>k. srv_meta (cl_budgets k)) TokenBudget_SetupWithManager (''finops'', ''team-a'') (Done r) w' 0 (settled quiet_budget))"
  proof (rule quiet_run [OF disjI1 [OF refl], of nsHour])
    fix r w'
    assume r: "Reconcile std_conditions cluster_budgets 0 nsHour ''finops'' ''team-a'' (ru_world (settled quiet_budget)) = (Done r, w')"
      and g: "bc_getBudget cluster_budgets (w_kube (ru_world (settled quiet_budget))) ''finops'' ''team-a'' = Inr quiet_budget"
    have "tbt_LastUpdated (tb_Status quiet_budget) = None" by (simp add: quiet_budget_def demo_budget_def)
    then show ?thesis using T [rule_format, OF r g refl] r by simp
  qed
  show "\<exists>r w'. Reconcile std_conditions cluster_budgets 0 (nsHour + 1) ''finops'' ''team-a'' (ru_world (settled done_budget)) = (Done r, w')
      \<and> (''finops'', ''team-a'') \<notin> ru_ready (after_run (\<lambda>k. srv_meta (cl_budgets k)) TokenBudget_SetupWithManager (''finops'', ''team-a'') (Done r) w' 0 (settled done_budget))
      \<and> (nsMinute, (''finops'', ''team-a'')) \<in> ru_timers (after_run (\<lambda>k. srv_meta (cl_budgets k)) TokenBudget_SetupWithManager (''finops'', ''team-a'') (Done r) w' 0 (settled done_budget))"
  proof (rule quiet_run [OF disjI2 [OF refl], of "nsHour + 1"])
    fix r w'
    assume r: "Reconcile std_conditions cluster_budgets 0 (nsHour + 1) ''finops'' ''team-a'' (ru_world (settled done_budget)) = (Done r, w')"
      and g: "bc_getBudget cluster_budgets (w_kube (ru_world (settled done_budget))) ''finops'' ''team-a'' = Inr done_budget"
      and v: "cl_budgets (w_kube w') (''finops'', ''team-a'') =
        (let b' = stored_budget (snd (computedBudget std_conditions 0 (nsHour + 1) (Some NewStore) done_budget)) in Some (b', 1, if b' = done_budget then 1 else 2))"
    have "cl_budgets (w_kube w') (''finops'', ''team-a'') = cl_budgets (w_kube (ru_world (settled done_budget))) (''finops'', ''team-a'')"
      using v by (simp add: done_again settled_def demo_world_def)
    then have "(''finops'', ''team-a'') \<notin> ru_ready (after_run (\<lambda>k. srv_meta (cl_budgets k)) TokenBudget_SetupWithManager (''finops'', ''team-a'') (Done r) w' 0 (settled done_budget))"
      by (simp add: after_run_ready enqueues_def srv_meta_def split: option.split)
    moreover have "ru_clock (settled done_budget) = 0" by (simp add: settled_def demo_running_def)
    ultimately show ?thesis using T [rule_format, OF r g refl] r by simp
  qed
qed

end
