(* ===== verification/StoreHeap.thy ===== *)
theory StoreHeap
  imports TokenBudgetCtl
begin

text \<open>
  The budget rows as Go holds them: slices that point to arrays.  The store, the controller and the requests in flight each
  hold one; the store's lock covers a call, not the controller's read, change and write back, nor the encoding of an
  answer.  The theory shows that the copy made by \<open>GetBudgets\<close> keeps them apart, so that any interleaving of the calls
  behaves as \<open>updateAPIStore\<close> and \<open>handleBudgets\<close> executed at one instant.
\<close>

subsection \<open>The heap\<close>

text \<open>Arrays by address; a slice is an address, with its length the length of the array (\<open>make\<close> gives no spare capacity).\<close>

record heapStore =
  hs_arrays :: "BudgetData list list"
  hs_budgets :: nat
  hs_others :: Store

text \<open>What the store means: its slots, with the rows its slice points to.\<close>

definition view_store :: "heapStore \<Rightarrow> Store" where
  "view_store h = SetBudgets (hs_arrays h ! hs_budgets h) (hs_others h)"

definition heap_alloc :: "BudgetData list \<Rightarrow> heapStore \<Rightarrow> nat \<times> heapStore" where
  "heap_alloc rows h = (length (hs_arrays h), h\<lparr>hs_arrays := hs_arrays h @ [rows]\<rparr>)"

definition heap_NewStore :: heapStore where
  "heap_NewStore = \<lparr>hs_arrays = [[]], hs_budgets = 0, hs_others = NewStore\<rparr>"

text \<open>\<open>make\<close> and \<open>copy\<close>, under the lock.\<close>

definition heap_GetBudgets :: "heapStore \<Rightarrow> nat \<times> heapStore" where
  "heap_GetBudgets h = heap_alloc (hs_arrays h ! hs_budgets h) h"

definition heap_SetBudgets :: "nat \<Rightarrow> heapStore \<Rightarrow> heapStore" where
  "heap_SetBudgets a h = h\<lparr>hs_budgets := a\<rparr>"

definition heap_assign :: "nat \<Rightarrow> nat \<Rightarrow> BudgetData \<Rightarrow> heapStore \<Rightarrow> heapStore" where
  "heap_assign a i row h = h\<lparr>hs_arrays := (hs_arrays h)[a := (hs_arrays h ! a)[i := row]]\<rparr>"

text \<open>An append to a full slice copies it to a new array.\<close>

definition heap_append :: "nat \<Rightarrow> BudgetData \<Rightarrow> heapStore \<Rightarrow> nat \<times> heapStore" where
  "heap_append a row h = heap_alloc (hs_arrays h ! a @ [row]) h"

text \<open>The loop of \<open>updateAPIStore\<close>: the index of the row to assign.\<close>

fun budgetIndex :: "TokenBudget \<Rightarrow> nat \<Rightarrow> BudgetData list \<Rightarrow> nat option" where
  "budgetIndex budget i [] = None"
| "budgetIndex budget i (b # bs) = (if gd_Name b = om_Name (tb_Meta budget) \<and> gd_Namespace b = om_Namespace (tb_Meta budget)
     then Some i else budgetIndex budget (i + 1) bs)"

text \<open>Its body: the slice it goes on with, and the heap.\<close>

definition heap_updateRows :: "TokenBudget \<Rightarrow> gostring \<Rightarrow> nat \<Rightarrow> heapStore \<Rightarrow> nat \<times> heapStore" where
  "heap_updateRows budget status existing h =
    (case budgetIndex budget 0 (hs_arrays h ! existing) of
       Some i \<Rightarrow> (existing, heap_assign existing i (budgetRow budget status) h)
     | None \<Rightarrow> heap_append existing (budgetRow budget status) h)"

lemma replaceBudget_index:
  "replaceBudget b st rows = (case budgetIndex b i rows of None \<Rightarrow> (rows, False) | Some j \<Rightarrow> (rows[j - i := budgetRow b st], True))
    \<and> (\<forall>j. budgetIndex b i rows = Some j \<longrightarrow> i \<le> j \<and> j < i + length rows)"
proof (induction rows arbitrary: i)
  case (Cons r rows)
  have upd: "r # rows[j - (i + 1) := x] = (r # rows)[j - i := x]" if "i + 1 \<le> j" for j x
  proof -
    obtain k where "j = i + 1 + k" using \<open>i + 1 \<le> j\<close> by (auto simp: le_iff_add)
    then show ?thesis by simp
  qed
  note IH = Cons [of "i + 1"]
  show ?case
  proof (cases "gd_Name r = om_Name (tb_Meta b) \<and> gd_Namespace r = om_Namespace (tb_Meta b)")
    case False
    show ?thesis
    proof (cases "budgetIndex b (i + 1) rows")
      case (Some j)
      then show ?thesis using IH False upd [of j] by (simp only: replaceBudget.simps budgetIndex.simps) simp
    qed (use IH False in simp)
  qed simp
qed simp

text \<open>Alone, the three calls are \<open>updateAPIStore\<close>.\<close>

lemma update_rows:
  assumes "a < length (hs_arrays h)" and "heap_updateRows b st a h = (a', h')" and "hs_arrays h ! a = GetBudgets s"
  shows "hs_arrays h' ! a' = GetBudgets (updateAPIStore b st s)" and "a' < length (hs_arrays h')"
    and "a' = a \<or> a' = length (hs_arrays h)" and "\<And>x. x < length (hs_arrays h) \<Longrightarrow> x \<noteq> a \<Longrightarrow> hs_arrays h' ! x = hs_arrays h ! x"
    and "length (hs_arrays h) \<le> length (hs_arrays h')" and "hs_budgets h' = hs_budgets h" and "hs_others h' = hs_others h"
  using assms replaceBudget_index [of b st "GetBudgets s" 0]
  by (auto simp: heap_updateRows_def heap_assign_def heap_append_def heap_alloc_def updateAPIStore_def store_defs nth_append
      split: option.splits)

subsection \<open>Interleavings\<close>

text \<open>Where the controller is in \<open>updateAPIStore\<close>.\<close>

datatype writer = Idle | Holding TokenBudget gostring nat | Built TokenBudget gostring nat

text \<open>
  Requests in flight: the slice a handler is about to encode, and, for the statement only, what the store meant when
  the handler read it.
\<close>

record sharing =
  sh_heap :: heapStore
  sh_writer :: writer
  sh_replies :: "(nat \<times> Store) list"

text \<open>One call of the store, or one stretch of code between two calls, is a step.\<close>

inductive share_step :: "sharing \<Rightarrow> sharing \<Rightarrow> bool" where
  read: "sh_writer s = Idle \<Longrightarrow> heap_GetBudgets (sh_heap s) = (a, h) \<Longrightarrow>
    share_step s (s\<lparr>sh_heap := h, sh_writer := Holding b st a\<rparr>)"
| build: "sh_writer s = Holding b st a \<Longrightarrow> heap_updateRows b st a (sh_heap s) = (a', h) \<Longrightarrow>
    share_step s (s\<lparr>sh_heap := h, sh_writer := Built b st a'\<rparr>)"
| install: "sh_writer s = Built b st a \<Longrightarrow> share_step s (s\<lparr>sh_heap := heap_SetBudgets a (sh_heap s), sh_writer := Idle\<rparr>)"
| others: "f \<in> not_budgets \<Longrightarrow> share_step s (s\<lparr>sh_heap := (sh_heap s)\<lparr>hs_others := f (hs_others (sh_heap s))\<rparr>\<rparr>)"
| request: "heap_GetBudgets (sh_heap s) = (a, h) \<Longrightarrow>
    share_step s (s\<lparr>sh_heap := h, sh_replies := (a, view_store (sh_heap s)) # sh_replies s\<rparr>)"
| reply: "share_step s (s\<lparr>sh_replies := remove1 r (sh_replies s)\<rparr>)"

inductive share_reachable :: "sharing \<Rightarrow> bool" where
  start: "share_reachable \<lparr>sh_heap = heap_NewStore, sh_writer = Idle, sh_replies = []\<rparr>"
| step: "share_reachable s \<Longrightarrow> share_step s s' \<Longrightarrow> share_reachable s'"

text \<open>What a handler sends for the slice it holds.\<close>

definition encodeBudgets :: "nat \<Rightarrow> heapStore \<Rightarrow> response" where
  "encodeBudgets a h = (200, BBudgets (hs_arrays h ! a) (length (hs_arrays h ! a)))"

subsection \<open>Nobody shares an array\<close>

lemma view_budgets [simp]: "GetBudgets (view_store h) = hs_arrays h ! hs_budgets h"
  by (simp add: view_store_def budgets_slot.get_set)

lemma update_rows_only: "GetBudgets s = GetBudgets t \<Longrightarrow> GetBudgets (updateAPIStore b st s) = GetBudgets (updateAPIStore b st t)"
  by (simp add: updateAPIStore_def Let_def budgets_slot.get_set split: prod.split)

lemma update_set: "updateAPIStore b st s = SetBudgets (GetBudgets (updateAPIStore b st s)) s"
  by (simp add: updateAPIStore_def Let_def budgets_slot.get_set split: prod.split)

lemma others_commute: "f \<in> not_budgets \<Longrightarrow> SetBudgets rows (f s) = f (SetBudgets rows s)"
  by (auto simp: not_budgets_def store_defs)

text \<open>The array an address of the controller points to: nobody else's.\<close>

definition unshared :: "nat \<Rightarrow> sharing \<Rightarrow> bool" where
  "unshared a s = (a < length (hs_arrays (sh_heap s)) \<and> a \<noteq> hs_budgets (sh_heap s) \<and> a \<notin> fst ` set (sh_replies s))"

definition apart :: "sharing \<Rightarrow> bool" where
  "apart s = (hs_budgets (sh_heap s) < length (hs_arrays (sh_heap s))
     \<and> (\<forall>(a, v) \<in> set (sh_replies s). a < length (hs_arrays (sh_heap s)) \<and> hs_arrays (sh_heap s) ! a = GetBudgets v)
     \<and> (case sh_writer s of
          Idle \<Rightarrow> True
        | Holding b st a \<Rightarrow> unshared a s \<and> hs_arrays (sh_heap s) ! a = GetBudgets (view_store (sh_heap s))
        | Built b st a \<Rightarrow> unshared a s \<and> hs_arrays (sh_heap s) ! a = GetBudgets (updateAPIStore b st (view_store (sh_heap s)))))"

lemma GetBudgets_fresh:
  assumes "heap_GetBudgets h = (a, h')"
  shows "a = length (hs_arrays h)" "hs_arrays h' = hs_arrays h @ [hs_arrays h ! hs_budgets h]" "hs_budgets h' = hs_budgets h" "hs_others h' = hs_others h"
  using assms by (auto simp: heap_GetBudgets_def heap_alloc_def)

lemma view_others: "f \<in> not_budgets \<Longrightarrow> view_store (h\<lparr>hs_others := f (hs_others h)\<rparr>) = f (view_store h)"
  by (simp add: view_store_def others_commute)

lemma step_view:
  assumes "share_step s s'" and "apart s"
  shows "view_store (sh_heap s') = view_store (sh_heap s)
    \<or> (\<exists>f \<in> not_budgets. view_store (sh_heap s') = f (view_store (sh_heap s)))
    \<or> (\<exists>b st a. sh_writer s = Built b st a \<and> view_store (sh_heap s') = updateAPIStore b st (view_store (sh_heap s)))"
  using assms(1)
proof cases
  case (read a h b st)
  then show ?thesis using assms(2) GetBudgets_fresh [OF read(3)] by (simp add: view_store_def apart_def nth_append)
next
  case (build b st a a' h)
  then have p: "unshared a s" "hs_arrays (sh_heap s) ! a = GetBudgets (view_store (sh_heap s))" using assms(2) by (simp_all add: apart_def)
  have "view_store h = view_store (sh_heap s)"
    using update_rows(4,6,7) [OF _ build(3) p(2)] p(1) assms(2) by (simp add: view_store_def unshared_def apart_def)
  then show ?thesis by (simp add: build(1))
next
  case (install b st a)
  then have "hs_arrays (sh_heap s) ! a = GetBudgets (updateAPIStore b st (view_store (sh_heap s)))" using assms(2) by (simp add: apart_def)
  then have "view_store (sh_heap s') = updateAPIStore b st (view_store (sh_heap s))"
    using update_set [of b st "view_store (sh_heap s)"] by (simp add: install(1) heap_SetBudgets_def view_store_def budgets_slot.set_set)
  then show ?thesis using install(2) by blast
next
  case (others f)
  then show ?thesis using view_others by auto
next
  case (request a h)
  then show ?thesis using assms(2) GetBudgets_fresh [OF request(2)] by (simp add: view_store_def apart_def nth_append)
qed simp

lemma step_apart:
  assumes "share_step s s'" and "apart s"
  shows "apart s'"
  using assms(1)
proof cases
  case (read a h b st)
  then show ?thesis using assms(2) GetBudgets_fresh [OF read(3)]
    by (auto simp: apart_def unshared_def nth_append split: writer.splits)
next
  case (build b st a a' h)
  then have p: "unshared a s" "hs_arrays (sh_heap s) ! a = GetBudgets (view_store (sh_heap s))" using assms(2) by (simp_all add: apart_def)
  have l: "a < length (hs_arrays (sh_heap s))" using p(1) by (simp add: unshared_def)
  note u = update_rows [OF l build(3) p(2)]
  have v: "view_store h = view_store (sh_heap s)"
    using u(4,6,7) p(1) assms(2) by (simp add: view_store_def unshared_def apart_def)
  have b: "hs_budgets h < length (hs_arrays (sh_heap s))" using assms(2) u(6) by (simp add: apart_def)
  have n: "x < length (hs_arrays (sh_heap s))" "x \<noteq> a" "hs_arrays (sh_heap s) ! x = GetBudgets y" if "(x, y) \<in> set (sh_replies s)" for x y
    using assms(2) p(1) that by (force simp: apart_def unshared_def)+
  have "a' \<notin> fst ` set (sh_replies s)" using u(3) n(1,2) by force
  moreover have "a' \<noteq> hs_budgets h" using u(3,6) b p(1) by (auto simp: unshared_def)
  ultimately have "unshared a' s'" using u(2) by (simp add: build(1) unshared_def)
  moreover have "\<forall>(x, y) \<in> set (sh_replies s). x < length (hs_arrays h) \<and> hs_arrays h ! x = GetBudgets y"
    using n u(4,5) by fastforce
  ultimately show ?thesis using u(1,5) b v by (simp add: build(1) apart_def)
next
  case (install b st a)
  then show ?thesis using assms(2) by (auto simp: apart_def unshared_def heap_SetBudgets_def)
next
  case (others f)
  note r = update_rows_only [OF budgets_slot.get_foreign [OF others(2)]]
  have "view_store ((sh_heap s)\<lparr>hs_others := f (hs_others (sh_heap s))\<rparr>) = f (view_store (sh_heap s))" by (rule view_others [OF others(2)])
  then show ?thesis using assms(2) unfolding others(1) apart_def unshared_def
    by (simp add: r budgets_slot.get_foreign [OF others(2)] split: writer.splits)
next
  case (request a h)
  note f = GetBudgets_fresh [OF request(2)]
  have "view_store h = view_store (sh_heap s)" using assms(2) by (simp add: f view_store_def apart_def nth_append)
  then show ?thesis using assms(2) f unfolding request(1) by (auto simp: apart_def unshared_def nth_append split: writer.splits)
next
  case (reply r)
  define rs where "rs = remove1 r (sh_replies s)"
  have "set rs \<subseteq> set (sh_replies s)" by (simp add: rs_def set_remove1_subset)
  then have "x \<in> set rs \<Longrightarrow> x \<in> set (sh_replies s)" for x by blast
  then show ?thesis using assms(2) unfolding reply(1) rs_def [symmetric] apart_def unshared_def by (auto split: writer.splits)
qed

lemma reachable_apart: "share_reachable s \<Longrightarrow> apart s"
proof (induction rule: share_reachable.induct)
  case start
  then show ?case by (simp add: apart_def heap_NewStore_def)
next
  case (step s s')
  then show ?case using step_apart by blast
qed

text \<open>C6 The rows of the budgets are never shared and never torn: however the calls of the controllers and of the requests
  interleave, one step of any of them changes what the store means by one write of another slot, or by one whole
  \<open>updateAPIStore\<close> (at its last call, on the rows as they are then), or not at all; and a request in flight sends the
  answer of \<open>handleBudgets\<close> on the store as it was when it read it, whatever has been written since.\<close>

theorem store_calls_linearize:
  assumes "share_reachable s"
  shows "(\<forall>s'. share_step s s' \<longrightarrow> view_store (sh_heap s') = view_store (sh_heap s)
      \<or> (\<exists>f \<in> not_budgets. view_store (sh_heap s') = f (view_store (sh_heap s)))
      \<or> (\<exists>b st a. sh_writer s = Built b st a \<and> view_store (sh_heap s') = updateAPIStore b st (view_store (sh_heap s))))
    \<and> (\<forall>(a, v) \<in> set (sh_replies s). encodeBudgets a (sh_heap s) = handleBudgets v)"
proof
  have i: "apart s" by (rule reachable_apart [OF assms])
  show "\<forall>s'. share_step s s' \<longrightarrow> view_store (sh_heap s') = view_store (sh_heap s)
      \<or> (\<exists>f \<in> not_budgets. view_store (sh_heap s') = f (view_store (sh_heap s)))
      \<or> (\<exists>b st a. sh_writer s = Built b st a \<and> view_store (sh_heap s') = updateAPIStore b st (view_store (sh_heap s)))"
    using step_view [OF _ i] by blast
  show "\<forall>(a, v) \<in> set (sh_replies s). encodeBudgets a (sh_heap s) = handleBudgets v"
    using i by (auto simp: apart_def encodeBudgets_def handleBudgets_def Let_def)
qed

text \<open>A request reads the rows while the controller is between its read and its write back.\<close>

definition demo_sharing :: sharing where
  "demo_sharing = \<lparr>sh_heap = \<lparr>hs_arrays = [[], [], [], [budgetRow demo_budget ''ok'']], hs_budgets = 0, hs_others = NewStore\<rparr>,
     sh_writer = Built demo_budget ''ok'' 3, sh_replies = [(2, NewStore)]\<rparr>"

lemma demo_sharing_reachable: "share_reachable demo_sharing"
proof -
  define s1 where "s1 = \<lparr>sh_heap = \<lparr>hs_arrays = [[], []], hs_budgets = 0, hs_others = NewStore\<rparr>, sh_writer = Holding demo_budget ''ok'' 1, sh_replies = []\<rparr>"
  define s2 where "s2 = s1\<lparr>sh_heap := (sh_heap s1)\<lparr>hs_arrays := [[], [], []]\<rparr>, sh_replies := [(2, NewStore)]\<rparr>"
  have n: "SetBudgets [] NewStore = NewStore" by (simp add: NewStore_def store_defs)
  have "share_step \<lparr>sh_heap = heap_NewStore, sh_writer = Idle, sh_replies = []\<rparr> s1"
    using share_step.read [of "\<lparr>sh_heap = heap_NewStore, sh_writer = Idle, sh_replies = []\<rparr>" 1 "sh_heap s1" demo_budget "''ok''"]
    by (simp add: s1_def heap_NewStore_def heap_GetBudgets_def heap_alloc_def)
  moreover have "share_step s1 s2"
    using share_step.request [of s1 2 "sh_heap s2"]
    by (simp add: s1_def s2_def heap_GetBudgets_def heap_alloc_def view_store_def n)
  moreover have "share_step s2 demo_sharing"
    using share_step.build [of s2 demo_budget "''ok''" 1 3 "sh_heap demo_sharing"]
    by (simp add: s1_def s2_def demo_sharing_def heap_updateRows_def heap_append_def heap_alloc_def)
  ultimately show ?thesis by (meson share_reachable.intros)
qed

theorem store_calls_linearize_witness:
  "\<exists>s'. share_step demo_sharing s' \<and> GetBudgets (view_store (sh_heap s')) = [budgetRow demo_budget ''ok'']
    \<and> encodeBudgets 2 (sh_heap demo_sharing) = handleBudgets NewStore"
proof -
  define s' where "s' = demo_sharing\<lparr>sh_heap := heap_SetBudgets 3 (sh_heap demo_sharing), sh_writer := Idle\<rparr>"
  have "share_step demo_sharing s'" unfolding s'_def by (rule share_step.install) (simp add: demo_sharing_def)
  moreover have "GetBudgets (view_store (sh_heap s')) = [budgetRow demo_budget ''ok'']"
    by (simp add: s'_def demo_sharing_def heap_SetBudgets_def)
  moreover have "(2, NewStore) \<in> set (sh_replies demo_sharing)" by (simp add: demo_sharing_def)
  then have "encodeBudgets 2 (sh_heap demo_sharing) = handleBudgets NewStore"
    using store_calls_linearize [OF demo_sharing_reachable] by auto
  ultimately show ?thesis by blast
qed

end
