(* ===== verification/AlertFacts.thy ===== *)
theory AlertFacts
  imports TokenBudgetCtl
begin

text \<open>
  The Prometheus alerts of a budget against the gauge they watch and the status they duplicate: the rule a reconcile
  leaves in the cluster, and when its alerts fire.
\<close>

subsection \<open>Selectors\<close>

text \<open>The PromQL text that selects one series of a gauge: its name, and a value for each of its labels.\<close>

fun labelMatchers :: "gostring list \<Rightarrow> gostring list \<Rightarrow> gostring" where
  "labelMatchers (l # ls) (v # vs) = l @ ''=\"'' @ v @ ''\"'' @ (if ls = [] then [] else '','' @ labelMatchers ls vs)"
| "labelMatchers _ _ = []"

definition seriesText :: "gaugeVec \<Rightarrow> gostring list \<Rightarrow> gostring" where
  "seriesText g vs = gv_Name g @ ''{'' @ labelMatchers (gv_Labels g) vs @ ''}''"

text \<open>The declaration of a gauge.\<close>

definition declared :: "gostring \<Rightarrow> gaugeVec option" where
  "declared n = List.find (\<lambda>g. gv_Name g = n) gaugeVecs"

text \<open>\<open>series >= percent\<close>, evaluated on the gauges; a series that is not there selects nothing.\<close>

definition exceeds :: "gauges \<Rightarrow> gaugeVec \<Rightarrow> gostring list \<Rightarrow> int32 \<Rightarrow> bool" where
  "exceeds g v ls p = (case gauge_get g (gv_Name v) ls of None \<Rightarrow> False | Some u \<Rightarrow> f_of_int32 p \<le> u)"

lemma declared_utilization:
  obtains v where "declared BudgetUtilizationPercent = Some v" and "v \<in> set gaugeVecs" and "gv_Name v = BudgetUtilizationPercent"
    and "gv_Labels v = [''namespace'', ''budget_name'']"
proof -
  have "\<exists>v. declared BudgetUtilizationPercent = Some v \<and> v \<in> set gaugeVecs \<and> gv_Name v = BudgetUtilizationPercent
      \<and> gv_Labels v = [''namespace'', ''budget_name'']"
    by (simp add: declared_def gaugeVecs_def gauge_defs gauge_name_def)
  then show thesis using that by blast
qed

subsection \<open>The rules of a budget\<close>

lemma alertRules_map: "alertRules b ts = Some rules \<Longrightarrow> length rules = length ts \<and> (\<forall>(t, r) \<in> set (zip ts rules). alertRule b t = Some r)"
  by (induction ts arbitrary: rules) (auto split: option.splits)

lemma alertRule_text:
  assumes "alertRule b t = Some r" and "declared BudgetUtilizationPercent = Some v"
  shows "ar_Expr r = seriesText v [tsc_Namespace (tbs_Scope (tb_Spec b)), om_Name (tb_Meta b)] @ '' >= '' @ show_int32 (at_Percent t)"
    and "ar_Severity r = at_Severity t" and "ar_For r = (if at_Severity t = ''critical'' then ''1m'' else ''5m'')"
proof -
  have v: "gv_Name v = BudgetUtilizationPercent" "gv_Labels v = [''namespace'', ''budget_name'']"
    using declared_utilization assms(2) by auto
  show "ar_Expr r = seriesText v [tsc_Namespace (tbs_Scope (tb_Spec b)), om_Name (tb_Meta b)] @ '' >= '' @ show_int32 (at_Percent t)"
    and "ar_Severity r = at_Severity t" and "ar_For r = (if at_Severity t = ''critical'' then ''1m'' else ''5m'')"
    using assms(1) by (auto simp: alertRule_def Let_def seriesText_def v BudgetUtilizationPercent_def gauge_name_def severityCritical_def split: option.splits)
qed

subsection \<open>The rule in the cluster\<close>

text \<open>What a reconcile relies on: an owner reference changes nothing else, a written rule is read back, a status write leaves the rules alone.\<close>

locale rule_server =
  fixes K :: "'k budget_client"
  assumes owner: "bc_setOwner K b x = Inr y \<Longrightarrow> pr_Name y = pr_Name x \<and> pr_Namespace y = pr_Namespace x"
    and named: "bc_getRule K k ns n = Inr x \<Longrightarrow> pr_Name x = n \<and> pr_Namespace x = ns"
    and created: "bc_createRule K x k = Inr k' \<Longrightarrow> bc_getRule K k' (pr_Namespace x) (pr_Name x) = Inr x"
    and updated: "bc_updateRule K x k = Inr k' \<Longrightarrow> bc_getRule K k' (pr_Namespace x) (pr_Name x) = Inr x"
    and status_apart: "bc_updateStatus K b k = Inr k' \<Longrightarrow> bc_getRule K k' = bc_getRule K k"
begin

text \<open>A rule run without error either leaves the rules of the budget in the cluster or finds the kind missing.\<close>

lemma installed:
  assumes "reconcilePrometheusRule K b k = (RuleOk, k')" and "tbs_AlertThresholds (tb_Spec b) \<noteq> []"
  shows "\<exists>rules. alertRules b (tbs_AlertThresholds (tb_Spec b)) = Some rules
    \<and> ((\<exists>x. bc_getRule K k' (om_Namespace (tb_Meta b)) (''infercost-budget-'' @ om_Name (tb_Meta b)) = Inr x
          \<and> pr_Groups x = [(''infercost-budget-'' @ om_Name (tb_Meta b) @ ''.rules'', rules)])
       \<or> k' = k \<and> (\<forall>x. bc_getRule K k (om_Namespace (tb_Meta b)) (''infercost-budget-'' @ om_Name (tb_Meta b)) \<noteq> Inr x))"
proof (cases "alertRules b (tbs_AlertThresholds (tb_Spec b))")
  case None
  then show ?thesis using assms by (simp add: reconcilePrometheusRule_def)
next
  case (Some rules)
  let ?n = "''infercost-budget-'' @ om_Name (tb_Meta b)" and ?ns = "om_Namespace (tb_Meta b)"
  let ?bare = "\<lparr>pr_Name = ?n, pr_Namespace = ?ns, pr_Labels = [(''app.kubernetes.io/name'', ''infercost''),
      (''app.kubernetes.io/managed-by'', ''infercost''), (''infercost.ai/budget'', om_Name (tb_Meta b))], pr_Owner = None, pr_Groups = []\<rparr>"
  show ?thesis
  proof (cases "bc_setOwner K b ?bare")
    case (Inl e)
    then show ?thesis using assms by (simp add: reconcilePrometheusRule_def Some Let_def)
  next
    case (Inr owned)
    have o: "pr_Name owned = ?n" "pr_Namespace owned = ?ns" using owner [OF Inr] by simp_all
    let ?x = "owned\<lparr>pr_Groups := [(''infercost-budget-'' @ om_Name (tb_Meta b) @ ''.rules'', rules)]\<rparr>"
    note R = assms(1) [unfolded reconcilePrometheusRule_def Some Let_def option.case Inr sum.case]
    show ?thesis
    proof (cases "bc_getRule K k ?ns ?n")
      case (Inl e)
      then show ?thesis using R assms(2) created [of ?x k k'] by (auto simp: o Some split: kerror.splits sum.splits)
    next
      case (Inr existing)
      then show ?thesis using R assms(2) updated [of "existing\<lparr>pr_Groups := pr_Groups ?x, pr_Labels := pr_Labels ?x\<rparr>" k k'] named [OF Inr]
        by (auto simp: Some split: sum.splits)
    qed
  qed
qed

end

text \<open>A cluster that serves one budget and its rules.\<close>

definition rules_client :: "TokenBudget \<Rightarrow> (gostring \<times> gostring \<Rightarrow> PromRule option) budget_client" where
  "rules_client b = \<lparr>bc_getBudget = \<lambda>k ns n. Inr b, bc_updateStatus = \<lambda>b k. Inr k,
     bc_setOwner = \<lambda>b r. Inr (r\<lparr>pr_Owner := Some (om_Name (tb_Meta b))\<rparr>),
     bc_getRule = \<lambda>k ns n. (case k (ns, n) of None \<Rightarrow> Inl (NotFound ''not found'')
       | Some r \<Rightarrow> if pr_Name r = n \<and> pr_Namespace r = ns then Inr r else Inl (KError ''invalid object'')),
     bc_createRule = \<lambda>r k. if k (pr_Namespace r, pr_Name r) = None then Inr (k((pr_Namespace r, pr_Name r) \<mapsto> r)) else Inl (KError ''exists''),
     bc_updateRule = \<lambda>r k. Inr (k((pr_Namespace r, pr_Name r) \<mapsto> r))\<rparr>"

interpretation rules: rule_server "rules_client b"
proof unfold_locales
  fix k k' x y c ns n
  show "bc_setOwner (rules_client b) c x = Inr y \<Longrightarrow> pr_Name y = pr_Name x \<and> pr_Namespace y = pr_Namespace x" by (auto simp: rules_client_def)
  show "bc_getRule (rules_client b) k ns n = Inr x \<Longrightarrow> pr_Name x = n \<and> pr_Namespace x = ns"
    by (simp add: rules_client_def split: option.splits if_splits)
  show "bc_createRule (rules_client b) x k = Inr k' \<Longrightarrow> bc_getRule (rules_client b) k' (pr_Namespace x) (pr_Name x) = Inr x"
    by (simp add: rules_client_def split: if_splits) (erule subst, simp)
  show "bc_updateRule (rules_client b) x k = Inr k' \<Longrightarrow> bc_getRule (rules_client b) k' (pr_Namespace x) (pr_Name x) = Inr x"
    by (simp add: rules_client_def) (erule subst, simp)
  show "bc_updateStatus (rules_client b) c k = Inr k' \<Longrightarrow> bc_getRule (rules_client b) k' = bc_getRule (rules_client b) k"
    by (simp add: rules_client_def)
qed

subsection \<open>Alerts and status\<close>

text \<open>The rule of a budget in the cluster says what its spec says, about the series of the gauge.\<close>

definition rule_current :: "'k budget_client \<Rightarrow> 'k \<Rightarrow> TokenBudget \<Rightarrow> gaugeVec \<Rightarrow> bool" where
  "rule_current K k b v = (let ruleName = ''infercost-budget-'' @ om_Name (tb_Meta b) in
     \<exists>x rules. bc_getRule K k (om_Namespace (tb_Meta b)) ruleName = Inr x \<and> pr_Groups x = [(ruleName @ ''.rules'', rules)]
       \<and> map (\<lambda>r. (ar_Expr r, ar_Severity r)) rules
         = map (\<lambda>t. (seriesText v [tsc_Namespace (tbs_Scope (tb_Spec b)), om_Name (tb_Meta b)] @ '' >= '' @ show_int32 (at_Percent t), at_Severity t))
             (tbs_AlertThresholds (tb_Spec b)))"

definition rule_absent :: "'k budget_client \<Rightarrow> 'k \<Rightarrow> TokenBudget \<Rightarrow> bool" where
  "rule_absent K k b = (\<forall>x. bc_getRule K k (om_Namespace (tb_Meta b)) (''infercost-budget-'' @ om_Name (tb_Meta b)) \<noteq> Inr x)"

text \<open>C7 Alerts and status agree: after a successful reconcile of a budget with thresholds, the status written says exceeded exactly
  when, on the gauges as that reconcile leaves them, the comparison of an alert of critical severity holds, and ok exactly
  when none does; the rule in the cluster holds exactly one alert per threshold, in order, with its severity, whose text selects
  the declared series with the labels the reconcile sets (or the rule could not be written, or the cluster knows no such kind,
  and there is none); and when a budget has no thresholds, the rules of the cluster are left as they are, those of an
  earlier spec included.\<close>

theorem alerts_agree_with_status:
  assumes "rule_server K" and "bc_getBudget K (w_kube w) rns rname = Inr b0"
    and "Reconcile C K now metaNow rns rname w = (Done r, w')"
  shows "\<exists>st b k1 out v. reconcilePrometheusRule K b (w_kube w) = (out, k1) \<and> bc_updateStatus K b k1 = Inr (w_kube w')
    \<and> tb_Spec b = tb_Spec b0 \<and> tb_Meta b = tb_Meta b0 \<and> w_api w' = map_option (updateAPIStore b st) (w_api w)
    \<and> declared BudgetUtilizationPercent = Some v
    \<and> (let ts = tbs_AlertThresholds (tb_Spec b0); ls = [tsc_Namespace (tbs_Scope (tb_Spec b0)), om_Name (tb_Meta b0)] in
        (st = ''exceeded'' \<longleftrightarrow> (\<exists>t \<in> set ts. at_Severity t = ''critical'' \<and> exceeds (w_gauges w') v ls (at_Percent t)))
        \<and> (st = ''ok'' \<longleftrightarrow> (\<forall>t \<in> set ts. \<not> exceeds (w_gauges w') v ls (at_Percent t)))
        \<and> (out = RuleOk \<longrightarrow> ts \<noteq> [] \<longrightarrow> rule_current K (w_kube w') b0 v \<or> rule_absent K (w_kube w') b0)
        \<and> (ts = [] \<longrightarrow> bc_getRule K (w_kube w') = bc_getRule K (w_kube w)))"
proof (rule Reconcile_found [OF assms(2), of C now metaNow])
  fix st b q k
  assume cb: "computedBudget C now metaNow (w_api w) b0 = (st, b)" and rk: "reconcilePrometheusRule K b (w_kube w) = (q, k)"
    and R: "Reconcile C K now metaNow rns rname w = (let w2 = w\<lparr>w_gauges := budgetGauges b (w_gauges w), w_kube := k\<rparr> in
      if q = RulePanic then (Panicked, w2)
      else (case bc_updateStatus K b k of Inl err \<Rightarrow> (Failed err, w2)
       | Inr k' \<Rightarrow> (Done \<lparr>RequeueAfter = nsMinute\<rparr>, w2\<lparr>w_kube := k', w_api := map_option (updateAPIStore b st) (w_api w)\<rparr>)))"
  obtain v where v: "declared BudgetUtilizationPercent = Some v" "gv_Name v = BudgetUtilizationPercent" by (rule declared_utilization)
  note f = computed_status [OF cb]
  let ?ts = "tbs_AlertThresholds (tb_Spec b0)" and ?ls = "[tsc_Namespace (tbs_Scope (tb_Spec b0)), om_Name (tb_Meta b0)]"
  let ?n = "''infercost-budget-'' @ om_Name (tb_Meta b0)"
  have u: "bc_updateStatus K b k = Inr (w_kube w')" and g: "w_gauges w' = budgetGauges b (w_gauges w)"
    and a: "w_api w' = map_option (updateAPIStore b st) (w_api w)"
    using assms(3) unfolding R Let_def by (auto split: if_splits sum.splits)
  have x: "exceeds (w_gauges w') v ?ls p \<longleftrightarrow> f_of_int32 p \<le> tbt_UtilizationPercent (tb_Status b)" for p
    using budgetGauges_get(3) [of b "w_gauges w"] by (simp add: exceeds_def g v(2) budgetGauge_def f(1,2))
  have e: "st = ''exceeded'' \<longleftrightarrow> (\<exists>t \<in> set ?ts. at_Severity t = ''critical'' \<and> exceeds (w_gauges w') v ?ls (at_Percent t))"
    and o: "st = ''ok'' \<longleftrightarrow> (\<forall>t \<in> set ?ts. \<not> exceeds (w_gauges w') v ?ls (at_Percent t))"
    unfolding x f(5) by (auto simp: budgetLevel_def crossed_def severityCritical_def)
  have gr: "bc_getRule K (w_kube w') = bc_getRule K k" by (rule rule_server.status_apart [OF assms(1) u])
  have i: "rule_current K (w_kube w') b0 v \<or> rule_absent K (w_kube w') b0" if "q = RuleOk" "?ts \<noteq> []"
  proof -
    from rule_server.installed [OF assms(1) rk [unfolded that(1)], unfolded f(1,2), OF that(2)]
    obtain rules where rules: "alertRules b ?ts = Some rules"
      and inst: "(\<exists>x. bc_getRule K k (om_Namespace (tb_Meta b0)) ?n = Inr x \<and> pr_Groups x = [(?n @ ''.rules'', rules)])
        \<or> k = w_kube w \<and> (\<forall>x. bc_getRule K (w_kube w) (om_Namespace (tb_Meta b0)) ?n \<noteq> Inr x)"
      unfolding append_assoc by blast
    note m = alertRules_map [OF rules]
    have "map (\<lambda>r. (ar_Expr r, ar_Severity r)) rules = map (\<lambda>t. (seriesText v ?ls @ '' >= '' @ show_int32 (at_Percent t), at_Severity t)) ?ts"
    proof (rule nth_equalityI)
      fix j assume "j < length (map (\<lambda>r. (ar_Expr r, ar_Severity r)) rules)"
      then have j: "j < length rules" "j < length ?ts" using m by simp_all
      then have "(?ts ! j, rules ! j) \<in> set (zip ?ts rules)" by (auto simp: set_zip)
      then have "alertRule b (?ts ! j) = Some (rules ! j)" using m by blast
      from alertRule_text(1,2) [OF this v(1)] j
      show "map (\<lambda>r. (ar_Expr r, ar_Severity r)) rules ! j = map (\<lambda>t. (seriesText v ?ls @ '' >= '' @ show_int32 (at_Percent t), at_Severity t)) ?ts ! j"
        by (simp add: f(1,2))
    qed (use m in simp)
    then show ?thesis using inst unfolding gr rule_current_def rule_absent_def Let_def append_assoc by blast
  qed
  have n: "bc_getRule K (w_kube w') = bc_getRule K (w_kube w)" if "?ts = []"
    using rk that by (simp add: gr reconcilePrometheusRule_def f(1))
  show ?thesis unfolding Let_def
    by (rule exI [of _ st], rule exI [of _ b], rule exI [of _ k], rule exI [of _ q], rule exI [of _ v])
      (intro conjI rk u f(1,2) a v(1) e o; intro impI; (rule i | rule n); assumption)
qed

lemma demo_rule_created:
  assumes "tb_Spec b = tb_Spec demo_budget" and "tb_Meta b = tb_Meta demo_budget"
  obtains k x where "reconcilePrometheusRule (rules_client demo_budget) b Map.empty = (RuleOk, k)"
    and "bc_getRule (rules_client demo_budget) k ''finops'' ''infercost-budget-team-a'' = Inr x"
proof -
  have "tbs_AlertThresholds (tb_Spec b) = [\<lparr>at_Percent = 80, at_Severity = ''warning''\<rparr>, \<lparr>at_Percent = 100, at_Severity = ''critical''\<rparr>]"
    "tb_Meta b = \<lparr>om_Name = ''team-a'', om_Namespace = ''finops'', om_CreationTimestamp = 0\<rparr>"
    by (simp_all add: assms demo_budget_def)
  moreover from this obtain rules where "alertRules b (tbs_AlertThresholds (tb_Spec b)) = Some rules"
    using alertRules_None [of b "tbs_AlertThresholds (tb_Spec b)"] by (cases "alertRules b (tbs_AlertThresholds (tb_Spec b))") auto
  ultimately show thesis using that by (simp add: reconcilePrometheusRule_def rules_client_def Let_def)
qed

theorem alerts_agree_with_status_witness:
  "\<exists>r w' x. Reconcile std_conditions (rules_client demo_budget) 0 0 ''finops'' ''team-a'' (demo_world Map.empty :: (_, memdb) world) = (Done r, w')
    \<and> bc_getRule (rules_client demo_budget) (w_kube w') ''finops'' ''infercost-budget-team-a'' = Inr x
    \<and> (\<exists>rules. pr_Groups x = [(''infercost-budget-team-a.rules'', rules)] \<and> map ar_Severity rules = [''warning'', ''critical''])"
proof -
  let ?w = "demo_world Map.empty :: (gostring \<times> gostring \<Rightarrow> PromRule option, memdb) world"
  have b: "bc_getBudget (rules_client demo_budget) (w_kube ?w) ''finops'' ''team-a'' = Inr demo_budget" by (simp add: rules_client_def)
  have w: "w_kube ?w = Map.empty" by (simp add: demo_world_def)
  obtain r w' where r: "Reconcile std_conditions (rules_client demo_budget) 0 0 ''finops'' ''team-a'' ?w = (Done r, w')"
  proof (rule Reconcile_found [OF b, of std_conditions 0 0])
    fix st b q k
    assume cb: "computedBudget std_conditions 0 0 (w_api ?w) demo_budget = (st, b)"
      and rk: "reconcilePrometheusRule (rules_client demo_budget) b (w_kube ?w) = (q, k)"
      and R: "Reconcile std_conditions (rules_client demo_budget) 0 0 ''finops'' ''team-a'' ?w =
        (let w2 = ?w\<lparr>w_gauges := budgetGauges b (w_gauges ?w), w_kube := k\<rparr> in
         if q = RulePanic then (Panicked, w2)
         else (case bc_updateStatus (rules_client demo_budget) b k of Inl err \<Rightarrow> (Failed err, w2)
          | Inr k' \<Rightarrow> (Done \<lparr>RequeueAfter = nsMinute\<rparr>, w2\<lparr>w_kube := k', w_api := map_option (updateAPIStore b st) (w_api ?w)\<rparr>)))"
    obtain k' where "reconcilePrometheusRule (rules_client demo_budget) b Map.empty = (RuleOk, k')"
      by (rule demo_rule_created [OF computed_status(1,2) [OF cb]])
    then have "q = RuleOk" using rk by (simp add: w)
    then show thesis using R that by (simp add: rules_client_def Let_def)
  qed
  obtain st b k1 out v where rk: "reconcilePrometheusRule (rules_client demo_budget) b Map.empty = (out, k1)"
    and u: "bc_updateStatus (rules_client demo_budget) b k1 = Inr (w_kube w')"
    and f: "tb_Spec b = tb_Spec demo_budget" "tb_Meta b = tb_Meta demo_budget"
    and T: "out = RuleOk \<longrightarrow> tbs_AlertThresholds (tb_Spec demo_budget) \<noteq> [] \<longrightarrow>
        rule_current (rules_client demo_budget) (w_kube w') demo_budget v \<or> rule_absent (rules_client demo_budget) (w_kube w') demo_budget"
    using alerts_agree_with_status [OF rules.rule_server_axioms b r] unfolding Let_def w by blast
  have n: "om_Namespace (tb_Meta demo_budget) = ''finops''" "om_Name (tb_Meta demo_budget) = ''team-a''" "tbs_AlertThresholds (tb_Spec demo_budget) \<noteq> []"
    by (simp_all add: demo_budget_def)
  obtain k x where k: "reconcilePrometheusRule (rules_client demo_budget) b Map.empty = (RuleOk, k)"
    "bc_getRule (rules_client demo_budget) k ''finops'' ''infercost-budget-team-a'' = Inr x"
    by (rule demo_rule_created [OF f])
  have "bc_getRule (rules_client demo_budget) (w_kube w') = bc_getRule (rules_client demo_budget) k"
    using rules.status_apart [OF u] k(1) rk by simp
  then have "\<not> rule_absent (rules_client demo_budget) (w_kube w') demo_budget" using k(2) by (simp add: rule_absent_def n)
  then have "rule_current (rules_client demo_budget) (w_kube w') demo_budget v" using T k(1) rk n(3) by simp
  then obtain x rules where x: "bc_getRule (rules_client demo_budget) (w_kube w') ''finops'' ''infercost-budget-team-a'' = Inr x"
    "pr_Groups x = [(''infercost-budget-team-a.rules'', rules)]"
    "map (\<lambda>r. (ar_Expr r, ar_Severity r)) rules = map (\<lambda>t. (seriesText v [tsc_Namespace (tbs_Scope (tb_Spec demo_budget)), om_Name (tb_Meta demo_budget)]
       @ '' >= '' @ show_int32 (at_Percent t), at_Severity t)) (tbs_AlertThresholds (tb_Spec demo_budget))"
    unfolding rule_current_def Let_def n by (simp only: append.simps) blast
  have "map ar_Severity rules = map snd (map (\<lambda>r. (ar_Expr r, ar_Severity r)) rules)" by simp
  also have "\<dots> = [''warning'', ''critical'']" unfolding x(3) by (simp add: demo_budget_def o_def)
  finally have "map ar_Severity rules = [''warning'', ''critical'']" .
  with x(2) have G: "\<exists>rules. pr_Groups x = [(''infercost-budget-team-a.rules'', rules)] \<and> map ar_Severity rules = [''warning'', ''critical'']"
    by (intro exI conjI)
  show ?thesis by (rule exI [of _ r], rule exI [of _ w'], rule exI [of _ x]) (intro conjI r x(1) G)
qed

end
