(* ===== verification/MemTypes.thy ===== *)
theory MemTypes
  imports ApiTypes
begin

text \<open>
  \<open>api/v1alpha1\<close> as the objects lie in memory: a pointer or a map of a struct is a reference to a cell of
  the heap, a slice a window into a cell that holds an array, \<open>None\<close> the nil one; everything else is stored in the struct
  itself.  The metadata of an object and of a list are structs of the library with references of their own: labels and annotations are maps,
  the finalizers a slice, the time of the deletion and the count of a list that is left are pointers (the owners and the managed fields, of which nothing here
  speaks, are left out).  \<open>metav1.Time\<close> and \<open>metav1.Condition\<close> hold no references.
\<close>

type_synonym ref = "nat option"

text \<open>A slice: the cell of its array, the offset of its first element and its length.\<close>

record window =
  sl_array :: nat
  sl_off :: nat
  sl_len :: nat

type_synonym slice = "window option"

record TypeMeta =
  tm_Kind :: gostring
  tm_APIVersion :: gostring

record ObjectMetaMem =
  mom_Name :: gostring
  mom_Namespace :: gostring
  mom_CreationTimestamp :: gotime
  mom_Labels :: ref
  mom_Annotations :: ref
  mom_Finalizers :: slice
  mom_DeletionTimestamp :: ref

record ListMetaMem =
  mlm_ResourceVersion :: gostring
  mlm_Continue :: gostring
  mlm_RemainingItemCount :: ref

subsection \<open>Structs with references\<close>

record HardwareSpecMem =
  mhs_GPUModel :: gostring
  mhs_GPUCount :: int32
  mhs_PurchasePriceUSD :: f64
  mhs_AmortizationYears :: int32
  mhs_MaintenancePercentPerYear :: f64
  mhs_TDPWatts :: ref

record ElectricitySpecMem =
  mes_RatePerKWh :: f64
  mes_PUEFactor :: f64
  mes_IdleWattsThreshold :: ref

record CloudComparisonSpecMem =
  mcc_Targets :: slice

record CostProfileSpecMem =
  mcs_Hardware :: HardwareSpecMem
  mcs_Electricity :: ElectricitySpecMem
  mcs_NodeSelector :: ref
  mcs_NamespaceSelector :: ref
  mcs_CloudComparison :: ref

record CostProfileStatusMem =
  mct_HourlyCostUSD :: f64
  mct_AmortizationRatePerHour :: f64
  mct_ElectricityCostPerHour :: f64
  mct_CurrentPowerDrawWatts :: f64
  mct_LastUpdated :: ref
  mct_Conditions :: slice

record CostProfileMem =
  mcp_TypeMeta :: TypeMeta
  mcp_ObjectMeta :: ObjectMetaMem
  mcp_Spec :: CostProfileSpecMem
  mcp_Status :: CostProfileStatusMem

record CostProfileListMem =
  mcl_TypeMeta :: TypeMeta
  mcl_ListMeta :: ListMetaMem
  mcl_Items :: slice

record UsageReportSpecMem =
  mus_CostProfileRef :: gostring
  mus_Schedule :: ReportSchedule
  mus_Namespaces :: slice

record UsageReportStatusMem =
  mut_Period :: gostring
  mut_PeriodStart :: ref
  mut_PeriodEnd :: ref
  mut_InputTokens :: int64
  mut_OutputTokens :: int64
  mut_EstimatedCostUSD :: f64
  mut_CostPerMillionTokens :: f64
  mut_MarginalCostPerMillionTokens :: f64
  mut_ActiveHoursCostPerMillionTokens :: f64
  mut_ActiveEnergyKWh :: f64
  mut_GPUEfficiencyRatio :: f64
  mut_UtilizationPercent :: f64
  mut_ActiveHoursInPeriod :: f64
  mut_TotalHoursInPeriod :: f64
  mut_ByModel :: slice
  mut_ByNamespace :: slice
  mut_CloudComparison :: slice
  mut_BreakEvenAnalysis :: slice
  mut_LastUpdated :: ref
  mut_Conditions :: slice

record UsageReportMem =
  mur_TypeMeta :: TypeMeta
  mur_ObjectMeta :: ObjectMetaMem
  mur_Spec :: UsageReportSpecMem
  mur_Status :: UsageReportStatusMem

record UsageReportListMem =
  mul_TypeMeta :: TypeMeta
  mul_ListMeta :: ListMetaMem
  mul_Items :: slice

record TokenBudgetSpecMem =
  mbs_Scope :: TokenBudgetScope
  mbs_MonthlyLimitUSD :: f64
  mbs_AlertThresholds :: slice

record TokenBudgetStatusMem =
  mbt_CurrentSpendUSD :: f64
  mbt_UtilizationPercent :: f64
  mbt_PeriodStart :: ref
  mbt_PeriodEnd :: ref
  mbt_LastUpdated :: ref
  mbt_Conditions :: slice

record TokenBudgetMem =
  mtb_TypeMeta :: TypeMeta
  mtb_ObjectMeta :: ObjectMetaMem
  mtb_Spec :: TokenBudgetSpecMem
  mtb_Status :: TokenBudgetStatusMem

record TokenBudgetListMem =
  mtl_TypeMeta :: TypeMeta
  mtl_ListMeta :: ListMetaMem
  mtl_Items :: slice

subsection \<open>Cells\<close>

text \<open>
  What a pointer, a map or a slice can refer to; \<open>Fresh\<close> is a cell that \<open>new\<close> or \<open>make\<close> has just allocated, with the
  zero value nothing reads before it is overwritten.
\<close>

datatype (plugins only: code) cell = Fresh
  | Int32Cell (of_Int32: "int32")
  | Int64Cell (of_Int64: "int64")
  | Float64Cell (of_Float64: "f64")
  | TimeCell (of_Time: "gotime")
  | StringMapCell (of_StringMap: "(gostring, gostring) gomap")
  | StringsCell (of_Strings: "gostring list")
  | CloudTargetsCell (of_CloudTargets: "CloudTarget list")
  | ConditionsCell (of_Conditions: "Condition list")
  | ModelRowsCell (of_ModelRows: "ModelCostBreakdown list")
  | NamespaceRowsCell (of_NamespaceRows: "NamespaceCostBreakdown list")
  | CloudRowsCell (of_CloudRows: "CloudComparisonEntry list")
  | BreakEvenRowsCell (of_BreakEvenRows: "BreakEvenEntry list")
  | ThresholdsCell (of_Thresholds: "AlertThreshold list")
  | CostProfilesCell (of_CostProfiles: "CostProfileMem list")
  | UsageReportsCell (of_UsageReports: "UsageReportMem list")
  | TokenBudgetsCell (of_TokenBudgets: "TokenBudgetMem list")
  | AlertThresholdCell (of_AlertThreshold: "AlertThreshold")
  | BreakEvenEntryCell (of_BreakEvenEntry: "BreakEvenEntry")
  | CloudComparisonEntryCell (of_CloudComparisonEntry: "CloudComparisonEntry")
  | CloudTargetCell (of_CloudTarget: "CloudTarget")
  | ModelCostBreakdownCell (of_ModelCostBreakdown: "ModelCostBreakdown")
  | NamespaceCostBreakdownCell (of_NamespaceCostBreakdown: "NamespaceCostBreakdown")
  | TokenBudgetScopeCell (of_TokenBudgetScope: "TokenBudgetScope")
  | HardwareSpecCell (of_HardwareSpec: "HardwareSpecMem")
  | ElectricitySpecCell (of_ElectricitySpec: "ElectricitySpecMem")
  | CloudComparisonSpecCell (of_CloudComparisonSpec: "CloudComparisonSpecMem")
  | CostProfileSpecCell (of_CostProfileSpec: "CostProfileSpecMem")
  | CostProfileStatusCell (of_CostProfileStatus: "CostProfileStatusMem")
  | CostProfileCell (of_CostProfile: "CostProfileMem")
  | CostProfileListCell (of_CostProfileList: "CostProfileListMem")
  | UsageReportSpecCell (of_UsageReportSpec: "UsageReportSpecMem")
  | UsageReportStatusCell (of_UsageReportStatus: "UsageReportStatusMem")
  | UsageReportCell (of_UsageReport: "UsageReportMem")
  | UsageReportListCell (of_UsageReportList: "UsageReportListMem")
  | TokenBudgetSpecCell (of_TokenBudgetSpec: "TokenBudgetSpecMem")
  | TokenBudgetStatusCell (of_TokenBudgetStatus: "TokenBudgetStatusMem")
  | TokenBudgetCell (of_TokenBudget: "TokenBudgetMem")
  | TokenBudgetListCell (of_TokenBudgetList: "TokenBudgetListMem")

text \<open>The heap: the cells, and the first address that is not in use.\<close>

record heap =
  cells :: "nat \<Rightarrow> cell"
  lim :: nat

definition put_cell :: "nat \<Rightarrow> cell \<Rightarrow> heap \<Rightarrow> heap" where
  "put_cell a c h = h\<lparr>cells := (cells h)(a := c)\<rparr>"

definition alloc :: "heap \<Rightarrow> nat \<times> heap" where
  "alloc h = (lim h, put_cell (lim h) Fresh (h\<lparr>lim := lim h + 1\<rparr>))"

end
