(* ===== verification/DeepCopy.thy ===== *)
theory DeepCopy
  imports MemTypes CtlCommon
begin

text \<open>
  \<open>api/v1alpha1/zz_generated.deepcopy.go\<close>: the deep copies of the custom resources, on the heap of \<open>MemTypes\<close>.  A
  \<open>DeepCopyInto\<close> takes the struct it copies and returns what it leaves in \<open>out\<close>, which no other reference points to yet;
  a method on a pointer takes the pointer.
\<close>

type_synonym 'x copier = "'x \<Rightarrow> heap \<Rightarrow> 'x \<times> heap"

text \<open>
  What the library copies, and the order in which a \<open>range\<close> visits a map: \<open>metav1.Time.DeepCopy\<close>,
  \<open>metav1.Condition.DeepCopyInto\<close>, \<open>metav1.ObjectMeta.DeepCopyInto\<close> and \<open>metav1.ListMeta.DeepCopyInto\<close>.
\<close>

record library_copies =
  lc_Time :: "gotime \<Rightarrow> gotime"
  lc_Condition :: "Condition \<Rightarrow> Condition"
  lc_ObjectMeta :: "ObjectMetaMem copier"
  lc_ListMeta :: "ListMetaMem copier"
  lc_range :: "(gostring, gostring) gomap \<Rightarrow> (gostring \<times> gostring) list"

subsection \<open>The statements of the generated code\<close>

text \<open>\<open>*out = *in\<close>, and the copy of a value of the library.\<close>

definition same :: "'x copier" where
  "same x h = (x, h)"

definition library :: "('x \<Rightarrow> 'x) \<Rightarrow> 'x copier" where
  "library f x h = (f x, h)"

text \<open>A pointer that is not nil: \<open>*out = new(T)\<close>, and the copy of what it points to.\<close>

definition copy_ptr :: "('x \<Rightarrow> cell) \<Rightarrow> (cell \<Rightarrow> 'x) \<Rightarrow> 'x copier \<Rightarrow> ref copier" where
  "copy_ptr mk get into p h = (case p of
     None \<Rightarrow> (None, h)
   | Some a \<Rightarrow> (let
       (b, h) = alloc h;
       (y, h) = into (get (cells h a)) h
     in (Some b, put_cell b (mk y) h)))"

text \<open>A slice that is not nil: \<open>*out = make([]T, len(*in))\<close>, and the copy of each element (\<open>copy\<close> where it is plain).\<close>

definition elems :: "(cell \<Rightarrow> 'x list) \<Rightarrow> heap \<Rightarrow> window \<Rightarrow> 'x list" where
  "elems get h s = take (sl_len s) (drop (sl_off s) (get (cells h (sl_array s))))"

fun copy_each :: "'x copier \<Rightarrow> 'x list copier" where
  "copy_each into [] h = ([], h)"
| "copy_each into (x # xs) h = (let
     (y, h) = into x h;
     (ys, h) = copy_each into xs h
   in (y # ys, h))"

definition copy_slice :: "('x list \<Rightarrow> cell) \<Rightarrow> (cell \<Rightarrow> 'x list) \<Rightarrow> 'x copier \<Rightarrow> slice copier" where
  "copy_slice mk get into s h = (case s of
     None \<Rightarrow> (None, h)
   | Some w \<Rightarrow> (let
       (b, h) = alloc h;
       (ys, h) = copy_each into (elems get h w) h
     in (Some \<lparr>sl_array = b, sl_off = 0, sl_len = sl_len w\<rparr>, put_cell b (mk ys) h)))"

text \<open>A map that is not nil: \<open>make\<close>, and one assignment per entry in the order of the \<open>range\<close>.\<close>

definition copy_entries :: "('k \<times> 'v) list \<Rightarrow> ('k, 'v) gomap" where
  "copy_entries es = foldl (\<lambda>m (key, val). gm_put key val m) [] es"

definition copy_map :: "((gostring, gostring) gomap \<Rightarrow> (gostring \<times> gostring) list) \<Rightarrow> ref copier" where
  "copy_map visit r h = (case r of
     None \<Rightarrow> (None, h)
   | Some a \<Rightarrow> (let (b, h) = alloc h
       in (Some b, put_cell b (StringMapCell (copy_entries (visit (of_StringMap (cells h a))))) h)))"

text \<open>\<open>runtime.Object\<close>: a pointer to one of the kinds of the group; a nil interface is \<open>None\<close> of \<open>runtime_Object option\<close>.\<close>

datatype runtime_Object =
    CostProfilePointer ref
  | CostProfileListPointer ref
  | UsageReportPointer ref
  | UsageReportListPointer ref
  | TokenBudgetPointer ref
  | TokenBudgetListPointer ref


subsection \<open>CostProfile\<close>

definition HardwareSpec_DeepCopyInto :: "HardwareSpecMem copier" where
  "HardwareSpec_DeepCopyInto r h = (let
     (tdp, h) = copy_ptr Int32Cell of_Int32 same (mhs_TDPWatts r) h
   in (r\<lparr>mhs_TDPWatts := tdp\<rparr>, h))"

definition HardwareSpec_DeepCopy :: "ref copier" where
  "HardwareSpec_DeepCopy = copy_ptr HardwareSpecCell of_HardwareSpec HardwareSpec_DeepCopyInto"

definition ElectricitySpec_DeepCopyInto :: "ElectricitySpecMem copier" where
  "ElectricitySpec_DeepCopyInto r h = (let
     (idle, h) = copy_ptr Float64Cell of_Float64 same (mes_IdleWattsThreshold r) h
   in (r\<lparr>mes_IdleWattsThreshold := idle\<rparr>, h))"

definition ElectricitySpec_DeepCopy :: "ref copier" where
  "ElectricitySpec_DeepCopy = copy_ptr ElectricitySpecCell of_ElectricitySpec ElectricitySpec_DeepCopyInto"

definition CloudTarget_DeepCopyInto :: "CloudTarget copier" where
  "CloudTarget_DeepCopyInto = same"

definition CloudTarget_DeepCopy :: "ref copier" where
  "CloudTarget_DeepCopy = copy_ptr CloudTargetCell of_CloudTarget CloudTarget_DeepCopyInto"

definition CloudComparisonSpec_DeepCopyInto :: "CloudComparisonSpecMem copier" where
  "CloudComparisonSpec_DeepCopyInto r h = (let
     (targets, h) = copy_slice CloudTargetsCell of_CloudTargets same (mcc_Targets r) h
   in (r\<lparr>mcc_Targets := targets\<rparr>, h))"

definition CloudComparisonSpec_DeepCopy :: "ref copier" where
  "CloudComparisonSpec_DeepCopy = copy_ptr CloudComparisonSpecCell of_CloudComparisonSpec CloudComparisonSpec_DeepCopyInto"

definition CostProfileSpec_DeepCopyInto :: "library_copies \<Rightarrow> CostProfileSpecMem copier" where
  "CostProfileSpec_DeepCopyInto L r h = (let
     (hardware, h) = HardwareSpec_DeepCopyInto (mcs_Hardware r) h;
     (electricity, h) = ElectricitySpec_DeepCopyInto (mcs_Electricity r) h;
     (nodes, h) = copy_map (lc_range L) (mcs_NodeSelector r) h;
     (namespaces, h) = copy_map (lc_range L) (mcs_NamespaceSelector r) h;
     (cloud, h) = copy_ptr CloudComparisonSpecCell of_CloudComparisonSpec CloudComparisonSpec_DeepCopyInto (mcs_CloudComparison r) h
   in (r\<lparr>mcs_Hardware := hardware, mcs_Electricity := electricity, mcs_NodeSelector := nodes,
       mcs_NamespaceSelector := namespaces, mcs_CloudComparison := cloud\<rparr>, h))"

definition CostProfileSpec_DeepCopy :: "library_copies \<Rightarrow> ref copier" where
  "CostProfileSpec_DeepCopy L = copy_ptr CostProfileSpecCell of_CostProfileSpec (CostProfileSpec_DeepCopyInto L)"

definition CostProfileStatus_DeepCopyInto :: "library_copies \<Rightarrow> CostProfileStatusMem copier" where
  "CostProfileStatus_DeepCopyInto L r h = (let
     (updated, h) = copy_ptr TimeCell of_Time (library (lc_Time L)) (mct_LastUpdated r) h;
     (conditions, h) = copy_slice ConditionsCell of_Conditions (library (lc_Condition L)) (mct_Conditions r) h
   in (r\<lparr>mct_LastUpdated := updated, mct_Conditions := conditions\<rparr>, h))"

definition CostProfileStatus_DeepCopy :: "library_copies \<Rightarrow> ref copier" where
  "CostProfileStatus_DeepCopy L = copy_ptr CostProfileStatusCell of_CostProfileStatus (CostProfileStatus_DeepCopyInto L)"

definition CostProfile_DeepCopyInto :: "library_copies \<Rightarrow> CostProfileMem copier" where
  "CostProfile_DeepCopyInto L r h = (let
     (meta, h) = lc_ObjectMeta L (mcp_ObjectMeta r) h;
     (spec, h) = CostProfileSpec_DeepCopyInto L (mcp_Spec r) h;
     (status, h) = CostProfileStatus_DeepCopyInto L (mcp_Status r) h
   in (r\<lparr>mcp_TypeMeta := mcp_TypeMeta r, mcp_ObjectMeta := meta, mcp_Spec := spec, mcp_Status := status\<rparr>, h))"

definition CostProfile_DeepCopy :: "library_copies \<Rightarrow> ref copier" where
  "CostProfile_DeepCopy L = copy_ptr CostProfileCell of_CostProfile (CostProfile_DeepCopyInto L)"

definition CostProfile_DeepCopyObject :: "library_copies \<Rightarrow> ref \<Rightarrow> heap \<Rightarrow> runtime_Object option \<times> heap" where
  "CostProfile_DeepCopyObject L r h = (let (c, h) = CostProfile_DeepCopy L r h in
     if c \<noteq> None then (Some (CostProfilePointer c), h) else (None, h))"

definition CostProfileList_DeepCopyInto :: "library_copies \<Rightarrow> CostProfileListMem copier" where
  "CostProfileList_DeepCopyInto L r h = (let
     (meta, h) = lc_ListMeta L (mcl_ListMeta r) h;
     (items, h) = copy_slice CostProfilesCell of_CostProfiles (CostProfile_DeepCopyInto L) (mcl_Items r) h
   in (r\<lparr>mcl_TypeMeta := mcl_TypeMeta r, mcl_ListMeta := meta, mcl_Items := items\<rparr>, h))"

definition CostProfileList_DeepCopy :: "library_copies \<Rightarrow> ref copier" where
  "CostProfileList_DeepCopy L = copy_ptr CostProfileListCell of_CostProfileList (CostProfileList_DeepCopyInto L)"

definition CostProfileList_DeepCopyObject :: "library_copies \<Rightarrow> ref \<Rightarrow> heap \<Rightarrow> runtime_Object option \<times> heap" where
  "CostProfileList_DeepCopyObject L r h = (let (c, h) = CostProfileList_DeepCopy L r h in
     if c \<noteq> None then (Some (CostProfileListPointer c), h) else (None, h))"

subsection \<open>UsageReport\<close>

definition ModelCostBreakdown_DeepCopyInto :: "ModelCostBreakdown copier" where
  "ModelCostBreakdown_DeepCopyInto = same"

definition ModelCostBreakdown_DeepCopy :: "ref copier" where
  "ModelCostBreakdown_DeepCopy = copy_ptr ModelCostBreakdownCell of_ModelCostBreakdown ModelCostBreakdown_DeepCopyInto"

definition NamespaceCostBreakdown_DeepCopyInto :: "NamespaceCostBreakdown copier" where
  "NamespaceCostBreakdown_DeepCopyInto = same"

definition NamespaceCostBreakdown_DeepCopy :: "ref copier" where
  "NamespaceCostBreakdown_DeepCopy = copy_ptr NamespaceCostBreakdownCell of_NamespaceCostBreakdown NamespaceCostBreakdown_DeepCopyInto"

definition CloudComparisonEntry_DeepCopyInto :: "CloudComparisonEntry copier" where
  "CloudComparisonEntry_DeepCopyInto = same"

definition CloudComparisonEntry_DeepCopy :: "ref copier" where
  "CloudComparisonEntry_DeepCopy = copy_ptr CloudComparisonEntryCell of_CloudComparisonEntry CloudComparisonEntry_DeepCopyInto"

definition BreakEvenEntry_DeepCopyInto :: "BreakEvenEntry copier" where
  "BreakEvenEntry_DeepCopyInto = same"

definition BreakEvenEntry_DeepCopy :: "ref copier" where
  "BreakEvenEntry_DeepCopy = copy_ptr BreakEvenEntryCell of_BreakEvenEntry BreakEvenEntry_DeepCopyInto"

definition UsageReportSpec_DeepCopyInto :: "UsageReportSpecMem copier" where
  "UsageReportSpec_DeepCopyInto r h = (let
     (namespaces, h) = copy_slice StringsCell of_Strings same (mus_Namespaces r) h
   in (r\<lparr>mus_Namespaces := namespaces\<rparr>, h))"

definition UsageReportSpec_DeepCopy :: "ref copier" where
  "UsageReportSpec_DeepCopy = copy_ptr UsageReportSpecCell of_UsageReportSpec UsageReportSpec_DeepCopyInto"

definition UsageReportStatus_DeepCopyInto :: "library_copies \<Rightarrow> UsageReportStatusMem copier" where
  "UsageReportStatus_DeepCopyInto L r h = (let
     (begins, h) = copy_ptr TimeCell of_Time (library (lc_Time L)) (mut_PeriodStart r) h;
     (ends, h) = copy_ptr TimeCell of_Time (library (lc_Time L)) (mut_PeriodEnd r) h;
     (models, h) = copy_slice ModelRowsCell of_ModelRows same (mut_ByModel r) h;
     (namespaces, h) = copy_slice NamespaceRowsCell of_NamespaceRows same (mut_ByNamespace r) h;
     (cloud, h) = copy_slice CloudRowsCell of_CloudRows same (mut_CloudComparison r) h;
     (breakEven, h) = copy_slice BreakEvenRowsCell of_BreakEvenRows same (mut_BreakEvenAnalysis r) h;
     (updated, h) = copy_ptr TimeCell of_Time (library (lc_Time L)) (mut_LastUpdated r) h;
     (conditions, h) = copy_slice ConditionsCell of_Conditions (library (lc_Condition L)) (mut_Conditions r) h
   in (r\<lparr>mut_PeriodStart := begins, mut_PeriodEnd := ends, mut_ByModel := models,
       mut_ByNamespace := namespaces, mut_CloudComparison := cloud, mut_BreakEvenAnalysis := breakEven,
       mut_LastUpdated := updated, mut_Conditions := conditions\<rparr>, h))"

definition UsageReportStatus_DeepCopy :: "library_copies \<Rightarrow> ref copier" where
  "UsageReportStatus_DeepCopy L = copy_ptr UsageReportStatusCell of_UsageReportStatus (UsageReportStatus_DeepCopyInto L)"

definition UsageReport_DeepCopyInto :: "library_copies \<Rightarrow> UsageReportMem copier" where
  "UsageReport_DeepCopyInto L r h = (let
     (meta, h) = lc_ObjectMeta L (mur_ObjectMeta r) h;
     (spec, h) = UsageReportSpec_DeepCopyInto (mur_Spec r) h;
     (status, h) = UsageReportStatus_DeepCopyInto L (mur_Status r) h
   in (r\<lparr>mur_TypeMeta := mur_TypeMeta r, mur_ObjectMeta := meta, mur_Spec := spec, mur_Status := status\<rparr>, h))"

definition UsageReport_DeepCopy :: "library_copies \<Rightarrow> ref copier" where
  "UsageReport_DeepCopy L = copy_ptr UsageReportCell of_UsageReport (UsageReport_DeepCopyInto L)"

definition UsageReport_DeepCopyObject :: "library_copies \<Rightarrow> ref \<Rightarrow> heap \<Rightarrow> runtime_Object option \<times> heap" where
  "UsageReport_DeepCopyObject L r h = (let (c, h) = UsageReport_DeepCopy L r h in
     if c \<noteq> None then (Some (UsageReportPointer c), h) else (None, h))"

definition UsageReportList_DeepCopyInto :: "library_copies \<Rightarrow> UsageReportListMem copier" where
  "UsageReportList_DeepCopyInto L r h = (let
     (meta, h) = lc_ListMeta L (mul_ListMeta r) h;
     (items, h) = copy_slice UsageReportsCell of_UsageReports (UsageReport_DeepCopyInto L) (mul_Items r) h
   in (r\<lparr>mul_TypeMeta := mul_TypeMeta r, mul_ListMeta := meta, mul_Items := items\<rparr>, h))"

definition UsageReportList_DeepCopy :: "library_copies \<Rightarrow> ref copier" where
  "UsageReportList_DeepCopy L = copy_ptr UsageReportListCell of_UsageReportList (UsageReportList_DeepCopyInto L)"

definition UsageReportList_DeepCopyObject :: "library_copies \<Rightarrow> ref \<Rightarrow> heap \<Rightarrow> runtime_Object option \<times> heap" where
  "UsageReportList_DeepCopyObject L r h = (let (c, h) = UsageReportList_DeepCopy L r h in
     if c \<noteq> None then (Some (UsageReportListPointer c), h) else (None, h))"

subsection \<open>TokenBudget\<close>

definition TokenBudgetScope_DeepCopyInto :: "TokenBudgetScope copier" where
  "TokenBudgetScope_DeepCopyInto = same"

definition TokenBudgetScope_DeepCopy :: "ref copier" where
  "TokenBudgetScope_DeepCopy = copy_ptr TokenBudgetScopeCell of_TokenBudgetScope TokenBudgetScope_DeepCopyInto"

definition AlertThreshold_DeepCopyInto :: "AlertThreshold copier" where
  "AlertThreshold_DeepCopyInto = same"

definition AlertThreshold_DeepCopy :: "ref copier" where
  "AlertThreshold_DeepCopy = copy_ptr AlertThresholdCell of_AlertThreshold AlertThreshold_DeepCopyInto"

definition TokenBudgetSpec_DeepCopyInto :: "TokenBudgetSpecMem copier" where
  "TokenBudgetSpec_DeepCopyInto r h = (let
     (thresholds, h) = copy_slice ThresholdsCell of_Thresholds same (mbs_AlertThresholds r) h
   in (r\<lparr>mbs_Scope := mbs_Scope r, mbs_AlertThresholds := thresholds\<rparr>, h))"

definition TokenBudgetSpec_DeepCopy :: "ref copier" where
  "TokenBudgetSpec_DeepCopy = copy_ptr TokenBudgetSpecCell of_TokenBudgetSpec TokenBudgetSpec_DeepCopyInto"

definition TokenBudgetStatus_DeepCopyInto :: "library_copies \<Rightarrow> TokenBudgetStatusMem copier" where
  "TokenBudgetStatus_DeepCopyInto L r h = (let
     (begins, h) = copy_ptr TimeCell of_Time (library (lc_Time L)) (mbt_PeriodStart r) h;
     (ends, h) = copy_ptr TimeCell of_Time (library (lc_Time L)) (mbt_PeriodEnd r) h;
     (updated, h) = copy_ptr TimeCell of_Time (library (lc_Time L)) (mbt_LastUpdated r) h;
     (conditions, h) = copy_slice ConditionsCell of_Conditions (library (lc_Condition L)) (mbt_Conditions r) h
   in (r\<lparr>mbt_PeriodStart := begins, mbt_PeriodEnd := ends, mbt_LastUpdated := updated,
       mbt_Conditions := conditions\<rparr>, h))"

definition TokenBudgetStatus_DeepCopy :: "library_copies \<Rightarrow> ref copier" where
  "TokenBudgetStatus_DeepCopy L = copy_ptr TokenBudgetStatusCell of_TokenBudgetStatus (TokenBudgetStatus_DeepCopyInto L)"

definition TokenBudget_DeepCopyInto :: "library_copies \<Rightarrow> TokenBudgetMem copier" where
  "TokenBudget_DeepCopyInto L r h = (let
     (meta, h) = lc_ObjectMeta L (mtb_ObjectMeta r) h;
     (spec, h) = TokenBudgetSpec_DeepCopyInto (mtb_Spec r) h;
     (status, h) = TokenBudgetStatus_DeepCopyInto L (mtb_Status r) h
   in (r\<lparr>mtb_TypeMeta := mtb_TypeMeta r, mtb_ObjectMeta := meta, mtb_Spec := spec, mtb_Status := status\<rparr>, h))"

definition TokenBudget_DeepCopy :: "library_copies \<Rightarrow> ref copier" where
  "TokenBudget_DeepCopy L = copy_ptr TokenBudgetCell of_TokenBudget (TokenBudget_DeepCopyInto L)"

definition TokenBudget_DeepCopyObject :: "library_copies \<Rightarrow> ref \<Rightarrow> heap \<Rightarrow> runtime_Object option \<times> heap" where
  "TokenBudget_DeepCopyObject L r h = (let (c, h) = TokenBudget_DeepCopy L r h in
     if c \<noteq> None then (Some (TokenBudgetPointer c), h) else (None, h))"

definition TokenBudgetList_DeepCopyInto :: "library_copies \<Rightarrow> TokenBudgetListMem copier" where
  "TokenBudgetList_DeepCopyInto L r h = (let
     (meta, h) = lc_ListMeta L (mtl_ListMeta r) h;
     (items, h) = copy_slice TokenBudgetsCell of_TokenBudgets (TokenBudget_DeepCopyInto L) (mtl_Items r) h
   in (r\<lparr>mtl_TypeMeta := mtl_TypeMeta r, mtl_ListMeta := meta, mtl_Items := items\<rparr>, h))"

definition TokenBudgetList_DeepCopy :: "library_copies \<Rightarrow> ref copier" where
  "TokenBudgetList_DeepCopy L = copy_ptr TokenBudgetListCell of_TokenBudgetList (TokenBudgetList_DeepCopyInto L)"

definition TokenBudgetList_DeepCopyObject :: "library_copies \<Rightarrow> ref \<Rightarrow> heap \<Rightarrow> runtime_Object option \<times> heap" where
  "TokenBudgetList_DeepCopyObject L r h = (let (c, h) = TokenBudgetList_DeepCopy L r h in
     if c \<noteq> None then (Some (TokenBudgetListPointer c), h) else (None, h))"

subsection \<open>The call through the interface\<close>

fun DeepCopyObject :: "library_copies \<Rightarrow> runtime_Object \<Rightarrow> heap \<Rightarrow> runtime_Object option \<times> heap" where
  "DeepCopyObject L (CostProfilePointer r) h = CostProfile_DeepCopyObject L r h"
| "DeepCopyObject L (CostProfileListPointer r) h = CostProfileList_DeepCopyObject L r h"
| "DeepCopyObject L (UsageReportPointer r) h = UsageReport_DeepCopyObject L r h"
| "DeepCopyObject L (UsageReportListPointer r) h = UsageReportList_DeepCopyObject L r h"
| "DeepCopyObject L (TokenBudgetPointer r) h = TokenBudget_DeepCopyObject L r h"
| "DeepCopyObject L (TokenBudgetListPointer r) h = TokenBudgetList_DeepCopyObject L r h"

end
