(* ===== verification/Copiers.thy ===== *)
theory Copiers
  imports DeepCopy
begin

text \<open>
  What a deep copy promises, as the locale \<open>deep_copier\<close>, and how the statements of the generated code keep it: the value
  of a struct is read off the heap by a view, which depends on the cells the struct reaches only; a copy has the same value
  and reaches new cells only.
\<close>

subsection \<open>Heaps that agree\<close>

definition agree :: "nat set \<Rightarrow> heap \<Rightarrow> heap \<Rightarrow> bool" where
  "agree S h h' \<longleftrightarrow> lim h \<le> lim h' \<and> (\<forall>a\<in>S. cells h' a = cells h a)"

definition extends :: "heap \<Rightarrow> heap \<Rightarrow> bool" where
  "extends h h' \<longleftrightarrow> agree {..<lim h} h h'"

lemma agree_mono: "agree S h h' \<Longrightarrow> R \<subseteq> S \<Longrightarrow> agree R h h'"
  by (auto simp: agree_def)

lemma agree_Un: "agree (S \<union> R) h h' \<longleftrightarrow> agree S h h' \<and> agree R h h'"
  by (auto simp: agree_def)

lemma extends_refl [simp]: "extends h h"
  by (simp add: extends_def agree_def)

lemma extends_trans: "extends h h1 \<Longrightarrow> extends h1 h2 \<Longrightarrow> extends h h2"
  by (auto simp: extends_def agree_def)

lemma extends_agree: "extends h h' \<Longrightarrow> S \<subseteq> {..<lim h} \<Longrightarrow> agree S h h'"
  by (auto simp: extends_def agree_def)

lemma extends_lim: "extends h h' \<Longrightarrow> lim h \<le> lim h'"
  by (simp add: extends_def agree_def)

lemma extends_cells: "extends h h' \<Longrightarrow> a < lim h \<Longrightarrow> cells h' a = cells h a"
  by (simp add: extends_def agree_def)

lemma cells_put_cell [simp]: "cells (put_cell a c h) b = (if b = a then c else cells h b)"
  by (simp add: put_cell_def)

lemma lim_put_cell [simp]: "lim (put_cell a c h) = lim h"
  by (simp add: put_cell_def)

lemma fst_alloc [simp]: "fst (alloc h) = lim h"
  by (simp add: alloc_def)

lemma snd_alloc_simps [simp]: "lim (snd (alloc h)) = lim h + 1"
    "cells (snd (alloc h)) a = (if a = lim h then Fresh else cells h a)"
  by (simp_all add: alloc_def)

lemma extends_alloc: "extends h (snd (alloc h))"
  by (simp add: extends_def agree_def)

text \<open>The cell allocated first is written last, when the cells of its contents follow it.\<close>

lemma agree_put_cell: "a \<notin> S \<Longrightarrow> agree S h (put_cell a c h)"
  by (auto simp: agree_def)

lemma extends_put_new: "extends (snd (alloc h)) h' \<Longrightarrow> extends h (put_cell (lim h) c h')"
  by (auto simp: extends_def agree_def)

subsection \<open>The contract of a copy\<close>

locale deep_copier =
  fixes copy :: "'x copier" and view :: "heap \<Rightarrow> 'x \<Rightarrow> 'v" and refs :: "heap \<Rightarrow> 'x \<Rightarrow> nat set"
    and ok :: "heap \<Rightarrow> 'x \<Rightarrow> bool"
  assumes inside: "ok h x \<Longrightarrow> refs h x \<subseteq> {..<lim h}"
    and frame: "agree (refs h x) h h' \<Longrightarrow> view h' x = view h x \<and> refs h' x = refs h x"
    and frame_ok: "agree (refs h x) h h' \<Longrightarrow> ok h x \<Longrightarrow> ok h' x"
    and grows: "extends h (snd (copy x h))"
    and equal: "ok h x \<Longrightarrow> view (snd (copy x h)) (fst (copy x h)) = view h x"
    and sound: "ok h x \<Longrightarrow> ok (snd (copy x h)) (fst (copy x h))"
    and fresh: "ok h x \<Longrightarrow> refs (snd (copy x h)) (fst (copy x h)) \<subseteq> {lim h..<lim (snd (copy x h))}"
begin

text \<open>What is allocated later changes nothing.\<close>

lemma later:
  assumes "ok h x" and "extends h h'"
  shows "view h' x = view h x" and "refs h' x = refs h x" and "ok h' x"
  using frame [of h x h'] frame_ok [of h x h'] extends_agree [OF assms(2) inside [OF assms(1)]] assms(1) by auto

text \<open>The original after the copy, and the two share no cell.\<close>

lemma original:
  assumes "ok h x"
  shows "view (snd (copy x h)) x = view h x" and "refs (snd (copy x h)) x = refs h x"
  using later [OF assms grows] by auto

lemma disjoint:
  assumes "ok h x"
  shows "refs h x \<inter> refs (snd (copy x h)) (fst (copy x h)) = {}"
  using inside [OF assms] fresh [OF assms] by fastforce

end

subsection \<open>Writes\<close>

text \<open>Any sequence of writes to cells, a pair of an address and its new contents each.\<close>

definition put_cells :: "(nat \<times> cell) list \<Rightarrow> heap \<Rightarrow> heap" where
  "put_cells ws h = fold (\<lambda>(a, c). put_cell a c) ws h"

lemma put_cells_agree: "fst ` set ws \<inter> S = {} \<Longrightarrow> agree S h (put_cells ws h)"
  unfolding put_cells_def
proof (induction ws arbitrary: h)
  case (Cons w ws)
  then have "agree S (put_cell (fst w) (snd w) h) (fold (\<lambda>(a, c). put_cell a c) ws (put_cell (fst w) (snd w) h))"
    and "fst w \<notin> S" by auto
  then show ?case by (auto simp: agree_def split_def)
qed (simp add: agree_def)

context deep_copier
begin

text \<open>
  Whatever is written to the cells of the copy, the original keeps its value, and the other way round; so does either of them
  under writes that stay off its own cells.
\<close>

lemma isolated:
  assumes "ok h x" and "copy x h = (y, h')"
  shows "ok h' y" and "view h' y = view h x" and "view h' x = view h x" and "refs h' x = refs h x" and "refs h x \<inter> refs h' y = {}"
    and "fst ` set ws \<inter> refs h x = {} \<Longrightarrow> view (put_cells ws h') x = view h x"
    and "fst ` set ws \<inter> refs h' y = {} \<Longrightarrow> view (put_cells ws h') y = view h x"
proof -
  have y: "fst (copy x h) = y" "snd (copy x h) = h'" using assms(2) by simp_all
  show "ok h' y" and y_view: "view h' y = view h x"
    using sound [OF assms(1)] equal [OF assms(1)] by (simp_all add: y)
  show x_view: "view h' x = view h x" and "refs h' x = refs h x" and "refs h x \<inter> refs h' y = {}"
    using original [OF assms(1)] disjoint [OF assms(1)] by (simp_all add: y)
  show "fst ` set ws \<inter> refs h x = {} \<Longrightarrow> view (put_cells ws h') x = view h x"
    using frame [of h' x "put_cells ws h'"] original [OF assms(1)] by (simp add: put_cells_agree y)
  show "fst ` set ws \<inter> refs h' y = {} \<Longrightarrow> view (put_cells ws h') y = view h x"
    using frame [of h' y "put_cells ws h'"] y_view by (simp add: put_cells_agree)
qed

end

subsection \<open>Plain values\<close>

lemma copier_same: "deep_copier same (\<lambda>h x. x) (\<lambda>h x. {}) (\<lambda>h x. True)"
  by unfold_locales (simp_all add: same_def)

lemma copier_library: "(\<And>x. f x = x) \<Longrightarrow> deep_copier (library f) (\<lambda>h x. x) (\<lambda>h x. {}) (\<lambda>h x. True)"
  by unfold_locales (simp_all add: library_def)

subsection \<open>Fields one after the other\<close>

definition copy_both :: "'x copier \<Rightarrow> 'y copier \<Rightarrow> ('x \<times> 'y) copier" where
  "copy_both c d p h = (let (x, h) = c (fst p) h; (y, h) = d (snd p) h in ((x, y), h))"

lemma copier_both:
  fixes c :: "'x copier" and d :: "'y copier"
  assumes c: "deep_copier c v r k" and d: "deep_copier d w s l"
  shows "deep_copier (copy_both c d) (\<lambda>h p. (v h (fst p), w h (snd p))) (\<lambda>h p. r h (fst p) \<union> s h (snd p))
    (\<lambda>h p. k h (fst p) \<and> l h (snd p))"
proof
  fix p :: "'x \<times> 'y" and h h' :: heap
  obtain x y where p: "p = (x, y)" by (cases p)
  obtain x' h1 where h1: "c x h = (x', h1)" by (cases "c x h")
  obtain y' h2 where h2: "d y h1 = (y', h2)" by (cases "d y h1")
  have both: "copy_both c d (x, y) h = ((x', y'), h2)" by (simp add: copy_both_def h1 h2)
  have e1: "extends h h1" and e2: "extends h1 h2"
    using deep_copier.grows [OF c, of h x] deep_copier.grows [OF d, of h1 y] by (simp_all add: h1 h2)
  show "extends h (snd (copy_both c d p h))" using extends_trans [OF e1 e2] by (simp add: both p)
  show "agree (r h (fst p) \<union> s h (snd p)) h h' \<Longrightarrow> (v h' (fst p), w h' (snd p)) = (v h (fst p), w h (snd p))
      \<and> r h' (fst p) \<union> s h' (snd p) = r h (fst p) \<union> s h (snd p)"
    using deep_copier.frame [OF c, of h "fst p" h'] deep_copier.frame [OF d, of h "snd p" h'] by (simp add: agree_Un)
  show "agree (r h (fst p) \<union> s h (snd p)) h h' \<Longrightarrow> k h (fst p) \<and> l h (snd p) \<Longrightarrow> k h' (fst p) \<and> l h' (snd p)"
    by (auto simp: agree_Un intro: deep_copier.frame_ok [OF c] deep_copier.frame_ok [OF d])
  assume "k h (fst p) \<and> l h (snd p)"
  then have kx: "k h x" and ly: "l h y" by (simp_all add: p)
  show "r h (fst p) \<union> s h (snd p) \<subseteq> {..<lim h}"
    using deep_copier.inside [OF c kx] deep_copier.inside [OF d ly] by (simp add: p)
  note y1 = deep_copier.later [OF d ly e1]
  note x1 = deep_copier.equal [OF c kx] deep_copier.sound [OF c kx] deep_copier.fresh [OF c kx]
  note y2 = deep_copier.equal [OF d y1(3)] deep_copier.sound [OF d y1(3)] deep_copier.fresh [OF d y1(3)]
  have kx': "k h1 x'" using x1(2) by (simp add: h1)
  note x2 = deep_copier.later [OF c kx' e2]
  show "(v (snd (copy_both c d p h)) (fst (fst (copy_both c d p h))), w (snd (copy_both c d p h)) (snd (fst (copy_both c d p h))))
      = (v h (fst p), w h (snd p))"
    using x1(1) x2(1) y1(1) y2(1) by (simp add: both p h1 h2)
  show "k (snd (copy_both c d p h)) (fst (fst (copy_both c d p h))) \<and> l (snd (copy_both c d p h)) (snd (fst (copy_both c d p h)))"
    using x2(3) y2(2) by (simp add: both p h2)
  show "r (snd (copy_both c d p h)) (fst (fst (copy_both c d p h))) \<union> s (snd (copy_both c d p h)) (snd (fst (copy_both c d p h)))
      \<subseteq> {lim h..<lim (snd (copy_both c d p h))}"
    using x1(3) x2(2) y2(3) extends_lim [OF e1] extends_lim [OF e2] by (fastforce simp: both p h1 h2)
qed

text \<open>A struct is copied by copying its fields that hold references, \<open>get\<close>, and writing them over \<open>*out = *in\<close>, \<open>set\<close>.\<close>

lemma copier_struct:
  assumes c: "deep_copier c v r k"
    and copy: "\<And>x h. copy x h = (let (t, h) = c (get x) h in (set_fields t x, h))"
    and get_set: "\<And>t x. get (set_fields t x) = t" and set_get: "\<And>x. set_fields (get x) x = x"
    and view: "\<And>h h' x t. v h' t = v h (get x) \<Longrightarrow> view h' (set_fields t x) = view h x"
    and refs: "\<And>h x. refs h x = r h (get x)" and ok: "\<And>h x. ok h x = k h (get x)"
  shows "deep_copier copy view refs ok"
proof
  fix x and h h' :: heap
  obtain t h1 where h1: "c (get x) h = (t, h1)" by (cases "c (get x) h")
  have eq: "copy x h = (set_fields t x, h1)" by (simp add: copy h1)
  have view0: "v h' (get x) = v h (get x) \<Longrightarrow> view h' x = view h x" using view [of h' "get x" h x] by (simp add: set_get)
  show "agree (refs h x) h h' \<Longrightarrow> view h' x = view h x \<and> refs h' x = refs h x"
    using deep_copier.frame [OF c, of h "get x" h'] view0 by (simp add: refs)
  show "agree (refs h x) h h' \<Longrightarrow> ok h x \<Longrightarrow> ok h' x"
    using deep_copier.frame_ok [OF c, of h "get x" h'] by (simp add: refs ok)
  show "extends h (snd (copy x h))"
    using deep_copier.grows [OF c, of h "get x"] by (simp add: eq h1)
  assume "ok h x"
  then have k: "k h (get x)" by (simp add: ok)
  show "refs h x \<subseteq> {..<lim h}" using deep_copier.inside [OF c k] by (simp add: refs)
  note facts = deep_copier.equal [OF c k] deep_copier.sound [OF c k] deep_copier.fresh [OF c k]
  show "view (snd (copy x h)) (fst (copy x h)) = view h x"
    using facts(1) by (simp add: eq h1 view)
  show "ok (snd (copy x h)) (fst (copy x h))"
    using facts(2) by (simp add: eq h1 get_set ok)
  show "refs (snd (copy x h)) (fst (copy x h)) \<subseteq> {lim h..<lim (snd (copy x h))}"
    using facts(3) by (simp add: eq h1 get_set refs)
qed

subsection \<open>A new cell\<close>

text \<open>The cell is allocated, the contents are copied behind it, and it is written.\<close>

lemma into_new:
  fixes c :: "'x copier" and m :: cell
  assumes c: "deep_copier c v r k" and k: "k h x" and y: "c x (snd (alloc h)) = (y, h2)"
  defines "h3 \<equiv> put_cell (lim h) m h2"
  shows "v h3 y = v h x" and "k h3 y" and "insert (lim h) (r h3 y) \<subseteq> {lim h..<lim h3}"
proof -
  note x1 = deep_copier.later [OF c k extends_alloc]
  note facts = deep_copier.equal [OF c x1(3)] deep_copier.sound [OF c x1(3)] deep_copier.fresh [OF c x1(3)]
  have h2: "extends (snd (alloc h)) h2"
    using deep_copier.grows [OF c, of "snd (alloc h)" x] by (simp add: y)
  have "lim h \<notin> r h2 y" using facts(3) by (auto simp: y)
  then have agr: "agree (r h2 y) h2 h3" by (simp add: h3_def agree_put_cell)
  have "k h2 y" using facts(2) by (simp add: y)
  then show "k h3 y" by (rule deep_copier.frame_ok [OF c agr])
  show "v h3 y = v h x" using deep_copier.frame [OF c agr] facts(1) x1(1) by (simp add: y)
  show "insert (lim h) (r h3 y) \<subseteq> {lim h..<lim h3}"
    using deep_copier.frame [OF c agr] facts(3) extends_lim [OF h2] by (force simp: y h3_def)
qed

subsection \<open>Pointers\<close>

definition ptr_view :: "(cell \<Rightarrow> 'x) \<Rightarrow> (heap \<Rightarrow> 'x \<Rightarrow> 'v) \<Rightarrow> heap \<Rightarrow> ref \<Rightarrow> 'v option" where
  "ptr_view get v h p = (case p of None \<Rightarrow> None | Some a \<Rightarrow> Some (v h (get (cells h a))))"

definition ptr_refs :: "(cell \<Rightarrow> 'x) \<Rightarrow> (heap \<Rightarrow> 'x \<Rightarrow> nat set) \<Rightarrow> heap \<Rightarrow> ref \<Rightarrow> nat set" where
  "ptr_refs get r h p = (case p of None \<Rightarrow> {} | Some a \<Rightarrow> insert a (r h (get (cells h a))))"

definition ptr_ok :: "(cell \<Rightarrow> 'x) \<Rightarrow> (heap \<Rightarrow> 'x \<Rightarrow> bool) \<Rightarrow> heap \<Rightarrow> ref \<Rightarrow> bool" where
  "ptr_ok get k h p = (case p of None \<Rightarrow> True | Some a \<Rightarrow> a < lim h \<and> k h (get (cells h a)))"

lemma copy_ptr_nil: "fst (copy_ptr mk get c p h) = None \<longleftrightarrow> p = None"
  by (cases p) (simp_all add: copy_ptr_def split_def Let_def)

lemmas ptr_defs = ptr_view_def ptr_refs_def ptr_ok_def

lemma copier_ptr:
  assumes c: "deep_copier c v r k" and get_mk: "\<And>x. get (mk x) = x"
  shows "deep_copier (copy_ptr mk get c) (ptr_view get v) (ptr_refs get r) (ptr_ok get k)"
proof
  fix p :: ref and h h' :: heap
  show "agree (ptr_refs get r h p) h h' \<Longrightarrow> ptr_view get v h' p = ptr_view get v h p \<and> ptr_refs get r h' p = ptr_refs get r h p"
  proof (cases p)
    case (Some a)
    assume "agree (ptr_refs get r h p) h h'"
    then have "cells h' a = cells h a" "agree (r h (get (cells h a))) h h'" by (simp_all add: ptr_defs Some agree_def)
    then show ?thesis using deep_copier.frame [OF c, of h "get (cells h a)" h'] by (simp add: ptr_defs Some)
  qed (simp add: ptr_defs)
  show "agree (ptr_refs get r h p) h h' \<Longrightarrow> ptr_ok get k h p \<Longrightarrow> ptr_ok get k h' p"
  proof (cases p)
    case (Some a)
    assume "agree (ptr_refs get r h p) h h'" and "ptr_ok get k h p"
    then have "cells h' a = cells h a" "agree (r h (get (cells h a))) h h'" "k h (get (cells h a))" "a < lim h'"
      by (simp_all add: ptr_defs Some agree_def)
    then show ?thesis using deep_copier.frame_ok [OF c, of h "get (cells h a)" h'] by (simp add: ptr_defs Some)
  qed (simp add: ptr_defs)
  show "ptr_ok get k h p \<Longrightarrow> ptr_refs get r h p \<subseteq> {..<lim h}"
    using deep_copier.inside [OF c] by (cases p) (auto simp: ptr_defs)
  show "extends h (snd (copy_ptr mk get c p h))"
  proof (cases p)
    case (Some a)
    show ?thesis
      using extends_put_new [OF deep_copier.grows [OF c, of "snd (alloc h)" "get (cells (snd (alloc h)) a)"]]
      by (simp add: copy_ptr_def Some split_def Let_def del: snd_alloc_simps)
  qed (simp add: copy_ptr_def)
  assume ok: "ptr_ok get k h p"
  have "ptr_view get v (snd (copy_ptr mk get c p h)) (fst (copy_ptr mk get c p h)) = ptr_view get v h p
    \<and> ptr_ok get k (snd (copy_ptr mk get c p h)) (fst (copy_ptr mk get c p h))
    \<and> ptr_refs get r (snd (copy_ptr mk get c p h)) (fst (copy_ptr mk get c p h)) \<subseteq> {lim h..<lim (snd (copy_ptr mk get c p h))}"
  proof (cases p)
    case (Some a)
    let ?h1 = "snd (alloc h)" and ?x = "get (cells h a)"
    obtain y h2 where h2: "c ?x ?h1 = (y, h2)" by (cases "c ?x ?h1")
    have a: "a < lim h" and kx: "k h ?x" using ok by (simp_all add: ptr_ok_def Some)
    have copy: "copy_ptr mk get c (Some a) h = (Some (lim h), put_cell (lim h) (mk y) h2)"
      using a h2 by (simp add: copy_ptr_def Some split_def)
    note new = into_new [OF c kx h2, where m = "mk y"]
    show ?thesis using new by (simp add: copy ptr_defs Some get_mk)
  qed (simp add: copy_ptr_def ptr_defs)
  then show "ptr_view get v (snd (copy_ptr mk get c p h)) (fst (copy_ptr mk get c p h)) = ptr_view get v h p"
    and "ptr_ok get k (snd (copy_ptr mk get c p h)) (fst (copy_ptr mk get c p h))"
    and "ptr_refs get r (snd (copy_ptr mk get c p h)) (fst (copy_ptr mk get c p h)) \<subseteq> {lim h..<lim (snd (copy_ptr mk get c p h))}"
    by blast+
qed

subsection \<open>Slices\<close>

definition elems_refs :: "(heap \<Rightarrow> 'x \<Rightarrow> nat set) \<Rightarrow> heap \<Rightarrow> 'x list \<Rightarrow> nat set" where
  "elems_refs r h xs = (\<Union>x\<in>set xs. r h x)"

definition elems_ok :: "(heap \<Rightarrow> 'x \<Rightarrow> bool) \<Rightarrow> heap \<Rightarrow> 'x list \<Rightarrow> bool" where
  "elems_ok k h xs = (\<forall>x\<in>set xs. k h x)"

text \<open>The loop over the elements.\<close>

lemma copier_each:
  fixes c :: "'x copier" and v :: "heap \<Rightarrow> 'x \<Rightarrow> 'v"
  assumes c: "deep_copier c v r k"
  shows "deep_copier (copy_each c) (\<lambda>h. map (v h)) (elems_refs r) (elems_ok k)"
proof
  fix xs :: "'x list" and h h' :: heap
  show "agree (elems_refs r h xs) h h' \<Longrightarrow> map (v h') xs = map (v h) xs \<and> elems_refs r h' xs = elems_refs r h xs"
    using deep_copier.frame [OF c, of h _ h'] by (auto simp: elems_refs_def agree_def)
  show "agree (elems_refs r h xs) h h' \<Longrightarrow> elems_ok k h xs \<Longrightarrow> elems_ok k h' xs"
    using deep_copier.frame_ok [OF c, of h _ h'] by (auto simp: elems_refs_def elems_ok_def agree_def)
  show "elems_ok k h xs \<Longrightarrow> elems_refs r h xs \<subseteq> {..<lim h}"
    using deep_copier.inside [OF c, of h] by (fastforce simp: elems_refs_def elems_ok_def)
  show "extends h (snd (copy_each c xs h))"
  proof (induction xs arbitrary: h)
    case (Cons x xs)
    show ?case using extends_trans [OF deep_copier.grows [OF c, of h x] Cons.IH] by (simp add: split_def Let_def)
  qed simp
  have main: "map (v (snd (copy_each c xs h))) (fst (copy_each c xs h)) = map (v h) xs
      \<and> elems_ok k (snd (copy_each c xs h)) (fst (copy_each c xs h))
      \<and> elems_refs r (snd (copy_each c xs h)) (fst (copy_each c xs h)) \<subseteq> {lim h..<lim (snd (copy_each c xs h))}
      \<and> extends h (snd (copy_each c xs h))"
    if "elems_ok k h xs" using that
  proof (induction xs arbitrary: h)
    case (Cons x xs)
    obtain y h1 where h1: "c x h = (y, h1)" by (cases "c x h")
    obtain ys h2 where h2: "copy_each c xs h1 = (ys, h2)" by (cases "copy_each c xs h1")
    have kx: "k h x" and kxs: "\<forall>z\<in>set xs. k h z" using Cons.prems by (simp_all add: elems_ok_def)
    have e1: "extends h h1" using deep_copier.grows [OF c, of h x] by (simp add: h1)
    have rest: "elems_ok k h1 xs" "map (v h1) xs = map (v h) xs"
      using deep_copier.later [OF c _ e1] kxs by (auto simp: elems_ok_def)
    note IH = Cons.IH [OF rest(1)]
    have e2: "extends h1 h2" using IH by (simp add: h2)
    note x1 = deep_copier.equal [OF c kx] deep_copier.sound [OF c kx] deep_copier.fresh [OF c kx]
    have ky: "k h1 y" using x1(2) by (simp add: h1)
    note x2 = deep_copier.later [OF c ky e2]
    show ?case
      using IH rest(2) x1 x2 extends_lim [OF e1] extends_lim [OF e2] extends_trans [OF e1 e2]
      by (fastforce simp: h1 h2 elems_ok_def elems_refs_def)
  qed (simp add: elems_ok_def elems_refs_def)
  assume "elems_ok k h xs"
  then show "map (v (snd (copy_each c xs h))) (fst (copy_each c xs h)) = map (v h) xs"
    and "elems_ok k (snd (copy_each c xs h)) (fst (copy_each c xs h))"
    and "elems_refs r (snd (copy_each c xs h)) (fst (copy_each c xs h)) \<subseteq> {lim h..<lim (snd (copy_each c xs h))}"
    using main by blast+
qed

definition slice_view :: "(cell \<Rightarrow> 'x list) \<Rightarrow> (heap \<Rightarrow> 'x \<Rightarrow> 'v) \<Rightarrow> heap \<Rightarrow> slice \<Rightarrow> 'v list" where
  "slice_view get v h s = (case s of None \<Rightarrow> [] | Some w \<Rightarrow> map (v h) (elems get h w))"

definition slice_refs :: "(cell \<Rightarrow> 'x list) \<Rightarrow> (heap \<Rightarrow> 'x \<Rightarrow> nat set) \<Rightarrow> heap \<Rightarrow> slice \<Rightarrow> nat set" where
  "slice_refs get r h s = (case s of None \<Rightarrow> {} | Some w \<Rightarrow> insert (sl_array w) (elems_refs r h (elems get h w)))"

text \<open>A window lies within its array.\<close>

definition slice_ok :: "(cell \<Rightarrow> 'x list) \<Rightarrow> (heap \<Rightarrow> 'x \<Rightarrow> bool) \<Rightarrow> heap \<Rightarrow> slice \<Rightarrow> bool" where
  "slice_ok get k h s = (case s of None \<Rightarrow> True
   | Some w \<Rightarrow> sl_array w < lim h \<and> sl_off w + sl_len w \<le> length (get (cells h (sl_array w))) \<and> elems_ok k h (elems get h w))"

lemmas slice_defs = slice_view_def slice_refs_def slice_ok_def

lemma elems_agree: "cells h' (sl_array w) = cells h (sl_array w) \<Longrightarrow> elems get h' w = elems get h w"
  by (simp add: elems_def)

lemma length_copy_each: "length (fst (copy_each c xs h)) = length xs"
  by (induction xs arbitrary: h) (simp_all add: split_def Let_def)

lemma copier_slice:
  fixes c :: "'x copier"
  assumes c: "deep_copier c v r k" and get_mk: "\<And>xs. get (mk xs) = xs"
  shows "deep_copier (copy_slice mk get c) (slice_view get v) (slice_refs get r) (slice_ok get k)"
proof
  note each = copier_each [OF c]
  fix s :: slice and h h' :: heap
  show "agree (slice_refs get r h s) h h' \<Longrightarrow> slice_view get v h' s = slice_view get v h s \<and> slice_refs get r h' s = slice_refs get r h s"
  proof (cases s)
    case (Some w)
    assume "agree (slice_refs get r h s) h h'"
    then have eq: "cells h' (sl_array w) = cells h (sl_array w)" and "agree (elems_refs r h (elems get h w)) h h'"
      by (simp_all add: slice_defs Some agree_def)
    then show ?thesis
      using deep_copier.frame [OF each, of h "elems get h w" h'] by (simp add: slice_defs Some elems_agree [OF eq])
  qed (simp add: slice_defs)
  show "agree (slice_refs get r h s) h h' \<Longrightarrow> slice_ok get k h s \<Longrightarrow> slice_ok get k h' s"
  proof (cases s)
    case (Some w)
    assume agr: "agree (slice_refs get r h s) h h'" and ok: "slice_ok get k h s"
    have eq: "cells h' (sl_array w) = cells h (sl_array w)" using agr by (simp add: slice_defs Some agree_def)
    have "agree (elems_refs r h (elems get h w)) h h'" "elems_ok k h (elems get h w)" "sl_array w < lim h'"
      using agr ok by (simp_all add: slice_defs Some agree_def)
    then show ?thesis
      using deep_copier.frame_ok [OF each, of h "elems get h w" h'] ok by (simp add: slice_defs Some eq elems_agree [OF eq])
  qed (simp add: slice_defs)
  show "slice_ok get k h s \<Longrightarrow> slice_refs get r h s \<subseteq> {..<lim h}"
    using deep_copier.inside [OF each, of h] by (cases s) (simp_all add: slice_defs)
  show "extends h (snd (copy_slice mk get c s h))"
  proof (cases s)
    case (Some w)
    show ?thesis
      using extends_put_new [OF deep_copier.grows [OF each, of "snd (alloc h)" "elems get (snd (alloc h)) w"]]
      by (simp add: copy_slice_def Some split_def Let_def del: snd_alloc_simps)
  qed (simp add: copy_slice_def)
  assume ok: "slice_ok get k h s"
  have "slice_view get v (snd (copy_slice mk get c s h)) (fst (copy_slice mk get c s h)) = slice_view get v h s
    \<and> slice_ok get k (snd (copy_slice mk get c s h)) (fst (copy_slice mk get c s h))
    \<and> slice_refs get r (snd (copy_slice mk get c s h)) (fst (copy_slice mk get c s h)) \<subseteq> {lim h..<lim (snd (copy_slice mk get c s h))}"
  proof (cases s)
    case (Some w)
    let ?xs = "elems get h w"
    obtain ys h2 where h2: "copy_each c ?xs (snd (alloc h)) = (ys, h2)" by (cases "copy_each c ?xs (snd (alloc h))")
    have kx: "elems_ok k h ?xs" and a: "sl_array w < lim h" and len: "length ?xs = sl_len w"
      using ok by (auto simp: slice_ok_def Some elems_def)
    have copy: "copy_slice mk get c (Some w) h = (Some \<lparr>sl_array = lim h, sl_off = 0, sl_len = sl_len w\<rparr>, put_cell (lim h) (mk ys) h2)"
      using a h2 by (simp add: copy_slice_def Some split_def elems_agree [of "snd (alloc h)" w h])
    have "length ys = sl_len w" using length_copy_each [of c ?xs "snd (alloc h)"] by (simp add: h2 len)
    then have el: "elems get (put_cell (lim h) (mk ys) h2) \<lparr>sl_array = lim h, sl_off = 0, sl_len = sl_len w\<rparr> = ys"
      and len': "length ys = sl_len w" by (simp_all add: elems_def get_mk)
    show ?thesis using into_new [OF each kx h2, where m = "mk ys"] len' by (simp add: copy slice_defs Some get_mk el)
  qed (simp add: copy_slice_def slice_defs)
  then show "slice_view get v (snd (copy_slice mk get c s h)) (fst (copy_slice mk get c s h)) = slice_view get v h s"
    and "slice_ok get k (snd (copy_slice mk get c s h)) (fst (copy_slice mk get c s h))"
    and "slice_refs get r (snd (copy_slice mk get c s h)) (fst (copy_slice mk get c s h)) \<subseteq> {lim h..<lim (snd (copy_slice mk get c s h))}"
    by blast+
qed

subsection \<open>Maps\<close>

text \<open>A map has no order: its value is the entries by key.\<close>

definition map_view :: "heap \<Rightarrow> ref \<Rightarrow> (gostring, gostring) gomap" where
  "map_view h p = (case p of None \<Rightarrow> [] | Some a \<Rightarrow> sort_key fst (of_StringMap (cells h a)))"

definition map_refs :: "heap \<Rightarrow> ref \<Rightarrow> nat set" where
  "map_refs h p = (case p of None \<Rightarrow> {} | Some a \<Rightarrow> {a})"

definition map_ok :: "heap \<Rightarrow> ref \<Rightarrow> bool" where
  "map_ok h p = (case p of None \<Rightarrow> True | Some a \<Rightarrow> a < lim h \<and> gm_wf (of_StringMap (cells h a)))"

lemmas map_defs = map_view_def map_refs_def map_ok_def

lemma update_new: "k \<notin> fst ` set m \<Longrightarrow> AList.update k v m = m @ [(k, v)]"
  by (induction m) auto

lemma copy_entries_append:
  "distinct (map fst (m @ es)) \<Longrightarrow> foldl (\<lambda>m (key, val). gm_put key val m) m es = m @ es"
proof (induction es arbitrary: m)
  case (Cons e es)
  obtain k v where e: "e = (k, v)" by (cases e)
  then show ?case using Cons.IH [of "m @ [e]"] Cons.prems by (simp add: gm_put_def update_new)
qed simp

lemma copy_entries_id: "gm_wf es \<Longrightarrow> copy_entries es = es"
  using copy_entries_append [of "[]" es] by (simp add: copy_entries_def gm_wf_def)

lemma visit_sorted:
  fixes m :: "('k::linorder, 'v) gomap"
  assumes "map_range visit" and "gm_wf m"
  shows "sort_key fst (visit m) = sort_key fst m"
proof (rule sort_key_inj_key_eq)
  show "mset (visit m) = mset (sort_key fst m)" by (simp add: map_range.visit_mset [OF assms(1)])
  show "inj_on fst (set (visit m))"
    using assms(2) by (simp add: map_range.visit_set [OF assms(1)] gm_wf_def distinct_map)
qed simp

lemma copier_map:
  assumes "map_range visit"
  shows "deep_copier (copy_map visit) map_view map_refs map_ok"
proof
  fix p :: ref and h h' :: heap
  show "agree (map_refs h p) h h' \<Longrightarrow> map_view h' p = map_view h p \<and> map_refs h' p = map_refs h p"
    by (cases p) (simp_all add: map_defs agree_def)
  show "agree (map_refs h p) h h' \<Longrightarrow> map_ok h p \<Longrightarrow> map_ok h' p"
    by (cases p) (simp_all add: map_defs agree_def)
  show "map_ok h p \<Longrightarrow> map_refs h p \<subseteq> {..<lim h}"
    by (cases p) (simp_all add: map_defs)
  show "extends h (snd (copy_map visit p h))"
    by (cases p) (simp_all add: copy_map_def split_def Let_def extends_put_new del: snd_alloc_simps)
  assume ok: "map_ok h p"
  then show "map_view (snd (copy_map visit p h)) (fst (copy_map visit p h)) = map_view h p"
    and "map_ok (snd (copy_map visit p h)) (fst (copy_map visit p h))"
    and "map_refs (snd (copy_map visit p h)) (fst (copy_map visit p h)) \<subseteq> {lim h..<lim (snd (copy_map visit p h))}"
    using visit_wf [OF assms] visit_sorted [OF assms]
    by (cases p; simp add: copy_map_def split_def map_defs copy_entries_id)+
qed

end
