(* ===== verification/DeepCopyFacts.thy ===== *)
theory DeepCopyFacts
  imports Copiers
begin

text \<open>
  The deep copies of the custom resources keep the contract of \<open>Copiers\<close>: the value of a struct in memory is the record of
  \<open>ApiTypes\<close> the controllers work with, and a copy has the same value in cells of its own.
\<close>

subsection \<open>The library\<close>

text \<open>
  The value of the metadata of an object is the record of \<open>Kube\<close> and what the controllers do not read, that of a list
  is a record; both with the cells they reach.
\<close>

record MetaRest =
  mr_Labels :: "(gostring, gostring) gomap"
  mr_Annotations :: "(gostring, gostring) gomap"
  mr_Finalizers :: "gostring list"
  mr_DeletionTimestamp :: "gotime option"

record ListMeta =
  lm_ResourceVersion :: gostring
  lm_Continue :: gostring
  lm_RemainingItemCount :: "int64 option"

definition ObjectMeta_view :: "heap \<Rightarrow> ObjectMetaMem \<Rightarrow> ObjectMeta \<times> MetaRest" where
  "ObjectMeta_view h x =
     (\<lparr>om_Name = mom_Name x, om_Namespace = mom_Namespace x, om_CreationTimestamp = mom_CreationTimestamp x\<rparr>,
      \<lparr>mr_Labels = map_view h (mom_Labels x), mr_Annotations = map_view h (mom_Annotations x),
       mr_Finalizers = slice_view of_Strings (\<lambda>h x. x) h (mom_Finalizers x),
       mr_DeletionTimestamp = ptr_view of_Time (\<lambda>h x. x) h (mom_DeletionTimestamp x)\<rparr>)"

definition ObjectMeta_refs :: "heap \<Rightarrow> ObjectMetaMem \<Rightarrow> nat set" where
  "ObjectMeta_refs h x = map_refs h (mom_Labels x) \<union> map_refs h (mom_Annotations x)
     \<union> slice_refs of_Strings (\<lambda>h x. {}) h (mom_Finalizers x) \<union> ptr_refs of_Time (\<lambda>h x. {}) h (mom_DeletionTimestamp x)"

definition ObjectMeta_ok :: "heap \<Rightarrow> ObjectMetaMem \<Rightarrow> bool" where
  "ObjectMeta_ok h x \<longleftrightarrow> map_ok h (mom_Labels x) \<and> map_ok h (mom_Annotations x)
     \<and> slice_ok of_Strings (\<lambda>h x. True) h (mom_Finalizers x) \<and> ptr_ok of_Time (\<lambda>h x. True) h (mom_DeletionTimestamp x)"

definition ListMeta_view :: "heap \<Rightarrow> ListMetaMem \<Rightarrow> ListMeta" where
  "ListMeta_view h x = \<lparr>lm_ResourceVersion = mlm_ResourceVersion x, lm_Continue = mlm_Continue x,
     lm_RemainingItemCount = ptr_view of_Int64 (\<lambda>h x. x) h (mlm_RemainingItemCount x)\<rparr>"

definition ListMeta_refs :: "heap \<Rightarrow> ListMetaMem \<Rightarrow> nat set" where
  "ListMeta_refs h x = ptr_refs of_Int64 (\<lambda>h x. {}) h (mlm_RemainingItemCount x)"

definition ListMeta_ok :: "heap \<Rightarrow> ListMetaMem \<Rightarrow> bool" where
  "ListMeta_ok h x \<longleftrightarrow> ptr_ok of_Int64 (\<lambda>h x. True) h (mlm_RemainingItemCount x)"

lemmas struct_simps = copy_both_def split_def Let_def Un_assoc

lemmas meta_mem = ObjectMeta_view_def ObjectMeta_refs_def ObjectMeta_ok_def ListMeta_view_def ListMeta_refs_def ListMeta_ok_def

text \<open>What the library promises: its own \<open>DeepCopyInto\<close> are deep copies.\<close>

locale copy_library = map_range "lc_range L" for L :: library_copies +
  assumes time: "lc_Time L t = t" and condition: "lc_Condition L c = c"
    and objectMeta: "deep_copier (lc_ObjectMeta L) ObjectMeta_view ObjectMeta_refs ObjectMeta_ok"
    and listMeta: "deep_copier (lc_ListMeta L) ListMeta_view ListMeta_refs ListMeta_ok"

definition std_ObjectMeta :: "ObjectMetaMem copier" where
  "std_ObjectMeta r h = (let
     (labels, h) = copy_map rev (mom_Labels r) h;
     (annotations, h) = copy_map rev (mom_Annotations r) h;
     (finalizers, h) = copy_slice StringsCell of_Strings same (mom_Finalizers r) h;
     (deletion, h) = copy_ptr TimeCell of_Time same (mom_DeletionTimestamp r) h
   in (r\<lparr>mom_Labels := labels, mom_Annotations := annotations, mom_Finalizers := finalizers, mom_DeletionTimestamp := deletion\<rparr>, h))"

definition std_ListMeta :: "ListMetaMem copier" where
  "std_ListMeta r h = (let (count, h) = copy_ptr Int64Cell of_Int64 same (mlm_RemainingItemCount r) h
   in (r\<lparr>mlm_RemainingItemCount := count\<rparr>, h))"

definition std_copies :: library_copies where
  "std_copies = \<lparr>lc_Time = \<lambda>t. t, lc_Condition = \<lambda>c. c, lc_ObjectMeta = std_ObjectMeta, lc_ListMeta = std_ListMeta, lc_range = rev\<rparr>"

interpretation stdObjectMeta: deep_copier std_ObjectMeta ObjectMeta_view ObjectMeta_refs ObjectMeta_ok
  by (rule copier_struct [OF copier_both [OF copier_map [OF in_reverse.map_range_axioms]
    copier_both [OF copier_map [OF in_reverse.map_range_axioms]
    copier_both [OF copier_slice [OF copier_same, of of_Strings StringsCell, OF cell.sel(6)]
    copier_ptr [OF copier_same, of of_Time TimeCell, OF cell.sel(4)]]]],
    where get = "\<lambda>x. (mom_Labels x, mom_Annotations x, mom_Finalizers x, mom_DeletionTimestamp x)"
      and set_fields = "\<lambda>(t1, t2, t3, t4) x. x\<lparr>mom_Labels := t1, mom_Annotations := t2, mom_Finalizers := t3, mom_DeletionTimestamp := t4\<rparr>"])
    (auto simp: std_ObjectMeta_def meta_mem struct_simps)

interpretation stdListMeta: deep_copier std_ListMeta ListMeta_view ListMeta_refs ListMeta_ok
  by (rule copier_struct [OF copier_ptr [OF copier_same, of of_Int64 Int64Cell, OF cell.sel(2)],
    where get = "mlm_RemainingItemCount" and set_fields = "\<lambda>t1 x. x\<lparr>mlm_RemainingItemCount := t1\<rparr>"])
    (auto simp: std_ListMeta_def meta_mem struct_simps)

interpretation std_copies: copy_library std_copies
  by (rule copy_library.intro [OF _ copy_library_axioms.intro])
    (simp_all add: std_copies_def in_reverse.map_range_axioms stdObjectMeta.deep_copier_axioms stdListMeta.deep_copier_axioms)

subsection \<open>The structs\<close>

text \<open>For each struct of the repository its value, the cells it reaches, and that they are in use, each map with distinct keys.\<close>


definition HardwareSpec_view :: "heap \<Rightarrow> HardwareSpecMem \<Rightarrow> HardwareSpec" where
  "HardwareSpec_view h x =
     \<lparr>hs_GPUModel = mhs_GPUModel x, hs_GPUCount = mhs_GPUCount x,
     hs_PurchasePriceUSD = mhs_PurchasePriceUSD x, hs_AmortizationYears = mhs_AmortizationYears x,
     hs_MaintenancePercentPerYear = mhs_MaintenancePercentPerYear x,
     hs_TDPWatts = ptr_view of_Int32 (\<lambda>h x. x) h (mhs_TDPWatts x)\<rparr>"

definition HardwareSpec_refs :: "heap \<Rightarrow> HardwareSpecMem \<Rightarrow> nat set" where
  "HardwareSpec_refs h x = ptr_refs of_Int32 (\<lambda>h x. {}) h (mhs_TDPWatts x)"

definition HardwareSpec_ok :: "heap \<Rightarrow> HardwareSpecMem \<Rightarrow> bool" where
  "HardwareSpec_ok h x \<longleftrightarrow> ptr_ok of_Int32 (\<lambda>h x. True) h (mhs_TDPWatts x)"

lemmas HardwareSpec_mem = HardwareSpec_DeepCopyInto_def HardwareSpec_view_def HardwareSpec_refs_def HardwareSpec_ok_def

interpretation hardware: deep_copier HardwareSpec_DeepCopyInto HardwareSpec_view HardwareSpec_refs HardwareSpec_ok
  by (rule copier_struct [OF copier_ptr [OF copier_same, of of_Int32 Int32Cell, OF cell.sel(1)],
    where get = "mhs_TDPWatts"
      and set_fields = "\<lambda>t1 x. x\<lparr>mhs_TDPWatts := t1\<rparr>"])
    (auto simp: HardwareSpec_mem struct_simps)

definition ElectricitySpec_view :: "heap \<Rightarrow> ElectricitySpecMem \<Rightarrow> ElectricitySpec" where
  "ElectricitySpec_view h x =
     \<lparr>es_RatePerKWh = mes_RatePerKWh x, es_PUEFactor = mes_PUEFactor x,
     es_IdleWattsThreshold = ptr_view of_Float64 (\<lambda>h x. x) h (mes_IdleWattsThreshold x)\<rparr>"

definition ElectricitySpec_refs :: "heap \<Rightarrow> ElectricitySpecMem \<Rightarrow> nat set" where
  "ElectricitySpec_refs h x = ptr_refs of_Float64 (\<lambda>h x. {}) h (mes_IdleWattsThreshold x)"

definition ElectricitySpec_ok :: "heap \<Rightarrow> ElectricitySpecMem \<Rightarrow> bool" where
  "ElectricitySpec_ok h x \<longleftrightarrow> ptr_ok of_Float64 (\<lambda>h x. True) h (mes_IdleWattsThreshold x)"

lemmas ElectricitySpec_mem = ElectricitySpec_DeepCopyInto_def ElectricitySpec_view_def ElectricitySpec_refs_def ElectricitySpec_ok_def

interpretation electricity: deep_copier ElectricitySpec_DeepCopyInto ElectricitySpec_view ElectricitySpec_refs ElectricitySpec_ok
  by (rule copier_struct [OF copier_ptr [OF copier_same, of of_Float64 Float64Cell, OF cell.sel(3)],
    where get = "mes_IdleWattsThreshold"
      and set_fields = "\<lambda>t1 x. x\<lparr>mes_IdleWattsThreshold := t1\<rparr>"])
    (auto simp: ElectricitySpec_mem struct_simps)

definition CloudComparisonSpec_view :: "heap \<Rightarrow> CloudComparisonSpecMem \<Rightarrow> CloudComparisonSpec" where
  "CloudComparisonSpec_view h x =
     \<lparr>ccs_Targets = slice_view of_CloudTargets (\<lambda>h x. x) h (mcc_Targets x)\<rparr>"

definition CloudComparisonSpec_refs :: "heap \<Rightarrow> CloudComparisonSpecMem \<Rightarrow> nat set" where
  "CloudComparisonSpec_refs h x = slice_refs of_CloudTargets (\<lambda>h x. {}) h (mcc_Targets x)"

definition CloudComparisonSpec_ok :: "heap \<Rightarrow> CloudComparisonSpecMem \<Rightarrow> bool" where
  "CloudComparisonSpec_ok h x \<longleftrightarrow> slice_ok of_CloudTargets (\<lambda>h x. True) h (mcc_Targets x)"

lemmas CloudComparisonSpec_mem = CloudComparisonSpec_DeepCopyInto_def CloudComparisonSpec_view_def CloudComparisonSpec_refs_def CloudComparisonSpec_ok_def

interpretation cloudSpec: deep_copier CloudComparisonSpec_DeepCopyInto CloudComparisonSpec_view CloudComparisonSpec_refs CloudComparisonSpec_ok
  by (rule copier_struct [OF copier_slice [OF copier_same, of of_CloudTargets CloudTargetsCell, OF cell.sel(7)],
    where get = "mcc_Targets"
      and set_fields = "\<lambda>t1 x. x\<lparr>mcc_Targets := t1\<rparr>"])
    (auto simp: CloudComparisonSpec_mem struct_simps)

definition CostProfileSpec_view :: "heap \<Rightarrow> CostProfileSpecMem \<Rightarrow> CostProfileSpec" where
  "CostProfileSpec_view h x =
     \<lparr>cps_Hardware = HardwareSpec_view h (mcs_Hardware x),
     cps_Electricity = ElectricitySpec_view h (mcs_Electricity x),
     cps_NodeSelector = map_view h (mcs_NodeSelector x),
     cps_NamespaceSelector = map_view h (mcs_NamespaceSelector x),
     cps_CloudComparison = ptr_view of_CloudComparisonSpec CloudComparisonSpec_view h (mcs_CloudComparison x)\<rparr>"

definition CostProfileSpec_refs :: "heap \<Rightarrow> CostProfileSpecMem \<Rightarrow> nat set" where
  "CostProfileSpec_refs h x = HardwareSpec_refs h (mcs_Hardware x) \<union> ElectricitySpec_refs h (mcs_Electricity x)
     \<union> map_refs h (mcs_NodeSelector x) \<union> map_refs h (mcs_NamespaceSelector x)
     \<union> ptr_refs of_CloudComparisonSpec CloudComparisonSpec_refs h (mcs_CloudComparison x)"

definition CostProfileSpec_ok :: "heap \<Rightarrow> CostProfileSpecMem \<Rightarrow> bool" where
  "CostProfileSpec_ok h x \<longleftrightarrow> HardwareSpec_ok h (mcs_Hardware x) \<and> ElectricitySpec_ok h (mcs_Electricity x)
     \<and> map_ok h (mcs_NodeSelector x) \<and> map_ok h (mcs_NamespaceSelector x)
     \<and> ptr_ok of_CloudComparisonSpec CloudComparisonSpec_ok h (mcs_CloudComparison x)"

lemmas CostProfileSpec_mem = CostProfileSpec_DeepCopyInto_def CostProfileSpec_view_def CostProfileSpec_refs_def CostProfileSpec_ok_def

sublocale copy_library \<subseteq> profileSpec: deep_copier "CostProfileSpec_DeepCopyInto L" CostProfileSpec_view CostProfileSpec_refs CostProfileSpec_ok
  by (rule copier_struct [OF copier_both [OF hardware.deep_copier_axioms
    copier_both [OF electricity.deep_copier_axioms
    copier_both [OF copier_map [OF map_range_axioms]
    copier_both [OF copier_map [OF map_range_axioms]
    copier_ptr [OF cloudSpec.deep_copier_axioms, of of_CloudComparisonSpec CloudComparisonSpecCell, OF cell.sel(26)]]]]],
    where get = "\<lambda>x. (mcs_Hardware x, mcs_Electricity x, mcs_NodeSelector x, mcs_NamespaceSelector x, mcs_CloudComparison x)"
      and set_fields = "\<lambda>(t1, t2, t3, t4, t5) x. x\<lparr>mcs_Hardware := t1, mcs_Electricity := t2, mcs_NodeSelector := t3, mcs_NamespaceSelector := t4, mcs_CloudComparison := t5\<rparr>"])
    (auto simp: CostProfileSpec_mem struct_simps)

definition CostProfileStatus_view :: "heap \<Rightarrow> CostProfileStatusMem \<Rightarrow> CostProfileStatus" where
  "CostProfileStatus_view h x =
     \<lparr>cpt_HourlyCostUSD = mct_HourlyCostUSD x, cpt_AmortizationRatePerHour = mct_AmortizationRatePerHour x,
     cpt_ElectricityCostPerHour = mct_ElectricityCostPerHour x,
     cpt_CurrentPowerDrawWatts = mct_CurrentPowerDrawWatts x,
     cpt_LastUpdated = ptr_view of_Time (\<lambda>h x. x) h (mct_LastUpdated x),
     cpt_Conditions = slice_view of_Conditions (\<lambda>h x. x) h (mct_Conditions x)\<rparr>"

definition CostProfileStatus_refs :: "heap \<Rightarrow> CostProfileStatusMem \<Rightarrow> nat set" where
  "CostProfileStatus_refs h x = ptr_refs of_Time (\<lambda>h x. {}) h (mct_LastUpdated x)
     \<union> slice_refs of_Conditions (\<lambda>h x. {}) h (mct_Conditions x)"

definition CostProfileStatus_ok :: "heap \<Rightarrow> CostProfileStatusMem \<Rightarrow> bool" where
  "CostProfileStatus_ok h x \<longleftrightarrow> ptr_ok of_Time (\<lambda>h x. True) h (mct_LastUpdated x)
     \<and> slice_ok of_Conditions (\<lambda>h x. True) h (mct_Conditions x)"

lemmas CostProfileStatus_mem = CostProfileStatus_DeepCopyInto_def CostProfileStatus_view_def CostProfileStatus_refs_def CostProfileStatus_ok_def

sublocale copy_library \<subseteq> profileStatus: deep_copier "CostProfileStatus_DeepCopyInto L" CostProfileStatus_view CostProfileStatus_refs CostProfileStatus_ok
  by (rule copier_struct [OF copier_both [OF copier_ptr [OF copier_library [of "lc_Time L", OF time], of of_Time TimeCell, OF cell.sel(4)]
    copier_slice [OF copier_library [of "lc_Condition L", OF condition], of of_Conditions ConditionsCell, OF cell.sel(8)]],
    where get = "\<lambda>x. (mct_LastUpdated x, mct_Conditions x)"
      and set_fields = "\<lambda>(t1, t2) x. x\<lparr>mct_LastUpdated := t1, mct_Conditions := t2\<rparr>"])
    (auto simp: CostProfileStatus_mem struct_simps)

definition CostProfile_view :: "heap \<Rightarrow> CostProfileMem \<Rightarrow> TypeMeta \<times> MetaRest \<times> CostProfile" where
  "CostProfile_view h x = (mcp_TypeMeta x, snd (ObjectMeta_view h (mcp_ObjectMeta x)),
     \<lparr>prof_Meta = fst (ObjectMeta_view h (mcp_ObjectMeta x)),
     prof_Spec = CostProfileSpec_view h (mcp_Spec x),
     prof_Status = CostProfileStatus_view h (mcp_Status x)\<rparr>)"

definition CostProfile_refs :: "heap \<Rightarrow> CostProfileMem \<Rightarrow> nat set" where
  "CostProfile_refs h x = ObjectMeta_refs h (mcp_ObjectMeta x) \<union> CostProfileSpec_refs h (mcp_Spec x)
     \<union> CostProfileStatus_refs h (mcp_Status x)"

definition CostProfile_ok :: "heap \<Rightarrow> CostProfileMem \<Rightarrow> bool" where
  "CostProfile_ok h x \<longleftrightarrow> ObjectMeta_ok h (mcp_ObjectMeta x) \<and> CostProfileSpec_ok h (mcp_Spec x)
     \<and> CostProfileStatus_ok h (mcp_Status x)"

lemmas CostProfile_mem = CostProfile_DeepCopyInto_def CostProfile_view_def CostProfile_refs_def CostProfile_ok_def

sublocale copy_library \<subseteq> profile: deep_copier "CostProfile_DeepCopyInto L" CostProfile_view CostProfile_refs CostProfile_ok
  by (rule copier_struct [OF copier_both [OF objectMeta
    copier_both [OF profileSpec.deep_copier_axioms
    profileStatus.deep_copier_axioms]],
    where get = "\<lambda>x. (mcp_ObjectMeta x, mcp_Spec x, mcp_Status x)"
      and set_fields = "\<lambda>(t1, t2, t3) x. x\<lparr>mcp_ObjectMeta := t1, mcp_Spec := t2, mcp_Status := t3\<rparr>"])
    (auto simp: CostProfile_mem struct_simps)

definition CostProfileList_view :: "heap \<Rightarrow> CostProfileListMem \<Rightarrow> TypeMeta \<times> ListMeta \<times> (TypeMeta \<times> MetaRest \<times> CostProfile) list" where
  "CostProfileList_view h x = (mcl_TypeMeta x, ListMeta_view h (mcl_ListMeta x), slice_view of_CostProfiles CostProfile_view h (mcl_Items x))"

definition CostProfileList_refs :: "heap \<Rightarrow> CostProfileListMem \<Rightarrow> nat set" where
  "CostProfileList_refs h x = ListMeta_refs h (mcl_ListMeta x) \<union> slice_refs of_CostProfiles CostProfile_refs h (mcl_Items x)"

definition CostProfileList_ok :: "heap \<Rightarrow> CostProfileListMem \<Rightarrow> bool" where
  "CostProfileList_ok h x \<longleftrightarrow> ListMeta_ok h (mcl_ListMeta x) \<and> slice_ok of_CostProfiles CostProfile_ok h (mcl_Items x)"

lemmas CostProfileList_mem = CostProfileList_DeepCopyInto_def CostProfileList_view_def CostProfileList_refs_def CostProfileList_ok_def

sublocale copy_library \<subseteq> profileList: deep_copier "CostProfileList_DeepCopyInto L" CostProfileList_view CostProfileList_refs CostProfileList_ok
  by (rule copier_struct [OF copier_both [OF listMeta
    copier_slice [OF profile.deep_copier_axioms, of of_CostProfiles CostProfilesCell, OF cell.sel(14)]],
    where get = "\<lambda>x. (mcl_ListMeta x, mcl_Items x)"
      and set_fields = "\<lambda>(t1, t2) x. x\<lparr>mcl_ListMeta := t1, mcl_Items := t2\<rparr>"])
    (auto simp: CostProfileList_mem struct_simps)

definition UsageReportSpec_view :: "heap \<Rightarrow> UsageReportSpecMem \<Rightarrow> UsageReportSpec" where
  "UsageReportSpec_view h x =
     \<lparr>urs_CostProfileRef = mus_CostProfileRef x, urs_Schedule = mus_Schedule x,
     urs_Namespaces = slice_view of_Strings (\<lambda>h x. x) h (mus_Namespaces x)\<rparr>"

definition UsageReportSpec_refs :: "heap \<Rightarrow> UsageReportSpecMem \<Rightarrow> nat set" where
  "UsageReportSpec_refs h x = slice_refs of_Strings (\<lambda>h x. {}) h (mus_Namespaces x)"

definition UsageReportSpec_ok :: "heap \<Rightarrow> UsageReportSpecMem \<Rightarrow> bool" where
  "UsageReportSpec_ok h x \<longleftrightarrow> slice_ok of_Strings (\<lambda>h x. True) h (mus_Namespaces x)"

lemmas UsageReportSpec_mem = UsageReportSpec_DeepCopyInto_def UsageReportSpec_view_def UsageReportSpec_refs_def UsageReportSpec_ok_def

interpretation reportSpec: deep_copier UsageReportSpec_DeepCopyInto UsageReportSpec_view UsageReportSpec_refs UsageReportSpec_ok
  by (rule copier_struct [OF copier_slice [OF copier_same, of of_Strings StringsCell, OF cell.sel(6)],
    where get = "mus_Namespaces"
      and set_fields = "\<lambda>t1 x. x\<lparr>mus_Namespaces := t1\<rparr>"])
    (auto simp: UsageReportSpec_mem struct_simps)

definition UsageReportStatus_view :: "heap \<Rightarrow> UsageReportStatusMem \<Rightarrow> UsageReportStatus" where
  "UsageReportStatus_view h x =
     \<lparr>ut_Period = mut_Period x, ut_PeriodStart = ptr_view of_Time (\<lambda>h x. x) h (mut_PeriodStart x),
     ut_PeriodEnd = ptr_view of_Time (\<lambda>h x. x) h (mut_PeriodEnd x),
     ut_InputTokens = mut_InputTokens x, ut_OutputTokens = mut_OutputTokens x,
     ut_EstimatedCostUSD = mut_EstimatedCostUSD x, ut_CostPerMillionTokens = mut_CostPerMillionTokens x,
     ut_MarginalCostPerMillionTokens = mut_MarginalCostPerMillionTokens x,
     ut_ActiveHoursCostPerMillionTokens = mut_ActiveHoursCostPerMillionTokens x,
     ut_ActiveEnergyKWh = mut_ActiveEnergyKWh x, ut_GPUEfficiencyRatio = mut_GPUEfficiencyRatio x,
     ut_UtilizationPercent = mut_UtilizationPercent x, ut_ActiveHoursInPeriod = mut_ActiveHoursInPeriod x,
     ut_TotalHoursInPeriod = mut_TotalHoursInPeriod x,
     ut_ByModel = slice_view of_ModelRows (\<lambda>h x. x) h (mut_ByModel x),
     ut_ByNamespace = slice_view of_NamespaceRows (\<lambda>h x. x) h (mut_ByNamespace x),
     ut_CloudComparison = slice_view of_CloudRows (\<lambda>h x. x) h (mut_CloudComparison x),
     ut_BreakEvenAnalysis = slice_view of_BreakEvenRows (\<lambda>h x. x) h (mut_BreakEvenAnalysis x),
     ut_LastUpdated = ptr_view of_Time (\<lambda>h x. x) h (mut_LastUpdated x),
     ut_Conditions = slice_view of_Conditions (\<lambda>h x. x) h (mut_Conditions x)\<rparr>"

definition UsageReportStatus_refs :: "heap \<Rightarrow> UsageReportStatusMem \<Rightarrow> nat set" where
  "UsageReportStatus_refs h x = ptr_refs of_Time (\<lambda>h x. {}) h (mut_PeriodStart x)
     \<union> ptr_refs of_Time (\<lambda>h x. {}) h (mut_PeriodEnd x)
     \<union> slice_refs of_ModelRows (\<lambda>h x. {}) h (mut_ByModel x)
     \<union> slice_refs of_NamespaceRows (\<lambda>h x. {}) h (mut_ByNamespace x)
     \<union> slice_refs of_CloudRows (\<lambda>h x. {}) h (mut_CloudComparison x)
     \<union> slice_refs of_BreakEvenRows (\<lambda>h x. {}) h (mut_BreakEvenAnalysis x)
     \<union> ptr_refs of_Time (\<lambda>h x. {}) h (mut_LastUpdated x)
     \<union> slice_refs of_Conditions (\<lambda>h x. {}) h (mut_Conditions x)"

definition UsageReportStatus_ok :: "heap \<Rightarrow> UsageReportStatusMem \<Rightarrow> bool" where
  "UsageReportStatus_ok h x \<longleftrightarrow> ptr_ok of_Time (\<lambda>h x. True) h (mut_PeriodStart x)
     \<and> ptr_ok of_Time (\<lambda>h x. True) h (mut_PeriodEnd x)
     \<and> slice_ok of_ModelRows (\<lambda>h x. True) h (mut_ByModel x)
     \<and> slice_ok of_NamespaceRows (\<lambda>h x. True) h (mut_ByNamespace x)
     \<and> slice_ok of_CloudRows (\<lambda>h x. True) h (mut_CloudComparison x)
     \<and> slice_ok of_BreakEvenRows (\<lambda>h x. True) h (mut_BreakEvenAnalysis x)
     \<and> ptr_ok of_Time (\<lambda>h x. True) h (mut_LastUpdated x)
     \<and> slice_ok of_Conditions (\<lambda>h x. True) h (mut_Conditions x)"

lemmas UsageReportStatus_mem = UsageReportStatus_DeepCopyInto_def UsageReportStatus_view_def UsageReportStatus_refs_def UsageReportStatus_ok_def

sublocale copy_library \<subseteq> reportStatus: deep_copier "UsageReportStatus_DeepCopyInto L" UsageReportStatus_view UsageReportStatus_refs UsageReportStatus_ok
  by (rule copier_struct [OF copier_both [OF copier_ptr [OF copier_library [of "lc_Time L", OF time], of of_Time TimeCell, OF cell.sel(4)]
    copier_both [OF copier_ptr [OF copier_library [of "lc_Time L", OF time], of of_Time TimeCell, OF cell.sel(4)]
    copier_both [OF copier_slice [OF copier_same, of of_ModelRows ModelRowsCell, OF cell.sel(9)]
    copier_both [OF copier_slice [OF copier_same, of of_NamespaceRows NamespaceRowsCell, OF cell.sel(10)]
    copier_both [OF copier_slice [OF copier_same, of of_CloudRows CloudRowsCell, OF cell.sel(11)]
    copier_both [OF copier_slice [OF copier_same, of of_BreakEvenRows BreakEvenRowsCell, OF cell.sel(12)]
    copier_both [OF copier_ptr [OF copier_library [of "lc_Time L", OF time], of of_Time TimeCell, OF cell.sel(4)]
    copier_slice [OF copier_library [of "lc_Condition L", OF condition], of of_Conditions ConditionsCell, OF cell.sel(8)]]]]]]]],
    where get = "\<lambda>x. (mut_PeriodStart x, mut_PeriodEnd x, mut_ByModel x, mut_ByNamespace x, mut_CloudComparison x, mut_BreakEvenAnalysis x, mut_LastUpdated x, mut_Conditions x)"
      and set_fields = "\<lambda>(t1, t2, t3, t4, t5, t6, t7, t8) x. x\<lparr>mut_PeriodStart := t1, mut_PeriodEnd := t2, mut_ByModel := t3, mut_ByNamespace := t4, mut_CloudComparison := t5, mut_BreakEvenAnalysis := t6, mut_LastUpdated := t7, mut_Conditions := t8\<rparr>"])
    (auto simp: UsageReportStatus_mem struct_simps)

definition UsageReport_view :: "heap \<Rightarrow> UsageReportMem \<Rightarrow> TypeMeta \<times> MetaRest \<times> UsageReport" where
  "UsageReport_view h x = (mur_TypeMeta x, snd (ObjectMeta_view h (mur_ObjectMeta x)),
     \<lparr>ur_Meta = fst (ObjectMeta_view h (mur_ObjectMeta x)), ur_Spec = UsageReportSpec_view h (mur_Spec x),
     ur_Status = UsageReportStatus_view h (mur_Status x)\<rparr>)"

definition UsageReport_refs :: "heap \<Rightarrow> UsageReportMem \<Rightarrow> nat set" where
  "UsageReport_refs h x = ObjectMeta_refs h (mur_ObjectMeta x) \<union> UsageReportSpec_refs h (mur_Spec x)
     \<union> UsageReportStatus_refs h (mur_Status x)"

definition UsageReport_ok :: "heap \<Rightarrow> UsageReportMem \<Rightarrow> bool" where
  "UsageReport_ok h x \<longleftrightarrow> ObjectMeta_ok h (mur_ObjectMeta x) \<and> UsageReportSpec_ok h (mur_Spec x)
     \<and> UsageReportStatus_ok h (mur_Status x)"

lemmas UsageReport_mem = UsageReport_DeepCopyInto_def UsageReport_view_def UsageReport_refs_def UsageReport_ok_def

sublocale copy_library \<subseteq> report: deep_copier "UsageReport_DeepCopyInto L" UsageReport_view UsageReport_refs UsageReport_ok
  by (rule copier_struct [OF copier_both [OF objectMeta
    copier_both [OF reportSpec.deep_copier_axioms
    reportStatus.deep_copier_axioms]],
    where get = "\<lambda>x. (mur_ObjectMeta x, mur_Spec x, mur_Status x)"
      and set_fields = "\<lambda>(t1, t2, t3) x. x\<lparr>mur_ObjectMeta := t1, mur_Spec := t2, mur_Status := t3\<rparr>"])
    (auto simp: UsageReport_mem struct_simps)

definition UsageReportList_view :: "heap \<Rightarrow> UsageReportListMem \<Rightarrow> TypeMeta \<times> ListMeta \<times> (TypeMeta \<times> MetaRest \<times> UsageReport) list" where
  "UsageReportList_view h x = (mul_TypeMeta x, ListMeta_view h (mul_ListMeta x), slice_view of_UsageReports UsageReport_view h (mul_Items x))"

definition UsageReportList_refs :: "heap \<Rightarrow> UsageReportListMem \<Rightarrow> nat set" where
  "UsageReportList_refs h x = ListMeta_refs h (mul_ListMeta x) \<union> slice_refs of_UsageReports UsageReport_refs h (mul_Items x)"

definition UsageReportList_ok :: "heap \<Rightarrow> UsageReportListMem \<Rightarrow> bool" where
  "UsageReportList_ok h x \<longleftrightarrow> ListMeta_ok h (mul_ListMeta x) \<and> slice_ok of_UsageReports UsageReport_ok h (mul_Items x)"

lemmas UsageReportList_mem = UsageReportList_DeepCopyInto_def UsageReportList_view_def UsageReportList_refs_def UsageReportList_ok_def

sublocale copy_library \<subseteq> reportList: deep_copier "UsageReportList_DeepCopyInto L" UsageReportList_view UsageReportList_refs UsageReportList_ok
  by (rule copier_struct [OF copier_both [OF listMeta
    copier_slice [OF report.deep_copier_axioms, of of_UsageReports UsageReportsCell, OF cell.sel(15)]],
    where get = "\<lambda>x. (mul_ListMeta x, mul_Items x)"
      and set_fields = "\<lambda>(t1, t2) x. x\<lparr>mul_ListMeta := t1, mul_Items := t2\<rparr>"])
    (auto simp: UsageReportList_mem struct_simps)

definition TokenBudgetSpec_view :: "heap \<Rightarrow> TokenBudgetSpecMem \<Rightarrow> TokenBudgetSpec" where
  "TokenBudgetSpec_view h x =
     \<lparr>tbs_Scope = mbs_Scope x, tbs_MonthlyLimitUSD = mbs_MonthlyLimitUSD x,
     tbs_AlertThresholds = slice_view of_Thresholds (\<lambda>h x. x) h (mbs_AlertThresholds x)\<rparr>"

definition TokenBudgetSpec_refs :: "heap \<Rightarrow> TokenBudgetSpecMem \<Rightarrow> nat set" where
  "TokenBudgetSpec_refs h x = slice_refs of_Thresholds (\<lambda>h x. {}) h (mbs_AlertThresholds x)"

definition TokenBudgetSpec_ok :: "heap \<Rightarrow> TokenBudgetSpecMem \<Rightarrow> bool" where
  "TokenBudgetSpec_ok h x \<longleftrightarrow> slice_ok of_Thresholds (\<lambda>h x. True) h (mbs_AlertThresholds x)"

lemmas TokenBudgetSpec_mem = TokenBudgetSpec_DeepCopyInto_def TokenBudgetSpec_view_def TokenBudgetSpec_refs_def TokenBudgetSpec_ok_def

interpretation budgetSpec: deep_copier TokenBudgetSpec_DeepCopyInto TokenBudgetSpec_view TokenBudgetSpec_refs TokenBudgetSpec_ok
  by (rule copier_struct [OF copier_slice [OF copier_same, of of_Thresholds ThresholdsCell, OF cell.sel(13)],
    where get = "mbs_AlertThresholds"
      and set_fields = "\<lambda>t1 x. x\<lparr>mbs_AlertThresholds := t1\<rparr>"])
    (auto simp: TokenBudgetSpec_mem struct_simps)

definition TokenBudgetStatus_view :: "heap \<Rightarrow> TokenBudgetStatusMem \<Rightarrow> TokenBudgetStatus" where
  "TokenBudgetStatus_view h x =
     \<lparr>tbt_CurrentSpendUSD = mbt_CurrentSpendUSD x, tbt_UtilizationPercent = mbt_UtilizationPercent x,
     tbt_PeriodStart = ptr_view of_Time (\<lambda>h x. x) h (mbt_PeriodStart x),
     tbt_PeriodEnd = ptr_view of_Time (\<lambda>h x. x) h (mbt_PeriodEnd x),
     tbt_LastUpdated = ptr_view of_Time (\<lambda>h x. x) h (mbt_LastUpdated x),
     tbt_Conditions = slice_view of_Conditions (\<lambda>h x. x) h (mbt_Conditions x)\<rparr>"

definition TokenBudgetStatus_refs :: "heap \<Rightarrow> TokenBudgetStatusMem \<Rightarrow> nat set" where
  "TokenBudgetStatus_refs h x = ptr_refs of_Time (\<lambda>h x. {}) h (mbt_PeriodStart x)
     \<union> ptr_refs of_Time (\<lambda>h x. {}) h (mbt_PeriodEnd x)
     \<union> ptr_refs of_Time (\<lambda>h x. {}) h (mbt_LastUpdated x)
     \<union> slice_refs of_Conditions (\<lambda>h x. {}) h (mbt_Conditions x)"

definition TokenBudgetStatus_ok :: "heap \<Rightarrow> TokenBudgetStatusMem \<Rightarrow> bool" where
  "TokenBudgetStatus_ok h x \<longleftrightarrow> ptr_ok of_Time (\<lambda>h x. True) h (mbt_PeriodStart x)
     \<and> ptr_ok of_Time (\<lambda>h x. True) h (mbt_PeriodEnd x)
     \<and> ptr_ok of_Time (\<lambda>h x. True) h (mbt_LastUpdated x)
     \<and> slice_ok of_Conditions (\<lambda>h x. True) h (mbt_Conditions x)"

lemmas TokenBudgetStatus_mem = TokenBudgetStatus_DeepCopyInto_def TokenBudgetStatus_view_def TokenBudgetStatus_refs_def TokenBudgetStatus_ok_def

sublocale copy_library \<subseteq> budgetStatus: deep_copier "TokenBudgetStatus_DeepCopyInto L" TokenBudgetStatus_view TokenBudgetStatus_refs TokenBudgetStatus_ok
  by (rule copier_struct [OF copier_both [OF copier_ptr [OF copier_library [of "lc_Time L", OF time], of of_Time TimeCell, OF cell.sel(4)]
    copier_both [OF copier_ptr [OF copier_library [of "lc_Time L", OF time], of of_Time TimeCell, OF cell.sel(4)]
    copier_both [OF copier_ptr [OF copier_library [of "lc_Time L", OF time], of of_Time TimeCell, OF cell.sel(4)]
    copier_slice [OF copier_library [of "lc_Condition L", OF condition], of of_Conditions ConditionsCell, OF cell.sel(8)]]]],
    where get = "\<lambda>x. (mbt_PeriodStart x, mbt_PeriodEnd x, mbt_LastUpdated x, mbt_Conditions x)"
      and set_fields = "\<lambda>(t1, t2, t3, t4) x. x\<lparr>mbt_PeriodStart := t1, mbt_PeriodEnd := t2, mbt_LastUpdated := t3, mbt_Conditions := t4\<rparr>"])
    (auto simp: TokenBudgetStatus_mem struct_simps)

definition TokenBudget_view :: "heap \<Rightarrow> TokenBudgetMem \<Rightarrow> TypeMeta \<times> MetaRest \<times> TokenBudget" where
  "TokenBudget_view h x = (mtb_TypeMeta x, snd (ObjectMeta_view h (mtb_ObjectMeta x)),
     \<lparr>tb_Meta = fst (ObjectMeta_view h (mtb_ObjectMeta x)), tb_Spec = TokenBudgetSpec_view h (mtb_Spec x),
     tb_Status = TokenBudgetStatus_view h (mtb_Status x)\<rparr>)"

definition TokenBudget_refs :: "heap \<Rightarrow> TokenBudgetMem \<Rightarrow> nat set" where
  "TokenBudget_refs h x = ObjectMeta_refs h (mtb_ObjectMeta x) \<union> TokenBudgetSpec_refs h (mtb_Spec x)
     \<union> TokenBudgetStatus_refs h (mtb_Status x)"

definition TokenBudget_ok :: "heap \<Rightarrow> TokenBudgetMem \<Rightarrow> bool" where
  "TokenBudget_ok h x \<longleftrightarrow> ObjectMeta_ok h (mtb_ObjectMeta x) \<and> TokenBudgetSpec_ok h (mtb_Spec x)
     \<and> TokenBudgetStatus_ok h (mtb_Status x)"

lemmas TokenBudget_mem = TokenBudget_DeepCopyInto_def TokenBudget_view_def TokenBudget_refs_def TokenBudget_ok_def

sublocale copy_library \<subseteq> budget: deep_copier "TokenBudget_DeepCopyInto L" TokenBudget_view TokenBudget_refs TokenBudget_ok
  by (rule copier_struct [OF copier_both [OF objectMeta
    copier_both [OF budgetSpec.deep_copier_axioms
    budgetStatus.deep_copier_axioms]],
    where get = "\<lambda>x. (mtb_ObjectMeta x, mtb_Spec x, mtb_Status x)"
      and set_fields = "\<lambda>(t1, t2, t3) x. x\<lparr>mtb_ObjectMeta := t1, mtb_Spec := t2, mtb_Status := t3\<rparr>"])
    (auto simp: TokenBudget_mem struct_simps)

definition TokenBudgetList_view :: "heap \<Rightarrow> TokenBudgetListMem \<Rightarrow> TypeMeta \<times> ListMeta \<times> (TypeMeta \<times> MetaRest \<times> TokenBudget) list" where
  "TokenBudgetList_view h x = (mtl_TypeMeta x, ListMeta_view h (mtl_ListMeta x), slice_view of_TokenBudgets TokenBudget_view h (mtl_Items x))"

definition TokenBudgetList_refs :: "heap \<Rightarrow> TokenBudgetListMem \<Rightarrow> nat set" where
  "TokenBudgetList_refs h x = ListMeta_refs h (mtl_ListMeta x) \<union> slice_refs of_TokenBudgets TokenBudget_refs h (mtl_Items x)"

definition TokenBudgetList_ok :: "heap \<Rightarrow> TokenBudgetListMem \<Rightarrow> bool" where
  "TokenBudgetList_ok h x \<longleftrightarrow> ListMeta_ok h (mtl_ListMeta x) \<and> slice_ok of_TokenBudgets TokenBudget_ok h (mtl_Items x)"

lemmas TokenBudgetList_mem = TokenBudgetList_DeepCopyInto_def TokenBudgetList_view_def TokenBudgetList_refs_def TokenBudgetList_ok_def

sublocale copy_library \<subseteq> budgetList: deep_copier "TokenBudgetList_DeepCopyInto L" TokenBudgetList_view TokenBudgetList_refs TokenBudgetList_ok
  by (rule copier_struct [OF copier_both [OF listMeta
    copier_slice [OF budget.deep_copier_axioms, of of_TokenBudgets TokenBudgetsCell, OF cell.sel(16)]],
    where get = "\<lambda>x. (mtl_ListMeta x, mtl_Items x)"
      and set_fields = "\<lambda>(t1, t2) x. x\<lparr>mtl_ListMeta := t1, mtl_Items := t2\<rparr>"])
    (auto simp: TokenBudgetList_mem struct_simps)

subsection \<open>The methods on pointers\<close>

lemma plain_deep_copies:
  "deep_copier CloudTarget_DeepCopy (ptr_view of_CloudTarget (\<lambda>h x. x)) (ptr_refs of_CloudTarget (\<lambda>h x. {})) (ptr_ok of_CloudTarget (\<lambda>h x. True))"
  "deep_copier ModelCostBreakdown_DeepCopy (ptr_view of_ModelCostBreakdown (\<lambda>h x. x)) (ptr_refs of_ModelCostBreakdown (\<lambda>h x. {})) (ptr_ok of_ModelCostBreakdown (\<lambda>h x. True))"
  "deep_copier NamespaceCostBreakdown_DeepCopy (ptr_view of_NamespaceCostBreakdown (\<lambda>h x. x)) (ptr_refs of_NamespaceCostBreakdown (\<lambda>h x. {})) (ptr_ok of_NamespaceCostBreakdown (\<lambda>h x. True))"
  "deep_copier CloudComparisonEntry_DeepCopy (ptr_view of_CloudComparisonEntry (\<lambda>h x. x)) (ptr_refs of_CloudComparisonEntry (\<lambda>h x. {})) (ptr_ok of_CloudComparisonEntry (\<lambda>h x. True))"
  "deep_copier BreakEvenEntry_DeepCopy (ptr_view of_BreakEvenEntry (\<lambda>h x. x)) (ptr_refs of_BreakEvenEntry (\<lambda>h x. {})) (ptr_ok of_BreakEvenEntry (\<lambda>h x. True))"
  "deep_copier TokenBudgetScope_DeepCopy (ptr_view of_TokenBudgetScope (\<lambda>h x. x)) (ptr_refs of_TokenBudgetScope (\<lambda>h x. {})) (ptr_ok of_TokenBudgetScope (\<lambda>h x. True))"
  "deep_copier AlertThreshold_DeepCopy (ptr_view of_AlertThreshold (\<lambda>h x. x)) (ptr_refs of_AlertThreshold (\<lambda>h x. {})) (ptr_ok of_AlertThreshold (\<lambda>h x. True))"
  by (simp_all add: CloudTarget_DeepCopy_def CloudTarget_DeepCopyInto_def
    ModelCostBreakdown_DeepCopy_def ModelCostBreakdown_DeepCopyInto_def
    NamespaceCostBreakdown_DeepCopy_def NamespaceCostBreakdown_DeepCopyInto_def
    CloudComparisonEntry_DeepCopy_def CloudComparisonEntry_DeepCopyInto_def
    BreakEvenEntry_DeepCopy_def BreakEvenEntry_DeepCopyInto_def
    TokenBudgetScope_DeepCopy_def TokenBudgetScope_DeepCopyInto_def
    AlertThreshold_DeepCopy_def AlertThreshold_DeepCopyInto_def
    copier_ptr [OF copier_same])

lemma struct_deep_copies:
  "deep_copier HardwareSpec_DeepCopy (ptr_view of_HardwareSpec HardwareSpec_view) (ptr_refs of_HardwareSpec HardwareSpec_refs) (ptr_ok of_HardwareSpec HardwareSpec_ok)"
  "deep_copier ElectricitySpec_DeepCopy (ptr_view of_ElectricitySpec ElectricitySpec_view) (ptr_refs of_ElectricitySpec ElectricitySpec_refs) (ptr_ok of_ElectricitySpec ElectricitySpec_ok)"
  "deep_copier CloudComparisonSpec_DeepCopy (ptr_view of_CloudComparisonSpec CloudComparisonSpec_view) (ptr_refs of_CloudComparisonSpec CloudComparisonSpec_refs) (ptr_ok of_CloudComparisonSpec CloudComparisonSpec_ok)"
  "deep_copier UsageReportSpec_DeepCopy (ptr_view of_UsageReportSpec UsageReportSpec_view) (ptr_refs of_UsageReportSpec UsageReportSpec_refs) (ptr_ok of_UsageReportSpec UsageReportSpec_ok)"
  "deep_copier TokenBudgetSpec_DeepCopy (ptr_view of_TokenBudgetSpec TokenBudgetSpec_view) (ptr_refs of_TokenBudgetSpec TokenBudgetSpec_refs) (ptr_ok of_TokenBudgetSpec TokenBudgetSpec_ok)"
  by (simp_all add: HardwareSpec_DeepCopy_def ElectricitySpec_DeepCopy_def CloudComparisonSpec_DeepCopy_def UsageReportSpec_DeepCopy_def TokenBudgetSpec_DeepCopy_def
    copier_ptr [OF hardware.deep_copier_axioms]
    copier_ptr [OF electricity.deep_copier_axioms]
    copier_ptr [OF cloudSpec.deep_copier_axioms]
    copier_ptr [OF reportSpec.deep_copier_axioms]
    copier_ptr [OF budgetSpec.deep_copier_axioms])

context copy_library
begin

lemma object_deep_copies:
  "deep_copier (CostProfileSpec_DeepCopy L) (ptr_view of_CostProfileSpec CostProfileSpec_view) (ptr_refs of_CostProfileSpec CostProfileSpec_refs) (ptr_ok of_CostProfileSpec CostProfileSpec_ok)"
  "deep_copier (CostProfileStatus_DeepCopy L) (ptr_view of_CostProfileStatus CostProfileStatus_view) (ptr_refs of_CostProfileStatus CostProfileStatus_refs) (ptr_ok of_CostProfileStatus CostProfileStatus_ok)"
  "deep_copier (CostProfile_DeepCopy L) (ptr_view of_CostProfile CostProfile_view) (ptr_refs of_CostProfile CostProfile_refs) (ptr_ok of_CostProfile CostProfile_ok)"
  "deep_copier (CostProfileList_DeepCopy L) (ptr_view of_CostProfileList CostProfileList_view) (ptr_refs of_CostProfileList CostProfileList_refs) (ptr_ok of_CostProfileList CostProfileList_ok)"
  "deep_copier (UsageReportStatus_DeepCopy L) (ptr_view of_UsageReportStatus UsageReportStatus_view) (ptr_refs of_UsageReportStatus UsageReportStatus_refs) (ptr_ok of_UsageReportStatus UsageReportStatus_ok)"
  "deep_copier (UsageReport_DeepCopy L) (ptr_view of_UsageReport UsageReport_view) (ptr_refs of_UsageReport UsageReport_refs) (ptr_ok of_UsageReport UsageReport_ok)"
  "deep_copier (UsageReportList_DeepCopy L) (ptr_view of_UsageReportList UsageReportList_view) (ptr_refs of_UsageReportList UsageReportList_refs) (ptr_ok of_UsageReportList UsageReportList_ok)"
  "deep_copier (TokenBudgetStatus_DeepCopy L) (ptr_view of_TokenBudgetStatus TokenBudgetStatus_view) (ptr_refs of_TokenBudgetStatus TokenBudgetStatus_refs) (ptr_ok of_TokenBudgetStatus TokenBudgetStatus_ok)"
  "deep_copier (TokenBudget_DeepCopy L) (ptr_view of_TokenBudget TokenBudget_view) (ptr_refs of_TokenBudget TokenBudget_refs) (ptr_ok of_TokenBudget TokenBudget_ok)"
  "deep_copier (TokenBudgetList_DeepCopy L) (ptr_view of_TokenBudgetList TokenBudgetList_view) (ptr_refs of_TokenBudgetList TokenBudgetList_refs) (ptr_ok of_TokenBudgetList TokenBudgetList_ok)"
  by (simp_all add: CostProfileSpec_DeepCopy_def CostProfileStatus_DeepCopy_def CostProfile_DeepCopy_def CostProfileList_DeepCopy_def UsageReportStatus_DeepCopy_def UsageReport_DeepCopy_def UsageReportList_DeepCopy_def TokenBudgetStatus_DeepCopy_def TokenBudget_DeepCopy_def TokenBudgetList_DeepCopy_def
    copier_ptr [OF profileSpec.deep_copier_axioms]
    copier_ptr [OF profileStatus.deep_copier_axioms]
    copier_ptr [OF profile.deep_copier_axioms]
    copier_ptr [OF profileList.deep_copier_axioms]
    copier_ptr [OF reportStatus.deep_copier_axioms]
    copier_ptr [OF report.deep_copier_axioms]
    copier_ptr [OF reportList.deep_copier_axioms]
    copier_ptr [OF budgetStatus.deep_copier_axioms]
    copier_ptr [OF budget.deep_copier_axioms]
    copier_ptr [OF budgetList.deep_copier_axioms])

end

subsection \<open>Objects behind the interface\<close>

datatype stored_object =
    CostProfileValue "(TypeMeta \<times> MetaRest \<times> CostProfile) option"
  | CostProfileListValue "(TypeMeta \<times> ListMeta \<times> (TypeMeta \<times> MetaRest \<times> CostProfile) list) option"
  | UsageReportValue "(TypeMeta \<times> MetaRest \<times> UsageReport) option"
  | UsageReportListValue "(TypeMeta \<times> ListMeta \<times> (TypeMeta \<times> MetaRest \<times> UsageReport) list) option"
  | TokenBudgetValue "(TypeMeta \<times> MetaRest \<times> TokenBudget) option"
  | TokenBudgetListValue "(TypeMeta \<times> ListMeta \<times> (TypeMeta \<times> MetaRest \<times> TokenBudget) list) option"

fun object_value :: "heap \<Rightarrow> runtime_Object \<Rightarrow> stored_object" where
  "object_value h (CostProfilePointer r) = CostProfileValue (ptr_view of_CostProfile CostProfile_view h r)"
| "object_value h (CostProfileListPointer r) = CostProfileListValue (ptr_view of_CostProfileList CostProfileList_view h r)"
| "object_value h (UsageReportPointer r) = UsageReportValue (ptr_view of_UsageReport UsageReport_view h r)"
| "object_value h (UsageReportListPointer r) = UsageReportListValue (ptr_view of_UsageReportList UsageReportList_view h r)"
| "object_value h (TokenBudgetPointer r) = TokenBudgetValue (ptr_view of_TokenBudget TokenBudget_view h r)"
| "object_value h (TokenBudgetListPointer r) = TokenBudgetListValue (ptr_view of_TokenBudgetList TokenBudgetList_view h r)"

fun object_refs :: "heap \<Rightarrow> runtime_Object \<Rightarrow> nat set" where
  "object_refs h (CostProfilePointer r) = ptr_refs of_CostProfile CostProfile_refs h r"
| "object_refs h (CostProfileListPointer r) = ptr_refs of_CostProfileList CostProfileList_refs h r"
| "object_refs h (UsageReportPointer r) = ptr_refs of_UsageReport UsageReport_refs h r"
| "object_refs h (UsageReportListPointer r) = ptr_refs of_UsageReportList UsageReportList_refs h r"
| "object_refs h (TokenBudgetPointer r) = ptr_refs of_TokenBudget TokenBudget_refs h r"
| "object_refs h (TokenBudgetListPointer r) = ptr_refs of_TokenBudgetList TokenBudgetList_refs h r"

fun object_ok :: "heap \<Rightarrow> runtime_Object \<Rightarrow> bool" where
  "object_ok h (CostProfilePointer r) = ptr_ok of_CostProfile CostProfile_ok h r"
| "object_ok h (CostProfileListPointer r) = ptr_ok of_CostProfileList CostProfileList_ok h r"
| "object_ok h (UsageReportPointer r) = ptr_ok of_UsageReport UsageReport_ok h r"
| "object_ok h (UsageReportListPointer r) = ptr_ok of_UsageReportList UsageReportList_ok h r"
| "object_ok h (TokenBudgetPointer r) = ptr_ok of_TokenBudget TokenBudget_ok h r"
| "object_ok h (TokenBudgetListPointer r) = ptr_ok of_TokenBudgetList TokenBudgetList_ok h r"

fun nil_pointer :: "runtime_Object \<Rightarrow> bool" where
  "nil_pointer (CostProfilePointer r) = (r = None)"
| "nil_pointer (CostProfileListPointer r) = (r = None)"
| "nil_pointer (UsageReportPointer r) = (r = None)"
| "nil_pointer (UsageReportListPointer r) = (r = None)"
| "nil_pointer (TokenBudgetPointer r) = (r = None)"
| "nil_pointer (TokenBudgetListPointer r) = (r = None)"

lemmas DeepCopyObject_defs =
  CostProfile_DeepCopyObject_def CostProfileList_DeepCopyObject_def UsageReport_DeepCopyObject_def UsageReportList_DeepCopyObject_def TokenBudget_DeepCopyObject_def TokenBudgetList_DeepCopyObject_def

text \<open>One kind at a time: the method on its pointer keeps the contract, and the interface value carries its kind.\<close>

lemma object_isolated:
  assumes c: "deep_copier copy view refs ok" and ok: "ok h r" and nil: "fst (copy r h) = None \<longleftrightarrow> r = None"
    and obj: "(c, h') = (let (p, h) = copy r h in if p \<noteq> None then (Some (kind p), h) else (None, h))"
    and val: "\<And>h p. object_value h (kind p) = mk (view h p)" and refs: "\<And>h p. object_refs h (kind p) = refs h p"
    and oks: "\<And>h p. object_ok h (kind p) = ok h p"
  shows "case c of
      None \<Rightarrow> r = None
    | Some y \<Rightarrow> r \<noteq> None \<and> object_ok h' y \<and> object_value h' y = object_value h (kind r)
        \<and> object_value h' (kind r) = object_value h (kind r) \<and> object_refs h' (kind r) = object_refs h (kind r)
        \<and> object_refs h (kind r) \<inter> object_refs h' y = {}
        \<and> (\<forall>ws. fst ` set ws \<subseteq> object_refs h' y \<longrightarrow> object_value (put_cells ws h') (kind r) = object_value h (kind r))
        \<and> (\<forall>ws. fst ` set ws \<subseteq> object_refs h (kind r) \<longrightarrow> object_value (put_cells ws h') y = object_value h (kind r))"
proof -
  obtain p h1 where p: "copy r h = (p, h1)" by (cases "copy r h")
  note iso = deep_copier.isolated [OF c ok p]
  show ?thesis
  proof (cases "p = None")
    case False
    then have "c = Some (kind p)" "h1 = h'" "r \<noteq> None" using obj nil by (auto simp: p)
    moreover have "fst ` set ws \<inter> refs h r = {}" if "fst ` set ws \<subseteq> refs h1 p" for ws :: "(nat \<times> cell) list"
      using that iso(5) by blast
    moreover have "fst ` set ws \<inter> refs h1 p = {}" if "fst ` set ws \<subseteq> refs h r" for ws :: "(nat \<times> cell) list"
      using that iso(5) by blast
    ultimately show ?thesis using iso by (simp add: val refs oks)
  qed (use obj nil p in auto)
qed

text \<open>C14 A deep copy of an object (\<open>DeepCopyObject\<close>, which the cache of the manager calls before it hands an object to a reconcile)
  is nil exactly when the object is; otherwise it is an object of the same kind and the same value, in cells of its own: no
  cell is reachable from both, so whatever a holder of the copy writes leaves the original as it was, and whatever is written
  to the original leaves the copy.\<close>

theorem deep_copy_isolated:
  assumes "copy_library L" and "object_ok h x" and "DeepCopyObject L x h = (c, h')"
  shows "case c of
      None \<Rightarrow> nil_pointer x
    | Some y \<Rightarrow> \<not> nil_pointer x \<and> object_ok h' y \<and> object_value h' y = object_value h x
        \<and> object_value h' x = object_value h x \<and> object_refs h' x = object_refs h x
        \<and> object_refs h x \<inter> object_refs h' y = {}
        \<and> (\<forall>ws. fst ` set ws \<subseteq> object_refs h' y \<longrightarrow> object_value (put_cells ws h') x = object_value h x)
        \<and> (\<forall>ws. fst ` set ws \<subseteq> object_refs h x \<longrightarrow> object_value (put_cells ws h') y = object_value h x)"

proof (cases x)
  case (CostProfilePointer r)
  show ?thesis unfolding CostProfilePointer nil_pointer.simps
    by (rule object_isolated [where copy = "CostProfile_DeepCopy L" and kind = CostProfilePointer and mk = CostProfileValue, OF copy_library.object_deep_copies(3) [OF assms(1)]])
      (use assms(2,3) in \<open>simp_all add: CostProfilePointer CostProfile_DeepCopyObject_def CostProfile_DeepCopy_def copy_ptr_nil\<close>)
next
  case (CostProfileListPointer r)
  show ?thesis unfolding CostProfileListPointer nil_pointer.simps
    by (rule object_isolated [where copy = "CostProfileList_DeepCopy L" and kind = CostProfileListPointer and mk = CostProfileListValue, OF copy_library.object_deep_copies(4) [OF assms(1)]])
      (use assms(2,3) in \<open>simp_all add: CostProfileListPointer CostProfileList_DeepCopyObject_def CostProfileList_DeepCopy_def copy_ptr_nil\<close>)
next
  case (UsageReportPointer r)
  show ?thesis unfolding UsageReportPointer nil_pointer.simps
    by (rule object_isolated [where copy = "UsageReport_DeepCopy L" and kind = UsageReportPointer and mk = UsageReportValue, OF copy_library.object_deep_copies(6) [OF assms(1)]])
      (use assms(2,3) in \<open>simp_all add: UsageReportPointer UsageReport_DeepCopyObject_def UsageReport_DeepCopy_def copy_ptr_nil\<close>)
next
  case (UsageReportListPointer r)
  show ?thesis unfolding UsageReportListPointer nil_pointer.simps
    by (rule object_isolated [where copy = "UsageReportList_DeepCopy L" and kind = UsageReportListPointer and mk = UsageReportListValue, OF copy_library.object_deep_copies(7) [OF assms(1)]])
      (use assms(2,3) in \<open>simp_all add: UsageReportListPointer UsageReportList_DeepCopyObject_def UsageReportList_DeepCopy_def copy_ptr_nil\<close>)
next
  case (TokenBudgetPointer r)
  show ?thesis unfolding TokenBudgetPointer nil_pointer.simps
    by (rule object_isolated [where copy = "TokenBudget_DeepCopy L" and kind = TokenBudgetPointer and mk = TokenBudgetValue, OF copy_library.object_deep_copies(9) [OF assms(1)]])
      (use assms(2,3) in \<open>simp_all add: TokenBudgetPointer TokenBudget_DeepCopyObject_def TokenBudget_DeepCopy_def copy_ptr_nil\<close>)
next
  case (TokenBudgetListPointer r)
  show ?thesis unfolding TokenBudgetListPointer nil_pointer.simps
    by (rule object_isolated [where copy = "TokenBudgetList_DeepCopy L" and kind = TokenBudgetListPointer and mk = TokenBudgetListValue, OF copy_library.object_deep_copies(10) [OF assms(1)]])
      (use assms(2,3) in \<open>simp_all add: TokenBudgetListPointer TokenBudgetList_DeepCopyObject_def TokenBudgetList_DeepCopy_def copy_ptr_nil\<close>)
qed

text \<open>A profile with labels, a power limit, a node selector and the second of two conditions of an array.\<close>

definition demo_condition :: "gostring \<Rightarrow> Condition" where
  "demo_condition t = \<lparr>c_Type = t, c_Status = ConditionTrue, c_Reason = ''Demo'', c_Message = [], c_LastTransitionTime = 0\<rparr>"

definition demo_profile :: CostProfileMem where
  "demo_profile = \<lparr>mcp_TypeMeta = \<lparr>tm_Kind = ''CostProfile'', tm_APIVersion = ''finops.infercost.ai/v1alpha1''\<rparr>,
     mcp_ObjectMeta = \<lparr>mom_Name = ''gpu'', mom_Namespace = ''ml'', mom_CreationTimestamp = 0, mom_Labels = Some 4, mom_Annotations = None,
       mom_Finalizers = None, mom_DeletionTimestamp = None\<rparr>,
     mcp_Spec = \<lparr>mcs_Hardware = \<lparr>mhs_GPUModel = ''H100'', mhs_GPUCount = 2, mhs_PurchasePriceUSD = lit 100, mhs_AmortizationYears = 3,
         mhs_MaintenancePercentPerYear = 0, mhs_TDPWatts = Some 1\<rparr>,
       mcs_Electricity = \<lparr>mes_RatePerKWh = lit 1, mes_PUEFactor = lit 1, mes_IdleWattsThreshold = None\<rparr>,
       mcs_NodeSelector = Some 2, mcs_NamespaceSelector = None, mcs_CloudComparison = None\<rparr>,
     mcp_Status = \<lparr>mct_HourlyCostUSD = 0, mct_AmortizationRatePerHour = 0, mct_ElectricityCostPerHour = 0,
       mct_CurrentPowerDrawWatts = 0, mct_LastUpdated = None, mct_Conditions = Some \<lparr>sl_array = 3, sl_off = 1, sl_len = 1\<rparr>\<rparr>\<rparr>"

definition demo_heap :: heap where
  "demo_heap = \<lparr>cells = (\<lambda>_. Fresh)(0 := CostProfileCell demo_profile, 1 := Int32Cell 350,
     2 := StringMapCell [(''zone'', ''a''), (''gpu'', ''h100'')], 3 := ConditionsCell [demo_condition ''Ready'', demo_condition ''Powered''],
     4 := StringMapCell [(''team'', ''ml'')]), lim = 5\<rparr>"

lemmas demo_heap_simps = demo_heap_def demo_profile_def demo_condition_def CostProfile_ok_def CostProfileSpec_ok_def CostProfileStatus_ok_def
  HardwareSpec_ok_def ElectricitySpec_ok_def ptr_ok_def slice_ok_def map_ok_def elems_ok_def gm_wf_def
  CostProfile_refs_def CostProfileSpec_refs_def CostProfileStatus_refs_def HardwareSpec_refs_def ElectricitySpec_refs_def ptr_refs_def
  slice_refs_def map_refs_def elems_refs_def ObjectMeta_ok_def ObjectMeta_refs_def

lemma demo_object_ok: "object_ok demo_heap (CostProfilePointer (Some 0))"
  by (simp add: demo_heap_simps)

theorem deep_copy_isolated_witness:
  "\<exists>y h'. DeepCopyObject std_copies (CostProfilePointer (Some 0)) demo_heap = (Some y, h')
     \<and> object_refs h' y \<inter> {0, 1, 2, 3, 4} = {}
     \<and> object_value (put_cells [(1, Int32Cell 0), (2, Fresh), (3, Fresh), (4, Fresh)] h') y = object_value demo_heap (CostProfilePointer (Some 0))"
proof -
  let ?x = "CostProfilePointer (Some 0)"
  obtain c h' where call: "DeepCopyObject std_copies ?x demo_heap = (c, h')"
    by (cases "DeepCopyObject std_copies ?x demo_heap")
  note facts = deep_copy_isolated [OF std_copies.copy_library_axioms demo_object_ok call]
  obtain y where y: "c = Some y" using facts by (cases c) simp_all
  have refs: "object_refs demo_heap ?x = {0, 1, 2, 3, 4}" by (auto simp: demo_heap_simps)
  have "fst ` set [(1, Int32Cell 0), (2, Fresh), (3, Fresh), (4, Fresh)] \<subseteq> object_refs demo_heap ?x" unfolding refs by simp
  then show ?thesis using facts call refs by (fastforce simp: y)
qed

end
