(* ===== verification/Spec2Isabelle.thy ===== *)
theory Spec2Isabelle
  imports Manager GaugeFacts CliRoot Requeue StoreHeap AlertFacts DeepCopyFacts
begin

text \<open>
  InferCost attributes the cost of inference on one's own hardware to models and namespaces.  A Kubernetes
  operator runs three controllers over one process state: a CostProfile is turned into an hourly cost (amortised
  purchase price plus metered electricity), a UsageReport shares the cost of a period out to the models and
  namespaces that produced the tokens and compares it with cloud list prices, a TokenBudget watches the spend of a
  namespace.  Their results go to the status of the objects, to Prometheus gauges and to an in-memory store that a
  REST API serves; an export command writes the reports as FOCUS rows.

  \<^bold>\<open>How the parts interact.\<close>  A cost reconcile (\<open>CostProfileCtl\<close>) reads the power of the hardware, scrapes the pods,
  sets the gauges, appends a power sample to the sampler, writes the status and publishes the cost and the model rows
  to the API store.  A report reconcile (\<open>UsageReportCtl\<close>) reads the status the cost reconcile wrote and the sampler's
  window, scrapes the pods, writes the report status and publishes the namespace costs and the break-even rows.  A budget
  reconcile (\<open>TokenBudgetCtl\<close>) reads the namespace costs the last report published and publishes the budget rows.
  \<open>Process\<close> composes the three over one state and reads the served answers off it.

  \<^bold>\<open>Theories and the code they translate.\<close>  Paths are relative to \<open>src/\<close>; a definition keeps the Go name, a clash is
  resolved by a prefix of its component.
  \<^item> \<open>Prelude\<close>: fact collections, Go strings as byte lists, decimal integers, Go maps as association lists in
    iteration order, sorting as the canonical form of a multiset.
  \<^item> \<open>Rounding\<close>, \<open>GoFloat\<close>, \<open>FloatFacts\<close>: IEEE binary64.  \<open>rnd\<close> rounds a rational to 53 bits, ties to even; a \<open>float64\<close> is
    its bit pattern, every operation is exact arithmetic followed by one rounding, with infinities, NaN, signed zeros
    and the conversions to \<open>int\<close>, \<open>int32\<close> and \<open>int64\<close> of amd64.  The facts are monotonicity of rounding, exactness of small
    values, signs of differences, quotients against one.  The locale \<open>rounding\<close> is the interface the float operations
    use; it is interpreted by the rounding of finite values and by its extension that overflows.
  \<^item> \<open>GoFmt\<close>, \<open>GoTime\<close>: the verbs of \<open>fmt\<close> and \<open>strconv\<close> the code uses, instants and civil dates of \<open>time\<close>.
  \<^item> \<open>Calculator\<close>, \<open>Pricing\<close>: \<open>internal/calculator/calculator.go\<close> and \<open>pricing.go\<close>.
  \<^item> \<open>Bytes\<close>, \<open>SampleStore\<close>, \<open>Sampler\<close>: \<open>internal/utilization/store.go\<close> and \<open>sampler.go\<close>.  The bbolt database is a record of
    operations; the locale \<open>bbolt_db\<close> states its documented laws, \<open>sample_store\<close> what the sampler needs of the
    store, and a sublocale derives the second from the first through the code's own \<open>Append\<close>, \<open>LoadRange\<close> and \<open>Prune\<close>.
  \<^item> \<open>Scraper\<close>: \<open>internal/scraper\<close> (\<open>backend.go\<close>, \<open>llamacpp.go\<close>, \<open>vllm.go\<close>, \<open>dcgm.go\<close>, \<open>metal.go\<close>, \<open>scraper.go\<close>).
  \<^item> \<open>Kube\<close>, \<open>ApiTypes\<close>, \<open>Metrics\<close>: the objects of \<open>api/v1alpha1\<close> as records, the status conditions of the API machinery
    (locale \<open>status_conditions\<close>, interpreted on the documented set and find), API errors, the gauges of
    \<open>internal/metrics/metrics.go\<close> as a map from name and labels to the value last set.
  \<^item> \<open>MemTypes\<close>, \<open>DeepCopy\<close>, \<open>Copiers\<close>, \<open>DeepCopyFacts\<close>: \<open>api/v1alpha1/zz_generated.deepcopy.go\<close> on a heap of cells, where a struct
    holds the addresses of its pointers, maps and slices, the metadata of the library included.  The locale \<open>deep_copier\<close> is the
    contract of a copy, closed under the statements of the generated code and interpreted on every struct; \<open>copy_library\<close> is what the
    copies of the library's types do.  The value of a struct in memory is its record of \<open>ApiTypes\<close>, which all other theories use.
  \<^item> \<open>Report\<close>: \<open>internal/report/message.go\<close>.
  \<^item> \<open>ApiStore\<close>: \<open>internal/api/store.go\<close> and \<open>server.go\<close>; the locale \<open>store_slot\<close> is the contract of one slot of the store,
    interpreted for budgets, namespace costs and break-even rows.
  \<^item> \<open>CtlCommon\<close>: the outcome of a reconcile, the process state, the choice of the pods of a model, the key of the
    sampler, the random order of a map range (locale \<open>map_range\<close>).
  \<^item> \<open>CostPower\<close>, \<open>CostScrape\<close>, \<open>CostProfileCtl\<close>: \<open>internal/controller/costprofile_controller.go\<close>;
    \<open>CostScrapeFacts\<close> and \<open>CostProfileFacts\<close> hold its properties.
  \<^item> \<open>ReportCompute\<close>, \<open>UsageReportCtl\<close>: \<open>internal/controller/usagereport_controller.go\<close>;  \<open>ReportPeriods\<close>,
    \<open>ReportTokens\<close>, \<open>ReportCosts\<close>, \<open>ReportConservation\<close> (the rounding of a share and the sum of the shares),
    \<open>ReportBreakEven\<close> and \<open>UsageReportFacts\<close> hold its properties.
  \<^item> \<open>TokenBudgetCtl\<close>: \<open>internal/controller/tokenbudget_controller.go\<close> with its properties;
    \<open>AlertFacts\<close> compares its Prometheus alerts with the gauges and the status (locale \<open>rule_server\<close>: a written rule is read back).
  \<^item> \<open>Process\<close>: the running manager as a step relation: reconciles of the three controllers in any
    order, each with its own client, endpoints and clock, and quiet steps of the rest of the cluster.
  \<^item> \<open>Requeue\<close>: the three \<open>SetupWithManager\<close> and the work queue of a controller; the locale \<open>status_server\<close> is what the API server
    promises of a status write, \<open>requeuer\<close> and \<open>paced\<close> what the queue needs of a reconcile, interpreted on the three of them.
  \<^item> \<open>StoreHeap\<close>: the budget slot of the API store as slices over arrays, under any interleaving of the store's calls.
  \<^item> \<open>Manager\<close>: \<open>cmd/main.go\<close>, from the flags to the first state of \<open>Process\<close> and from the end of the manager to the exit
    status, with \<open>NewServer\<close>, \<open>Start\<close> and the closing of the store.
  \<^item> \<open>CliDiscovery\<close>, \<open>CliCommands\<close>, \<open>CliFacts\<close>: \<open>pkg/cli\<close>, the discovery of models and the commands \<open>budget\<close>, \<open>compare\<close>,
    \<open>status\<close>, \<open>users\<close> and \<open>version\<close> as functions from what the cluster answers to what they print, with their properties.
  \<^item> \<open>CliRoot\<close>: \<open>cmd/infercost/main.go\<close>, the command tree of \<open>pkg/cli\<close> with its flags, the file the export writes, the exit status,
    and the API group; the locales \<open>cobra\<close> and \<open>file_system\<close> are what the library and the operating system promise.
  \<^item> \<open>GaugeFacts\<close>: the label invariant of the gauges over every step of \<open>Process\<close>.
  \<^item> \<open>Focus\<close>: \<open>internal/focus/focus.go\<close> and the collection of reports and profiles in \<open>pkg/cli/export.go\<close>;
    the locale \<open>slice_sort\<close> is what \<open>sort.Slice\<close> promises.  \<open>ShortestDecimal\<close> is the part of \<open>strconv.FormatFloat\<close> it calls for the rates.
\<close>

text \<open>
  \<^bold>\<open>What the theorems show.\<close>
  \<^item> Process: every reachable state serves coherent answers; the spend of a budget is the share of its namespace in the
    last successful report; a cost reconcile appends exactly its sample, for the reports of its own profile and no other.  These are invariants by
    rule induction over \<open>reachable\<close>, from one effect lemma per controller.
  \<^item> Controllers: one reconcile publishes one consistent set of numbers or leaves the store alone: the statements name every
    gauge, every field of the status and of the rows of the store, and the error paths
    (failed client call, failed status write, panic) are values of the outcome and appear in them.
  \<^item> Sampler and store: the persisted store refines a time-ordered list of samples, a restarted sampler has the
    samples of the one that kept running that are inside the retention, and answers as that one except at the edge where an
    expired sample is still in force (\<open>restart_edge\<close>); each nanosecond of a window is credited once, to the sample in force.
  \<^item> Deep copies: a copied object has the value of the original and shares no cell with it, so a reconcile may change the
    object it was handed and the cache keeps its own: values need no aliasing in the other theories.
  \<^item> Scheduling: every object is queued or has a timer; a report keeps its interval, a profile and a budget wake themselves
    whenever a run changes what is stored, where times are in whole seconds.
  \<^item> Costs and tokens: bounds of every share, conservation of the cost up to rounding, exactness of token sums on wrapping 64-bit integers, survival of
    counter resets, independence of map iteration order, verdicts of comparisons with list prices.
  \<^item> Start and command line: a start that gets through is a first state of the process with a validated catalog; the command line
    shows the budget rows of the API (with every whole number as zero) and the comparison of the calculator, counts llama.cpp pods only,
    and writes no file but its export.
  \<^item> Formats: round trips of the database keys and values, of period labels, of the CSV text, of the rates in its columns; the
    export does not depend on the order of a listing, as long as profiles of one name are one profile; equivalence of the
    status comparison with multiset equality, of catalog validation with its declarative reading.

  \<^bold>\<open>Bounds and fuel.\<close>  Integers are words of the Go width where the code can wrap, floats are bit-exact.  Loops are
  structural recursions over the list they range over.  The only fuel is in \<open>fmt_shortest\<close> (1400 steps): a
  binary64 value has at most 309 digits before the point and 1074 after it, so the search for the shortest decimal that
  reads back ends before the fuel does (\<open>shortest_reads_back\<close>).  Strings are byte lists with ASCII content, so \<open>strings.ToLower\<close> is the ASCII
  mapping.  One reconcile is one atomic step: controller-runtime runs one reconcile of a controller at a time, and the
  shared stores lock each call.  An interleaving inside two reconciles of different controllers is not a step of \<open>Process\<close>;
  for the one slot that is read, changed and written back, \<open>StoreHeap\<close> shows that it could not be told from atomic steps.

  \<^bold>\<open>Arguments of the model.\<close>  Kubernetes (the client's reads and writes and their errors), the HTTP endpoints and the Prometheus
  and YAML parsers, the clock, the zone data, the map iteration order, \<open>sort.Slice\<close>, cobra, the files and the bbolt database are not in the
  repository: they are arguments of the definitions, and what a theorem needs of them is a hypothesis or a locale.

  \<^bold>\<open>Not modelled.\<close>  The HTTP listener and the signals (I/O); the
  registration of the gauges and of the scheme (wiring of libraries, whose errors \<open>Manager\<close> takes as arguments); the owners and
  the managed fields of the metadata in \<open>MemTypes\<close>; the text of a JSON answer (\<open>writeJSON\<close> has the value that is encoded, or none
  when a float in it is not finite); an error of the deferred close of the exported file, which \<open>exportFocus\<close> drops; the parsing of the flags by \<open>flag\<close> and cobra, the
  alignment of columns by \<open>tabwriter\<close>, logging.
\<close>

end
